(* ===== verification/Prelude.thy ===== *)
theory Prelude
  imports Main "HOL-Library.Word" "HOL-Library.AList" "HOL-Library.Monad_Syntax" "HOL-Library.Sublist"
begin

text \<open>
  Shared vocabulary of the oeAware development.

  \<^item> Undefined behaviour of the C++ code (a null dereference, an index out of range, an
    exception nobody catches) is the value \<open>None\<close> of an \<open>option\<close>; the errors the
    program reports itself are values of its own types (\<open>Result\<close>, \<open>ErrorCode\<close>).
  \<^item> C and C++ strings are lists of bytes (\<open>string\<close>); a \<open>char *\<close> ends at its first NUL.
  \<^item> Integers that are serialized keep their width as words; clocks and counters are
    natural numbers with the wrap-around written out.
  \<^item> \<open>std::unordered_map\<close> is an association list with distinct keys; the order of the
    list stands for the unspecified iteration order.
\<close>

named_theorems ser_rt \<open>round trips of the serializers\<close>
named_theorems str_simps \<open>C++ string operations\<close>
named_theorems store_simps \<open>lookups after an update of a store\<close>

type_synonym c_int = "32 word"
type_synonym c_uint = "32 word"
type_synonym c_ulong = "64 word"
type_synonym u64 = "64 word"

subsection \<open>Checked access\<close>

text \<open>Reading an array or a vector at an index: out of range is undefined behaviour.\<close>

definition nth_opt :: "'a list \<Rightarrow> nat \<Rightarrow> 'a option" where
  "nth_opt xs i = (if i < length xs then Some (xs ! i) else None)"

lemma nth_opt_simps [simp]:
  "nth_opt [] i = None"
  "nth_opt (x # xs) 0 = Some x"
  "nth_opt (x # xs) (Suc i) = nth_opt xs i"
  "nth_opt (x # xs) (numeral k) = nth_opt xs (pred_numeral k)"
  by (simp_all add: nth_opt_def numeral_eq_Suc)

lemma nth_opt_Some_iff: "nth_opt xs i = Some x \<longleftrightarrow> i < length xs \<and> xs ! i = x"
  by (auto simp: nth_opt_def)

lemma nth_opt_map [simp]: "nth_opt (map f xs) i = map_option f (nth_opt xs i)"
  by (simp add: nth_opt_def)

subsection \<open>C strings\<close>

definition NUL :: char where
  "NUL = CHR 0x00"

text \<open>\<open>std::string(const char*)\<close> and \<open>strlen\<close> stop at the first NUL byte.\<close>

definition cstr :: "string \<Rightarrow> string" where
  "cstr s = takeWhile (\<lambda>c. c \<noteq> NUL) s"

lemma cstr_id [simp]: "NUL \<notin> set s \<Longrightarrow> cstr s = s"
  by (auto simp: cstr_def takeWhile_eq_all_conv)

lemma cstr_no_NUL [simp]: "NUL \<notin> set (cstr s)"
  by (auto simp: cstr_def dest: set_takeWhileD)

lemma length_cstr: "length (cstr s) \<le> length s"
  by (simp add: cstr_def length_takeWhile_le)

lemma cstr_idem [simp]: "cstr (cstr s) = cstr s"
  by simp

text \<open>
  \<open>strcpy_s(dest, destMax, src)\<close> of C11 Annex K, with \<open>RSIZE_MAX\<close> at its recommended value
  \<open>SIZE_MAX\<close>: the copied string and the error code, nonzero when the string with its
  terminator does not fit.
\<close>

definition strcpy_s :: "nat \<Rightarrow> string \<Rightarrow> int \<times> string" where
  "strcpy_s destMax src =
     (if length (cstr src) < destMax then (0, cstr src) else (34, []))"

lemma strcpy_s_fits: "length s < n \<Longrightarrow> strcpy_s n s = (0, cstr s)"
  using length_cstr [of s] by (simp add: strcpy_s_def)

lemma strcpy_s_self [simp]: "strcpy_s (length s + 1) s = (0, cstr s)"
  "strcpy_s (Suc (length s)) s = (0, cstr s)"
  by (simp_all add: strcpy_s_fits)

subsection \<open>Little-endian bytes\<close>

fun le_enc :: "nat \<Rightarrow> nat \<Rightarrow> string" where
  "le_enc 0 x = []"
| "le_enc (Suc n) x = char_of (x mod 256) # le_enc n (x div 256)"

fun le_dec :: "string \<Rightarrow> nat" where
  "le_dec [] = 0"
| "le_dec (c # cs) = of_char c + 256 * le_dec cs"

lemma length_le_enc [simp]: "length (le_enc n x) = n"
  by (induction n arbitrary: x) auto

lemma le_dec_enc_mod: "le_dec (le_enc n x) = x mod 256 ^ n"
proof (induction n arbitrary: x)
  case 0
  then show ?case by simp
next
  case (Suc n)
  have "x mod 256 ^ Suc n = x mod 256 + 256 * (x div 256 mod 256 ^ n)"
    by (simp add: mod_mult2_eq)
  with Suc show ?case by simp
qed

lemma le_dec_bound: "le_dec cs < 256 ^ length cs"
proof (induction cs)
  case Nil
  then show ?case by simp
next
  case (Cons c cs)
  have "of_char c < (256::nat)"
    by (rule nat_of_char_less_256)
  with Cons have "of_char c + 256 * le_dec cs < 256 * 256 ^ length cs"
    by linarith
  then show ?case by simp
qed

lemma le_enc_dec [simp]: "le_enc (length cs) (le_dec cs) = cs"
proof (induction cs)
  case Nil
  then show ?case by simp
next
  case (Cons c cs)
  have "of_char c < (256::nat)"
    by (rule nat_of_char_less_256)
  then have "(of_char c + 256 * le_dec cs) mod 256 = (of_char c :: nat)"
    and "(of_char c + 256 * le_dec cs) div 256 = le_dec cs"
    by simp_all
  with Cons show ?case
    by (simp add: char_of_eq_iff)
qed

subsection \<open>Unsigned 64-bit arithmetic on natural numbers\<close>

text \<open>A signed \<open>int\<close> added to a \<open>uint64_t\<close> is converted modulo \<open>2 ^ 64\<close> first.\<close>

definition u64_add :: "nat \<Rightarrow> int \<Rightarrow> nat" where
  "u64_add t d = nat ((int t + d) mod 2 ^ 64)"

lemma u64_add_small: "0 \<le> d \<Longrightarrow> int t + d < 2 ^ 64 \<Longrightarrow> u64_add t d = t + nat d"
  by (simp add: u64_add_def nat_add_distrib)

lemma u64_add_bound: "u64_add t d < 2 ^ 64"
proof -
  have "(int t + d) mod 2 ^ 64 < 2 ^ 64"
    by (rule pos_mod_bound) simp
  then have "nat ((int t + d) mod 2 ^ 64) < nat (2 ^ 64)"
    by (rule nat_mono_iff [THEN iffD2, rotated]) simp
  then show ?thesis
    unfolding u64_add_def by simp
qed

lemma unat_u64: "n < 2 ^ 64 \<Longrightarrow> unat (word_of_nat n :: u64) = n"
  by (simp add: unat_of_nat)

subsection \<open>Maps as association lists\<close>

text \<open>\<open>unordered_map::insert\<close> keeps an entry that is already there.\<close>

definition al_insert :: "'k \<Rightarrow> 'v \<Rightarrow> ('k \<times> 'v) list \<Rightarrow> ('k \<times> 'v) list" where
  "al_insert k v m = (if map_of m k = None then m @ [(k, v)] else m)"

text \<open>\<open>operator[]\<close> default-constructs a missing value.\<close>

definition al_get :: "'v \<Rightarrow> ('k \<times> 'v) list \<Rightarrow> 'k \<Rightarrow> 'v" where
  "al_get d m k = (case map_of m k of Some v \<Rightarrow> v | None \<Rightarrow> d)"

definition al_count :: "('k \<times> 'v) list \<Rightarrow> 'k \<Rightarrow> bool" where
  "al_count m k = (map_of m k \<noteq> None)"

lemma map_of_al_insert [store_simps]:
  "map_of (al_insert k v m) = (if map_of m k = None then (map_of m)(k \<mapsto> v) else map_of m)"
  by (auto simp: al_insert_def map_add_def fun_eq_iff split: option.splits)

lemma map_of_al_update [store_simps]: "map_of (AList.update k v m) = (map_of m)(k \<mapsto> v)"
  by (simp add: update_conv')

lemma map_of_al_delete [store_simps]: "map_of (AList.delete k m) = (map_of m)(k := None)"
  by (simp add: delete_conv')

lemma distinct_al_insert [simp]:
  "distinct (map fst m) \<Longrightarrow> distinct (map fst (al_insert k v m))"
  by (auto simp: al_insert_def map_of_eq_None_iff)

lemma al_count_iff: "al_count m k \<longleftrightarrow> k \<in> fst ` set m"
  by (auto simp: al_count_def map_of_eq_None_iff)

lemma set_update_subset: "set (AList.update i p m) \<subseteq> insert (i, p) (set m)"
  by (induction m) auto

lemma al_get_update [simp]: "al_get d (AList.update k v m) k' = (if k' = k then v else al_get d m k')"
  by (simp add: al_get_def update_conv')

lemma al_count_update [simp]: "al_count (AList.update k v m) k' \<longleftrightarrow> k' = k \<or> al_count m k'"
  by (simp add: al_count_def update_conv')

subsection \<open>Loops that may not end\<close>

text \<open>
  A loop of the program is the least solution of its unfolding: a result is reached by
  finitely many turns, and not returning is \<open>None\<close>. Invariants of the results come from the
  first law of the contract by induction over the turns; that the loop returns is proved
  with a measure.
\<close>

locale option_loop =
  fixes turn :: "'s \<Rightarrow> (bool \<times> 's) option"
    and loop :: "'s \<Rightarrow> 's option"
  assumes unfold_loop: "loop s = turn s \<bind> (\<lambda>(go, s1). if go then loop s1 else Some s1)"
    and loop_induct: "(\<And>s s1. turn s = Some (False, s1) \<Longrightarrow> P s s1) \<Longrightarrow>
      (\<And>s s1 s2. turn s = Some (True, s1) \<Longrightarrow> P s1 s2 \<Longrightarrow> P s s2) \<Longrightarrow> loop s = Some s2 \<Longrightarrow> P s s2"
begin

lemma loop_keeps:
  assumes "loop s = Some s'" "I s" "\<And>s go s1. I s \<Longrightarrow> turn s = Some (go, s1) \<Longrightarrow> I s1"
  shows "I s'"
proof -
  have "I s \<longrightarrow> I s'"
    using assms(3) by (rule_tac loop_induct [OF _ _ assms(1)]) blast+
  with assms(2) show ?thesis by blast
qed

lemma loop_relates:
  assumes "loop s = Some s'" "\<And>s. R s s" "\<And>a b c. R a b \<Longrightarrow> R b c \<Longrightarrow> R a c"
    and "\<And>s go s1. turn s = Some (go, s1) \<Longrightarrow> R s s1"
  shows "R s s'"
  using assms(3,4) by (rule_tac loop_induct [OF _ _ assms(1)]) blast+

lemma loop_returns:
  assumes "I s" and turn: "\<And>s. I s \<Longrightarrow>
      \<exists>go s1. turn s = Some (go, s1) \<and> (if go then I s1 \<and> m s1 < (m s :: nat) else Q s1)"
  shows "\<exists>s'. loop s = Some s' \<and> Q s'"
  using assms(1)
proof (induction "m s" arbitrary: s rule: less_induct)
  case less
  obtain go s1 where t: "turn s = Some (go, s1)" "if go then I s1 \<and> m s1 < m s else Q s1"
    using turn [OF less.prems] by blast
  then show ?case
    using less.hyps [of s1] by (cases go) (auto simp: unfold_loop [of s])
qed

lemma loop_diverges:
  assumes "I s" "\<And>s. I s \<Longrightarrow> \<exists>s1. turn s = Some (True, s1) \<and> I s1"
  shows "loop s = None"
proof (rule ccontr)
  assume "loop s \<noteq> None"
  then obtain s' where "loop s = Some s'" by blast
  then have "I s \<longrightarrow> False"
  proof (rule loop_induct [rotated -1])
    show "turn s = Some (False, s1) \<Longrightarrow> I s \<longrightarrow> False" for s s1
      using assms(2) [of s] by auto
    show "turn s = Some (True, s1) \<Longrightarrow> I s1 \<longrightarrow> False \<Longrightarrow> I s \<longrightarrow> False" for s s1
      using assms(2) [of s] by auto
  qed
  with assms(1) show False by blast
qed

end

end
