(* ===== verification/Utils.thy ===== *)
theory Utils
  imports Prelude
begin

text \<open>
  The string, number and file helpers of \<^verbatim>\<open>src/common/utils.cpp\<close>. \<open>std::regex\<close> is used there
  only with literal separators, so \<open>SplitString\<close> is modelled on literal text: the tokens
  of \<open>sregex_token_iterator\<close> with index -1 are the pieces before each leftmost match and
  the piece after the last match when it is not empty; a text without a match is its own
  only token. System calls (\<open>lstat\<close>, \<open>stat\<close>, \<open>opendir\<close>) are arguments.
\<close>

subsection \<open>Searching\<close>

fun find_sub :: "string \<Rightarrow> string \<Rightarrow> nat option" where
  "find_sub pat [] = (if pat = [] then Some 0 else None)"
| "find_sub pat (c # cs) =
     (if prefix pat (c # cs) then Some 0 else map_option Suc (find_sub pat cs))"

text \<open>\<open>std::string::find(target, pos)\<close>; \<open>npos\<close> is \<open>None\<close>.\<close>

definition str_find :: "string \<Rightarrow> string \<Rightarrow> nat \<Rightarrow> nat option" where
  "str_find s pat pos =
     (if length s < pos then None else map_option ((+) pos) (find_sub pat (drop pos s)))"

lemma find_sub_Some:
  "find_sub pat s = Some i \<Longrightarrow> i + length pat \<le> length s \<and> s = take i s @ pat @ drop (i + length pat) s"
proof (induction s arbitrary: i)
  case Nil
  then show ?case by (auto split: if_splits)
next
  case (Cons c cs)
  show ?case
  proof (cases "prefix pat (c # cs)")
    case True
    with Cons.prems have i: "i = 0" by simp
    from True obtain zs where zs: "c # cs = pat @ zs" by (auto simp: prefix_def)
    show ?thesis unfolding i zs by simp
  next
    case False
    with Cons.prems obtain j where j: "find_sub pat cs = Some j" and i: "i = Suc j" by auto
    from Cons.IH [OF j] i show ?thesis by simp
  qed
qed

lemma find_sub_None_iff: "find_sub pat s = None \<longleftrightarrow> \<not> (\<exists>x y. s = x @ pat @ y)"
proof
  show "find_sub pat s = None \<Longrightarrow> \<not> (\<exists>x y. s = x @ pat @ y)"
  proof (induction s)
    case Nil
    then show ?case by (auto split: if_splits)
  next
    case (Cons c cs)
    then have np: "\<not> prefix pat (c # cs)" and IH: "\<not> (\<exists>x y. cs = x @ pat @ y)"
      by (auto split: if_splits)
    show ?case
    proof
      assume "\<exists>x y. c # cs = x @ pat @ y"
      then obtain x y where xy: "c # cs = x @ pat @ y" by blast
      show False
      proof (cases x)
        case Nil
        with xy np show False by (auto simp: prefix_def)
      next
        case (Cons d ds)
        with xy IH show False by auto
      qed
    qed
  qed
next
  assume no: "\<not> (\<exists>x y. s = x @ pat @ y)"
  show "find_sub pat s = None"
  proof (cases "find_sub pat s")
    case None
    then show ?thesis .
  next
    case (Some i)
    from find_sub_Some [OF this] no show ?thesis by blast
  qed
qed

lemma find_sub_le:
  "s = x @ pat @ y \<Longrightarrow> \<exists>i. find_sub pat s = Some i \<and> i \<le> length x"
proof (induction s arbitrary: x)
  case Nil
  then show ?case by simp
next
  case (Cons c cs)
  show ?case
  proof (cases x)
    case Nil
    with Cons.prems have "prefix pat (c # cs)" by (metis append_Nil prefixI)
    then show ?thesis by simp
  next
    case (Cons d ds)
    with Cons.prems have "cs = ds @ pat @ y" by simp
    from Cons.IH [OF this] show ?thesis using Cons by auto
  qed
qed

text \<open>A separator whose first character does not occur before it is found where it stands.\<close>

lemma find_sub_sep [str_simps]: "p \<notin> set x \<Longrightarrow> find_sub (p # ps) (x @ p # ps @ y) = Some (length x)"
proof (induction x)
  case Nil
  then show ?case by (auto simp: prefix_def)
next
  case (Cons c cs)
  then have "\<not> prefix (p # ps) ((c # cs) @ p # ps @ y)"
    by (auto simp: prefix_def)
  with Cons show ?case by simp
qed

subsection \<open>EndWith, Concat, SplitString\<close>

definition EndWith :: "string \<Rightarrow> string \<Rightarrow> bool" where
  "EndWith s ending =
     (if length ending \<le> length s then drop (length s - length ending) s = ending else False)"

fun Concat :: "string list \<Rightarrow> string \<Rightarrow> string" where
  "Concat [] split = []"
| "Concat [s] split = s"
| "Concat (s # ss) split = s @ split @ Concat ss split"

function split_rest :: "string \<Rightarrow> string \<Rightarrow> string list" where
  "split_rest split str =
     (if split = [] then []
      else case find_sub split str of
        None \<Rightarrow> (if str = [] then [] else [str])
      | Some i \<Rightarrow> take i str # split_rest split (drop (i + length split) str))"
  by pat_completeness auto
termination
proof (relation "measure (\<lambda>(p, s). length s)", goal_cases)
  case 1
  then show ?case by simp
next
  case (2 split str i)
  from find_sub_Some [OF 2(2)] have "i + length split \<le> length str" by simp
  with 2(1) show ?case by (cases split) auto
qed

declare split_rest.simps [simp del]

text \<open>The empty pattern matches at every position.\<close>

definition SplitString :: "string \<Rightarrow> string \<Rightarrow> string list" where
  "SplitString str split =
     (if split = [] then (if str = [] then [[]] else [] # map (\<lambda>c. [c]) str)
      else if find_sub split str = None then [str] else split_rest split str)"

lemma EndWith_iff: "EndWith s ending \<longleftrightarrow> suffix ending s"
proof
  assume "EndWith s ending"
  then have "drop (length s - length ending) s = ending"
    by (simp add: EndWith_def split: if_splits)
  then have "take (length s - length ending) s @ ending = s"
    using append_take_drop_id [of "length s - length ending" s] by simp
  then show "suffix ending s" by (metis suffixI)
next
  assume "suffix ending s"
  then obtain x where "s = x @ ending" by (auto simp: suffix_def)
  then show "EndWith s ending" by (simp add: EndWith_def)
qed

lemma split_rest_step [str_simps]:
  "p \<notin> set x \<Longrightarrow> split_rest (p # ps) (x @ p # ps @ y) = x # split_rest (p # ps) y"
  by (subst split_rest.simps) (simp add: find_sub_sep)

lemma split_rest_last [str_simps]:
  "find_sub pat x = None \<Longrightarrow> pat \<noteq> [] \<Longrightarrow> split_rest pat x = (if x = [] then [] else [x])"
  by (subst split_rest.simps) simp

lemma split_rest_two:
  assumes "pat \<noteq> []" "s = x @ pat @ y @ pat @ z"
  shows "2 \<le> length (split_rest pat s)"
proof -
  obtain i where i: "find_sub pat s = Some i" "i \<le> length x"
    using find_sub_le [of s x pat "y @ pat @ z"] assms by auto
  let ?r = "drop (i + length pat) s"
  have "\<exists>w. ?r = w @ y @ pat @ z"
  proof -
    have "?r = drop (i + length pat) ((x @ pat) @ y @ pat @ z)" using assms by simp
    also have "\<dots> = drop (i + length pat) (x @ pat) @ y @ pat @ z"
      using i by (subst drop_append) simp
    finally show ?thesis by blast
  qed
  then obtain w where r: "?r = (w @ y) @ pat @ z" by auto
  then have "find_sub pat ?r \<noteq> None" by (metis find_sub_None_iff)
  then obtain j where "find_sub pat ?r = Some j" by blast
  then have "1 \<le> length (split_rest pat ?r)"
    using assms(1) by (subst split_rest.simps) simp
  then show ?thesis
    using i assms(1) by (subst split_rest.simps) simp
qed

subsection \<open>ReplaceString\<close>

text \<open>The loop keeps the position after the last replacement; it may run forever.\<close>

partial_function (option) replace_loop :: "string \<Rightarrow> string \<Rightarrow> string \<Rightarrow> nat \<Rightarrow> string option" where
  "replace_loop target replacement result pos =
     (case str_find result target pos of
        None \<Rightarrow> Some result
      | Some p \<Rightarrow> replace_loop target replacement
                  (take p result @ replacement @ drop (p + length target) result)
                  (p + length replacement))"

definition ReplaceString :: "string \<Rightarrow> string \<Rightarrow> string \<Rightarrow> string option" where
  "ReplaceString input target replacement = replace_loop target replacement input 0"

text \<open>Reference: the pieces between the leftmost occurrences, joined by the replacement.\<close>

function subst_all :: "string \<Rightarrow> string \<Rightarrow> string \<Rightarrow> string" where
  "subst_all target replacement s =
     (if target = [] then s
      else case find_sub target s of
        None \<Rightarrow> s
      | Some i \<Rightarrow> take i s @ replacement @ subst_all target replacement (drop (i + length target) s))"
  by pat_completeness auto
termination
proof (relation "measure (\<lambda>(t, r, s). length s)", goal_cases)
  case 1
  then show ?case by simp
next
  case (2 target replacement s i)
  from find_sub_Some [OF 2(2)] have "i + length target \<le> length s" by simp
  with 2(1) show ?case by (cases target) auto
qed

declare subst_all.simps [simp del]

lemma str_find_append:
  "str_find (done @ s) target (length done) = map_option ((+) (length done)) (find_sub target s)"
  by (simp add: str_find_def)

lemma replace_loop_subst_all:
  "target \<noteq> [] \<Longrightarrow>
   replace_loop target r (done @ s) (length done) = Some (done @ subst_all target r s)"
proof (induction target r s arbitrary: "done" rule: subst_all.induct)
  case (1 target r s)
  show ?case
  proof (cases "find_sub target s")
    case None
    then show ?thesis
      by (subst replace_loop.simps) (simp add: str_find_append subst_all.simps [of target r s])
  next
    case (Some i)
    let ?s' = "drop (i + length target) s"
    let ?d' = "done @ take i s @ r"
    have len: "length done + i + length r = length ?d'"
      using find_sub_Some [OF Some] by simp
    have step: "take (length done + i) (done @ s) @ r @ drop (length done + i + length target) (done @ s)
        = ?d' @ ?s'"
      by (simp add: add.assoc)
    have IH: "replace_loop target r (?d' @ ?s') (length ?d') = Some (?d' @ subst_all target r ?s')"
      using 1 Some by blast
    show ?thesis
      using 1(2) Some IH
      by (subst replace_loop.simps)
         (simp add: str_find_append subst_all.simps [of target r s] step len del: length_append
           flip: add.assoc)
  qed
qed

lemma find_sub_Nil [simp]: "find_sub [] s = Some 0"
  by (cases s) simp_all

lemma replace_loop_empty: "replace_loop [] r s pos = Some out \<Longrightarrow> pos \<le> length s \<Longrightarrow> False"
proof -
  assume ret: "replace_loop [] r s pos = Some out" and le: "pos \<le> length s"
  have "[] = ([]::string) \<longrightarrow> \<not> pos \<le> length s"
  proof (rule replace_loop.raw_induct [where P = "\<lambda>t r s p out. t = [] \<longrightarrow> \<not> p \<le> length s", OF _ ret])
    fix f :: "string \<Rightarrow> string \<Rightarrow> string \<Rightarrow> nat \<Rightarrow> string option" and t r s p out
    assume IH: "\<And>t r s p out. f t r s p = Some out \<Longrightarrow> t = [] \<longrightarrow> \<not> p \<le> length s"
      and eq: "(case str_find s t p of None \<Rightarrow> Some s
         | Some q \<Rightarrow> f t r (take q s @ r @ drop (q + length t) s) (q + length r)) = Some out"
    show "t = [] \<longrightarrow> \<not> p \<le> length s"
    proof (intro impI notI)
      assume t: "t = []" and p: "p \<le> length s"
      then have "str_find s t p = Some p" by (simp add: str_find_def)
      with eq t have "f [] r (take p s @ r @ drop p s) (p + length r) = Some out" by simp
      from IH [OF this] p show False by simp
    qed
  qed
  with le show False by simp
qed

subsection \<open>Splitting at a character: std::getline\<close>

function getlines :: "char \<Rightarrow> string \<Rightarrow> string list" where
  "getlines d s =
     (if s = [] then []
      else takeWhile (\<lambda>c. c \<noteq> d) s #
           (case dropWhile (\<lambda>c. c \<noteq> d) s of [] \<Rightarrow> [] | _ # r \<Rightarrow> getlines d r))"
  by pat_completeness auto
termination
proof (relation "measure (\<lambda>(d, s). length s)", goal_cases)
  case 1
  then show ?case by simp
next
  case (2 d s c r)
  then have "length r < length (dropWhile (\<lambda>c. c \<noteq> d) s)" by simp
  also have "\<dots> \<le> length s" by (rule length_dropWhile_le)
  finally show ?case by simp
qed

declare getlines.simps [simp del]

lemma getlines_Nil [simp]: "getlines d [] = []"
  by (simp add: getlines.simps)

lemma takeWhile_stop: "d \<notin> set x \<Longrightarrow> takeWhile (\<lambda>c. c \<noteq> d) (x @ d # y) = x"
  by (induction x) auto

lemma dropWhile_stop: "d \<notin> set x \<Longrightarrow> dropWhile (\<lambda>c. c \<noteq> d) (x @ d # y) = d # y"
  by (induction x) auto

lemma takeWhile_id: "d \<notin> set x \<Longrightarrow> takeWhile (\<lambda>c. c \<noteq> d) x = x"
  by (simp add: takeWhile_eq_all_conv) blast

lemma dropWhile_none: "d \<notin> set x \<Longrightarrow> dropWhile (\<lambda>c. c \<noteq> d) x = []"
  by (simp add: dropWhile_eq_Nil_conv) blast

lemma getlines_step [str_simps]: "d \<notin> set x \<Longrightarrow> getlines d (x @ d # y) = x # getlines d y"
  by (subst getlines.simps) (simp add: takeWhile_stop dropWhile_stop)

lemma getlines_last [str_simps]: "d \<notin> set x \<Longrightarrow> getlines d x = (if x = [] then [] else [x])"
  by (subst getlines.simps) (simp add: takeWhile_id dropWhile_none)

text \<open>Joining lines and reading them back, when the last one is not empty.\<close>

lemma getlines_Concat:
  "\<forall>x \<in> set xs. d \<notin> set x \<Longrightarrow> xs \<noteq> [] \<Longrightarrow> last xs \<noteq> [] \<Longrightarrow> getlines d (Concat xs [d]) = xs"
proof (induction xs "[d]" rule: Concat.induct)
  case 1
  then show ?case by simp
next
  case (2 s)
  then show ?case by (simp add: getlines_last)
next
  case (3 s v va)
  then show ?case by (simp add: getlines_step)
qed

subsection \<open>GetKeyValueFromString\<close>

definition kv_add :: "(string \<times> string) list \<Rightarrow> string \<Rightarrow> (string \<times> string) list" where
  "kv_add result pair =
     (case str_find pair '':'' 0 of
        None \<Rightarrow> result
      | Some pos \<Rightarrow> AList.update (take pos pair) (drop (pos + 1) pair) result)"

definition GetKeyValueFromString :: "string \<Rightarrow> (string \<times> string) list" where
  "GetKeyValueFromString params = foldl kv_add [] (getlines CHR '','' params)"

definition kv_render :: "string \<times> string \<Rightarrow> string" where
  "kv_render kv = fst kv @ '':'' @ snd kv"

lemma kv_add_render: "CHR '':'' \<notin> set (fst kv) \<Longrightarrow>
   kv_add m (kv_render kv) = AList.update (fst kv) (snd kv) m"
  using find_sub_sep [of "CHR '':''" "fst kv" "[]" "snd kv"]
  by (simp add: kv_add_def kv_render_def str_find_def)

lemma foldl_kv_add:
  "\<forall>kv \<in> set kvs. CHR '':'' \<notin> set (fst kv) \<Longrightarrow>
   map_of (foldl kv_add m (map kv_render kvs)) = map_of m ++ map_of (rev kvs)"
proof (induction kvs arbitrary: m)
  case Nil
  then show ?case by simp
next
  case (Cons kv kvs)
  then show ?case
    by (simp add: kv_add_render store_simps)
qed

subsection \<open>Decimal numbers\<close>

definition isdigit :: "char \<Rightarrow> bool" where
  "isdigit c = (48 \<le> (of_char c :: nat) \<and> (of_char c :: nat) \<le> 57)"

definition isspace :: "char \<Rightarrow> bool" where
  "isspace c = ((of_char c :: nat) = 32 \<or> (9 \<le> (of_char c :: nat) \<and> (of_char c :: nat) \<le> 13))"

definition digit_char :: "nat \<Rightarrow> char" where
  "digit_char d = char_of (48 + d)"

fun digits10 :: "nat \<Rightarrow> string" where
  "digits10 n = (if n < 10 then [digit_char n] else digits10 (n div 10) @ [digit_char (n mod 10)])"

declare digits10.simps [simp del]

text \<open>\<open>std::to_string(int)\<close>.\<close>

definition to_string :: "int \<Rightarrow> string" where
  "to_string i = (if i < 0 then CHR ''-'' # digits10 (nat (- i)) else digits10 (nat i))"

definition dec_value :: "string \<Rightarrow> nat" where
  "dec_value s = foldl (\<lambda>a c. 10 * a + (of_char c - 48)) 0 s"

definition skip_sign :: "string \<Rightarrow> bool \<times> string" where
  "skip_sign s = (case s of
       [] \<Rightarrow> (False, [])
     | c # cs \<Rightarrow> if c = CHR ''-'' then (True, cs) else if c = CHR ''+'' then (False, cs) else (False, s))"

text \<open>
  \<open>strtol\<close> in base 10: blanks, a sign, digits; \<open>None\<close> when there is no digit. \<open>std::stoi\<close>
  throws without a digit and outside the range of \<open>int\<close>; \<open>atoi\<close> is 0 without a digit.
\<close>

definition strtol10 :: "string \<Rightarrow> int option" where
  "strtol10 s =
     (let (neg, t) = skip_sign (dropWhile isspace s); ds = takeWhile isdigit t in
      if ds = [] then None
      else Some (if neg then - int (dec_value ds) else int (dec_value ds)))"

definition stoi :: "string \<Rightarrow> int option" where
  "stoi s = (case strtol10 s of None \<Rightarrow> None
      | Some v \<Rightarrow> if - (2 ^ 31) \<le> v \<and> v < 2 ^ 31 then Some v else None)"

definition atoi :: "string \<Rightarrow> int" where
  "atoi s = (case strtol10 s of None \<Rightarrow> 0 | Some v \<Rightarrow> v)"

lemma of_char_digit [simp]: "d < 10 \<Longrightarrow> of_char (digit_char d) = 48 + d"
  by (simp add: digit_char_def)

lemma isdigit_digit [simp]: "d < 10 \<Longrightarrow> isdigit (digit_char d)"
  by (simp add: isdigit_def)

lemma digits10_isdigit: "c \<in> set (digits10 n) \<Longrightarrow> isdigit c"
proof (induction n rule: digits10.induct)
  case (1 n)
  then show ?case by (subst (asm) (2) digits10.simps) (auto split: if_splits)
qed

lemma digits10_not_Nil [simp]: "digits10 n \<noteq> []"
  by (subst digits10.simps) simp

lemma dec_value_append [simp]: "dec_value (s @ [c]) = 10 * dec_value s + (of_char c - 48)"
  by (simp add: dec_value_def)

lemma dec_value_digits10 [simp]: "dec_value (digits10 n) = n"
proof (induction n rule: digits10.induct)
  case (1 n)
  show ?case
  proof (cases "n < 10")
    case True
    then show ?thesis by (subst digits10.simps) (simp add: dec_value_def)
  next
    case False
    with 1 show ?thesis by (subst digits10.simps) simp
  qed
qed

lemma isdigit_not_special:
  "isdigit c \<Longrightarrow> \<not> isspace c \<and> c \<noteq> CHR ''-'' \<and> c \<noteq> CHR ''+'' \<and> c \<noteq> CHR '','' \<and> c \<noteq> CHR '':''
     \<and> c \<noteq> CHR ''/''"
  by (auto simp: isdigit_def isspace_def)

lemma digits10_head:
  obtains c cs where "digits10 n = c # cs" "isdigit c"
  by (metis digits10_not_Nil digits10_isdigit list.exhaust list.set_intros(1))

lemma takeWhile_digits10: "takeWhile isdigit (digits10 n) = digits10 n"
  by (simp add: takeWhile_eq_all_conv digits10_isdigit)

lemma strtol10_digits10 [simp]: "strtol10 (digits10 n) = Some (int n)"
proof -
  obtain c cs where c: "digits10 n = c # cs" "isdigit c" by (rule digits10_head)
  then have "dropWhile isspace (digits10 n) = digits10 n" "skip_sign (digits10 n) = (False, digits10 n)"
    using isdigit_not_special [of c] by (auto simp: skip_sign_def)
  then show ?thesis by (simp add: strtol10_def takeWhile_digits10)
qed

lemma strtol10_to_string [simp]: "strtol10 (to_string i) = Some i"
proof (cases "i < 0")
  case True
  have sp: "\<not> isspace CHR ''-''" by (simp add: isspace_def)
  with True show ?thesis
    by (simp add: to_string_def strtol10_def skip_sign_def takeWhile_digits10)
next
  case False
  then show ?thesis by (simp add: to_string_def)
qed

lemma atoi_to_string [simp]: "atoi (to_string i) = i"
  by (simp add: atoi_def)

lemma stoi_to_string: "stoi (to_string i) = (if - (2 ^ 31) \<le> i \<and> i < 2 ^ 31 then Some i else None)"
  by (simp add: stoi_def)

lemma to_string_any_isdigit [simp]: "list_ex isdigit (to_string i)"
proof -
  obtain c cs where "digits10 (nat i) = c # cs" "isdigit c" by (rule digits10_head)
  moreover obtain d ds where "digits10 (nat (- i)) = d # ds" "isdigit d" by (rule digits10_head)
  ultimately show ?thesis by (simp add: to_string_def)
qed

subsection \<open>IsNum, IsInteger\<close>

definition IsInteger :: "string \<Rightarrow> bool" where
  "IsInteger s = (let t = snd (skip_sign s) in t \<noteq> [] \<and> list_all isdigit t)"

definition IsNum :: "string \<Rightarrow> bool" where
  "IsNum s =
     (let t = snd (skip_sign s); r = dropWhile isdigit t in
      takeWhile isdigit t \<noteq> [] \<and>
      (r = [] \<or> (hd r = CHR ''.'' \<and> tl r \<noteq> [] \<and> list_all isdigit (tl r))))"

subsection \<open>ParseRange\<close>

text \<open>
  The tokens between commas; a token with a dash is a range of numbers, both ends
  included. \<open>stoi\<close> may throw, and a range up to \<open>INT_MAX\<close> overflows its loop counter.
\<close>

definition parse_range_token :: "string \<Rightarrow> int list option" where
  "parse_range_token token =
     (case str_find token ''-'' 0 of
        Some dashPos \<Rightarrow> do {
          start \<leftarrow> stoi (take dashPos token);
          stop \<leftarrow> stoi (drop (dashPos + 1) token);
          if start \<le> stop \<and> stop = 2 ^ 31 - 1 then None else Some [start..stop]
        }
      | None \<Rightarrow> map_option (\<lambda>v. [v]) (stoi token))"

fun parse_range_tokens :: "string list \<Rightarrow> int list option" where
  "parse_range_tokens [] = Some []"
| "parse_range_tokens (t # ts) = do {
     ns \<leftarrow> parse_range_token t;
     rest \<leftarrow> parse_range_tokens ts;
     Some (ns @ rest)
   }"

definition ParseRange :: "string \<Rightarrow> int list option" where
  "ParseRange rangeStr = parse_range_tokens (getlines CHR '','' rangeStr)"

text \<open>The textual form of a list of ranges, as the kernel prints cpu lists.\<close>

definition range_render :: "nat \<times> nat \<Rightarrow> string" where
  "range_render r =
     (if fst r = snd r then digits10 (fst r) else digits10 (fst r) @ ''-'' @ digits10 (snd r))"

lemma no_dash_digits10: "CHR ''-'' \<notin> set (digits10 n)" and no_comma_digits10: "CHR '','' \<notin> set (digits10 n)"
  using digits10_isdigit isdigit_not_special by blast+

lemma stoi_digits10: "n < 2 ^ 31 \<Longrightarrow> stoi (digits10 n) = Some (int n)"
  by (simp add: stoi_def)

lemma find_sub_char_None: "c \<notin> set s \<Longrightarrow> find_sub [c] s = None"
  by (auto simp: find_sub_None_iff)

lemma parse_range_token_render:
  "fst r \<le> snd r \<Longrightarrow> snd r < 2 ^ 31 - 1 \<Longrightarrow>
   parse_range_token (range_render r) = Some [int (fst r)..int (snd r)]"
proof (cases "fst r = snd r")
  case True
  assume "snd r < 2 ^ 31 - 1"
  with True show ?thesis
    by (simp add: parse_range_token_def range_render_def str_find_def find_sub_char_None
        no_dash_digits10 stoi_digits10)
next
  case False
  assume le: "fst r \<le> snd r" and bd: "snd r < 2 ^ 31 - 1"
  have f: "str_find (digits10 (fst r) @ CHR ''-'' # digits10 (snd r)) ''-'' 0
             = Some (length (digits10 (fst r)))"
    using find_sub_sep [of "CHR ''-''" "digits10 (fst r)" "[]" "digits10 (snd r)"] no_dash_digits10
    by (simp add: str_find_def)
  show ?thesis
    using False le bd
    by (simp add: parse_range_token_def range_render_def f stoi_digits10)
qed

lemma parse_range_tokens_render:
  "\<forall>r \<in> set rs. fst r \<le> snd r \<and> snd r < 2 ^ 31 - 1 \<Longrightarrow>
   parse_range_tokens (map range_render rs) = Some (concat (map (\<lambda>r. [int (fst r)..int (snd r)]) rs))"
  by (induction rs) (simp_all add: parse_range_token_render)

lemma range_render_getlines:
  "getlines CHR '','' (Concat (map range_render rs) '','') = map range_render rs"
proof (cases rs)
  case Nil
  then show ?thesis by simp
next
  case (Cons r rs')
  have "\<forall>x \<in> set (map range_render rs). CHR '','' \<notin> set x"
    using no_comma_digits10 by (auto simp: range_render_def)
  moreover have "last (map range_render rs) \<noteq> []"
    using Cons by (simp add: last_map range_render_def)
  ultimately show ?thesis using Cons by (intro getlines_Concat) auto
qed

subsection \<open>Network interface states\<close>

definition stateMap :: "string list" where
  "stateMap = [''unknown'', ''notpresent'', ''down'', ''lowerlayerdown'', ''testing'', ''dormant'', ''up'']"

definition GetNetOperateStr :: "int \<Rightarrow> string" where
  "GetNetOperateStr state =
     (if state < 0 \<or> int (length stateMap) \<le> state then ''unknown'' else stateMap ! nat state)"

fun index_from :: "int \<Rightarrow> string list \<Rightarrow> string \<Rightarrow> int" where
  "index_from i [] state = 0"
| "index_from i (x # xs) state = (if x = state then i else index_from (i + 1) xs state)"

text \<open>A name that is not in the table is \<open>IF_OPER_UNKNOWN\<close>, which is 0.\<close>

definition GetNetOperateTypeByStr :: "string \<Rightarrow> int" where
  "GetNetOperateTypeByStr state = index_from 0 stateMap state"

subsection \<open>File permissions\<close>

record stat_t =
  st_mode :: "32 word"
  st_uid :: nat
  st_gid :: nat

unbundle bit_operations_syntax

text \<open>
  The result of \<open>lstat\<close> is not checked: when it fails, the mode and the owner are read
  from an uninitialized structure.
\<close>

definition CheckPermission :: "(string \<Rightarrow> stat_t option) \<Rightarrow> string \<Rightarrow> 32 word \<Rightarrow> bool option" where
  "CheckPermission lstat path mode = do {
     st \<leftarrow> lstat path;
     let curMode = st_mode st AND 0x1FF in
     if st_gid st \<noteq> 0 \<and> st_uid st \<noteq> 0 then Some False
     else if curMode \<noteq> mode then Some False
     else Some True
   }"

definition CheckFileUsers :: "(string \<Rightarrow> stat_t option) \<Rightarrow> string \<Rightarrow> nat list \<Rightarrow> bool" where
  "CheckFileUsers lstat path users =
     (case lstat path of None \<Rightarrow> False | Some st \<Rightarrow> list_ex (\<lambda>uid. uid = st_uid st) users)"

definition CheckFileGroups :: "(string \<Rightarrow> stat_t option) \<Rightarrow> string \<Rightarrow> nat list \<Rightarrow> bool" where
  "CheckFileGroups lstat path groups =
     (case lstat path of None \<Rightarrow> False | Some st \<Rightarrow> list_ex (\<lambda>gid. gid = st_gid st) groups)"

subsection \<open>Control groups of a container\<close>

text \<open>The directory tree as the walker sees it: \<open>readdir\<close>, \<open>stat\<close>, \<open>lstat\<close> and \<open>readlink\<close>.\<close>

record dir_tree =
  dt_readdir :: "string \<Rightarrow> string list option"
  dt_isdir :: "string \<Rightarrow> bool"
  dt_islink :: "string \<Rightarrow> bool"
  dt_readlink :: "string \<Rightarrow> string option"

definition ListFiles :: "dir_tree \<Rightarrow> string \<Rightarrow> string list" where
  "ListFiles fs path =
     (case dt_readdir fs path of
        None \<Rightarrow> []
      | Some names \<Rightarrow> filter (\<lambda>n. \<not> prefix ''.'' n) names)"

definition ReadSymlink :: "dir_tree \<Rightarrow> string \<Rightarrow> string" where
  "ReadSymlink fs path = (case dt_readlink fs path of None \<Rightarrow> [] | Some l \<Rightarrow> cstr l)"

definition resolve_entry :: "dir_tree \<Rightarrow> string \<Rightarrow> string \<Rightarrow> string" where
  "resolve_entry fs basePath entry =
     (let fullPath = basePath @ ''/'' @ entry in
      if dt_islink fs fullPath then
        (let link = ReadSymlink fs fullPath in
         if prefix ''/'' link then link else basePath @ ''/'' @ link)
      else fullPath)"

fun SearchDirectory :: "dir_tree \<Rightarrow> string \<Rightarrow> nat \<Rightarrow> string \<Rightarrow> string"
  and search_entries :: "dir_tree \<Rightarrow> string \<Rightarrow> nat \<Rightarrow> string \<Rightarrow> string list \<Rightarrow> string" where
  "SearchDirectory fs dockerId 0 basePath = []"
| "SearchDirectory fs dockerId (Suc d) basePath =
     search_entries fs dockerId d basePath (ListFiles fs basePath)"
| "search_entries fs dockerId d basePath [] = []"
| "search_entries fs dockerId d basePath (entry # entries) =
     (let realPath = resolve_entry fs basePath entry in
      if str_find realPath dockerId 0 \<noteq> None then realPath
      else if dt_isdir fs realPath then
        (let found = SearchDirectory fs dockerId d realPath in
         if found \<noteq> [] then found else search_entries fs dockerId d basePath entries)
      else search_entries fs dockerId d basePath entries)"

definition MAX_SEARCHE_DEPTH :: nat where
  "MAX_SEARCHE_DEPTH = 5"

definition mount_point :: "string \<Rightarrow> string" where
  "mount_point line =
     (case str_find line '' '' 0 of
        None \<Rightarrow> line
      | Some start \<Rightarrow>
          (case str_find line '' '' (start + 1) of
             None \<Rightarrow> drop (start + 1) line
           | Some stop \<Rightarrow> take (stop - start - 1) (drop (start + 1) line)))"

definition GetCgroupMounts :: "string list \<Rightarrow> string \<Rightarrow> string list" where
  "GetCgroupMounts mountLines subsystem =
     (let mounts = map mount_point
        (filter (\<lambda>line. str_find line ''cgroup'' 0 \<noteq> None \<and> str_find line subsystem 0 \<noteq> None) mountLines)
      in if mounts \<noteq> [] then mounts else [''/sys/fs/cgroup''])"

fun first_found :: "('a \<Rightarrow> string) \<Rightarrow> 'a list \<Rightarrow> string" where
  "first_found f [] = []"
| "first_found f (x # xs) = (if f x \<noteq> [] then f x else first_found f xs)"

definition search_base :: "dir_tree \<Rightarrow> string \<Rightarrow> string \<Rightarrow> string" where
  "search_base fs dockerId base =
     (let found = first_found
        (\<lambda>pp. let target = base @ ''/'' @ pp in
              if dt_isdir fs target then SearchDirectory fs dockerId MAX_SEARCHE_DEPTH target else [])
        [''docker'', ''kubepods.slice'', ''system.slice'', ''kubepods'']
      in if found \<noteq> [] then found else SearchDirectory fs dockerId MAX_SEARCHE_DEPTH base)"

definition FindDockerSubsystemCgroupPath ::
  "dir_tree \<Rightarrow> string list \<Rightarrow> string \<Rightarrow> string \<Rightarrow> string" where
  "FindDockerSubsystemCgroupPath fs mountLines dockerId subsystemName =
     (if length dockerId \<noteq> 64 then []
      else first_found (search_base fs dockerId) (GetCgroupMounts mountLines subsystemName))"

lemma first_found_prop: "(\<And>x. f x \<noteq> [] \<Longrightarrow> P (f x)) \<Longrightarrow> first_found f xs \<noteq> [] \<Longrightarrow> P (first_found f xs)"
  by (induction xs) (auto split: if_splits)

lemma SearchDirectory_contains:
  "SearchDirectory fs dockerId d basePath \<noteq> [] \<Longrightarrow>
     str_find (SearchDirectory fs dockerId d basePath) dockerId 0 \<noteq> None"
  "search_entries fs dockerId d basePath entries \<noteq> [] \<Longrightarrow>
     str_find (search_entries fs dockerId d basePath entries) dockerId 0 \<noteq> None"
proof (induction fs dockerId d basePath and fs dockerId d basePath entries
    rule: SearchDirectory_search_entries.induct)
  case (4 fs dockerId d basePath entry entries)
  then show ?case by (auto simp: Let_def split: if_splits)
qed (simp_all split: if_splits)

subsection \<open>Properties\<close>

text \<open>C22. For every target but the empty one \<open>ReplaceString\<close> ends and computes the reference substitution, also
  when the replacement contains the target; for the empty target it never returns.\<close>

theorem ReplaceString_equiv:
  "ReplaceString input target replacement =
     (if target = [] then None else Some (subst_all target replacement input))"
proof (cases "target = []")
  case True
  then have "ReplaceString input [] replacement \<noteq> Some out" for out
    using replace_loop_empty [of replacement input 0 out] by (auto simp: ReplaceString_def)
  with True show ?thesis by auto
next
  case False
  then show ?thesis using replace_loop_subst_all [of target replacement "[]" input] by (simp add: ReplaceString_def)
qed

text \<open>A list of ranges in the form the kernel prints its cpu lists is parsed to exactly the numbers of the
  ranges, in order, up to the largest \<open>int\<close>.\<close>

lemma ParseRange_render:
  assumes "\<forall>r \<in> set rs. fst r \<le> snd r \<and> snd r < 2 ^ 31 - 1"
  shows "ParseRange (Concat (map range_render rs) '','') = Some (concat (map (\<lambda>r. [int (fst r)..int (snd r)]) rs))"
  by (simp add: ParseRange_def range_render_getlines parse_range_tokens_render [OF assms])

theorem ParseRange_render_witness: "ParseRange ''0-2,8'' = Some [0, 1, 2, 8]"
proof -
  have "Concat (map range_render [(0, 2), (8, 8)]) '','' = ''0-2,8''" "[int 0..int 2] = [0, 1, 2]" "[int 8..int 8] = [8]"
    by code_simp+
  with ParseRange_render [of "[(0, 2), (8, 8)]"] show ?thesis by simp
qed

text \<open>The search for the control group of a container ends on every directory tree, cyclic links included,
  and what it finds contains the identifier of the container; an identifier of the wrong length
  finds nothing.\<close>

lemma FindDockerSubsystemCgroupPath_sound:
  assumes "FindDockerSubsystemCgroupPath fs mountLines dockerId subsystem \<noteq> []"
  shows "length dockerId = 64 \<and> (\<exists>x y. FindDockerSubsystemCgroupPath fs mountLines dockerId subsystem = x @ dockerId @ y)"
proof -
  let ?ok = "\<lambda>p. str_find p dockerId 0 \<noteq> None"
  have base: "?ok (search_base fs dockerId b)" if "search_base fs dockerId b \<noteq> []" for b
  proof -
    let ?f = "\<lambda>pp. let target = b @ ''/'' @ pp in
      if dt_isdir fs target then SearchDirectory fs dockerId MAX_SEARCHE_DEPTH target else []"
    have "?ok (first_found ?f xs)" if "first_found ?f xs \<noteq> []" for xs
      by (rule first_found_prop [OF _ that]) (auto simp: Let_def dest: SearchDirectory_contains(1) split: if_splits)
    with that show ?thesis unfolding search_base_def Let_def
      by (auto dest: SearchDirectory_contains(1) split: if_splits simp del: first_found.simps)
  qed
  have len: "length dockerId = 64" using assms by (simp add: FindDockerSubsystemCgroupPath_def split: if_splits)
  have "?ok (FindDockerSubsystemCgroupPath fs mountLines dockerId subsystem)"
    using assms first_found_prop [where f = "search_base fs dockerId" and P = ?ok, OF base]
    by (simp add: FindDockerSubsystemCgroupPath_def len)
  then show ?thesis using len find_sub_None_iff [of dockerId "FindDockerSubsystemCgroupPath fs mountLines dockerId subsystem"]
    by (auto simp: str_find_def)
qed

theorem FindDockerSubsystemCgroupPath_sound_witness:
  "FindDockerSubsystemCgroupPath \<lparr>dt_readdir = (\<lambda>_. Some [replicate 64 CHR ''a'']), dt_isdir = (\<lambda>_. True), dt_islink = (\<lambda>_. False),
      dt_readlink = (\<lambda>_. None)\<rparr> [] (replicate 64 CHR ''a'') ''cpu'' \<noteq> [] \<and> length (replicate 64 CHR ''a'') = 64"
proof -
  have "FindDockerSubsystemCgroupPath \<lparr>dt_readdir = (\<lambda>_. Some [replicate 64 CHR ''a'']), dt_isdir = (\<lambda>_. True), dt_islink = (\<lambda>_. False),
      dt_readlink = (\<lambda>_. None)\<rparr> [] (replicate 64 CHR ''a'') ''cpu'' \<noteq> []"
    by code_simp
  with FindDockerSubsystemCgroupPath_sound [OF this] show ?thesis by simp
qed

end
