(* ===== verification/Serialize.thy ===== *)
theory Serialize
  imports Prelude
begin

text \<open>
  The byte streams of \<^verbatim>\<open>include/oeaware/serialize.h\<close>. An \<open>OutStream\<close> is the bytes written so
  far. An \<open>InStream\<close> is the bytes left, the stream's fail bit and, as part of the
  environment, the largest allocation (in elements) that succeeds: \<open>std::string::resize\<close>
  and \<open>std::vector\<close> throw beyond it, and an exception is \<open>None\<close>. \<open>Deserialize\<close> takes the
  variable's old value, because a failed \<open>read\<close> leaves it (or its upper bytes) alone.
  The byte order is that of the supported targets, least significant byte first.
\<close>

type_synonym OutStream = string

record InStream =
  is_buf :: string
  is_fail :: bool
  is_mem :: nat

type_synonym 'a reader = "'a \<Rightarrow> InStream \<Rightarrow> ('a \<times> InStream) option"

text \<open>A fresh stream over some bytes.\<close>

definition mk_in :: "nat \<Rightarrow> string \<Rightarrow> InStream" where
  "mk_in mem s = \<lparr>is_buf = s, is_fail = False, is_mem = mem\<rparr>"

subsection \<open>Reading and writing bytes\<close>

definition Append :: "OutStream \<Rightarrow> string \<Rightarrow> OutStream" where
  "Append out bytes = out @ bytes"

text \<open>\<open>istream::read\<close> into a buffer that holds \<open>old\<close>: a short read fills the front only.\<close>

definition read_bytes :: "string \<Rightarrow> InStream \<Rightarrow> string \<times> InStream" where
  "read_bytes old s =
     (if is_fail s then (old, s)
      else if length old \<le> length (is_buf s) then
        (take (length old) (is_buf s), s\<lparr>is_buf := drop (length old) (is_buf s)\<rparr>)
      else (is_buf s @ drop (length (is_buf s)) old, s\<lparr>is_buf := [], is_fail := True\<rparr>))"

lemma read_bytes_exact [simp]:
  "length old = length bs \<Longrightarrow> read_bytes old (mk_in mem (bs @ rest)) = (bs, mk_in mem rest)"
  by (simp add: read_bytes_def mk_in_def)

lemma mk_in_sel [simp]:
  "is_buf (mk_in mem s) = s" "is_fail (mk_in mem s) = False" "is_mem (mk_in mem s) = mem"
  by (simp_all add: mk_in_def)

subsection \<open>Base types\<close>

definition word_bytes :: "nat \<Rightarrow> 'a::len word \<Rightarrow> string" where
  "word_bytes n w = le_enc n (unat w)"

definition bytes_word :: "string \<Rightarrow> 'a::len word" where
  "bytes_word bs = word_of_nat (le_dec bs)"

text \<open>
  One template specialization per base type; they differ in \<open>sizeof\<close> only. The byte count
  is an argument: 1 for \<open>char\<close>, 2 for \<open>short\<close>, 4 for \<open>int\<close> and \<open>float\<close>, 8 for \<open>long\<close>,
  \<open>long long\<close> and \<open>double\<close> (a floating-point value is its representation).
\<close>

definition Serialize_base :: "nat \<Rightarrow> OutStream \<Rightarrow> 'a::len word \<Rightarrow> OutStream" where
  "Serialize_base sz buf data = Append buf (word_bytes sz data)"

definition Deserialize_base :: "nat \<Rightarrow> 'a::len word reader" where
  "Deserialize_base sz old is =
     (let (bs, is') = read_bytes (word_bytes sz old) is in Some (bytes_word bs, is'))"

abbreviation put_char :: "OutStream \<Rightarrow> 8 word \<Rightarrow> OutStream" where
  "put_char \<equiv> Serialize_base 1"

abbreviation put_short :: "OutStream \<Rightarrow> 16 word \<Rightarrow> OutStream" where
  "put_short \<equiv> Serialize_base 2"

abbreviation put_int :: "OutStream \<Rightarrow> c_int \<Rightarrow> OutStream" where
  "put_int \<equiv> Serialize_base 4"

abbreviation put_u64 :: "OutStream \<Rightarrow> u64 \<Rightarrow> OutStream" where
  "put_u64 \<equiv> Serialize_base 8"

abbreviation get_char :: "8 word reader" where
  "get_char \<equiv> Deserialize_base 1"

abbreviation get_short :: "16 word reader" where
  "get_short \<equiv> Deserialize_base 2"

abbreviation get_int :: "c_int reader" where
  "get_int \<equiv> Deserialize_base 4"

abbreviation get_u64 :: "u64 reader" where
  "get_u64 \<equiv> Deserialize_base 8"

lemma length_word_bytes [simp]: "length (word_bytes n w) = n"
  by (simp add: word_bytes_def)

lemma bytes_word_bytes:
  "LENGTH('a) \<le> 8 * n \<Longrightarrow> bytes_word (word_bytes n (w :: 'a::len word)) = w"
proof -
  assume le: "LENGTH('a) \<le> 8 * n"
  have "unat w < 2 ^ LENGTH('a)" by (rule unsigned_less)
  also have "\<dots> \<le> (2::nat) ^ (8 * n)" using le by (intro power_increasing) auto
  finally have "unat w < 256 ^ n" by (simp add: power_mult)
  then show ?thesis
    by (simp add: bytes_word_def word_bytes_def le_dec_enc_mod)
qed

lemma Deserialize_base_rt:
  "LENGTH('a) \<le> 8 * n \<Longrightarrow>
   Deserialize_base n old (mk_in mem (word_bytes n (w :: 'a::len word) @ rest)) = Some (w, mk_in mem rest)"
  by (simp add: Deserialize_base_def bytes_word_bytes)

subsection \<open>Strings and vectors\<close>

definition Serialize_string :: "OutStream \<Rightarrow> string \<Rightarrow> OutStream" where
  "Serialize_string buf data = Append (put_u64 buf (word_of_nat (length data))) data"

text \<open>\<open>resize\<close> keeps the old characters and pads with NUL; it throws beyond the memory limit.\<close>

definition string_resize :: "nat \<Rightarrow> nat \<Rightarrow> string \<Rightarrow> string option" where
  "string_resize mem n s =
     (if mem < n then None else Some (take n s @ replicate (n - length s) NUL))"

definition Deserialize_string :: "string reader" where
  "Deserialize_string old is = do {
     (len, is1) \<leftarrow> get_u64 0 is;
     data \<leftarrow> string_resize (is_mem is1) (unat len) old;
     Some (read_bytes data is1)
   }"

text \<open>A C string: the bytes up to the NUL, and back into a fresh buffer of \<open>len + 1\<close> bytes.\<close>

definition Serialize_cstr :: "OutStream \<Rightarrow> string \<Rightarrow> OutStream" where
  "Serialize_cstr buf data = Append (put_u64 buf (word_of_nat (length (cstr data)))) (cstr data)"

definition Deserialize_cstr :: "string reader" where
  "Deserialize_cstr fresh is = do {
     (len, is1) \<leftarrow> get_u64 0 is;
     data \<leftarrow> string_resize (is_mem is1) (unat len) fresh;
     (let (bytes, is2) = read_bytes data is1 in Some (cstr bytes, is2))
   }"

definition Serialize_vector :: "(OutStream \<Rightarrow> 'a \<Rightarrow> OutStream) \<Rightarrow> OutStream \<Rightarrow> 'a list \<Rightarrow> OutStream" where
  "Serialize_vector ser out data = foldl ser (put_u64 out (word_of_nat (length data))) data"

text \<open>
  The loop of \<open>operator>>\<close>: \<open>len\<close> elements, each read into a fresh variable \<open>temp\<close> and
  appended to what the vector already holds.
\<close>

fun read_elems :: "'a reader \<Rightarrow> 'a \<Rightarrow> nat \<Rightarrow> 'a list \<Rightarrow> InStream \<Rightarrow> ('a list \<times> InStream) option" where
  "read_elems de temp 0 data is = Some (data, is)"
| "read_elems de temp (Suc n) data is = do {
     (x, is1) \<leftarrow> de temp is;
     read_elems de temp n (data @ [x]) is1
   }"

definition Deserialize_vector :: "'a reader \<Rightarrow> 'a \<Rightarrow> 'a list reader" where
  "Deserialize_vector de temp old is = do {
     (len, is1) \<leftarrow> get_u64 0 is;
     if is_mem is1 < length old + unat len then None
     else read_elems de temp (unat len) old is1
   }"

text \<open>\<open>Encode\<close> starts from an empty stream; \<open>Decode\<close> turns an exception into \<open>false\<close>.\<close>

definition Encode :: "(OutStream \<Rightarrow> 'a \<Rightarrow> OutStream) \<Rightarrow> 'a \<Rightarrow> string" where
  "Encode ser msg = ser [] msg"

definition Decode :: "'a reader \<Rightarrow> nat \<Rightarrow> 'a \<Rightarrow> string \<Rightarrow> bool \<times> 'a" where
  "Decode de mem msg content =
     (case de msg (mk_in mem content) of
        None \<Rightarrow> (False, msg)
      | Some (v, _) \<Rightarrow> (True, v))"

subsection \<open>The contract of a serializer\<close>

text \<open>
  A pair of functions is a codec when writing only appends, and reading back what was
  written gives the value and leaves the rest of the stream. \<open>ok mem x\<close> says that \<open>x\<close> can
  be rebuilt under the memory limit.
\<close>

locale codec =
  fixes ser :: "OutStream \<Rightarrow> 'a \<Rightarrow> OutStream"
    and de :: "'a reader"
    and ok :: "nat \<Rightarrow> 'a \<Rightarrow> bool"
    and init :: "'a \<Rightarrow> bool"
  assumes ser_append: "ser (out @ out') x = out @ ser out' x"
    and de_ser: "ok mem x \<Longrightarrow> init old \<Longrightarrow> de old (mk_in mem (ser [] x @ rest)) = Some (x, mk_in mem rest)"
begin

lemma ser_out: "ser out x = out @ ser [] x"
  using ser_append [of out "[]" x] by simp

lemma foldl_ser: "foldl ser out xs = out @ foldl ser [] xs"
proof (induction xs arbitrary: out)
  case Nil
  then show ?case by simp
next
  case (Cons x xs)
  show ?case
    using Cons [of "ser out x"] Cons [of "ser [] x"] ser_out [of out x] by simp
qed

lemma foldl_ser_Cons: "foldl ser [] (x # xs) = ser [] x @ foldl ser [] xs"
  using foldl_ser [of "ser [] x" xs] by simp

lemma read_elems_rt:
  "\<forall>x \<in> set xs. ok mem x \<Longrightarrow> init temp \<Longrightarrow>
   read_elems de temp (length xs) acc (mk_in mem (foldl ser [] xs @ rest)) = Some (acc @ xs, mk_in mem rest)"
proof (induction xs arbitrary: acc)
  case Nil
  then show ?case by simp
next
  case (Cons x xs)
  then have "de temp (mk_in mem (ser [] x @ foldl ser [] xs @ rest)) = Some (x, mk_in mem (foldl ser [] xs @ rest))"
    by (intro de_ser) simp_all
  with Cons show ?case
    by (simp del: foldl_Cons add: foldl_ser_Cons)
qed

lemma decode_encode: "ok mem x \<Longrightarrow> init old \<Longrightarrow> Decode de mem old (Encode ser x) = (True, x)"
  using de_ser [of mem x old "[]"] by (simp add: Decode_def Encode_def)

lemma vector_append: "Serialize_vector ser (out @ out') xs = out @ Serialize_vector ser out' xs"
  using foldl_ser [of "put_u64 (out @ out') (word_of_nat (length xs))" xs]
    foldl_ser [of "put_u64 out' (word_of_nat (length xs))" xs]
  by (simp add: Serialize_vector_def Serialize_base_def Append_def)

lemma vector_rt:
  assumes "\<forall>x \<in> set xs. ok mem x" "length xs \<le> mem" "mem < 2 ^ 64" "init temp"
  shows "Deserialize_vector de temp [] (mk_in mem (Serialize_vector ser [] xs @ rest)) = Some (xs, mk_in mem rest)"
proof -
  have len: "unat (word_of_nat (length xs) :: u64) = length xs"
    using assms by (simp add: unat_u64)
  have "Serialize_vector ser [] xs = word_bytes 8 (word_of_nat (length xs) :: u64) @ foldl ser [] xs"
    using foldl_ser [of "word_bytes 8 (word_of_nat (length xs) :: u64)" xs]
    by (simp add: Serialize_vector_def Serialize_base_def Append_def)
  then show ?thesis
    using assms len read_elems_rt [of xs mem temp "[]" rest]
    by (simp add: Deserialize_vector_def Deserialize_base_rt)
qed

end

text \<open>A vector of codec values is a codec again.\<close>

locale vector_codec = codec ser de ok init
  for ser :: "OutStream \<Rightarrow> 'a \<Rightarrow> OutStream" and de ok init +
  fixes temp :: 'a
  assumes init_temp: "init temp"

sublocale vector_codec \<subseteq> vec: codec "Serialize_vector ser" "Deserialize_vector de temp"
  "\<lambda>mem xs. (\<forall>x \<in> set xs. ok mem x) \<and> length xs \<le> mem \<and> mem < 2 ^ 64" "\<lambda>old. old = []"
  by unfold_locales (auto simp: vector_append intro: vector_rt init_temp)

subsection \<open>The base codecs\<close>

lemma Serialize_base_append: "Serialize_base n (out @ out') x = out @ Serialize_base n out' x"
  by (simp add: Serialize_base_def Append_def)

interpretation char_codec: codec put_char get_char "\<lambda>mem x. True" "\<lambda>old. True"
  by unfold_locales (auto simp: Serialize_base_append Serialize_base_def Append_def Deserialize_base_rt)

interpretation short_codec: codec put_short get_short "\<lambda>mem x. True" "\<lambda>old. True"
  by unfold_locales (auto simp: Serialize_base_append Serialize_base_def Append_def Deserialize_base_rt)

interpretation int_codec: vector_codec put_int get_int "\<lambda>mem x. True" "\<lambda>old. True" 0
  by unfold_locales (auto simp: Serialize_base_append Serialize_base_def Append_def Deserialize_base_rt)

interpretation u64_codec: vector_codec put_u64 get_u64 "\<lambda>mem x. True" "\<lambda>old. True" 0
  by unfold_locales (auto simp: Serialize_base_append Serialize_base_def Append_def Deserialize_base_rt)

abbreviation str_ok :: "nat \<Rightarrow> string \<Rightarrow> bool" where
  "str_ok mem s \<equiv> length s \<le> mem \<and> mem < 2 ^ 64"

lemma Serialize_string_append: "Serialize_string (out @ out') s = out @ Serialize_string out' s"
  by (simp add: Serialize_string_def Serialize_base_def Append_def)

lemma string_bytes: "Serialize_string [] s = word_bytes 8 (word_of_nat (length s) :: u64) @ s"
  by (simp add: Serialize_string_def Serialize_base_def Append_def)

lemma Deserialize_string_rt:
  "str_ok mem s \<Longrightarrow>
   Deserialize_string old (mk_in mem (Serialize_string [] s @ rest)) = Some (s, mk_in mem rest)"
  by (simp add: string_bytes Deserialize_string_def Deserialize_base_rt string_resize_def unat_u64)

interpretation string_codec: vector_codec Serialize_string Deserialize_string str_ok "\<lambda>old. True" "[]"
  by unfold_locales (auto simp: Serialize_string_append Deserialize_string_rt)

text \<open>The bytes of a string, and the rewrite rules that run a serializer against its reader.\<close>

definition str_bytes :: "string \<Rightarrow> string" where
  "str_bytes s = word_bytes 8 (word_of_nat (length s) :: u64) @ s"

lemma put_bytes [ser_rt]:
  "Serialize_base n out w = out @ word_bytes n w"
  "Serialize_string out s = out @ str_bytes s"
  by (simp_all add: Serialize_base_def Serialize_string_def str_bytes_def Append_def)

lemma get_bytes [ser_rt]:
  "Deserialize_base 4 ow (mk_in mem (word_bytes 4 w @ rest)) = Some (w :: c_int, mk_in mem rest)"
  "Deserialize_base 4 ow (mk_in mem (word_bytes 4 w)) = Some (w :: c_int, mk_in mem [])"
  "Deserialize_base 8 ol (mk_in mem (word_bytes 8 l @ rest)) = Some (l :: u64, mk_in mem rest)"
  "Deserialize_base 8 ol (mk_in mem (word_bytes 8 l)) = Some (l :: u64, mk_in mem [])"
  using Deserialize_base_rt [of 4 ow mem w "[]"] Deserialize_base_rt [of 8 ol mem l "[]"]
  by (simp_all add: Deserialize_base_rt)

lemma get_string_bytes [ser_rt]:
  "str_ok mem s \<Longrightarrow> Deserialize_string old (mk_in mem (str_bytes s @ rest)) = Some (s, mk_in mem rest)"
  "str_ok mem s \<Longrightarrow> Deserialize_string old (mk_in mem (str_bytes s)) = Some (s, mk_in mem [])"
  using Deserialize_string_rt [of s mem old rest] Deserialize_string_rt [of s mem old "[]"]
  by (simp_all add: string_bytes str_bytes_def)

lemma Serialize_cstr_string: "Serialize_cstr out s = Serialize_string out (cstr s)"
  by (simp add: Serialize_cstr_def Serialize_string_def)

lemma Serialize_cstr_append: "Serialize_cstr (out @ out') s = out @ Serialize_cstr out' s"
  by (simp add: Serialize_cstr_string Serialize_string_append)

lemma Deserialize_cstr_rt:
  assumes "str_ok mem s" "NUL \<notin> set s"
  shows "Deserialize_cstr old (mk_in mem (Serialize_cstr [] s @ rest)) = Some (s, mk_in mem rest)"
proof -
  have "Serialize_cstr [] s = word_bytes 8 (word_of_nat (length s) :: u64) @ s"
    using assms by (simp add: Serialize_cstr_string string_bytes)
  then show ?thesis
    using assms by (simp add: Deserialize_cstr_def Deserialize_base_rt string_resize_def unat_u64)
qed

interpretation cstr_codec: codec Serialize_cstr Deserialize_cstr
  "\<lambda>mem s. str_ok mem s \<and> NUL \<notin> set s" "\<lambda>old. True"
  by unfold_locales (auto simp: Serialize_cstr_append Deserialize_cstr_rt)

end
