(* ===== verification/Topic_Model.thy ===== *)
theory Topic_Model
  imports Utils Serialize
begin

text \<open>
  \<open>Topic\<close> and \<open>Result\<close> of \<^verbatim>\<open>include/oeaware/topic.h\<close>: their textual form
  \<open>instance::topic::params\<close>, the parser for it, and their serializers.
\<close>

record Topic =
  instanceName :: string
  topicName :: string
  params :: string

record Result =
  code :: c_int
  payload :: string

definition OK :: c_int where
  "OK = 0"

definition FAILED :: c_int where
  "FAILED = -1"

abbreviation res_failed :: "Result \<Rightarrow> bool" where
  "res_failed r \<equiv> sint (code r) < 0"

definition Topic_Serialize :: "OutStream \<Rightarrow> Topic \<Rightarrow> OutStream" where
  "Topic_Serialize out t =
     Serialize_string (Serialize_string (Serialize_string out (instanceName t)) (topicName t)) (params t)"

definition Topic_Deserialize :: "Topic reader" where
  "Topic_Deserialize t in0 = do {
     (i, in1) \<leftarrow> Deserialize_string (instanceName t) in0;
     (n, in2) \<leftarrow> Deserialize_string (topicName t) in1;
     (p, in3) \<leftarrow> Deserialize_string (params t) in2;
     Some (\<lparr>instanceName = i, topicName = n, params = p\<rparr>, in3)
   }"

definition GetDataType :: "Topic \<Rightarrow> string" where
  "GetDataType t =
     (if topicName t = [] then instanceName t else Concat [instanceName t, topicName t] ''::'')"

definition GetType :: "Topic \<Rightarrow> string" where
  "GetType t = Concat [instanceName t, topicName t, params t] ''::''"

text \<open>The first two tokens are read without a check, the third only when it is there.\<close>

definition GetTopicFromType :: "string \<Rightarrow> Topic option" where
  "GetTopicFromType type = do {
     let values = SplitString type ''::'';
     newInstanceName \<leftarrow> nth_opt values 0;
     newTopicName \<leftarrow> nth_opt values 1;
     newParams \<leftarrow> (if 2 < length values then nth_opt values 2 else Some []);
     Some \<lparr>instanceName = newInstanceName, topicName = newTopicName, params = newParams\<rparr>
   }"

definition Result_Serialize :: "OutStream \<Rightarrow> Result \<Rightarrow> OutStream" where
  "Result_Serialize out r = Serialize_string (put_int out (code r)) (payload r)"

definition Result_Deserialize :: "Result reader" where
  "Result_Deserialize r in0 = do {
     (c, in1) \<leftarrow> get_int (code r) in0;
     (p, in2) \<leftarrow> Deserialize_string (payload r) in1;
     Some (\<lparr>code = c, payload = p\<rparr>, in2)
   }"

subsection \<open>Serializing topics and results\<close>

definition topic_ok :: "nat \<Rightarrow> Topic \<Rightarrow> bool" where
  "topic_ok mem t = (str_ok mem (instanceName t) \<and> str_ok mem (topicName t) \<and> str_ok mem (params t))"

definition result_ok :: "nat \<Rightarrow> Result \<Rightarrow> bool" where
  "result_ok mem r = str_ok mem (payload r)"

interpretation topic_codec: codec Topic_Serialize Topic_Deserialize topic_ok "\<lambda>old. True"
  by unfold_locales (auto simp: Topic_Serialize_def Topic_Deserialize_def topic_ok_def ser_rt)

interpretation result_codec: codec Result_Serialize Result_Deserialize result_ok "\<lambda>old. True"
  by unfold_locales (auto simp: Result_Serialize_def Result_Deserialize_def result_ok_def ser_rt)

subsection \<open>The textual form of a topic\<close>

text \<open>Names without a colon, and parameters without a double colon.\<close>

definition topic_clean :: "Topic \<Rightarrow> bool" where
  "topic_clean t =
     (CHR '':'' \<notin> set (instanceName t) \<and> CHR '':'' \<notin> set (topicName t) \<and>
      find_sub ''::'' (params t) = None)"

lemma SplitString_GetType:
  assumes "topic_clean t"
  shows "SplitString (GetType t) ''::'' =
    instanceName t # topicName t # (if params t = [] then [] else [params t])"
proof -
  let ?rest = "topicName t @ ''::'' @ params t"
  have ty: "GetType t = instanceName t @ CHR '':'' # '':'' @ ?rest"
    by (simp add: GetType_def)
  have "find_sub ''::'' (GetType t) = Some (length (instanceName t))"
    using assms find_sub_sep [of "CHR '':''" "instanceName t" "'':''" ?rest] ty
    by (simp add: topic_clean_def)
  moreover have "split_rest ''::'' (GetType t) = instanceName t # split_rest ''::'' ?rest"
    using assms split_rest_step [of "CHR '':''" "instanceName t" "'':''" ?rest] ty
    by (simp add: topic_clean_def)
  moreover have "split_rest ''::'' ?rest = topicName t # split_rest ''::'' (params t)"
    using assms split_rest_step [of "CHR '':''" "topicName t" "'':''" "params t"]
    by (simp add: topic_clean_def)
  moreover have "split_rest ''::'' (params t) = (if params t = [] then [] else [params t])"
    using assms by (simp add: topic_clean_def split_rest_last)
  ultimately show ?thesis by (simp add: SplitString_def)
qed

lemma topic_rt: "topic_clean t \<Longrightarrow> GetTopicFromType (GetType t) = Some t"
  by (simp add: GetTopicFromType_def SplitString_GetType)

lemma GetType_inj: "topic_clean t \<Longrightarrow> topic_clean u \<Longrightarrow> GetType t = GetType u \<Longrightarrow> t = u"
  by (metis topic_rt option.inject)

lemma GetType_two_tokens: "2 \<le> length (SplitString (GetType t) ''::'')"
proof -
  have ty: "GetType t = instanceName t @ ''::'' @ topicName t @ ''::'' @ params t"
    by (simp add: GetType_def)
  have "find_sub ''::'' (GetType t) \<noteq> None"
    unfolding find_sub_None_iff using ty by blast
  then have "SplitString (GetType t) ''::'' = split_rest ''::'' (GetType t)"
    by (auto simp: SplitString_def)
  with split_rest_two [OF _ ty] show ?thesis by simp
qed

lemma GetTopicFromType_Some: "2 \<le> length (SplitString s ''::'') \<Longrightarrow> \<exists>u. GetTopicFromType s = Some u"
proof -
  assume "2 \<le> length (SplitString s ''::'')"
  then obtain a b r where "SplitString s ''::'' = a # b # r"
    by (metis Suc_le_length_iff numeral_2_eq_2)
  then show ?thesis by (cases r) (simp_all add: GetTopicFromType_def)
qed

text \<open>A topic whose names hold no colon and whose parameters hold no double colon survives the
  trip through its textual form: \<open>GetTopicFromType\<close> inverts \<open>GetType\<close>.\<close>

lemma GetTopicFromType_GetType:
  assumes "topic_clean t"
  shows "GetTopicFromType (GetType t) = Some t"
  using assms by (rule topic_rt)

theorem GetTopicFromType_GetType_witness:
  "GetTopicFromType (GetType \<lparr>instanceName = ''env_info_collector'', topicName = ''static'', params = ''a:b''\<rparr>)
     = Some \<lparr>instanceName = ''env_info_collector'', topicName = ''static'', params = ''a:b''\<rparr>"
proof (rule GetTopicFromType_GetType)
  show "topic_clean \<lparr>instanceName = ''env_info_collector'', topicName = ''static'', params = ''a:b''\<rparr>"
    by (simp add: topic_clean_def)
qed

text \<open>The parser never reads past the tokens of a string built by \<open>GetType\<close>, whatever characters the
  three parts hold: two separators always give two tokens.\<close>

lemma GetTopicFromType_total: "\<exists>u. GetTopicFromType (GetType t) = Some u"
  by (rule GetTopicFromType_Some [OF GetType_two_tokens])

end
