(* ===== verification/Data_Codecs.thy ===== *)
theory Data_Codecs
  imports Topic_Model
begin

text \<open>
  The data structures of \<^verbatim>\<open>include/oeaware/data/*.h\<close> and their serializers in
  \<^verbatim>\<open>src/common/data_register.cpp\<close>. A \<open>char *\<close> is a \<open>string option\<close> (\<open>None\<close> is the null
  pointer, from which \<open>std::string\<close> cannot be built); an array is a list, and reading it
  out of range, walking past the end of a linked list or a failing \<open>new[]\<close> is \<open>None\<close>.
  A fixed \<open>char\<close> array is the C string it holds. A serializer returns the code of the
  C++ function with the stream.
\<close>

subsection \<open>Helpers\<close>

definition std_string :: "string option \<Rightarrow> string option" where
  "std_string p = map_option cstr p"

text \<open>\<open>new char[s.size() + 1]\<close> followed by \<open>strcpy_s\<close>: the error code and the new C string.\<close>

definition dup_string :: "string \<Rightarrow> int \<times> string option" where
  "dup_string s = (let (ret, d) = strcpy_s (length s + 1) s in (ret, Some d))"

lemma dup_string_eq [simp]: "dup_string s = (0, Some (cstr s))"
  by (simp add: dup_string_def)

definition CopyStringToCharArray :: "string \<Rightarrow> nat \<Rightarrow> string" where
  "CopyStringToCharArray source destSize = cstr (take (destSize - 1) source)"

definition new_array :: "InStream \<Rightarrow> int \<Rightarrow> unit option" where
  "new_array is n = (if n < 0 \<or> int (is_mem is) < n then None else Some ())"

text \<open>\<open>for (int i = 0; i < n; ++i)\<close> over an array or a linked list, writing or reading.\<close>

fun ser_for :: "('a \<Rightarrow> OutStream \<Rightarrow> OutStream option) \<Rightarrow> nat \<Rightarrow> 'a list \<Rightarrow> OutStream \<Rightarrow> OutStream option" where
  "ser_for put 0 xs out = Some out"
| "ser_for put (Suc n) [] out = None"
| "ser_for put (Suc n) (x # xs) out = do { out1 \<leftarrow> put x out; ser_for put n xs out1 }"

fun de_for :: "(InStream \<Rightarrow> ('a \<times> InStream) option) \<Rightarrow> nat \<Rightarrow> InStream \<Rightarrow> ('a list \<times> InStream) option" where
  "de_for get 0 is = Some ([], is)"
| "de_for get (Suc n) is = do {
     (x, is1) \<leftarrow> get is;
     (xs, is2) \<leftarrow> de_for get n is1;
     Some (x # xs, is2)
   }"

abbreviation count_of :: "c_int \<Rightarrow> nat" where
  "count_of n \<equiv> nat (sint n)"

text \<open>The contract of one record: what it writes, and that reading it back gives the record.\<close>

locale rec_codec =
  fixes put :: "'a \<Rightarrow> OutStream \<Rightarrow> OutStream option"
    and get :: "InStream \<Rightarrow> ('a \<times> InStream) option"
    and bytes :: "'a \<Rightarrow> string"
    and ok :: "nat \<Rightarrow> 'a \<Rightarrow> bool"
  assumes put_bytes: "ok mem x \<Longrightarrow> put x out = Some (out @ bytes x)"
    and get_bytes: "ok mem x \<Longrightarrow> get (mk_in mem (bytes x @ rest)) = Some (x, mk_in mem rest)"
begin

lemma ser_for_bytes:
  "\<forall>x \<in> set xs. ok mem x \<Longrightarrow> n = length xs \<Longrightarrow>
   ser_for put n xs out = Some (out @ concat (map bytes xs))"
  by (induction xs arbitrary: n out) (auto simp: put_bytes)

lemma de_for_bytes:
  "\<forall>x \<in> set xs. ok mem x \<Longrightarrow> n = length xs \<Longrightarrow>
   de_for get n (mk_in mem (concat (map bytes xs) @ rest)) = Some (xs, mk_in mem rest)"
  by (induction xs arbitrary: n) (auto simp: get_bytes)

lemma de_for_bytes_end:
  "\<forall>x \<in> set xs. ok mem x \<Longrightarrow> n = length xs \<Longrightarrow>
   de_for get n (mk_in mem (concat (map bytes xs))) = Some (xs, mk_in mem [])"
  using de_for_bytes [of xs mem n "[]"] by simp

end

text \<open>An array of a fixed number of records is a record again.\<close>

locale row_codec = rec_codec put get bytes ok
  for put :: "'a \<Rightarrow> OutStream \<Rightarrow> OutStream option" and get bytes ok +
  fixes n :: nat

sublocale row_codec \<subseteq> row: rec_codec "ser_for put n" "de_for get n" "\<lambda>xs. concat (map bytes xs)"
  "\<lambda>mem xs. length xs = n \<and> (\<forall>x \<in> set xs. ok mem x)"
  by unfold_locales (auto simp: ser_for_bytes de_for_bytes)

definition put_int_o :: "c_int \<Rightarrow> OutStream \<Rightarrow> OutStream option" where
  "put_int_o x out = Some (put_int out x)"

definition put_u64_o :: "u64 \<Rightarrow> OutStream \<Rightarrow> OutStream option" where
  "put_u64_o x out = Some (put_u64 out x)"

interpretation int_rec: rec_codec put_int_o "get_int 0" "word_bytes 4" "\<lambda>mem x. True"
  by unfold_locales (simp_all add: put_int_o_def ser_rt)

interpretation u64_rec: rec_codec put_u64_o "get_u64 0" "word_bytes 8" "\<lambda>mem x. True"
  by unfold_locales (simp_all add: put_u64_o_def ser_rt)

interpretation int_row: row_codec put_int_o "get_int 0" "word_bytes 4" "\<lambda>mem x. True" n for n
  by unfold_locales

interpretation u64_row: row_codec put_u64_o "get_u64 0" "word_bytes 8" "\<lambda>mem x. True" n for n
  by unfold_locales

subsection \<open>C strings in a record\<close>

definition put_cstr :: "string option \<Rightarrow> OutStream \<Rightarrow> OutStream option" where
  "put_cstr p out = do { s \<leftarrow> std_string p; Some (Serialize_string out s) }"

definition cptr_ok :: "nat \<Rightarrow> string option \<Rightarrow> bool" where
  "cptr_ok mem p = (case p of None \<Rightarrow> False | Some s \<Rightarrow> NUL \<notin> set s \<and> str_ok mem s)"

abbreviation cptr_bytes :: "string option \<Rightarrow> string" where
  "cptr_bytes p \<equiv> str_bytes (the p)"

lemma put_cstr_bytes: "cptr_ok mem p \<Longrightarrow> put_cstr p out = Some (out @ cptr_bytes p)"
  by (auto simp: put_cstr_def cptr_ok_def std_string_def ser_rt split: option.splits)

lemma get_cstr_bytes:
  "cptr_ok mem p \<Longrightarrow>
   Deserialize_string old (mk_in mem (cptr_bytes p @ rest)) = Some (the p, mk_in mem rest)"
  "cptr_ok mem p \<Longrightarrow>
   Deserialize_string old (mk_in mem (cptr_bytes p)) = Some (the p, mk_in mem [])"
  by (auto simp: cptr_ok_def ser_rt split: option.splits)

lemma cptr_the: "cptr_ok mem p \<Longrightarrow> Some (cstr (the p)) = p"
  by (auto simp: cptr_ok_def split: option.splits)

lemmas cptr_rt = put_cstr_bytes get_cstr_bytes cptr_the

subsection \<open>Threads\<close>

record ThreadInfo =
  ti_pid :: c_int
  ti_tid :: c_int
  ti_name :: "string option"

definition ThreadInfoSerialize :: "ThreadInfo \<Rightarrow> OutStream \<Rightarrow> (int \<times> OutStream) option" where
  "ThreadInfoSerialize threadInfo out = do {
     let out1 = put_int (put_int out (ti_pid threadInfo)) (ti_tid threadInfo);
     out2 \<leftarrow> put_cstr (ti_name threadInfo) out1;
     Some (0, out2)
   }"

definition ThreadInfoDeserialize :: "InStream \<Rightarrow> (int \<times> ThreadInfo \<times> InStream) option" where
  "ThreadInfoDeserialize in0 = do {
     (pid, in1) \<leftarrow> get_int 0 in0;
     (tid, in2) \<leftarrow> get_int 0 in1;
     (name, in3) \<leftarrow> Deserialize_string [] in2;
     Some (0, \<lparr>ti_pid = pid, ti_tid = tid, ti_name = snd (dup_string name)\<rparr>, in3)
   }"

subsection \<open>Kernel parameters: a linked list of keys and values\<close>

record KernelDataNode =
  kn_key :: "string option"
  kn_value :: "string option"

record KernelData =
  kd_len :: c_int
  kernelData :: "KernelDataNode list"

definition KernelDataNode_put :: "KernelDataNode \<Rightarrow> OutStream \<Rightarrow> OutStream option" where
  "KernelDataNode_put node out = do { out1 \<leftarrow> put_cstr (kn_key node) out; put_cstr (kn_value node) out1 }"

definition KernelDataSerialize :: "KernelData \<Rightarrow> OutStream \<Rightarrow> (int \<times> OutStream) option" where
  "KernelDataSerialize tmpData out = do {
     out1 \<leftarrow> ser_for KernelDataNode_put (count_of (kd_len tmpData)) (kernelData tmpData)
               (put_int out (kd_len tmpData));
     Some (0, out1)
   }"

definition KernelDataNode_get :: "InStream \<Rightarrow> (KernelDataNode \<times> InStream) option" where
  "KernelDataNode_get in0 = do {
     (key, in1) \<leftarrow> Deserialize_string [] in0;
     (value, in2) \<leftarrow> Deserialize_string [] in1;
     Some (\<lparr>kn_key = snd (dup_string key), kn_value = snd (dup_string value)\<rparr>, in2)
   }"

text \<open>New nodes are linked at the tail; \<open>strcpy_s\<close> into a buffer of the right size succeeds.\<close>

definition KernelDataDeserialize :: "InStream \<Rightarrow> (int \<times> KernelData \<times> InStream) option" where
  "KernelDataDeserialize in0 = do {
     (len, in1) \<leftarrow> get_int 0 in0;
     (nodes, in2) \<leftarrow> de_for KernelDataNode_get (count_of len) in1;
     Some (0, \<lparr>kd_len = len, kernelData = nodes\<rparr>, in2)
   }"

subsection \<open>Tables of command output\<close>

definition ATTR_MAX_LENGTH :: nat where
  "ATTR_MAX_LENGTH = 20"

record CommandData =
  itemLen :: c_int
  attrLen :: c_int
  itemAttr :: "string option list"
  items :: "string option list list"

definition CommandDataSerialize :: "CommandData \<Rightarrow> OutStream \<Rightarrow> (int \<times> OutStream) option" where
  "CommandDataSerialize commandData out = do {
     let out1 = put_int (put_int out (attrLen commandData)) (itemLen commandData);
     out2 \<leftarrow> ser_for put_cstr (count_of (attrLen commandData)) (itemAttr commandData) out1;
     out3 \<leftarrow> ser_for (ser_for put_cstr (count_of (attrLen commandData)))
               (count_of (itemLen commandData)) (items commandData) out2;
     Some (0, out3)
   }"

definition get_cptr :: "InStream \<Rightarrow> (string option \<times> InStream) option" where
  "get_cptr in0 = do { (s, in1) \<leftarrow> Deserialize_string [] in0; Some (snd (dup_string s), in1) }"

text \<open>
  The arrays of pointers hold \<open>ATTR_MAX_LENGTH\<close> entries, and the number of attributes read
  from the stream is not compared with it: the first write past the end is undefined.
  Entries past the number of attributes are never read; they are null in the model.
\<close>

definition fill_attrs :: "nat \<Rightarrow> string option list \<Rightarrow> string option list option" where
  "fill_attrs n xs = (if ATTR_MAX_LENGTH < n then None else Some (xs @ replicate (ATTR_MAX_LENGTH - n) None))"

definition get_attrs :: "nat \<Rightarrow> InStream \<Rightarrow> (string option list \<times> InStream) option" where
  "get_attrs n in0 = do {
     (xs, in1) \<leftarrow> de_for get_cptr n in0;
     ys \<leftarrow> fill_attrs n xs;
     Some (ys, in1)
   }"

definition CommandDataDeserialize :: "InStream \<Rightarrow> (int \<times> CommandData \<times> InStream) option" where
  "CommandDataDeserialize in0 = do {
     (al, in1) \<leftarrow> get_int 0 in0;
     (il, in2) \<leftarrow> get_int 0 in1;
     (attrs, in3) \<leftarrow> get_attrs (count_of al) in2;
     _ \<leftarrow> new_array in3 (sint il);
     (rows, in4) \<leftarrow> de_for (get_attrs (count_of al)) (count_of il) in3;
     Some (0, \<lparr>itemLen = il, attrLen = al, itemAttr = attrs, items = rows\<rparr>, in4)
   }"

subsection \<open>Analysis reports and results\<close>

record AnalysisReport =
  reportType :: c_int
  ar_data :: "string option"

definition AnalysisDataSerialize :: "AnalysisReport \<Rightarrow> OutStream \<Rightarrow> (int \<times> OutStream) option" where
  "AnalysisDataSerialize analysisData out = do {
     out1 \<leftarrow> put_cstr (ar_data analysisData) (put_int out (reportType analysisData));
     Some (0, out1)
   }"

definition AnalysisDataDeserialize :: "InStream \<Rightarrow> (int \<times> AnalysisReport \<times> InStream) option" where
  "AnalysisDataDeserialize in0 = do {
     (ty, in1) \<leftarrow> get_int 0 in0;
     (tmpData, in2) \<leftarrow> Deserialize_string [] in1;
     Some (0, \<lparr>reportType = ty, ar_data = snd (dup_string tmpData)\<rparr>, in2)
   }"

record DataItem =
  di_type :: c_int
  metric :: "string option"
  di_value :: "string option"
  di_extra :: "string option"

record SuggestionItem =
  suggestion :: "string option"
  si_opt :: "string option"
  si_extra :: "string option"

record AnalysisResultItem =
  dataItemLen :: c_int
  dataItem :: "DataItem list"
  conclusion :: "string option"
  suggestionItem :: SuggestionItem

definition DataItem_put :: "DataItem \<Rightarrow> OutStream \<Rightarrow> OutStream option" where
  "DataItem_put d out = do {
     out1 \<leftarrow> put_cstr (metric d) (put_int out (di_type d));
     out2 \<leftarrow> put_cstr (di_value d) out1;
     put_cstr (di_extra d) out2
   }"

definition AnalysisResultItemSerialize :: "AnalysisResultItem \<Rightarrow> OutStream \<Rightarrow> (int \<times> OutStream) option" where
  "AnalysisResultItemSerialize r out = do {
     out1 \<leftarrow> ser_for DataItem_put (count_of (dataItemLen r)) (dataItem r) (put_int out (dataItemLen r));
     out2 \<leftarrow> put_cstr (conclusion r) out1;
     out3 \<leftarrow> put_cstr (suggestion (suggestionItem r)) out2;
     out4 \<leftarrow> put_cstr (si_opt (suggestionItem r)) out3;
     out5 \<leftarrow> put_cstr (si_extra (suggestionItem r)) out4;
     Some (0, out5)
   }"

definition DataItem_get :: "InStream \<Rightarrow> (DataItem \<times> InStream) option" where
  "DataItem_get in0 = do {
     (ty, in1) \<leftarrow> get_int 0 in0;
     (m, in2) \<leftarrow> Deserialize_string [] in1;
     (v, in3) \<leftarrow> Deserialize_string [] in2;
     (e, in4) \<leftarrow> Deserialize_string [] in3;
     Some (\<lparr>di_type = ty, metric = snd (dup_string m), di_value = snd (dup_string v),
            di_extra = snd (dup_string e)\<rparr>, in4)
   }"

definition DataItemDeserialize :: "c_int \<Rightarrow> InStream \<Rightarrow> (DataItem list \<times> InStream) option" where
  "DataItemDeserialize len in0 = de_for DataItem_get (count_of len) in0"

definition SuggestionItemDeserialize :: "InStream \<Rightarrow> (SuggestionItem \<times> InStream) option" where
  "SuggestionItemDeserialize in0 = do {
     (s, in1) \<leftarrow> Deserialize_string [] in0;
     (opt, in2) \<leftarrow> Deserialize_string [] in1;
     (e, in3) \<leftarrow> Deserialize_string [] in2;
     Some (\<lparr>suggestion = snd (dup_string s), si_opt = snd (dup_string opt),
            si_extra = snd (dup_string e)\<rparr>, in3)
   }"

definition AnalysisResultItemDeserialize :: "InStream \<Rightarrow> (int \<times> AnalysisResultItem \<times> InStream) option" where
  "AnalysisResultItemDeserialize in0 = do {
     (len, in1) \<leftarrow> get_int 0 in0;
     _ \<leftarrow> new_array in1 (sint len);
     (ds, in2) \<leftarrow> DataItemDeserialize len in1;
     (c, in3) \<leftarrow> Deserialize_string [] in2;
     (si, in4) \<leftarrow> SuggestionItemDeserialize in3;
     Some (0, \<lparr>dataItemLen = len, dataItem = ds, conclusion = snd (dup_string c), suggestionItem = si\<rparr>, in4)
   }"

subsection \<open>The environment of the machine\<close>

record EnvStaticInfo =
  numaNum :: c_int
  es_cpuNumConfig :: c_int
  pageSize :: c_int
  pageMask :: u64
  cpu2Node :: "c_int list"
  numaDistance :: "c_int list list"

definition EnvStaticDataSerialize :: "EnvStaticInfo \<Rightarrow> OutStream \<Rightarrow> (int \<times> OutStream) option" where
  "EnvStaticDataSerialize envData out = do {
     let out1 = put_u64 (put_int (put_int (put_int out (numaNum envData)) (es_cpuNumConfig envData))
                  (pageSize envData)) (pageMask envData);
     out2 \<leftarrow> ser_for put_int_o (count_of (es_cpuNumConfig envData)) (cpu2Node envData) out1;
     out3 \<leftarrow> ser_for (ser_for put_int_o (count_of (numaNum envData))) (count_of (numaNum envData))
               (numaDistance envData) out2;
     Some (0, out3)
   }"

definition EnvStaticDataDeserialize :: "InStream \<Rightarrow> (int \<times> EnvStaticInfo \<times> InStream) option" where
  "EnvStaticDataDeserialize in0 = do {
     (nn, in1) \<leftarrow> get_int 0 in0;
     (nc, in2) \<leftarrow> get_int 0 in1;
     (ps, in3) \<leftarrow> get_int 0 in2;
     (pm, in4) \<leftarrow> get_u64 0 in3;
     _ \<leftarrow> new_array in4 (sint nc);
     (c2n, in5) \<leftarrow> de_for (get_int 0) (count_of nc) in4;
     _ \<leftarrow> new_array in5 (sint nn);
     (dist, in6) \<leftarrow> de_for (de_for (get_int 0) (count_of nn)) (count_of nn) in5;
     Some (0, \<lparr>numaNum = nn, es_cpuNumConfig = nc, pageSize = ps, pageMask = pm,
               cpu2Node = c2n, numaDistance = dist\<rparr>, in6)
   }"

record EnvRealTimeInfo =
  er_dataReady :: c_int
  er_cpuNumConfig :: c_int
  cpuNumOnline :: c_int
  cpuOnLine :: "c_int list"

definition EnvRealTimeDataSerialize :: "EnvRealTimeInfo \<Rightarrow> OutStream \<Rightarrow> (int \<times> OutStream) option" where
  "EnvRealTimeDataSerialize envData out = do {
     let out1 = put_int (put_int (put_int out (er_dataReady envData)) (er_cpuNumConfig envData))
                  (cpuNumOnline envData);
     out2 \<leftarrow> ser_for put_int_o (count_of (er_cpuNumConfig envData)) (cpuOnLine envData) out1;
     Some (0, out2)
   }"

definition EnvRealTimeDataDeserialize :: "InStream \<Rightarrow> (int \<times> EnvRealTimeInfo \<times> InStream) option" where
  "EnvRealTimeDataDeserialize in0 = do {
     (rdy, in1) \<leftarrow> get_int 0 in0;
     (nc, in2) \<leftarrow> get_int 0 in1;
     (no, in3) \<leftarrow> get_int 0 in2;
     _ \<leftarrow> new_array in3 (sint nc);
     (ol, in4) \<leftarrow> de_for (get_int 0) (count_of nc) in3;
     Some (0, \<lparr>er_dataReady = rdy, er_cpuNumConfig = nc, cpuNumOnline = no, cpuOnLine = ol\<rparr>, in4)
   }"

definition CPU_UTIL_TYPE_MAX :: nat where
  "CPU_UTIL_TYPE_MAX = 11"

record EnvCpuUtilParam =
  ec_dataReady :: c_int
  ec_cpuNumConfig :: c_int
  times :: "u64 list list"

text \<open>One more row than there are processors: the last one is the whole system.\<close>

definition util_rows :: "c_int \<Rightarrow> int" where
  "util_rows n = sint n + 1"

definition EnvCpuUtilSerialize :: "EnvCpuUtilParam \<Rightarrow> OutStream \<Rightarrow> (int \<times> OutStream) option" where
  "EnvCpuUtilSerialize envData out = do {
     let out1 = put_int (put_int out (ec_dataReady envData)) (ec_cpuNumConfig envData);
     out2 \<leftarrow> ser_for (ser_for put_u64_o CPU_UTIL_TYPE_MAX) (nat (util_rows (ec_cpuNumConfig envData)))
               (times envData) out1;
     Some (0, out2)
   }"

definition EnvCpuUtilDeserialize :: "InStream \<Rightarrow> (int \<times> EnvCpuUtilParam \<times> InStream) option" where
  "EnvCpuUtilDeserialize in0 = do {
     (rdy, in1) \<leftarrow> get_int 0 in0;
     (nc, in2) \<leftarrow> get_int 0 in1;
     _ \<leftarrow> new_array in2 (util_rows nc);
     (rows, in3) \<leftarrow> de_for (de_for (get_u64 0) CPU_UTIL_TYPE_MAX) (nat (util_rows nc)) in2;
     Some (0, \<lparr>ec_dataReady = rdy, ec_cpuNumConfig = nc, times = rows\<rparr>, in3)
   }"

subsection \<open>Network interfaces\<close>

definition IFNAMSIZ :: nat where
  "IFNAMSIZ = 16"

definition OE_NET_DRIVER_DATA_LEN :: nat where
  "OE_NET_DRIVER_DATA_LEN = 32"

record NetworkInterfaceData =
  ni_name :: string
  operstate :: c_int
  ifindex :: c_int

record NetIntfBaseDataList =
  nb_count :: c_int
  nb_base :: "NetworkInterfaceData list"

definition NetIntf_put :: "NetworkInterfaceData \<Rightarrow> OutStream \<Rightarrow> OutStream option" where
  "NetIntf_put d out = Some (put_int (put_int (Serialize_string out (ni_name d)) (operstate d)) (ifindex d))"

definition NetIntfBaseSerialize :: "NetIntfBaseDataList \<Rightarrow> OutStream \<Rightarrow> (int \<times> OutStream) option" where
  "NetIntfBaseSerialize netData out = do {
     out1 \<leftarrow> ser_for NetIntf_put (count_of (nb_count netData)) (nb_base netData) (put_int out (nb_count netData));
     Some (0, out1)
   }"

definition NetIntf_get :: "InStream \<Rightarrow> (NetworkInterfaceData \<times> InStream) option" where
  "NetIntf_get in0 = do {
     (name, in1) \<leftarrow> Deserialize_string [] in0;
     (st, in2) \<leftarrow> get_int 0 in1;
     (ix, in3) \<leftarrow> get_int 0 in2;
     Some (\<lparr>ni_name = CopyStringToCharArray name IFNAMSIZ, operstate = st, ifindex = ix\<rparr>, in3)
   }"

definition NetIntfBaseDeserialize :: "InStream \<Rightarrow> (int \<times> NetIntfBaseDataList \<times> InStream) option" where
  "NetIntfBaseDeserialize in0 = do {
     (cnt, in1) \<leftarrow> get_int 0 in0;
     if sint cnt \<le> 0 then Some (0, \<lparr>nb_count = cnt, nb_base = []\<rparr>, in1)
     else do {
       _ \<leftarrow> new_array in1 (sint cnt);
       (ds, in2) \<leftarrow> de_for NetIntf_get (count_of cnt) in1;
       Some (0, \<lparr>nb_count = cnt, nb_base = ds\<rparr>, in2)
     }
   }"

record NetworkInterfaceDriverData =
  nd_name :: string
  nd_driver :: string
  nd_version :: string
  fwVersion :: string
  busInfo :: string

record NetIntfDriverDataList =
  nd_count :: c_int
  nd_list :: "NetworkInterfaceDriverData list"

definition NetDriver_put :: "NetworkInterfaceDriverData \<Rightarrow> OutStream \<Rightarrow> OutStream option" where
  "NetDriver_put d out =
     Some (Serialize_string (Serialize_string (Serialize_string (Serialize_string
            (Serialize_string out (nd_name d)) (nd_driver d)) (nd_version d)) (fwVersion d)) (busInfo d))"

definition NetIntfDriverSerialize :: "NetIntfDriverDataList \<Rightarrow> OutStream \<Rightarrow> (int \<times> OutStream) option" where
  "NetIntfDriverSerialize netData out = do {
     out1 \<leftarrow> ser_for NetDriver_put (count_of (nd_count netData)) (nd_list netData) (put_int out (nd_count netData));
     Some (0, out1)
   }"

definition NetDriver_get :: "InStream \<Rightarrow> (NetworkInterfaceDriverData \<times> InStream) option" where
  "NetDriver_get in0 = do {
     (name, in1) \<leftarrow> Deserialize_string [] in0;
     (driver, in2) \<leftarrow> Deserialize_string [] in1;
     (version, in3) \<leftarrow> Deserialize_string [] in2;
     (fw, in4) \<leftarrow> Deserialize_string [] in3;
     (bus, in5) \<leftarrow> Deserialize_string [] in4;
     Some (\<lparr>nd_name = CopyStringToCharArray name IFNAMSIZ,
            nd_driver = CopyStringToCharArray driver OE_NET_DRIVER_DATA_LEN,
            nd_version = CopyStringToCharArray version OE_NET_DRIVER_DATA_LEN,
            fwVersion = CopyStringToCharArray fw OE_NET_DRIVER_DATA_LEN,
            busInfo = CopyStringToCharArray bus OE_NET_DRIVER_DATA_LEN\<rparr>, in5)
   }"

definition NetIntfDriverDeserialize :: "InStream \<Rightarrow> (int \<times> NetIntfDriverDataList \<times> InStream) option" where
  "NetIntfDriverDeserialize in0 = do {
     (cnt, in1) \<leftarrow> get_int 0 in0;
     if sint cnt \<le> 0 then Some (0, \<lparr>nd_count = cnt, nd_list = []\<rparr>, in1)
     else do {
       _ \<leftarrow> new_array in1 (sint cnt);
       (ds, in2) \<leftarrow> de_for NetDriver_get (count_of cnt) in1;
       Some (0, \<lparr>nd_count = cnt, nd_list = ds\<rparr>, in2)
     }
   }"

record ProcessNetAffinityData =
  pid1 :: c_uint
  pid2 :: c_uint
  level :: u64

record ProcessNetAffinityDataList =
  na_count :: c_int
  affinity :: "ProcessNetAffinityData list"

definition NetAffi_put :: "ProcessNetAffinityData \<Rightarrow> OutStream \<Rightarrow> OutStream option" where
  "NetAffi_put d out = Some (put_u64 (put_int (put_int out (pid1 d)) (pid2 d)) (level d))"

definition NetLocalAffiSerialize :: "ProcessNetAffinityDataList \<Rightarrow> OutStream \<Rightarrow> (int \<times> OutStream) option" where
  "NetLocalAffiSerialize netData out = do {
     out1 \<leftarrow> ser_for NetAffi_put (count_of (na_count netData)) (affinity netData) (put_int out (na_count netData));
     Some (0, out1)
   }"

definition NetAffi_get :: "InStream \<Rightarrow> (ProcessNetAffinityData \<times> InStream) option" where
  "NetAffi_get in0 = do {
     (p1, in1) \<leftarrow> get_int 0 in0;
     (p2, in2) \<leftarrow> get_int 0 in1;
     (lv, in3) \<leftarrow> get_u64 0 in2;
     Some (\<lparr>pid1 = p1, pid2 = p2, level = lv\<rparr>, in3)
   }"

definition NetLocalAffiDeserialize :: "InStream \<Rightarrow> (int \<times> ProcessNetAffinityDataList \<times> InStream) option" where
  "NetLocalAffiDeserialize in0 = do {
     (cnt, in1) \<leftarrow> get_int 0 in0;
     if sint cnt \<le> 0 then Some (0, \<lparr>na_count = cnt, affinity = []\<rparr>, in1)
     else do {
       _ \<leftarrow> new_array in1 (sint cnt);
       (ds, in2) \<leftarrow> de_for NetAffi_get (count_of cnt) in1;
       Some (0, \<lparr>na_count = cnt, affinity = ds\<rparr>, in2)
     }
   }"

record NetHirqTuneDebugInfo =
  nh_log :: "string option"

definition NetHirqTuneDebugSerialize :: "NetHirqTuneDebugInfo \<Rightarrow> OutStream \<Rightarrow> (int \<times> OutStream) option" where
  "NetHirqTuneDebugSerialize logData out = do { out1 \<leftarrow> put_cstr (nh_log logData) out; Some (0, out1) }"

definition NetHirqTuneDebugDeserialize :: "InStream \<Rightarrow> (int \<times> NetHirqTuneDebugInfo \<times> InStream) option" where
  "NetHirqTuneDebugDeserialize in0 = do {
     (log, in1) \<leftarrow> Deserialize_string [] in0;
     Some (0, \<lparr>nh_log = snd (dup_string log)\<rparr>, in1)
   }"

record NetThreadQueData =
  nq_pid :: c_uint
  nq_tid :: c_uint
  nq_ifIndex :: c_int
  queueId :: c_int
  nq_times :: c_uint
  nq_len :: u64

record NetThreadQueDataList =
  intervalMs :: u64
  nq_count :: c_int
  queData :: "NetThreadQueData list"

definition NetQue_put :: "NetThreadQueData \<Rightarrow> OutStream \<Rightarrow> OutStream option" where
  "NetQue_put d out =
     Some (put_u64 (put_int (put_int (put_int (put_int (put_int out (nq_pid d)) (nq_tid d))
            (nq_ifIndex d)) (queueId d)) (nq_times d)) (nq_len d))"

definition NetThreadQueSerialize :: "NetThreadQueDataList \<Rightarrow> OutStream \<Rightarrow> (int \<times> OutStream) option" where
  "NetThreadQueSerialize netData out = do {
     let out1 = put_int (put_u64 out (intervalMs netData)) (nq_count netData);
     out2 \<leftarrow> ser_for NetQue_put (count_of (nq_count netData)) (queData netData) out1;
     Some (0, out2)
   }"

definition NetQue_get :: "InStream \<Rightarrow> (NetThreadQueData \<times> InStream) option" where
  "NetQue_get in0 = do {
     (p, in1) \<leftarrow> get_int 0 in0;
     (t, in2) \<leftarrow> get_int 0 in1;
     (ix, in3) \<leftarrow> get_int 0 in2;
     (q, in4) \<leftarrow> get_int 0 in3;
     (n, in5) \<leftarrow> get_int 0 in4;
     (l, in6) \<leftarrow> get_u64 0 in5;
     Some (\<lparr>nq_pid = p, nq_tid = t, nq_ifIndex = ix, queueId = q, nq_times = n, nq_len = l\<rparr>, in6)
   }"

definition NetThreadQueDeserialize :: "InStream \<Rightarrow> (int \<times> NetThreadQueDataList \<times> InStream) option" where
  "NetThreadQueDeserialize in0 = do {
     (iv, in1) \<leftarrow> get_u64 0 in0;
     (cnt, in2) \<leftarrow> get_int 0 in1;
     if sint cnt \<le> 0 then Some (0, \<lparr>intervalMs = iv, nq_count = cnt, queData = []\<rparr>, in2)
     else do {
       _ \<leftarrow> new_array in2 (sint cnt);
       (ds, in3) \<leftarrow> de_for NetQue_get (count_of cnt) in2;
       Some (0, \<lparr>intervalMs = iv, nq_count = cnt, queData = ds\<rparr>, in3)
     }
   }"

end
