(* ===== verification/Data_Roundtrip.thy ===== *)
theory Data_Roundtrip
  imports Data_Codecs
begin

text \<open>
  Every pair of functions of \<open>Data_Codecs\<close> is a codec: one interpretation of the locale
  \<open>data_codec\<close> per structure, with the well-formedness the structure needs.
\<close>

subsection \<open>Every registered type round-trips\<close>

locale data_codec =
  fixes ser :: "'a \<Rightarrow> OutStream \<Rightarrow> (int \<times> OutStream) option"
    and de :: "InStream \<Rightarrow> (int \<times> 'a \<times> InStream) option"
    and bytes :: "'a \<Rightarrow> string"
    and ok :: "nat \<Rightarrow> 'a \<Rightarrow> bool"
  assumes ser_bytes: "ok mem x \<Longrightarrow> ser x out = Some (0, out @ bytes x)"
    and de_bytes: "ok mem x \<Longrightarrow> de (mk_in mem (bytes x @ rest)) = Some (0, x, mk_in mem rest)"

text \<open>The length field of a structure agrees with its array, which can be allocated.\<close>

definition len_ok :: "nat \<Rightarrow> c_int \<Rightarrow> 'a list \<Rightarrow> bool" where
  "len_ok mem n xs = (sint n = int (length xs) \<and> length xs \<le> mem)"

lemma len_okD [simp]:
  "len_ok mem n xs \<Longrightarrow> nat (sint n) = length xs"
  "len_ok mem n xs \<Longrightarrow> new_array (mk_in mem s) (sint n) = Some ()"
  "len_ok mem n xs \<Longrightarrow> sint n \<le> 0 \<longleftrightarrow> xs = []"
  by (auto simp: len_ok_def new_array_def)

definition thread_ok :: "nat \<Rightarrow> ThreadInfo \<Rightarrow> bool" where
  "thread_ok mem t = cptr_ok mem (ti_name t)"

interpretation thread_codec: data_codec ThreadInfoSerialize ThreadInfoDeserialize
  "\<lambda>t. word_bytes 4 (ti_pid t) @ word_bytes 4 (ti_tid t) @ cptr_bytes (ti_name t)" thread_ok
  by unfold_locales
    (auto simp: thread_ok_def ThreadInfoSerialize_def ThreadInfoDeserialize_def ser_rt cptr_rt)

definition node_ok :: "nat \<Rightarrow> KernelDataNode \<Rightarrow> bool" where
  "node_ok mem n = (cptr_ok mem (kn_key n) \<and> cptr_ok mem (kn_value n))"

definition kernel_ok :: "nat \<Rightarrow> KernelData \<Rightarrow> bool" where
  "kernel_ok mem k = (len_ok mem (kd_len k) (kernelData k) \<and> (\<forall>n \<in> set (kernelData k). node_ok mem n))"

interpretation node_rec: rec_codec KernelDataNode_put KernelDataNode_get
  "\<lambda>n. cptr_bytes (kn_key n) @ cptr_bytes (kn_value n)" node_ok
  by unfold_locales (auto simp: node_ok_def KernelDataNode_put_def KernelDataNode_get_def cptr_rt)

interpretation kernel_codec: data_codec KernelDataSerialize KernelDataDeserialize
  "\<lambda>k. word_bytes 4 (kd_len k) @ concat (map (\<lambda>n. cptr_bytes (kn_key n) @ cptr_bytes (kn_value n)) (kernelData k))"
  kernel_ok
  by unfold_locales
    (auto simp: kernel_ok_def KernelDataSerialize_def KernelDataDeserialize_def ser_rt
      node_rec.ser_for_bytes node_rec.de_for_bytes)

text \<open>A command table: the attribute array is full size, the used part holds C strings.\<close>

definition attrs_ok :: "nat \<Rightarrow> nat \<Rightarrow> string option list \<Rightarrow> bool" where
  "attrs_ok mem n xs =
     (n \<le> ATTR_MAX_LENGTH \<and> (\<exists>ys. length ys = n \<and> (\<forall>p \<in> set ys. cptr_ok mem p) \<and>
        xs = ys @ replicate (ATTR_MAX_LENGTH - n) None))"

definition attr_bytes :: "nat \<Rightarrow> string option list \<Rightarrow> string" where
  "attr_bytes n xs = concat (map (\<lambda>p. cptr_bytes p) (take n xs))"

definition command_ok :: "nat \<Rightarrow> CommandData \<Rightarrow> bool" where
  "command_ok mem c =
     (0 \<le> sint (attrLen c) \<and> attrs_ok mem (count_of (attrLen c)) (itemAttr c) \<and>
      len_ok mem (itemLen c) (items c) \<and> (\<forall>r \<in> set (items c). attrs_ok mem (count_of (attrLen c)) r))"

interpretation cptr_rec: rec_codec put_cstr get_cptr cptr_bytes cptr_ok
  by unfold_locales (auto simp: get_cptr_def cptr_rt)

lemma ser_for_take: "n \<le> length xs \<Longrightarrow> ser_for put n xs out = ser_for put n (take n xs) out"
  by (induction put n xs out rule: ser_for.induct) (auto intro: bind_option_cong)

interpretation attr_rec: rec_codec "ser_for put_cstr n" "get_attrs n" "attr_bytes n" "\<lambda>mem. attrs_ok mem n" for n
proof (unfold_locales, goal_cases)
  case (1 mem x out)
  then obtain ys where ys: "length ys = n" "\<forall>p \<in> set ys. cptr_ok mem p" "x = ys @ replicate (ATTR_MAX_LENGTH - n) None"
    by (auto simp: attrs_ok_def)
  then have "ser_for put_cstr n x out = ser_for put_cstr n ys out"
    by (subst ser_for_take) auto
  with ys show ?case by (simp add: attr_bytes_def cptr_rec.ser_for_bytes)
next
  case (2 mem x rest)
  then show ?case
    by (auto simp: attrs_ok_def attr_bytes_def get_attrs_def fill_attrs_def cptr_rec.de_for_bytes)
qed

interpretation command_codec: data_codec CommandDataSerialize CommandDataDeserialize
  "\<lambda>c. word_bytes 4 (attrLen c) @ word_bytes 4 (itemLen c) @ attr_bytes (count_of (attrLen c)) (itemAttr c) @
       concat (map (attr_bytes (count_of (attrLen c))) (items c))" command_ok
  by unfold_locales
    (auto simp: command_ok_def CommandDataSerialize_def CommandDataDeserialize_def ser_rt
      attr_rec.put_bytes attr_rec.get_bytes attr_rec.ser_for_bytes attr_rec.de_for_bytes)

definition report_ok :: "nat \<Rightarrow> AnalysisReport \<Rightarrow> bool" where
  "report_ok mem r = cptr_ok mem (ar_data r)"

interpretation report_codec: data_codec AnalysisDataSerialize AnalysisDataDeserialize
  "\<lambda>r. word_bytes 4 (reportType r) @ cptr_bytes (ar_data r)" report_ok
  by unfold_locales
    (auto simp: report_ok_def AnalysisDataSerialize_def AnalysisDataDeserialize_def ser_rt cptr_rt)

definition item_ok :: "nat \<Rightarrow> DataItem \<Rightarrow> bool" where
  "item_ok mem d = (cptr_ok mem (metric d) \<and> cptr_ok mem (di_value d) \<and> cptr_ok mem (di_extra d))"

definition item_bytes :: "DataItem \<Rightarrow> string" where
  "item_bytes d = word_bytes 4 (di_type d) @ cptr_bytes (metric d) @ cptr_bytes (di_value d) @ cptr_bytes (di_extra d)"

definition analysis_ok :: "nat \<Rightarrow> AnalysisResultItem \<Rightarrow> bool" where
  "analysis_ok mem r =
     (len_ok mem (dataItemLen r) (dataItem r) \<and> (\<forall>d \<in> set (dataItem r). item_ok mem d) \<and>
      cptr_ok mem (conclusion r) \<and> cptr_ok mem (suggestion (suggestionItem r)) \<and>
      cptr_ok mem (si_opt (suggestionItem r)) \<and> cptr_ok mem (si_extra (suggestionItem r)))"

interpretation item_rec: rec_codec DataItem_put DataItem_get item_bytes item_ok
  by unfold_locales (auto simp: item_ok_def item_bytes_def DataItem_put_def DataItem_get_def ser_rt cptr_rt)

interpretation analysis_codec: data_codec AnalysisResultItemSerialize AnalysisResultItemDeserialize
  "\<lambda>r. word_bytes 4 (dataItemLen r) @ concat (map item_bytes (dataItem r)) @ cptr_bytes (conclusion r) @
       cptr_bytes (suggestion (suggestionItem r)) @ cptr_bytes (si_opt (suggestionItem r)) @
       cptr_bytes (si_extra (suggestionItem r))" analysis_ok
  by unfold_locales
    (auto simp: analysis_ok_def AnalysisResultItemSerialize_def AnalysisResultItemDeserialize_def
      DataItemDeserialize_def SuggestionItemDeserialize_def ser_rt cptr_rt
      item_rec.ser_for_bytes item_rec.de_for_bytes)

definition env_static_ok :: "nat \<Rightarrow> EnvStaticInfo \<Rightarrow> bool" where
  "env_static_ok mem e =
     (len_ok mem (es_cpuNumConfig e) (cpu2Node e) \<and> len_ok mem (numaNum e) (numaDistance e) \<and>
      (\<forall>r \<in> set (numaDistance e). length r = length (numaDistance e)))"

interpretation env_static_codec: data_codec EnvStaticDataSerialize EnvStaticDataDeserialize
  "\<lambda>e. word_bytes 4 (numaNum e) @ word_bytes 4 (es_cpuNumConfig e) @ word_bytes 4 (pageSize e) @
       word_bytes 8 (pageMask e) @ concat (map (word_bytes 4) (cpu2Node e)) @
       concat (map (\<lambda>r. concat (map (word_bytes 4) r)) (numaDistance e))" env_static_ok
  by unfold_locales
    (auto simp: env_static_ok_def EnvStaticDataSerialize_def EnvStaticDataDeserialize_def ser_rt
      int_rec.ser_for_bytes int_rec.de_for_bytes int_row.row.ser_for_bytes int_row.row.de_for_bytes)

definition env_realtime_ok :: "nat \<Rightarrow> EnvRealTimeInfo \<Rightarrow> bool" where
  "env_realtime_ok mem e = len_ok mem (er_cpuNumConfig e) (cpuOnLine e)"

interpretation env_realtime_codec: data_codec EnvRealTimeDataSerialize EnvRealTimeDataDeserialize
  "\<lambda>e. word_bytes 4 (er_dataReady e) @ word_bytes 4 (er_cpuNumConfig e) @ word_bytes 4 (cpuNumOnline e) @
       concat (map (word_bytes 4) (cpuOnLine e))" env_realtime_ok
  by unfold_locales
    (auto simp: env_realtime_ok_def EnvRealTimeDataSerialize_def EnvRealTimeDataDeserialize_def ser_rt
      int_rec.ser_for_bytes int_rec.de_for_bytes)

definition env_util_ok :: "nat \<Rightarrow> EnvCpuUtilParam \<Rightarrow> bool" where
  "env_util_ok mem e =
     (sint (ec_cpuNumConfig e) + 1 = int (length (times e)) \<and> length (times e) \<le> mem \<and>
      (\<forall>r \<in> set (times e). length r = CPU_UTIL_TYPE_MAX))"

interpretation env_util_codec: data_codec EnvCpuUtilSerialize EnvCpuUtilDeserialize
  "\<lambda>e. word_bytes 4 (ec_dataReady e) @ word_bytes 4 (ec_cpuNumConfig e) @
       concat (map (\<lambda>r. concat (map (word_bytes 8) r)) (times e))" env_util_ok
  by unfold_locales
    (auto simp: env_util_ok_def EnvCpuUtilSerialize_def EnvCpuUtilDeserialize_def util_rows_def new_array_def
      ser_rt u64_row.row.ser_for_bytes u64_row.row.de_for_bytes)

definition arr_ok :: "nat \<Rightarrow> nat \<Rightarrow> string \<Rightarrow> bool" where
  "arr_ok mem sz s = (NUL \<notin> set s \<and> length s < sz \<and> str_ok mem s)"

lemma CopyString_fits [simp]: "NUL \<notin> set s \<Longrightarrow> length s < sz \<Longrightarrow> CopyStringToCharArray s sz = s"
  by (cases sz) (auto simp: CopyStringToCharArray_def)

definition intf_ok :: "nat \<Rightarrow> NetworkInterfaceData \<Rightarrow> bool" where
  "intf_ok mem d = arr_ok mem IFNAMSIZ (ni_name d)"

definition intf_bytes :: "NetworkInterfaceData \<Rightarrow> string" where
  "intf_bytes d = str_bytes (ni_name d) @ word_bytes 4 (operstate d) @ word_bytes 4 (ifindex d)"

interpretation intf_rec: rec_codec NetIntf_put NetIntf_get intf_bytes intf_ok
  by unfold_locales
    (auto simp: intf_ok_def intf_bytes_def NetIntf_put_def NetIntf_get_def ser_rt arr_ok_def)

definition net_base_ok :: "nat \<Rightarrow> NetIntfBaseDataList \<Rightarrow> bool" where
  "net_base_ok mem d = (len_ok mem (nb_count d) (nb_base d) \<and> (\<forall>x \<in> set (nb_base d). intf_ok mem x))"

interpretation net_base_codec: data_codec NetIntfBaseSerialize NetIntfBaseDeserialize
  "\<lambda>d. word_bytes 4 (nb_count d) @ concat (map intf_bytes (nb_base d))" net_base_ok
  by unfold_locales
    (auto simp: net_base_ok_def NetIntfBaseSerialize_def NetIntfBaseDeserialize_def ser_rt
      intf_rec.ser_for_bytes intf_rec.de_for_bytes)

definition driver_ok :: "nat \<Rightarrow> NetworkInterfaceDriverData \<Rightarrow> bool" where
  "driver_ok mem d =
     (arr_ok mem IFNAMSIZ (nd_name d) \<and> arr_ok mem OE_NET_DRIVER_DATA_LEN (nd_driver d) \<and>
      arr_ok mem OE_NET_DRIVER_DATA_LEN (nd_version d) \<and> arr_ok mem OE_NET_DRIVER_DATA_LEN (fwVersion d) \<and>
      arr_ok mem OE_NET_DRIVER_DATA_LEN (busInfo d))"

definition driver_bytes :: "NetworkInterfaceDriverData \<Rightarrow> string" where
  "driver_bytes d = str_bytes (nd_name d) @ str_bytes (nd_driver d) @ str_bytes (nd_version d) @
     str_bytes (fwVersion d) @ str_bytes (busInfo d)"

interpretation driver_rec: rec_codec NetDriver_put NetDriver_get driver_bytes driver_ok
  by unfold_locales
    (auto simp: driver_ok_def driver_bytes_def NetDriver_put_def NetDriver_get_def ser_rt arr_ok_def)

definition net_driver_ok :: "nat \<Rightarrow> NetIntfDriverDataList \<Rightarrow> bool" where
  "net_driver_ok mem d = (len_ok mem (nd_count d) (nd_list d) \<and> (\<forall>x \<in> set (nd_list d). driver_ok mem x))"

interpretation net_driver_codec: data_codec NetIntfDriverSerialize NetIntfDriverDeserialize
  "\<lambda>d. word_bytes 4 (nd_count d) @ concat (map driver_bytes (nd_list d))" net_driver_ok
  by unfold_locales
    (auto simp: net_driver_ok_def NetIntfDriverSerialize_def NetIntfDriverDeserialize_def ser_rt
      driver_rec.ser_for_bytes driver_rec.de_for_bytes)

definition affi_bytes :: "ProcessNetAffinityData \<Rightarrow> string" where
  "affi_bytes d = word_bytes 4 (pid1 d) @ word_bytes 4 (pid2 d) @ word_bytes 8 (level d)"

interpretation affi_rec: rec_codec NetAffi_put NetAffi_get affi_bytes "\<lambda>mem d. True"
  by unfold_locales (auto simp: affi_bytes_def NetAffi_put_def NetAffi_get_def ser_rt)

definition net_affi_ok :: "nat \<Rightarrow> ProcessNetAffinityDataList \<Rightarrow> bool" where
  "net_affi_ok mem d = len_ok mem (na_count d) (affinity d)"

interpretation net_affi_codec: data_codec NetLocalAffiSerialize NetLocalAffiDeserialize
  "\<lambda>d. word_bytes 4 (na_count d) @ concat (map affi_bytes (affinity d))" net_affi_ok
  by unfold_locales
    (auto simp: net_affi_ok_def NetLocalAffiSerialize_def NetLocalAffiDeserialize_def ser_rt
      affi_rec.ser_for_bytes affi_rec.de_for_bytes)

definition debug_ok :: "nat \<Rightarrow> NetHirqTuneDebugInfo \<Rightarrow> bool" where
  "debug_ok mem d = cptr_ok mem (nh_log d)"

interpretation debug_codec: data_codec NetHirqTuneDebugSerialize NetHirqTuneDebugDeserialize
  "\<lambda>d. cptr_bytes (nh_log d)" debug_ok
  by unfold_locales
    (auto simp: debug_ok_def NetHirqTuneDebugSerialize_def NetHirqTuneDebugDeserialize_def cptr_rt)

definition que_bytes :: "NetThreadQueData \<Rightarrow> string" where
  "que_bytes d = word_bytes 4 (nq_pid d) @ word_bytes 4 (nq_tid d) @ word_bytes 4 (nq_ifIndex d) @
     word_bytes 4 (queueId d) @ word_bytes 4 (nq_times d) @ word_bytes 8 (nq_len d)"

interpretation que_rec: rec_codec NetQue_put NetQue_get que_bytes "\<lambda>mem d. True"
  by unfold_locales (auto simp: que_bytes_def NetQue_put_def NetQue_get_def ser_rt)

definition net_que_ok :: "nat \<Rightarrow> NetThreadQueDataList \<Rightarrow> bool" where
  "net_que_ok mem d = len_ok mem (nq_count d) (queData d)"

interpretation net_que_codec: data_codec NetThreadQueSerialize NetThreadQueDeserialize
  "\<lambda>d. word_bytes 8 (intervalMs d) @ word_bytes 4 (nq_count d) @ concat (map que_bytes (queData d))" net_que_ok
  by unfold_locales
    (auto simp: net_que_ok_def NetThreadQueSerialize_def NetThreadQueDeserialize_def ser_rt
      que_rec.ser_for_bytes que_rec.de_for_bytes)

end
