(* ===== verification/Data_Register.thy ===== *)
theory Data_Register
  imports Data_Roundtrip
begin

text \<open>
  The register of \<^verbatim>\<open>src/common/data_register.cpp\<close>: which serializer belongs to which topic,
  and the serialization of a \<open>CTopic\<close>, a \<open>Result\<close> and a whole \<open>DataList\<close> through it.
  A \<open>void *\<close> is a value of the sum \<open>reg_data\<close>; a cast to the wrong structure is
  undefined. The structures of the performance counters belong to a library that is not
  part of the repository: their entries are an argument of \<open>InitRegisterData\<close>, and their
  data are opaque. The functions that free memory are not modelled.
\<close>

datatype reg_data =
    RD_Thread ThreadInfo
  | RD_Kernel KernelData
  | RD_Command CommandData
  | RD_EnvStatic EnvStaticInfo
  | RD_EnvRealTime EnvRealTimeInfo
  | RD_EnvCpuUtil EnvCpuUtilParam
  | RD_NetBase NetIntfBaseDataList
  | RD_NetDriver NetIntfDriverDataList
  | RD_NetAffi ProcessNetAffinityDataList
  | RD_NetDebug NetHirqTuneDebugInfo
  | RD_NetQue NetThreadQueDataList
  | RD_Analysis AnalysisResultItem
  | RD_Opaque string

type_synonym SerializeFunc = "reg_data \<Rightarrow> OutStream \<Rightarrow> (int \<times> OutStream) option"
type_synonym DeserializeFunc = "InStream \<Rightarrow> (int \<times> reg_data \<times> InStream) option"

record RegisterEntry =
  se :: SerializeFunc
  de :: DeserializeFunc

type_synonym Register = "(string \<times> RegisterEntry) list"

text \<open>An entry for one structure: the cast on the way in, the constructor on the way out.\<close>

definition mk_entry ::
  "(reg_data \<Rightarrow> 'a option) \<Rightarrow> ('a \<Rightarrow> reg_data) \<Rightarrow> ('a \<Rightarrow> OutStream \<Rightarrow> (int \<times> OutStream) option) \<Rightarrow>
   (InStream \<Rightarrow> (int \<times> 'a \<times> InStream) option) \<Rightarrow> RegisterEntry" where
  "mk_entry cast con s d =
     \<lparr>se = (\<lambda>x out. do { v \<leftarrow> cast x; s v out }),
      de = (\<lambda>is. do { (ret, v, is1) \<leftarrow> d is; Some (ret, con v, is1) })\<rparr>"

definition thread_entry :: RegisterEntry where
  "thread_entry = mk_entry (\<lambda>x. case x of RD_Thread v \<Rightarrow> Some v | _ \<Rightarrow> None) RD_Thread
     ThreadInfoSerialize ThreadInfoDeserialize"

definition kernel_entry :: RegisterEntry where
  "kernel_entry = mk_entry (\<lambda>x. case x of RD_Kernel v \<Rightarrow> Some v | _ \<Rightarrow> None) RD_Kernel
     KernelDataSerialize KernelDataDeserialize"

definition command_entry :: RegisterEntry where
  "command_entry = mk_entry (\<lambda>x. case x of RD_Command v \<Rightarrow> Some v | _ \<Rightarrow> None) RD_Command
     CommandDataSerialize CommandDataDeserialize"

definition env_static_entry :: RegisterEntry where
  "env_static_entry = mk_entry (\<lambda>x. case x of RD_EnvStatic v \<Rightarrow> Some v | _ \<Rightarrow> None) RD_EnvStatic
     EnvStaticDataSerialize EnvStaticDataDeserialize"

definition env_realtime_entry :: RegisterEntry where
  "env_realtime_entry = mk_entry (\<lambda>x. case x of RD_EnvRealTime v \<Rightarrow> Some v | _ \<Rightarrow> None) RD_EnvRealTime
     EnvRealTimeDataSerialize EnvRealTimeDataDeserialize"

definition env_util_entry :: RegisterEntry where
  "env_util_entry = mk_entry (\<lambda>x. case x of RD_EnvCpuUtil v \<Rightarrow> Some v | _ \<Rightarrow> None) RD_EnvCpuUtil
     EnvCpuUtilSerialize EnvCpuUtilDeserialize"

definition net_base_entry :: RegisterEntry where
  "net_base_entry = mk_entry (\<lambda>x. case x of RD_NetBase v \<Rightarrow> Some v | _ \<Rightarrow> None) RD_NetBase
     NetIntfBaseSerialize NetIntfBaseDeserialize"

definition net_driver_entry :: RegisterEntry where
  "net_driver_entry = mk_entry (\<lambda>x. case x of RD_NetDriver v \<Rightarrow> Some v | _ \<Rightarrow> None) RD_NetDriver
     NetIntfDriverSerialize NetIntfDriverDeserialize"

definition net_affi_entry :: RegisterEntry where
  "net_affi_entry = mk_entry (\<lambda>x. case x of RD_NetAffi v \<Rightarrow> Some v | _ \<Rightarrow> None) RD_NetAffi
     NetLocalAffiSerialize NetLocalAffiDeserialize"

definition net_debug_entry :: RegisterEntry where
  "net_debug_entry = mk_entry (\<lambda>x. case x of RD_NetDebug v \<Rightarrow> Some v | _ \<Rightarrow> None) RD_NetDebug
     NetHirqTuneDebugSerialize NetHirqTuneDebugDeserialize"

definition net_que_entry :: RegisterEntry where
  "net_que_entry = mk_entry (\<lambda>x. case x of RD_NetQue v \<Rightarrow> Some v | _ \<Rightarrow> None) RD_NetQue
     NetThreadQueSerialize NetThreadQueDeserialize"

definition analysis_entry :: RegisterEntry where
  "analysis_entry = mk_entry (\<lambda>x. case x of RD_Analysis v \<Rightarrow> Some v | _ \<Rightarrow> None) RD_Analysis
     AnalysisResultItemSerialize AnalysisResultItemDeserialize"

subsection \<open>The register\<close>

definition RegisterData :: "Register \<Rightarrow> string \<times> RegisterEntry \<Rightarrow> Register" where
  "RegisterData reg e = AList.update (fst e) (snd e) reg"

datatype arch = X86 | ARM | RISCV

definition arm_or_riscv :: "arch \<Rightarrow> bool" where
  "arm_or_riscv a = (a = ARM \<or> a = RISCV)"

text \<open>The calls of \<open>RegisterData\<close> in their order; \<open>pmu\<close> are the four entries of the counters.\<close>

definition register_calls :: "arch \<Rightarrow> (string \<times> RegisterEntry) list \<Rightarrow> (string \<times> RegisterEntry) list" where
  "register_calls a pmu =
     (if a = RISCV then [(''hwprobe_analysis'', analysis_entry)] else []) @
     (if arm_or_riscv a then
        pmu @
        [(''smc_d_analysis'', analysis_entry), (''hugepage_analysis'', analysis_entry),
         (''dynamic_smt_analysis'', analysis_entry), (''xcall_analysis'', analysis_entry),
         (''net_hirq_analysis'', analysis_entry), (''numa_analysis'', analysis_entry),
         (''microarch_tidnocmp_analysis'', analysis_entry),
         (''docker_coordination_burst_analysis'', analysis_entry)]
      else []) @
     [(''thread_collector'', thread_entry), (''kernel_config'', kernel_entry),
      (''thread_scenario'', thread_entry), (''command_collector'', command_entry),
      (''env_info_collector::static'', env_static_entry),
      (''env_info_collector::realtime'', env_realtime_entry),
      (''env_info_collector::cpu_util'', env_util_entry),
      (''net_interface_info'' @ ''::'' @ ''base'', net_base_entry),
      (''net_interface_info'' @ ''::'' @ ''driver'', net_driver_entry),
      (''net_interface_info'' @ ''::'' @ ''local_net_affinity'', net_affi_entry),
      (''net_hard_irq_tune'' @ ''::'' @ ''net_hardirq_tune_debug_info'', net_debug_entry),
      (''net_interface_info'' @ ''::'' @ ''net_thread_que_data'', net_que_entry)]"

definition InitRegisterData :: "arch \<Rightarrow> (string \<times> RegisterEntry) list \<Rightarrow> Register \<Rightarrow> Register" where
  "InitRegisterData a pmu reg = foldl RegisterData reg (register_calls a pmu)"

definition GetDataSerialize :: "Register \<Rightarrow> string \<Rightarrow> SerializeFunc option" where
  "GetDataSerialize reg name = map_option se (map_of reg name)"

definition GetDataDeserialize :: "Register \<Rightarrow> string \<Rightarrow> DeserializeFunc option" where
  "GetDataDeserialize reg name = map_option de (map_of reg name)"

subsection \<open>Topics, results and data lists\<close>

record CTopic =
  ct_instance :: "string option"
  ct_topic :: "string option"
  ct_params :: "string option"

record DataList =
  dl_topic :: CTopic
  dl_len :: u64
  dl_data :: "reg_data list"

definition TopicSerialize :: "CTopic \<Rightarrow> OutStream \<Rightarrow> (int \<times> OutStream) option" where
  "TopicSerialize topic out = do {
     i \<leftarrow> std_string (ct_instance topic);
     t \<leftarrow> std_string (ct_topic topic);
     p \<leftarrow> std_string (ct_params topic);
     Some (0, Serialize_string (Serialize_string (Serialize_string out i) t) p)
   }"

definition TopicDeserialize :: "InStream \<Rightarrow> (int \<times> CTopic \<times> InStream) option" where
  "TopicDeserialize in0 = do {
     (i, in1) \<leftarrow> Deserialize_string [] in0;
     (t, in2) \<leftarrow> Deserialize_string [] in1;
     (p, in3) \<leftarrow> Deserialize_string [] in2;
     let (r1, ci) = dup_string i; (r2, ct) = dup_string t; (r3, cp) = dup_string p in
     Some (if r1 \<noteq> 0 then r1 else if r2 \<noteq> 0 then r2 else if r3 \<noteq> 0 then r3 else 0,
           \<lparr>ct_instance = ci, ct_topic = ct, ct_params = cp\<rparr>, in3)
   }"

text \<open>\<open>ResultDeserialize\<close> fills a C structure; the code is the caller's when the stream is short.\<close>

definition ResultDeserialize :: "c_int \<Rightarrow> InStream \<Rightarrow> (int \<times> Result \<times> InStream) option" where
  "ResultDeserialize old in0 = do {
     (c, in1) \<leftarrow> get_int old in0;
     (msg, in2) \<leftarrow> Deserialize_string [] in1;
     let (ret, p) = dup_string msg in
     Some (ret, \<lparr>code = c, payload = the p\<rparr>, in2)
   }"

text \<open>The entry of a topic: under \<open>instance::topic\<close>, else under the instance alone.\<close>

definition two_step :: "(string \<Rightarrow> 'f option) \<Rightarrow> string \<Rightarrow> string \<Rightarrow> 'f option" where
  "two_step lookup i t = (case lookup (Concat [i, t] ''::'') of Some f \<Rightarrow> Some f | None \<Rightarrow> lookup i)"

fun ser_data :: "SerializeFunc option \<Rightarrow> nat \<Rightarrow> reg_data list \<Rightarrow> OutStream \<Rightarrow> OutStream option" where
  "ser_data f 0 ds out = Some out"
| "ser_data f (Suc n) [] out = None"
| "ser_data f (Suc n) (d # ds) out = do { func \<leftarrow> f; (ret, out1) \<leftarrow> func d out; ser_data f n ds out1 }"

text \<open>
  A topic without an entry gives a null function, and calling it is undefined as soon as
  the list is not empty.
\<close>

definition DataListSerialize :: "Register \<Rightarrow> DataList \<Rightarrow> OutStream \<Rightarrow> (int \<times> OutStream) option" where
  "DataListSerialize reg dataList out = do {
     (ret, out1) \<leftarrow> TopicSerialize (dl_topic dataList) out;
     i \<leftarrow> std_string (ct_instance (dl_topic dataList));
     t \<leftarrow> std_string (ct_topic (dl_topic dataList));
     out2 \<leftarrow> ser_data (two_step (GetDataSerialize reg) i t) (unat (dl_len dataList)) (dl_data dataList)
               (put_u64 out1 (dl_len dataList));
     Some (0, out2)
   }"

fun de_data :: "DeserializeFunc option \<Rightarrow> nat \<Rightarrow> InStream \<Rightarrow> (int \<times> reg_data list \<times> InStream) option" where
  "de_data f 0 is = Some (0, [], is)"
| "de_data f (Suc n) is = do {
     func \<leftarrow> f;
     (ret, d, is1) \<leftarrow> func is;
     if ret \<noteq> 0 then Some (ret, [d], is1)
     else do { (ret', ds, is2) \<leftarrow> de_data f n is1; Some (ret', d # ds, is2) }
   }"

text \<open>\<open>junk\<close> is what the uninitialized \<open>size\<close> holds when the stream ends before it.\<close>

definition DataListDeserialize :: "Register \<Rightarrow> u64 \<Rightarrow> InStream \<Rightarrow> (int \<times> DataList \<times> InStream) option" where
  "DataListDeserialize reg junk in0 = do {
     (_, topic, in1) \<leftarrow> TopicDeserialize in0;
     (sz, in2) \<leftarrow> get_u64 junk in1;
     _ \<leftarrow> new_array in2 (uint sz);
     i \<leftarrow> ct_instance topic;
     t \<leftarrow> ct_topic topic;
     (ret, ds, in3) \<leftarrow> de_data (two_step (GetDataDeserialize reg) i t) (unat sz) in2;
     Some (ret, \<lparr>dl_topic = topic, dl_len = sz, dl_data = ds\<rparr>, in3)
   }"

subsection \<open>The contract of an entry\<close>

text \<open>An entry serves a class of data when what it writes it can read back.\<close>

definition entry_serves :: "nat \<Rightarrow> RegisterEntry \<Rightarrow> reg_data \<Rightarrow> bool" where
  "entry_serves mem e d \<longleftrightarrow>
     (\<exists>bs. (\<forall>out. se e d out = Some (0, out @ bs)) \<and>
           (\<forall>rest. de e (mk_in mem (bs @ rest)) = Some (0, d, mk_in mem rest)))"

context data_codec
begin

lemma entry_serves_mk:
  "ok mem v \<Longrightarrow> cast (con v) = Some v \<Longrightarrow> entry_serves mem (mk_entry cast con ser de) (con v)"
  unfolding entry_serves_def mk_entry_def
  by (rule exI [of _ "bytes v"]) (simp add: ser_bytes de_bytes)

end

text \<open>Which data an entry of the standard register is for, and what they must satisfy.\<close>

fun data_ok :: "nat \<Rightarrow> reg_data \<Rightarrow> bool" where
  "data_ok mem (RD_Thread v) = thread_ok mem v"
| "data_ok mem (RD_Kernel v) = kernel_ok mem v"
| "data_ok mem (RD_Command v) = command_ok mem v"
| "data_ok mem (RD_EnvStatic v) = env_static_ok mem v"
| "data_ok mem (RD_EnvRealTime v) = env_realtime_ok mem v"
| "data_ok mem (RD_EnvCpuUtil v) = env_util_ok mem v"
| "data_ok mem (RD_NetBase v) = net_base_ok mem v"
| "data_ok mem (RD_NetDriver v) = net_driver_ok mem v"
| "data_ok mem (RD_NetAffi v) = net_affi_ok mem v"
| "data_ok mem (RD_NetDebug v) = debug_ok mem v"
| "data_ok mem (RD_NetQue v) = net_que_ok mem v"
| "data_ok mem (RD_Analysis v) = analysis_ok mem v"
| "data_ok mem (RD_Opaque v) = False"

fun std_entry :: "reg_data \<Rightarrow> RegisterEntry option" where
  "std_entry (RD_Thread v) = Some thread_entry"
| "std_entry (RD_Kernel v) = Some kernel_entry"
| "std_entry (RD_Command v) = Some command_entry"
| "std_entry (RD_EnvStatic v) = Some env_static_entry"
| "std_entry (RD_EnvRealTime v) = Some env_realtime_entry"
| "std_entry (RD_EnvCpuUtil v) = Some env_util_entry"
| "std_entry (RD_NetBase v) = Some net_base_entry"
| "std_entry (RD_NetDriver v) = Some net_driver_entry"
| "std_entry (RD_NetAffi v) = Some net_affi_entry"
| "std_entry (RD_NetDebug v) = Some net_debug_entry"
| "std_entry (RD_NetQue v) = Some net_que_entry"
| "std_entry (RD_Analysis v) = Some analysis_entry"
| "std_entry (RD_Opaque v) = None"

lemma std_entry_serves: "data_ok mem d \<Longrightarrow> std_entry d = Some e \<Longrightarrow> entry_serves mem e d"
  by (cases d)
    (auto simp: thread_entry_def kernel_entry_def command_entry_def env_static_entry_def
      env_realtime_entry_def env_util_entry_def net_base_entry_def net_driver_entry_def
      net_affi_entry_def net_debug_entry_def net_que_entry_def analysis_entry_def
      intro!: thread_codec.entry_serves_mk kernel_codec.entry_serves_mk command_codec.entry_serves_mk
        env_static_codec.entry_serves_mk env_realtime_codec.entry_serves_mk env_util_codec.entry_serves_mk
        net_base_codec.entry_serves_mk net_driver_codec.entry_serves_mk net_affi_codec.entry_serves_mk
        debug_codec.entry_serves_mk net_que_codec.entry_serves_mk analysis_codec.entry_serves_mk)

lemma data_rt:
  assumes "\<forall>d \<in> set ds. entry_serves mem e d" "n = length ds"
  shows "\<exists>bs. (\<forall>out. ser_data (Some (se e)) n ds out = Some (out @ bs)) \<and>
    (\<forall>rest. de_data (Some (de e)) n (mk_in mem (bs @ rest)) = Some (0, ds, mk_in mem rest))"
  using assms
proof (induction ds arbitrary: n)
  case Nil
  then show ?case by (intro exI [of _ "[]"]) simp
next
  case (Cons d ds)
  obtain b where b: "\<forall>out. se e d out = Some (0, out @ b)"
      "\<forall>rest. de e (mk_in mem (b @ rest)) = Some (0, d, mk_in mem rest)"
    using Cons.prems by (auto simp: entry_serves_def)
  obtain bs where "\<forall>out. ser_data (Some (se e)) (length ds) ds out = Some (out @ bs)"
      "\<forall>rest. de_data (Some (de e)) (length ds) (mk_in mem (bs @ rest)) = Some (0, ds, mk_in mem rest)"
    using Cons.IH [of "length ds"] Cons.prems by auto
  with b Cons.prems show ?case by (intro exI [of _ "b @ bs"]) simp
qed

definition ctopic_ok :: "nat \<Rightarrow> CTopic \<Rightarrow> bool" where
  "ctopic_ok mem t = (cptr_ok mem (ct_instance t) \<and> cptr_ok mem (ct_topic t) \<and> cptr_ok mem (ct_params t))"

definition datalist_entry :: "Register \<Rightarrow> CTopic \<Rightarrow> RegisterEntry option" where
  "datalist_entry reg t = two_step (map_of reg) (the (ct_instance t)) (the (ct_topic t))"

lemma two_step_map: "two_step (\<lambda>n. map_option g (m n)) i t = map_option g (two_step m i t)"
  by (simp add: two_step_def split: option.splits)

lemma two_step_get:
  "two_step (GetDataSerialize reg) i t = map_option se (two_step (map_of reg) i t)"
  "two_step (GetDataDeserialize reg) i t = map_option de (two_step (map_of reg) i t)"
  by (simp_all add: GetDataSerialize_def [abs_def] GetDataDeserialize_def [abs_def] two_step_map)

lemma topic_ser_bytes:
  "ctopic_ok mem t \<Longrightarrow> TopicSerialize t out =
     Some (0, out @ cptr_bytes (ct_instance t) @ cptr_bytes (ct_topic t) @ cptr_bytes (ct_params t))"
  by (auto simp: ctopic_ok_def cptr_ok_def TopicSerialize_def std_string_def ser_rt split: option.splits)

lemma topic_de_bytes:
  "ctopic_ok mem t \<Longrightarrow>
   TopicDeserialize (mk_in mem (cptr_bytes (ct_instance t) @ cptr_bytes (ct_topic t) @ cptr_bytes (ct_params t) @ rest)) =
     Some (0, t, mk_in mem rest)"
  by (auto simp: ctopic_ok_def TopicDeserialize_def cptr_rt)

lemma ctopic_some: "ctopic_ok mem t \<Longrightarrow> \<exists>i n. ct_instance t = Some i \<and> ct_topic t = Some n"
  by (auto simp: ctopic_ok_def cptr_ok_def split: option.splits)

lemma ctopic_sel:
  "ctopic_ok mem t \<Longrightarrow> std_string (ct_instance t) = Some (the (ct_instance t))"
  "ctopic_ok mem t \<Longrightarrow> std_string (ct_topic t) = Some (the (ct_topic t))"
  by (auto simp: ctopic_ok_def cptr_ok_def std_string_def split: option.splits)

definition datalist_ok :: "nat \<Rightarrow> Register \<Rightarrow> DataList \<Rightarrow> bool" where
  "datalist_ok mem reg dl =
     (ctopic_ok mem (dl_topic dl) \<and> unat (dl_len dl) = length (dl_data dl) \<and> length (dl_data dl) \<le> mem \<and>
      (\<forall>d \<in> set (dl_data dl). data_ok mem d \<and> std_entry d \<noteq> None \<and> std_entry d = datalist_entry reg (dl_topic dl)))"

lemma datalist_rt:
  assumes ok: "datalist_ok mem reg dl"
  shows "\<exists>bs. (\<forall>out. DataListSerialize reg dl out = Some (0, out @ bs)) \<and>
    (\<forall>rest. DataListDeserialize reg junk (mk_in mem (bs @ rest)) = Some (0, dl, mk_in mem rest))"
proof -
  let ?t = "dl_topic dl" and ?n = "unat (dl_len dl)" and ?ds = "dl_data dl"
  have t: "ctopic_ok mem ?t" and n: "?n = length ?ds" "length ?ds \<le> mem"
    using ok by (auto simp: datalist_ok_def)
  let ?e = "datalist_entry reg ?t"
  have data: "\<exists>bs. (\<forall>out. ser_data (map_option se ?e) ?n ?ds out = Some (out @ bs)) \<and>
    (\<forall>rest. de_data (map_option de ?e) ?n (mk_in mem (bs @ rest)) = Some (0, ?ds, mk_in mem rest))"
  proof (cases ?ds)
    case Nil
    with n show ?thesis by (intro exI [of _ "[]"]) simp
  next
    case (Cons d ds)
    then obtain e where e: "?e = Some e"
      using ok by (auto simp: datalist_ok_def)
    then have "\<forall>d \<in> set ?ds. entry_serves mem e d"
      using ok by (auto simp: datalist_ok_def intro: std_entry_serves)
    with data_rt [of ?ds mem e ?n] n e show ?thesis by simp
  qed
  then obtain bs where bs: "\<And>out. ser_data (map_option se ?e) ?n ?ds out = Some (out @ bs)"
    "\<And>rest. de_data (map_option de ?e) ?n (mk_in mem (bs @ rest)) = Some (0, ?ds, mk_in mem rest)"
    by blast
  have "uint (dl_len dl) \<le> int mem"
    using n by (metis of_nat_le_iff uint_nat)
  then have arr: "new_array (mk_in mem s) (uint (dl_len dl)) = Some ()" for s
    by (simp add: new_array_def not_less)
  let ?bs = "cptr_bytes (ct_instance ?t) @ cptr_bytes (ct_topic ?t) @ cptr_bytes (ct_params ?t) @
    word_bytes 8 (dl_len dl) @ bs"
  have "DataListSerialize reg dl out = Some (0, out @ ?bs)" for out
    using bs(1) t by (simp add: DataListSerialize_def topic_ser_bytes ctopic_sel two_step_get
      datalist_entry_def ser_rt)
  moreover have "DataListDeserialize reg junk (mk_in mem (?bs @ rest)) = Some (0, dl, mk_in mem rest)" for rest
    using bs(2) ctopic_some [OF t]
    by (auto simp add: DataListDeserialize_def topic_de_bytes [OF t] two_step_get arr
      datalist_entry_def ser_rt)
  ultimately show ?thesis by blast
qed

subsection \<open>Properties\<close>

text \<open>C23. A data list of a topic other than the performance counters \<open>pmu_*\<close> (whose structures come
  from the headers of libkperf and are not modelled), whose topic has an entry in the register
  and whose data are of the type of that entry, survives the wire: the serializer succeeds, and the deserializer rebuilds the
  topic, the length and every datum, leaving the bytes after it in the stream.\<close>

theorem DataList_roundtrip:
  assumes "datalist_ok mem reg dl"
  shows "\<exists>bs. DataListSerialize reg dl out = Some (0, out @ bs) \<and>
    DataListDeserialize reg junk (mk_in mem (bs @ rest)) = Some (0, dl, mk_in mem rest)"
  using datalist_rt [OF assms] by blast

theorem DataList_roundtrip_witness:
  "\<exists>bs. DataListSerialize (InitRegisterData ARM [] [])
      \<lparr>dl_topic = \<lparr>ct_instance = Some ''thread_collector'', ct_topic = Some ''t'', ct_params = Some []\<rparr>,
       dl_len = 1, dl_data = [RD_Thread \<lparr>ti_pid = 7, ti_tid = 8, ti_name = Some ''x''\<rparr>]\<rparr> [] = Some (0, [] @ bs) \<and>
    DataListDeserialize (InitRegisterData ARM [] []) 5 (mk_in 1000 (bs @ ''z'')) =
      Some (0, \<lparr>dl_topic = \<lparr>ct_instance = Some ''thread_collector'', ct_topic = Some ''t'', ct_params = Some []\<rparr>,
       dl_len = 1, dl_data = [RD_Thread \<lparr>ti_pid = 7, ti_tid = 8, ti_name = Some ''x''\<rparr>]\<rparr>, mk_in 1000 ''z'')"
proof (rule DataList_roundtrip)
  have "map_of (InitRegisterData ARM [] []) ''thread_collector'' = Some thread_entry"
    "map_of (InitRegisterData ARM [] []) (Concat [''thread_collector'', ''t''] ''::'') = None"
    by (simp_all add: InitRegisterData_def register_calls_def RegisterData_def arm_or_riscv_def)
  then show "datalist_ok 1000 (InitRegisterData ARM [] [])
      \<lparr>dl_topic = \<lparr>ct_instance = Some ''thread_collector'', ct_topic = Some ''t'', ct_params = Some []\<rparr>,
       dl_len = 1, dl_data = [RD_Thread \<lparr>ti_pid = 7, ti_tid = 8, ti_name = Some ''x''\<rparr>]\<rparr>"
    by (simp add: datalist_ok_def ctopic_ok_def cptr_ok_def thread_ok_def datalist_entry_def two_step_def NUL_def)
qed

text \<open>Sending or receiving a data list that is not empty on a topic without an entry calls a
  null function: both directions are undefined, whatever the data are. A peer that may publish
  can stop the process this way.\<close>

lemma DataList_unregistered_crash:
  assumes "ctopic_ok mem t" "datalist_entry reg t = None" "0 < dl_len dl" "dl_topic dl = t"
  shows "DataListSerialize reg dl out = None \<and>
    DataListDeserialize reg junk (mk_in mem (cptr_bytes (ct_instance t) @ cptr_bytes (ct_topic t) @
      cptr_bytes (ct_params t) @ word_bytes 8 (dl_len dl) @ rest)) = None"
proof -
  obtain k where k: "unat (dl_len dl) = Suc k"
    using assms(3) by (cases "unat (dl_len dl)") (auto simp: unat_eq_0 word_gt_0_no)
  have "ser_data None (Suc k) (dl_data dl) o' = None" for o'
    by (cases "dl_data dl") simp_all
  with assms k have "DataListSerialize reg dl out = None"
    by (simp add: DataListSerialize_def topic_ser_bytes ctopic_sel two_step_get datalist_entry_def)
  moreover have "DataListDeserialize reg junk (mk_in mem (cptr_bytes (ct_instance t) @ cptr_bytes (ct_topic t) @
      cptr_bytes (ct_params t) @ word_bytes 8 (dl_len dl) @ rest)) = None"
    using assms k ctopic_some [OF assms(1)]
    by (auto simp add: DataListDeserialize_def topic_de_bytes two_step_get datalist_entry_def ser_rt
      split: bind_split)
  ultimately show ?thesis by blast
qed

theorem DataList_unregistered_crash_witness:
  "DataListSerialize [] \<lparr>dl_topic = \<lparr>ct_instance = Some ''a'', ct_topic = Some ''b'', ct_params = Some []\<rparr>,
     dl_len = 1, dl_data = []\<rparr> [] = None"
  using DataList_unregistered_crash [of 9 "\<lparr>ct_instance = Some ''a'', ct_topic = Some ''b'', ct_params = Some []\<rparr>" "[]"
    "\<lparr>dl_topic = \<lparr>ct_instance = Some ''a'', ct_topic = Some ''b'', ct_params = Some []\<rparr>, dl_len = 1, dl_data = []\<rparr>" "[]" 0 "[]"]
  by (simp add: ctopic_ok_def cptr_ok_def datalist_entry_def two_step_def NUL_def)

end
