(* ===== verification/Safe_Queue.thy ===== *)
theory Safe_Queue
  imports Prelude
begin

text \<open>
  \<open>SafeQueue\<close> of \<^verbatim>\<open>include/oeaware/safe_queue.h\<close>: a deque behind a mutex. Here each method is
  one step on the deque, which is how the other components use it; \<open>Queue_Threads\<close> has the
  methods statement by statement, run by any number of threads, and proves that every
  interleaving of them is a sequence of the whole methods below.
  The contract of a queue is the locale \<open>fifo_queue\<close>; the model is its instance \<open>sq\<close>.
\<close>

type_synonym 'a SafeQueue = "'a list"

definition Push :: "'a SafeQueue \<Rightarrow> 'a \<Rightarrow> 'a SafeQueue" where
  "Push queue value = queue @ [value]"

text \<open>\<open>None\<close> is the return value false: the output argument is not written.\<close>

fun TryPop :: "'a SafeQueue \<Rightarrow> ('a \<times> 'a SafeQueue) option" where
  "TryPop [] = None"
| "TryPop (value # queue) = Some (value, queue)"

definition Empty :: "'a SafeQueue \<Rightarrow> bool" where
  "Empty queue = (queue = [])"

text \<open>
  The waiting methods release the lock until the queue has an element: \<open>arrived\<close> is what
  other threads push meanwhile. \<open>WaitAndPop\<close> is \<open>None\<close> as long as it blocks.
  \<open>WaitTimeAndPop\<close> returns false when nothing arrives before the timeout.
\<close>

definition after_wait :: "'a SafeQueue \<Rightarrow> 'a list \<Rightarrow> 'a SafeQueue" where
  "after_wait queue arrived = (if Empty queue then foldl Push queue arrived else queue)"

definition WaitAndPop :: "'a SafeQueue \<Rightarrow> 'a list \<Rightarrow> ('a \<times> 'a SafeQueue) option" where
  "WaitAndPop queue arrived =
     (case after_wait queue arrived of [] \<Rightarrow> None | v # q \<Rightarrow> Some (v, q))"

definition WaitTimeAndPop :: "'a SafeQueue \<Rightarrow> 'a list \<Rightarrow> 'a option \<times> 'a SafeQueue" where
  "WaitTimeAndPop queue arrived =
     (case after_wait queue arrived of [] \<Rightarrow> (None, []) | v # q \<Rightarrow> (Some v, q))"

subsection \<open>The contract of a queue\<close>

datatype 'a queue_op = QPush 'a | QPop

locale fifo_queue =
  fixes push :: "'q \<Rightarrow> 'a \<Rightarrow> 'q"
    and pop :: "'q \<Rightarrow> ('a \<times> 'q) option"
    and contents :: "'q \<Rightarrow> 'a list"
  assumes contents_push: "contents (push q x) = contents q @ [x]"
    and pop_empty: "contents q = [] \<Longrightarrow> pop q = None"
    and pop_head: "contents q = x # xs \<Longrightarrow> \<exists>q'. pop q = Some (x, q') \<and> contents q' = xs"
begin

text \<open>A run: the queue at the end and the values the pops returned.\<close>

fun run :: "'q \<Rightarrow> 'a queue_op list \<Rightarrow> 'q \<times> 'a list" where
  "run q [] = (q, [])"
| "run q (QPush x # ops) = run (push q x) ops"
| "run q (QPop # ops) = (case pop q of None \<Rightarrow> run q ops
     | Some (x, q') \<Rightarrow> (let (q'', xs) = run q' ops in (q'', x # xs)))"

fun pushed :: "'a queue_op list \<Rightarrow> 'a list" where
  "pushed [] = []"
| "pushed (QPush x # ops) = x # pushed ops"
| "pushed (QPop # ops) = pushed ops"

lemma run_contents:
  "run q ops = (q', out) \<Longrightarrow> out @ contents q' = contents q @ pushed ops"
proof (induction q ops arbitrary: q' out rule: run.induct)
  case (1 q)
  then show ?case by simp
next
  case (2 q x ops)
  then show ?case by (simp add: contents_push)
next
  case (3 q ops)
  show ?case
  proof (cases "contents q")
    case Nil
    with 3 show ?thesis by (simp add: pop_empty)
  next
    case (Cons x xs)
    then obtain q1 where "pop q = Some (x, q1)" "contents q1 = xs"
      using pop_head by blast
    with 3 Cons show ?thesis by (auto split: prod.splits)
  qed
qed

end

interpretation sq: fifo_queue Push TryPop "\<lambda>q. q"
  by unfold_locales (auto simp: Push_def)

lemma after_wait_eq: "after_wait q arrived = (if q = [] then arrived else q)"
proof -
  have "foldl Push q arrived = q @ arrived" for q
    by (induction arrived arbitrary: q) (auto simp: Push_def)
  then show ?thesis by (simp add: after_wait_def Empty_def)
qed

text \<open>A waiting pop never misses a message that is there or arrives in time: it returns the
  oldest one, and gives up (or stays blocked) exactly when the queue is empty and nothing came.\<close>

lemma WaitTimeAndPop_spec:
  "WaitTimeAndPop q arrived = (case TryPop (if q = [] then arrived else q) of
     None \<Rightarrow> (None, []) | Some (v, q') \<Rightarrow> (Some v, q')) \<and>
   WaitAndPop q arrived = TryPop (if q = [] then arrived else q)"
  by (cases q; cases arrived) (simp_all add: WaitTimeAndPop_def WaitAndPop_def after_wait_eq)

end
