(* ===== verification/Plugin_Store.thy ===== *)
theory Plugin_Store
  imports Data_Register Safe_Queue
begin

text \<open>
  Plugins and their instances: \<^verbatim>\<open>include/oeaware/interface.h\<close>,
  \<^verbatim>\<open>include/oeaware/instance_run_message.h\<close>, \<^verbatim>\<open>src/plugin_mgr/plugin.h\<close>, \<open>plugin.cpp\<close> and
  \<^verbatim>\<open>memory_store.h\<close>.

  \<open>Interface\<close> is an abstract class: its virtual methods are fields of the record, functions on
  the private state \<open>'p\<close> of the plugin, which also return the messages the method pushed to
  the queue of the scheduler. An \<open>Instance\<close> is shared by the store, its plugin and the run
  queue, so instances live in a heap and the others hold references into it; a null or
  dangling reference is \<open>None\<close>.
\<close>

unbundle bit_operations_syntax

subsection \<open>Messages to the scheduler\<close>

datatype RunType =
    RunENABLED | RunDISABLED | RunDISABLED_FORCE | RunSUBSCRIBE | RunUNSUBSCRIBE | RunUNSUBSCRIBE_SDK
  | RunPUBLISH_DATA | RunPUBLISH | RunSHUTDOWN

text \<open>
  \<open>irm_dataList\<close> is \<open>None\<close> where the structure was never filled. \<open>awaited\<close> marks the message
  whose pointer the plugin manager keeps to wait on; it has no influence on the scheduler.
\<close>

record InstanceRunMessage =
  irm_type :: RunType
  irm_payload :: "string list"
  irm_result :: Result
  irm_dataList :: "DataList option"
  isFree :: bool
  finish :: bool
  awaited :: bool

definition mk_message :: "Result \<Rightarrow> RunType \<Rightarrow> string list \<Rightarrow> InstanceRunMessage" where
  "mk_message unset ty ps =
     \<lparr>irm_type = ty, irm_payload = ps, irm_result = unset, irm_dataList = None, isFree = True,
      finish = False, awaited = True\<rparr>"

definition NotifyOne :: "InstanceRunMessage \<Rightarrow> InstanceRunMessage" where
  "NotifyOne msg = msg\<lparr>finish := True\<rparr>"

subsection \<open>Interfaces and instances\<close>

definition TUNE :: int where
  "TUNE = 16"

definition SCENARIO :: int where
  "SCENARIO = 8"

definition RUN_ONCE :: int where
  "RUN_ONCE = 2"

type_synonym msgs = "InstanceRunMessage list"

record 'p Interface =
  if_name :: string
  if_supportTopics :: "Topic list"
  priority :: int
  if_type :: int
  period :: int
  v_OpenTopic :: "Topic \<Rightarrow> 'p \<Rightarrow> Result \<times> 'p \<times> msgs"
  v_CloseTopic :: "Topic \<Rightarrow> 'p \<Rightarrow> 'p \<times> msgs"
  v_UpdateData :: "DataList \<Rightarrow> 'p \<Rightarrow> 'p \<times> msgs"
  v_Enable :: "string \<Rightarrow> 'p \<Rightarrow> Result \<times> 'p \<times> msgs"
  v_Disable :: "'p \<Rightarrow> 'p \<times> msgs"
  v_Run :: "'p \<Rightarrow> 'p \<times> msgs"

text \<open>What the protected helpers of the base class push: a subscription under the own name.\<close>

definition Interface_Subscribe :: "'p Interface \<Rightarrow> Result \<Rightarrow> Topic \<Rightarrow> Result \<times> msgs" where
  "Interface_Subscribe ifc unset topic =
     (\<lparr>code = OK, payload = []\<rparr>, [(mk_message unset RunSUBSCRIBE [GetType topic, if_name ifc])\<lparr>awaited := False\<rparr>])"

definition Interface_Unsubscribe :: "'p Interface \<Rightarrow> Result \<Rightarrow> Topic \<Rightarrow> Result \<times> msgs" where
  "Interface_Unsubscribe ifc unset topic =
     (\<lparr>code = OK, payload = []\<rparr>, [(mk_message unset RunUNSUBSCRIBE [GetType topic, if_name ifc])\<lparr>awaited := False\<rparr>])"

definition Interface_Publish :: "Result \<Rightarrow> DataList \<Rightarrow> bool \<Rightarrow> msgs option" where
  "Interface_Publish unset dataList free = do {
     i \<leftarrow> std_string (ct_instance (dl_topic dataList));
     t \<leftarrow> std_string (ct_topic (dl_topic dataList));
     p \<leftarrow> std_string (ct_params (dl_topic dataList));
     let topic = \<lparr>instanceName = i, topicName = t, params = p\<rparr> in
     Some [(mk_message unset RunPUBLISH_DATA [GetType topic])
             \<lparr>awaited := False, isFree := free, irm_dataList := Some dataList\<rparr>]
   }"

record 'p Instance =
  ins_name :: string
  pluginName :: string
  ins_state :: bool
  enabled :: bool
  enableCnt :: nat
  supportTopics :: "(string \<times> Topic) list"
  interface :: "'p Interface"
  priv :: 'p
  openTopics :: "string list"

type_synonym ref = nat
type_synonym 'p heap = "'p Instance list"

abbreviation deref :: "'p heap \<Rightarrow> ref \<Rightarrow> 'p Instance option" where
  "deref \<equiv> nth_opt"

definition GetInfo :: "'p Instance \<Rightarrow> string" where
  "GetInfo i =
     (let stateText = (if ins_state i then ''available'' else ''unavailable'');
          runText = (if enabled i then ''running'' else ''close'')
      in ins_name i @ ''('' @ stateText @ '', '' @ runText @ '', count: '' @ to_string (int (enableCnt i)) @ '')'')"

definition GetRun :: "'p Instance \<Rightarrow> string" where
  "GetRun i = (let runText = (if enabled i then ''running'' else ''close'')
     in ins_name i @ '' ('' @ runText @ '')'')"

definition OpenTopic :: "Topic \<Rightarrow> 'p Instance \<Rightarrow> Result \<times> 'p Instance \<times> msgs" where
  "OpenTopic topic i =
     (case v_OpenTopic (interface i) topic (priv i) of (ret, p, ms) \<Rightarrow>
      let i1 = i\<lparr>priv := p\<rparr> in
      (ret, if code ret = OK then i1\<lparr>openTopics := List.insert (GetType topic) (openTopics i1)\<rparr> else i1, ms))"

definition CloseTopic :: "Topic \<Rightarrow> 'p Instance \<Rightarrow> 'p Instance \<times> msgs" where
  "CloseTopic topic i =
     (case v_CloseTopic (interface i) topic (priv i) of (p, ms) \<Rightarrow>
      (i\<lparr>priv := p, openTopics := removeAll (GetType topic) (openTopics i)\<rparr>, ms))"

text \<open>\<open>Disable\<close> closes every open topic in the plugin and keeps \<open>openTopics\<close> as it is.\<close>

fun close_all :: "string list \<Rightarrow> 'p Instance \<Rightarrow> ('p Instance \<times> msgs) option" where
  "close_all [] i = Some (i, [])"
| "close_all (type # types) i = do {
     topic \<leftarrow> GetTopicFromType type;
     (case v_CloseTopic (interface i) topic (priv i) of (p, ms) \<Rightarrow> do {
       (i1, ms1) \<leftarrow> close_all types (i\<lparr>priv := p\<rparr>);
       Some (i1, ms @ ms1)
     })
   }"

definition Disable :: "'p Instance \<Rightarrow> ('p Instance \<times> msgs) option" where
  "Disable i = do {
     (i1, ms) \<leftarrow> close_all (openTopics i) i;
     (case v_Disable (interface i1) (priv i1) of (p, ms1) \<Rightarrow> Some (i1\<lparr>priv := p\<rparr>, ms @ ms1))
   }"

subsection \<open>Plugins\<close>

record Plugin =
  pl_name :: string
  pl_instances :: "ref list"
  handler :: bool

text \<open>
  What the dynamic linker finds at a path: nothing, a library without \<open>GetInstance\<close>, or the
  interfaces (with their initial state) that \<open>GetInstance\<close> returns.
\<close>

datatype 'p library = NoLibrary | NoSymbol | Provides "('p Interface \<times> 'p) list"

definition new_instance :: "string \<Rightarrow> 'p Interface \<times> 'p \<Rightarrow> 'p Instance" where
  "new_instance plugin ip =
     \<lparr>ins_name = if_name (fst ip), pluginName = plugin, ins_state = True, enabled = False, enableCnt = 0,
      supportTopics = foldl (\<lambda>m t. AList.update (topicName t) t m) [] (if_supportTopics (fst ip)),
      interface = fst ip, priv = snd ip, openTopics = []\<rparr>"

fun SaveInstance :: "('p Interface \<times> 'p) list \<Rightarrow> 'p heap \<Rightarrow> Plugin \<Rightarrow> 'p heap \<times> Plugin" where
  "SaveInstance [] h plugin = (h, plugin)"
| "SaveInstance (ip # ips) h plugin =
     SaveInstance ips (h @ [new_instance (pl_name plugin) ip])
       (plugin\<lparr>pl_instances := pl_instances plugin @ [length h]\<rparr>)"

definition LoadDlInstance :: "'p library \<Rightarrow> int \<times> ('p Interface \<times> 'p) list" where
  "LoadDlInstance lib = (case lib of Provides ips \<Rightarrow> (0, ips) | _ \<Rightarrow> (-1, []))"

definition LoadInstance :: "'p library \<Rightarrow> 'p heap \<Rightarrow> Plugin \<Rightarrow> bool \<times> 'p heap \<times> Plugin" where
  "LoadInstance lib h plugin =
     (case LoadDlInstance lib of (ret, interfaceList) \<Rightarrow>
      if ret < 0 then (False, h, plugin) else (True, SaveInstance interfaceList h plugin))"

definition Load :: "(string \<Rightarrow> 'p library) \<Rightarrow> string \<Rightarrow> 'p heap \<Rightarrow> Plugin \<Rightarrow> int \<times> 'p heap \<times> Plugin" where
  "Load dlopen dl_path h plugin =
     (case dlopen dl_path of
        NoLibrary \<Rightarrow> (-1, h, plugin\<lparr>handler := False\<rparr>)
      | lib \<Rightarrow> (case LoadInstance lib h (plugin\<lparr>handler := True\<rparr>) of (ok, h1, plugin1) \<Rightarrow>
          if \<not> ok then (-1, h1, plugin1) else (0, h1, plugin1)))"

subsection \<open>The store\<close>

record MemoryStore =
  instances :: "(string \<times> ref) list"
  plugins :: "(string \<times> Plugin) list"

definition AddPlugin :: "string \<Rightarrow> Plugin \<Rightarrow> MemoryStore \<Rightarrow> MemoryStore" where
  "AddPlugin n plugin ms = ms\<lparr>plugins := al_insert n plugin (plugins ms)\<rparr>"

definition put_instance :: "string \<Rightarrow> ref \<Rightarrow> MemoryStore \<Rightarrow> MemoryStore" where
  "put_instance n r ms = ms\<lparr>instances := al_insert n r (instances ms)\<rparr>"

definition AddInstance :: "'p heap \<Rightarrow> ref \<Rightarrow> MemoryStore \<Rightarrow> MemoryStore option" where
  "AddInstance h r ms = do { i \<leftarrow> deref h r; Some (put_instance (ins_name i) r ms) }"

definition IsPluginExist :: "string \<Rightarrow> MemoryStore \<Rightarrow> bool" where
  "IsPluginExist n ms = al_count (plugins ms) n"

definition IsInstanceExist :: "string \<Rightarrow> MemoryStore \<Rightarrow> bool" where
  "IsInstanceExist n ms = al_count (instances ms) n"

text \<open>\<open>None\<close> is \<open>nullptr\<close>.\<close>

definition GetPlugin :: "string \<Rightarrow> MemoryStore \<Rightarrow> Plugin option" where
  "GetPlugin n ms = (if \<not> al_count (plugins ms) n then None else map_of (plugins ms) n)"

definition GetInstance :: "string \<Rightarrow> MemoryStore \<Rightarrow> ref option" where
  "GetInstance n ms = (if \<not> al_count (instances ms) n then None else map_of (instances ms) n)"

definition DeletePlugin :: "string \<Rightarrow> MemoryStore \<Rightarrow> MemoryStore" where
  "DeletePlugin n ms = ms\<lparr>plugins := AList.delete n (plugins ms)\<rparr>"

definition DeleteInstance :: "string \<Rightarrow> MemoryStore \<Rightarrow> MemoryStore" where
  "DeleteInstance n ms = ms\<lparr>instances := AList.delete n (instances ms)\<rparr>"

definition GetAllPlugins :: "MemoryStore \<Rightarrow> Plugin list" where
  "GetAllPlugins ms = map snd (plugins ms)"

lemma exist_iff:
  "IsPluginExist n ms \<longleftrightarrow> GetPlugin n ms \<noteq> None" "IsInstanceExist n ms \<longleftrightarrow> GetInstance n ms \<noteq> None"
  by (auto simp: IsPluginExist_def IsInstanceExist_def GetPlugin_def GetInstance_def al_count_def)

lemma get_map_of [simp]:
  "GetPlugin n ms = map_of (plugins ms) n" "GetInstance n ms = map_of (instances ms) n"
  by (auto simp: GetPlugin_def GetInstance_def al_count_def)

text \<open>
  The contract of a registry that keeps the first value under a key: what a lookup gives
  after an insertion and a deletion, and that both keep the invariant.
\<close>

locale registry =
  fixes add :: "'k \<Rightarrow> 'v \<Rightarrow> 's \<Rightarrow> 's"
    and del :: "'k \<Rightarrow> 's \<Rightarrow> 's"
    and get :: "'k \<Rightarrow> 's \<Rightarrow> 'v option"
    and inv :: "'s \<Rightarrow> bool"
  assumes get_add: "get k' (add k v s) = (if k' = k \<and> get k s = None then Some v else get k' s)"
    and get_del: "get k' (del k s) = (if k' = k then None else get k' s)"
    and inv_add: "inv s \<Longrightarrow> inv (add k v s)"
    and inv_del: "inv s \<Longrightarrow> inv (del k s)"
begin

text \<open>Registering a list of entries: the old entry wins, then the first new one.\<close>

lemma get_add_all:
  "get k (fold (\<lambda>(k', v). add k' v) kvs s) =
     (case get k s of Some v \<Rightarrow> Some v | None \<Rightarrow> map_of kvs k)"
proof (induction kvs arbitrary: s)
  case Nil
  then show ?case by (simp split: option.splits)
next
  case (Cons kv kvs)
  then show ?case by (cases kv) (auto simp: get_add split: option.splits)
qed

lemma get_del_all: "get k (fold del ks s) = (if k \<in> set ks then None else get k s)"
  by (induction ks arbitrary: s) (auto simp: get_del)

lemma inv_add_all: "inv s \<Longrightarrow> inv (fold (\<lambda>(k', v). add k' v) kvs s)"
  by (induction kvs arbitrary: s) (auto intro: inv_add)

lemma inv_del_all: "inv s \<Longrightarrow> inv (fold del ks s)"
  by (induction ks arbitrary: s) (auto intro: inv_del)

end

definition store_keys :: "MemoryStore \<Rightarrow> bool" where
  "store_keys ms = (distinct (map fst (instances ms)) \<and> distinct (map fst (plugins ms)))"

interpretation plugin_reg: registry AddPlugin DeletePlugin GetPlugin store_keys
  by unfold_locales
    (auto simp: AddPlugin_def DeletePlugin_def store_keys_def store_simps distinct_delete split: if_splits)

interpretation instance_reg: registry put_instance DeleteInstance GetInstance store_keys
  by unfold_locales
    (auto simp: put_instance_def DeleteInstance_def store_keys_def store_simps distinct_delete split: if_splits)

text \<open>The two registries of the store do not disturb each other.\<close>

lemma store_frame [simp]:
  "instances (AddPlugin n p ms) = instances ms" "instances (DeletePlugin n ms) = instances ms"
  "plugins (put_instance n r ms) = plugins ms" "plugins (DeleteInstance n ms) = plugins ms"
  by (simp_all add: AddPlugin_def DeletePlugin_def put_instance_def DeleteInstance_def)

subsection \<open>Well-formed heaps and stores\<close>

definition ref_ok :: "'p heap \<Rightarrow> ref \<Rightarrow> bool" where
  "ref_ok h r = (r < length h)"

lemma deref_ok: "ref_ok h r \<Longrightarrow> deref h r = Some (h ! r)"
  by (simp add: ref_ok_def nth_opt_def)

text \<open>
  Every name leads to an instance of that name, every plugin is stored under its name and
  its references are valid.
\<close>

definition store_inv :: "'p heap \<Rightarrow> MemoryStore \<Rightarrow> bool" where
  "store_inv h ms = (store_keys ms \<and>
     (\<forall>(n, r) \<in> set (instances ms). ref_ok h r \<and> ins_name (h ! r) = n) \<and>
     (\<forall>(n, p) \<in> set (plugins ms). pl_name p = n \<and> (\<forall>r \<in> set (pl_instances p). ref_ok h r)))"

text \<open>What no operation of the scheduler changes in an instance.\<close>

definition same_instance :: "'p Instance \<Rightarrow> 'p Instance \<Rightarrow> bool" where
  "same_instance i j = (ins_name i = ins_name j \<and> pluginName i = pluginName j \<and> ins_state i = ins_state j \<and>
     supportTopics i = supportTopics j \<and> interface i = interface j)"

definition same_heap :: "'p heap \<Rightarrow> 'p heap \<Rightarrow> bool" where
  "same_heap h h' = list_all2 same_instance h h'"

lemma same_heap_refl [simp]: "same_heap h h"
  by (simp add: same_heap_def list_all2_refl same_instance_def)

lemma same_heap_trans: "same_heap a b \<Longrightarrow> same_heap b c \<Longrightarrow> same_heap a c"
  unfolding same_heap_def by (rule list_all2_trans) (auto simp: same_instance_def)

lemma same_heap_update: "deref h r = Some i \<Longrightarrow> same_instance i j \<Longrightarrow> same_heap h (h[r := j])"
  by (auto simp: same_heap_def list_all2_conv_all_nth nth_opt_Some_iff nth_list_update same_instance_def)

lemma same_heap_nth: "same_heap h h' \<Longrightarrow> r < length h \<Longrightarrow> same_instance (h ! r) (h' ! r)"
  by (simp add: same_heap_def list_all2_nthD)

lemma same_heap_length: "same_heap h h' \<Longrightarrow> length h' = length h"
  by (simp add: same_heap_def list_all2_lengthD)

lemma same_heap_ref: "same_heap h h' \<Longrightarrow> ref_ok h' r = ref_ok h r"
  by (simp add: ref_ok_def same_heap_length)

lemma store_inv_same_heap: "same_heap h h' \<Longrightarrow> store_inv h ms \<Longrightarrow> store_inv h' ms"
  by (auto simp: store_inv_def same_heap_ref ref_ok_def same_heap_length same_instance_def
      dest!: same_heap_nth split: prod.splits)

subsection \<open>What the operations of an instance keep\<close>

lemma OpenTopic_keeps:
  "OpenTopic t i = (ret, j, ms) \<Longrightarrow> same_instance i j \<and> enabled j = enabled i \<and> enableCnt j = enableCnt i"
  by (auto simp: OpenTopic_def same_instance_def Let_def split: prod.splits if_splits)

lemma CloseTopic_keeps:
  "CloseTopic t i = (j, ms) \<Longrightarrow> same_instance i j \<and> enabled j = enabled i \<and> enableCnt j = enableCnt i"
  by (auto simp: CloseTopic_def same_instance_def split: prod.splits)

lemma close_all_Cons:
  "close_all (t # ts) i = Some (j, ms) \<longleftrightarrow>
     (\<exists>u p m ms'. GetTopicFromType t = Some u \<and> v_CloseTopic (interface i) u (priv i) = (p, m) \<and>
        close_all ts (i\<lparr>priv := p\<rparr>) = Some (j, ms') \<and> ms = m @ ms')"
  by (cases "GetTopicFromType t") (auto simp: bind_eq_Some_conv split: prod.splits)

lemma close_all_priv: "close_all ts i = Some (j, ms) \<Longrightarrow> \<exists>p. j = i\<lparr>priv := p\<rparr>"
proof (induction ts arbitrary: i ms)
  case Nil
  then show ?case by (auto intro: exI [of _ "priv i"])
next
  case (Cons t ts)
  then obtain p ms' where "close_all ts (i\<lparr>priv := p\<rparr>) = Some (j, ms')"
    by (auto simp only: close_all_Cons)
  with Cons.IH [of "i\<lparr>priv := p\<rparr>" ms'] show ?case by auto
qed

lemma Disable_priv: "Disable i = Some (j, ms) \<Longrightarrow> \<exists>p. j = i\<lparr>priv := p\<rparr>"
proof -
  assume "Disable i = Some (j, ms)"
  then obtain i1 m where c: "close_all (openTopics i) i = Some (i1, m)" and "\<exists>p. j = i1\<lparr>priv := p\<rparr>"
    by (cases "close_all (openTopics i) i") (auto simp: Disable_def split: prod.splits)
  with close_all_priv [OF c] show ?thesis by auto
qed

lemma Disable_keeps:
  "Disable i = Some (j, ms) \<Longrightarrow>
   same_instance i j \<and> enabled j = enabled i \<and> enableCnt j = enableCnt i \<and> openTopics j = openTopics i"
  by (auto simp: same_instance_def dest!: Disable_priv)

text \<open>\<open>Disable\<close> is defined as soon as every recorded topic has two parts, which \<open>GetType\<close> ensures.\<close>

definition topics_wf :: "'p Instance \<Rightarrow> bool" where
  "topics_wf i = (\<forall>t \<in> set (openTopics i). GetTopicFromType t \<noteq> None)"

lemma close_all_total: "\<forall>t \<in> set ts. GetTopicFromType t \<noteq> None \<Longrightarrow> \<exists>j ms. close_all ts i = Some (j, ms)"
proof (induction ts arbitrary: i)
  case Nil
  then show ?case by simp
next
  case (Cons t ts)
  then obtain u where u: "GetTopicFromType t = Some u" by auto
  obtain p m where "v_CloseTopic (interface i) u (priv i) = (p, m)" by fastforce
  with u Cons.IH [of "i\<lparr>priv := p\<rparr>"] Cons.prems show ?case
    by (auto simp only: close_all_Cons) auto
qed

lemma Disable_total: "topics_wf i \<Longrightarrow> \<exists>j ms. Disable i = Some (j, ms)"
  using close_all_total [of "openTopics i" i] by (auto simp: topics_wf_def Disable_def split: prod.splits)

lemma GetType_parses: "GetTopicFromType (GetType t) \<noteq> None"
  using GetTopicFromType_Some [OF GetType_two_tokens] by auto

lemma topics_wf_ops:
  "topics_wf i \<Longrightarrow> OpenTopic t i = (ret, j, ms) \<Longrightarrow> topics_wf j"
  "topics_wf i \<Longrightarrow> CloseTopic t i = (j, ms) \<Longrightarrow> topics_wf j"
  "topics_wf i \<Longrightarrow> Disable i = Some (j, ms) \<Longrightarrow> topics_wf j"
  using GetType_parses [of t]
  by (auto simp: topics_wf_def OpenTopic_def CloseTopic_def Let_def split: prod.splits if_splits dest!: Disable_keeps)

lemma SaveInstance_eq:
  "SaveInstance ips h p =
     (h @ map (new_instance (pl_name p)) ips,
      p\<lparr>pl_instances := pl_instances p @ [length h ..< length h + length ips]\<rparr>)"
proof (induction ips arbitrary: h p)
  case Nil
  then show ?case by simp
next
  case (Cons ip ips)
  have "[length h ..< length h + length (ip # ips)] = length h # [Suc (length h) ..< length h + length (ip # ips)]"
    by (rule upt_conv_Cons) simp
  with Cons show ?case by (simp del: upt_Suc)
qed

end
