(* ===== verification/Message_Protocol.thy ===== *)
theory Message_Protocol
  imports Topic_Model
begin

text \<open>
  The framing of \<^verbatim>\<open>src/common/message_protocol.h\<close> and \<^verbatim>\<open>message_protocol.cpp\<close>: a message with its
  header behind two 64-bit lengths, read from a socket through a buffer of 4096 bytes.
  The socket is the sequence of its arrivals: each \<open>recv\<close> returns bytes of the first chunk,
  at most as many as asked for; \<open>RecvFail\<close> is an error or a timeout; the end of the list is
  the closed connection. Every way the kernel may split or join the bytes is some such list.
\<close>

subsection \<open>Operations and messages\<close>

datatype Opt =
    OptLOAD | OptENABLED | OptDISABLED | OptREMOVE | OptQUERY | OptQUERY_ALL | OptQUERY_SUB_GRAPH
  | OptQUERY_ALL_SUB_GRAPH | OptLIST | OptINFO | OptDOWNLOAD | OptSUBSCRIBE | OptUNSUBSCRIBE
  | OptPUBLISH | OptDATA | OptRESPONSE_OK | OptRESPONSE_ERROR | OptSHUTDOWN | OptRELOAD_CONF
  | OptOther c_int

text \<open>The enumerators in order; \<open>static_cast\<close> of any other integer is a value without a name.\<close>

definition opts :: "Opt list" where
  "opts = [OptLOAD, OptENABLED, OptDISABLED, OptREMOVE, OptQUERY, OptQUERY_ALL, OptQUERY_SUB_GRAPH,
     OptQUERY_ALL_SUB_GRAPH, OptLIST, OptINFO, OptDOWNLOAD, OptSUBSCRIBE, OptUNSUBSCRIBE,
     OptPUBLISH, OptDATA, OptRESPONSE_OK, OptRESPONSE_ERROR, OptSHUTDOWN, OptRELOAD_CONF]"

fun opt_int :: "Opt \<Rightarrow> c_int" where
  "opt_int (OptOther w) = w"
| "opt_int op = word_of_nat (length (takeWhile (\<lambda>x. x \<noteq> op) opts))"

definition int_opt :: "c_int \<Rightarrow> Opt" where
  "int_opt w = (case nth_opt opts (unat w) of Some op \<Rightarrow> op | None \<Rightarrow> OptOther w)"

definition opt_wf :: "Opt \<Rightarrow> bool" where
  "opt_wf op = (case op of OptOther w \<Rightarrow> length opts \<le> unat w | _ \<Rightarrow> True)"

lemma int_opt_int [simp]: "opt_wf op \<Longrightarrow> int_opt (opt_int op) = op"
  by (cases op) (simp_all add: int_opt_def opts_def opt_wf_def nth_opt_def)

lemma opt_wf_int: "opt_wf (int_opt w)"
proof (cases "unat w < length opts")
  case True
  then have "int_opt w \<in> set opts" by (simp add: int_opt_def nth_opt_def)
  then show ?thesis by (auto simp: opts_def opt_wf_def)
next
  case False
  then show ?thesis by (simp add: int_opt_def nth_opt_def opt_wf_def)
qed

datatype MessageType = REQUEST | RESPONSE | MessageTypeOther c_int

fun type_int :: "MessageType \<Rightarrow> c_int" where
  "type_int REQUEST = 0"
| "type_int RESPONSE = 1"
| "type_int (MessageTypeOther w) = w"

definition int_type :: "c_int \<Rightarrow> MessageType" where
  "int_type w = (if w = 0 then REQUEST else if w = 1 then RESPONSE else MessageTypeOther w)"

definition type_wf :: "MessageType \<Rightarrow> bool" where
  "type_wf t = (case t of MessageTypeOther w \<Rightarrow> w \<noteq> 0 \<and> w \<noteq> 1 | _ \<Rightarrow> True)"

lemma int_type_int [simp]: "type_wf t \<Longrightarrow> int_type (type_int t) = t"
  by (cases t) (simp_all add: int_type_def type_wf_def)

record Message =
  opt :: Opt
  msg_payload :: "string list"

definition Message_Serialize :: "OutStream \<Rightarrow> Message \<Rightarrow> OutStream" where
  "Message_Serialize out m =
     (let op = opt_int (opt m) in Serialize_vector Serialize_string (put_int out op) (msg_payload m))"

text \<open>\<open>op\<close> is not initialized: \<open>junk\<close> is its value when the stream is short.\<close>

definition Message_Deserialize :: "c_int \<Rightarrow> Message reader" where
  "Message_Deserialize junk m in0 = do {
     (op, in1) \<leftarrow> get_int junk in0;
     (ps, in2) \<leftarrow> Deserialize_vector Deserialize_string [] (msg_payload m) in1;
     Some (\<lparr>opt = int_opt op, msg_payload = ps\<rparr>, in2)
   }"

record MessageHeader =
  hd_type :: MessageType

definition MessageHeader_Serialize :: "OutStream \<Rightarrow> MessageHeader \<Rightarrow> OutStream" where
  "MessageHeader_Serialize out h = (let iType = type_int (hd_type h) in put_int out iType)"

definition MessageHeader_Deserialize :: "c_int \<Rightarrow> MessageHeader reader" where
  "MessageHeader_Deserialize junk h in0 = do {
     (iType, in1) \<leftarrow> get_int junk in0;
     Some (\<lparr>hd_type = int_type iType\<rparr>, in1)
   }"

record MessageProtocol =
  header :: MessageHeader
  message :: Message

definition SetHeader :: "nat \<Rightarrow> c_int \<Rightarrow> string \<Rightarrow> MessageProtocol \<Rightarrow> MessageProtocol option" where
  "SetHeader mem junk headerStr p = do {
     (h, _) \<leftarrow> MessageHeader_Deserialize junk (header p) (mk_in mem headerStr);
     Some (p\<lparr>header := h\<rparr>)
   }"

definition SetMessage :: "nat \<Rightarrow> c_int \<Rightarrow> string \<Rightarrow> MessageProtocol \<Rightarrow> MessageProtocol option" where
  "SetMessage mem junk content p = do {
     (m, _) \<leftarrow> Message_Deserialize junk (message p) (mk_in mem content);
     Some (p\<lparr>message := m\<rparr>)
   }"

definition PROTOCOL_LENGTH_SIZE :: nat where
  "PROTOCOL_LENGTH_SIZE = 8"

definition HEADER_LENGTH_SIZE :: nat where
  "HEADER_LENGTH_SIZE = 8"

definition MAX_RECV_BUFF_SIZE :: nat where
  "MAX_RECV_BUFF_SIZE = 16384"

definition maxBuffSize :: nat where
  "maxBuffSize = 4096"

definition GetProtocolStr :: "MessageProtocol \<Rightarrow> string" where
  "GetProtocolStr p =
     (let out = MessageHeader_Serialize [] (header p);
          headLength = word_of_nat (length out) :: u64;
          out1 = Message_Serialize out (message p);
          totLength = word_of_nat (PROTOCOL_LENGTH_SIZE + HEADER_LENGTH_SIZE + length out1) :: u64
      in put_u64 (put_u64 [] totLength) headLength @ out1)"

subsection \<open>The socket and its buffer\<close>

datatype arrival = Chunk string | RecvFail

fun recv :: "arrival list \<Rightarrow> nat \<Rightarrow> int \<times> string \<times> arrival list" where
  "recv [] sz = (0, [], [])"
| "recv (RecvFail # w) sz = (-1, [], w)"
| "recv (Chunk c # w) sz =
     (if c = [] then recv w sz
      else if length c \<le> sz then (int (length c), c, w)
      else (int sz, take sz c, Chunk (drop sz c) # w))"

record SocketStream =
  sock :: "arrival list"
  readBuff :: string
  readBuffOff :: nat
  readBuffContentSize :: nat

definition new_stream :: "arrival list \<Rightarrow> SocketStream" where
  "new_stream w = \<lparr>sock = w, readBuff = replicate maxBuffSize NUL, readBuffOff = 0, readBuffContentSize = 0\<rparr>"

text \<open>
  The return value, the bytes put into \<open>buf\<close> and the stream. \<open>memcpy_s\<close> fails when the
  count exceeds \<open>MAX_RECV_BUFF_SIZE\<close>.
\<close>

definition memcpy_s :: "string \<Rightarrow> string option" where
  "memcpy_s src = (if length src \<le> MAX_RECV_BUFF_SIZE then Some src else None)"

definition copied :: "string \<Rightarrow> SocketStream \<Rightarrow> SocketStream \<Rightarrow> int \<times> string \<times> SocketStream" where
  "copied src ss ss' =
     (case memcpy_s src of None \<Rightarrow> (-1, [], ss) | Some b \<Rightarrow> (int (length b), b, ss'))"

definition Read :: "nat \<Rightarrow> SocketStream \<Rightarrow> int \<times> string \<times> SocketStream" where
  "Read sz ss =
     (if readBuffOff ss < readBuffContentSize ss then
        (let remainingSize = readBuffContentSize ss - readBuffOff ss in
         if sz \<le> remainingSize then
           copied (take sz (drop (readBuffOff ss) (readBuff ss))) ss (ss\<lparr>readBuffOff := readBuffOff ss + sz\<rparr>)
         else
           copied (take remainingSize (drop (readBuffOff ss) (readBuff ss))) ss
             (ss\<lparr>readBuffOff := readBuffOff ss + remainingSize\<rparr>))
      else
        (let ss0 = ss\<lparr>readBuffOff := 0, readBuffContentSize := 0\<rparr> in
         if sz < maxBuffSize then
           (case recv (sock ss0) maxBuffSize of (n, bs, w) \<Rightarrow>
              let ss1 = ss0\<lparr>sock := w, readBuff := bs @ drop (length bs) (readBuff ss0)\<rparr> in
              if n \<le> 0 then (n, [], ss1)
              else if nat n < sz then copied (take (nat n) (readBuff ss1)) ss1 ss1
              else copied (take sz (readBuff ss1)) ss1 (ss1\<lparr>readBuffOff := sz, readBuffContentSize := nat n\<rparr>))
         else
           (case recv (sock ss0) sz of (n, bs, w) \<Rightarrow> (n, bs, ss0\<lparr>sock := w\<rparr>))))"

text \<open>
  The loop that collects one part of a frame. A read returns at least one byte or ends
  the loop, so \<open>end - start\<close> iterations are enough; that is the fuel the callers pass.
\<close>

fun ReadBuf :: "nat \<Rightarrow> int \<Rightarrow> int \<Rightarrow> SocketStream \<Rightarrow> string \<Rightarrow> bool \<times> string \<times> SocketStream" where
  "ReadBuf 0 start end ss msg = (\<not> start < end, msg, ss)"
| "ReadBuf (Suc fuel) start end ss msg =
     (if start < end then
        (case Read (min (nat (end - start)) MAX_RECV_BUFF_SIZE) ss of (n, bs, ss1) \<Rightarrow>
           if n \<le> 0 then (False, msg, ss1)
           else ReadBuf fuel (start + n) end ss1 (msg @ bs))
      else (True, msg, ss))"

definition read_part :: "int \<Rightarrow> int \<Rightarrow> SocketStream \<Rightarrow> bool \<times> string \<times> SocketStream" where
  "read_part start end ss = ReadBuf (nat (end - start)) start end ss []"

text \<open>\<open>uint64_t\<close> lengths passed as \<open>int\<close> keep their low 32 bits.\<close>

definition to_int :: "u64 \<Rightarrow> int" where
  "to_int w = sint (ucast w :: c_int)"

text \<open>The result, the protocol object and the stream; an exception of a deserializer is \<open>None\<close>.\<close>

definition RecvMessage ::
  "nat \<Rightarrow> c_int \<Rightarrow> SocketStream \<Rightarrow> MessageProtocol \<Rightarrow> (bool \<times> MessageProtocol \<times> SocketStream) option" where
  "RecvMessage mem junk stream p =
     (case Read (PROTOCOL_LENGTH_SIZE + HEADER_LENGTH_SIZE) stream of (ret, buf, s1) \<Rightarrow>
      if ret \<le> 0 then Some (False, p, s1)
      else do {
        (totLength, in1) \<leftarrow> get_u64 0 (mk_in mem buf);
        (headerLength, _) \<leftarrow> get_u64 0 in1;
        let headerStart = word_of_nat (PROTOCOL_LENGTH_SIZE + HEADER_LENGTH_SIZE) :: u64;
            headerEnd = headerStart + headerLength;
            (ok1, hdr, s2) = read_part (to_int headerStart) (to_int headerEnd) s1 in
        if \<not> ok1 then Some (False, p, s2)
        else
          let bodyStart = to_int headerEnd; bodyEnd = to_int totLength;
              (ok2, msg, s3) = read_part bodyStart bodyEnd s2 in
          if \<not> ok2 then Some (False, p, s3)
          else do {
            p1 \<leftarrow> SetHeader mem junk hdr p;
            p2 \<leftarrow> SetMessage mem junk msg p1;
            Some (True, p2, s3)
          }
      })"

text \<open>
  \<open>send\<close> is the kernel's: it takes the bytes and answers with the count or -1. The
  \<open>ssize_t\<close> is returned as a \<open>bool\<close>.
\<close>

definition Write :: "(string \<Rightarrow> int) \<Rightarrow> string \<Rightarrow> int" where
  "Write send buf = send buf"

definition SendMessage :: "(string \<Rightarrow> int) \<Rightarrow> MessageProtocol \<Rightarrow> bool" where
  "SendMessage send p = (Write send (GetProtocolStr p) \<noteq> 0)"

subsection \<open>The bytes a stream still has to deliver\<close>

fun arrived :: "arrival list \<Rightarrow> string" where
  "arrived [] = []"
| "arrived (RecvFail # w) = []"
| "arrived (Chunk c # w) = c @ arrived w"

definition unread :: "SocketStream \<Rightarrow> string" where
  "unread ss = take (readBuffContentSize ss - readBuffOff ss) (drop (readBuffOff ss) (readBuff ss))"

definition pending :: "SocketStream \<Rightarrow> string" where
  "pending ss = unread ss @ arrived (sock ss)"

definition stream_inv :: "SocketStream \<Rightarrow> bool" where
  "stream_inv ss = (length (readBuff ss) = maxBuffSize \<and> readBuffOff ss \<le> readBuffContentSize ss \<and>
     readBuffContentSize ss \<le> maxBuffSize)"

lemma new_stream_simps [simp]:
  "stream_inv (new_stream w)" "pending (new_stream w) = arrived w" "unread (new_stream w) = []"
  by (simp_all add: new_stream_def stream_inv_def pending_def unread_def)

lemma recv_arrived:
  "arrived w \<noteq> [] \<Longrightarrow> 0 < sz \<Longrightarrow>
   \<exists>bs w'. recv w sz = (int (length bs), bs, w') \<and> bs \<noteq> [] \<and> length bs \<le> sz \<and> arrived w = bs @ arrived w'"
  by (induction w sz rule: recv.induct) (auto simp: not_le)

lemma copied_small:
  "length src \<le> MAX_RECV_BUFF_SIZE \<Longrightarrow> copied src ss ss' = (int (length src), src, ss')"
  by (simp add: copied_def memcpy_s_def)

lemma buffer_bounds: "maxBuffSize \<le> MAX_RECV_BUFF_SIZE" "0 < maxBuffSize"
  by (simp_all add: maxBuffSize_def MAX_RECV_BUFF_SIZE_def)

lemma Read_buffered:
  assumes "stream_inv ss" "unread ss \<noteq> []" "0 < sz"
  shows "\<exists>ss'. Read sz ss = (int (length (take sz (unread ss))), take sz (unread ss), ss') \<and> stream_inv ss' \<and>
    unread ss' = drop sz (unread ss) \<and> sock ss' = sock ss"
proof -
  let ?off = "readBuffOff ss" and ?n = "readBuffContentSize ss"
  have lt: "?off < ?n" using assms by (auto simp: unread_def)
  have le: "?n \<le> length (readBuff ss)" using assms by (simp add: stream_inv_def)
  show ?thesis
  proof (cases "sz \<le> ?n - ?off")
    case True
    with lt le assms buffer_bounds show ?thesis
      by (auto simp: Read_def Let_def copied_small stream_inv_def unread_def min_def drop_take add.commute)
  next
    case False
    with lt le assms buffer_bounds show ?thesis
      by (simp add: Read_def Let_def copied_small stream_inv_def unread_def min_def drop_take)
  qed
qed

lemma Read_fresh:
  assumes inv: "stream_inv ss" and "unread ss = []" "arrived (sock ss) \<noteq> []" "0 < sz"
  shows "\<exists>bs ss'. Read sz ss = (int (length bs), bs, ss') \<and> bs \<noteq> [] \<and> length bs \<le> sz \<and>
    arrived (sock ss) = bs @ pending ss' \<and> stream_inv ss' \<and>
    (\<forall>c w. sock ss = Chunk c # w \<and> sz \<le> length c \<and> sz < maxBuffSize \<longrightarrow> length bs = sz)"
proof -
  have off: "\<not> readBuffOff ss < readBuffContentSize ss"
    using assms by (auto simp: unread_def stream_inv_def)
  show ?thesis
  proof (cases "sz < maxBuffSize")
    case False
    obtain bs w' where r: "recv (sock ss) sz = (int (length bs), bs, w')" "bs \<noteq> []" "length bs \<le> sz"
      "arrived (sock ss) = bs @ arrived w'"
      using recv_arrived assms by blast
    with off False inv show ?thesis
      by (simp add: Read_def Let_def pending_def unread_def stream_inv_def)
  next
    case True
    obtain bs w' where r: "recv (sock ss) maxBuffSize = (int (length bs), bs, w')" "bs \<noteq> []"
      "length bs \<le> maxBuffSize" "arrived (sock ss) = bs @ arrived w'"
      using recv_arrived assms buffer_bounds by blast
    have big: "sock ss = Chunk c # w \<Longrightarrow> sz \<le> length c \<Longrightarrow> sz \<le> length bs" for c w
      using r(1) True assms(4) by (auto split: if_splits)
    have len: "length (bs @ drop (length bs) (readBuff ss)) = maxBuffSize"
      using inv r by (simp add: stream_inv_def)
    show ?thesis
    proof (cases "length bs < sz")
      case short: True
      then have "Read sz ss = (int (length bs), bs, ss\<lparr>readBuffOff := 0, readBuffContentSize := 0, sock := w',
          readBuff := bs @ drop (length bs) (readBuff ss)\<rparr>)"
        using off True r buffer_bounds by (simp add: Read_def Let_def copied_small)
      with short r len big show ?thesis
        by (fastforce simp: pending_def unread_def stream_inv_def)
    next
      case False
      then have "Read sz ss = (int sz, take sz bs, ss\<lparr>readBuffOff := sz, readBuffContentSize := length bs,
          sock := w', readBuff := bs @ drop (length bs) (readBuff ss)\<rparr>)"
        using off True r buffer_bounds assms(4) by (simp add: Read_def Let_def copied_small min_def)
      with False r len assms(4) show ?thesis
        by (simp add: pending_def unread_def stream_inv_def)
    qed
  qed
qed

lemma Read_pending:
  assumes "stream_inv ss" "pending ss \<noteq> []" "0 < sz"
  shows "\<exists>bs ss'. Read sz ss = (int (length bs), bs, ss') \<and> bs \<noteq> [] \<and> length bs \<le> sz \<and>
    pending ss = bs @ pending ss' \<and> stream_inv ss'"
proof (cases "unread ss = []")
  case True
  then show ?thesis
    using Read_fresh [of ss sz] assms by (auto simp: pending_def)
next
  case False
  then obtain ss' where r: "Read sz ss = (int (length (take sz (unread ss))), take sz (unread ss), ss')"
    "stream_inv ss'" "unread ss' = drop sz (unread ss)" "sock ss' = sock ss"
    using Read_buffered assms by blast
  have "pending ss = take sz (unread ss) @ pending ss'"
    using r(3,4) unfolding pending_def by (metis append.assoc append_take_drop_id)
  moreover have "take sz (unread ss) \<noteq> []" using False assms(3) by simp
  ultimately show ?thesis using r(1,2) by (intro exI [of _ "take sz (unread ss)"] exI [of _ ss']) auto
qed

text \<open>The loop delivers exactly the bytes it was asked for when they are there.\<close>

lemma ReadBuf_collect:
  assumes "stream_inv ss" "nat (e - s) \<le> length (pending ss)" "nat (e - s) \<le> fuel"
  shows "\<exists>ss'. ReadBuf fuel s e ss msg = (True, msg @ take (nat (e - s)) (pending ss), ss') \<and>
    pending ss' = drop (nat (e - s)) (pending ss) \<and> stream_inv ss'"
  using assms
proof (induction fuel s e ss msg rule: ReadBuf.induct)
  case (1 start e ss msg)
  then show ?case by simp
next
  case (2 fuel start e ss msg)
  show ?case
  proof (cases "start < e")
    case False
    with 2 show ?thesis by simp
  next
    case True
    let ?sz = "min (nat (e - start)) MAX_RECV_BUFF_SIZE"
    have "0 < ?sz" "pending ss \<noteq> []"
      using True 2 by (auto simp: MAX_RECV_BUFF_SIZE_def)
    then obtain bs ss1 where r: "Read ?sz ss = (int (length bs), bs, ss1)" "bs \<noteq> []" "length bs \<le> ?sz"
      "pending ss = bs @ pending ss1" "stream_inv ss1"
      using Read_pending 2 by blast
    let ?s1 = "start + int (length bs)"
    have k: "nat (e - start) = length bs + nat (e - ?s1)" "nat (e - ?s1) \<le> fuel" "\<not> int (length bs) \<le> 0"
      using r 2 True by (cases bs; auto)+
    have "\<exists>ss'. ReadBuf fuel ?s1 e ss1 (msg @ bs) =
        (True, (msg @ bs) @ take (nat (e - ?s1)) (pending ss1), ss') \<and>
      pending ss' = drop (nat (e - ?s1)) (pending ss1) \<and> stream_inv ss'"
      using "2.IH" [OF True r(1) [symmetric] refl] r k "2.prems" by auto
    with r k True show ?thesis by auto
  qed
qed

subsection \<open>Frames\<close>

definition msg_ok :: "nat \<Rightarrow> Message \<Rightarrow> bool" where
  "msg_ok mem m = (opt_wf (opt m) \<and> (\<forall>x \<in> set (msg_payload m). str_ok mem x) \<and>
     length (msg_payload m) \<le> mem \<and> mem < 2 ^ 64)"

lemma msg_ser: "Message_Serialize out m =
    out @ word_bytes 4 (opt_int (opt m)) @ Serialize_vector Serialize_string [] (msg_payload m)"
  using string_codec.vec.ser_out [of "out @ word_bytes 4 (opt_int (opt m))"]
  by (simp add: Message_Serialize_def Let_def ser_rt)

interpretation message_codec: codec Message_Serialize "Message_Deserialize junk" msg_ok
  "\<lambda>old. msg_payload old = []" for junk
  by unfold_locales
    (simp_all add: msg_ser msg_ok_def Message_Deserialize_def ser_rt string_codec.vec.de_ser)

interpretation header_codec: codec MessageHeader_Serialize "MessageHeader_Deserialize junk"
  "\<lambda>mem h. type_wf (hd_type h)" "\<lambda>old. True" for junk
  by unfold_locales
    (simp_all add: MessageHeader_Serialize_def MessageHeader_Deserialize_def ser_rt)

definition proto_ok :: "nat \<Rightarrow> MessageProtocol \<Rightarrow> bool" where
  "proto_ok mem p = (type_wf (hd_type (header p)) \<and> msg_ok mem (message p) \<and>
     length (GetProtocolStr p) < 2 ^ 31)"

text \<open>The first read of a frame returns both lengths: they are buffered, or come in one chunk.\<close>

definition lengths_ready :: "SocketStream \<Rightarrow> bool" where
  "lengths_ready ss = (16 \<le> length (unread ss) \<or>
     (unread ss = [] \<and> (case sock ss of Chunk c # w \<Rightarrow> 16 \<le> length c | _ \<Rightarrow> False)))"

abbreviation head_bytes :: "MessageProtocol \<Rightarrow> string" where
  "head_bytes p \<equiv> MessageHeader_Serialize [] (header p)"

abbreviation body_bytes :: "MessageProtocol \<Rightarrow> string" where
  "body_bytes p \<equiv> Message_Serialize [] (message p)"

lemma length_head [simp]: "length (head_bytes p) = 4"
  by (simp add: MessageHeader_Serialize_def ser_rt)

lemma protocol_str:
  "GetProtocolStr p = word_bytes 8 (word_of_nat (20 + length (body_bytes p)) :: u64) @
     word_bytes 8 (4 :: u64) @ head_bytes p @ body_bytes p"
  using message_codec.ser_out [of "head_bytes p" "message p"]
  by (simp add: GetProtocolStr_def Let_def ser_rt PROTOCOL_LENGTH_SIZE_def HEADER_LENGTH_SIZE_def)

lemma length_protocol_str: "length (GetProtocolStr p) = 20 + length (body_bytes p)"
  by (simp add: protocol_str)

lemma to_int_small: "n < 2 ^ 31 \<Longrightarrow> to_int (word_of_nat n) = int n"
  by (simp add: to_int_def signed_ucast_eq unsigned_of_nat take_bit_nat_eq_self
      signed_take_bit_int_eq_self sint_uint)

lemma lengths_read:
  assumes "stream_inv ss" "lengths_ready ss" "pending ss = bs @ r" "length bs = 16"
  shows "\<exists>ss'. Read 16 ss = (16, bs, ss') \<and> pending ss' = r \<and> stream_inv ss'"
proof (cases "unread ss = []")
  case True
  then obtain c w where c: "sock ss = Chunk c # w" "16 \<le> length c"
    using assms(2) by (auto simp: lengths_ready_def split: list.splits arrival.splits)
  then have "arrived (sock ss) \<noteq> []" by auto
  then show ?thesis
    using Read_fresh [of ss 16] True c assms by (auto simp: pending_def maxBuffSize_def)
next
  case False
  then have len: "16 \<le> length (unread ss)" using assms by (simp add: lengths_ready_def)
  then have "take 16 (unread ss) = bs" "drop 16 (unread ss) @ arrived (sock ss) = r"
    using assms(4) arg_cong [OF assms(3), of "take 16"] arg_cong [OF assms(3), of "drop 16"]
    by (simp_all add: pending_def)
  with Read_buffered [of ss 16] False assms len show ?thesis
    by (auto simp: pending_def)
qed

lemma frame_received:
  assumes ss: "stream_inv ss" "lengths_ready ss" "pending ss = GetProtocolStr p @ rest"
    and ok: "proto_ok mem p" and p0: "msg_payload (message p0) = []"
  shows "\<exists>ss'. RecvMessage mem junk ss p0 = Some (True, p, ss') \<and> stream_inv ss' \<and> pending ss' = rest"
proof -
  let ?n = "length (body_bytes p)"
  let ?lens = "word_bytes 8 (word_of_nat (20 + ?n) :: u64) @ word_bytes 8 (4 :: u64)"
  have n: "20 + ?n < 2 ^ 31"
    using ok by (simp add: proto_ok_def length_protocol_str)
  have ends: "to_int 16 = 16" "to_int 20 = 20" "to_int (word_of_nat (20 + ?n)) = 20 + int ?n"
    using to_int_small [of 16] to_int_small [of 20] to_int_small [OF n] by simp_all
  obtain s1 where s1: "Read 16 ss = (16, ?lens, s1)" "pending s1 = head_bytes p @ body_bytes p @ rest" "stream_inv s1"
    using lengths_read [OF ss(1,2), of ?lens] ss(3) by (auto simp: protocol_str)
  obtain s2 where s2: "read_part 16 20 s1 = (True, head_bytes p, s2)" "pending s2 = body_bytes p @ rest" "stream_inv s2"
    using ReadBuf_collect [of s1 20 16 "nat (20 - 16)" "[]"] s1 by (auto simp: read_part_def)
  obtain s3 where s3: "read_part 20 (20 + int ?n) s2 = (True, body_bytes p, s3)" "pending s3 = rest" "stream_inv s3"
    using ReadBuf_collect [of s2 "20 + int ?n" 20 ?n "[]"] s2 by (auto simp: read_part_def)
  have h: "SetHeader mem junk (head_bytes p) p0 = Some (p0\<lparr>header := header p\<rparr>)"
    using header_codec.de_ser [where x = "header p" and old = "header p0" and rest = "[]"] ok by (simp add: SetHeader_def proto_ok_def)
  have m: "SetMessage mem junk (body_bytes p) (p0\<lparr>header := header p\<rparr>) = Some p"
    using message_codec.de_ser [where x = "message p" and old = "message p0" and rest = "[]"] ok p0 by (simp add: SetMessage_def proto_ok_def)
  show ?thesis
    using s1 s2 s3 h m ends
    by (simp add: RecvMessage_def PROTOCOL_LENGTH_SIZE_def HEADER_LENGTH_SIZE_def ser_rt Let_def)
qed

text \<open>Once the socket has nothing left, reading does not bring anything back.\<close>

lemma Read_sock_nil: "Read sz ss = (n, bs, ss') \<Longrightarrow> sock ss = [] \<Longrightarrow> sock ss' = []"
  by (auto simp: Read_def Let_def copied_def split: if_splits option.splits)

lemma ReadBuf_sock_nil: "ReadBuf fuel s e ss msg = (ok, m, ss') \<Longrightarrow> sock ss = [] \<Longrightarrow> sock ss' = []"
  by (induction fuel s e ss msg rule: ReadBuf.induct)
    (auto split: if_splits prod.splits dest: Read_sock_nil)

lemma RecvMessage_sock_nil:
  assumes "RecvMessage mem junk ss p0 = Some (ok, p, ss')"
    and "Read (PROTOCOL_LENGTH_SIZE + HEADER_LENGTH_SIZE) ss = (n, bs, s1)" "sock s1 = []"
  shows "sock ss' = []"
  using assms
  by (auto simp: RecvMessage_def read_part_def Let_def split: if_splits prod.splits Option.bind_splits
      dest!: ReadBuf_sock_nil)

subsection \<open>Properties\<close>

definition empty_proto :: MessageProtocol where
  "empty_proto = \<lparr>header = \<lparr>hd_type = REQUEST\<rparr>, message = \<lparr>opt = OptLOAD, msg_payload = []\<rparr>\<rparr>"

lemma length_empty_proto: "length (GetProtocolStr empty_proto) = 32"
  by (simp add: length_protocol_str msg_ser empty_proto_def Serialize_vector_def ser_rt)

lemma empty_proto_wf: "proto_ok 100 empty_proto"
  by (simp add: proto_ok_def length_empty_proto)
    (simp add: empty_proto_def msg_ok_def type_wf_def opt_wf_def)

text \<open>C13. A frame written by \<open>GetProtocolStr\<close> is received whole if its two length fields (16 bytes)
  are available to the first read, in the buffer or in one arrival: however the kernel splits
  the bytes after them, \<open>RecvMessage\<close> succeeds, rebuilds header, operation and payload, and leaves every later byte for the next
  message.\<close>

theorem RecvMessage_frame:
  assumes "stream_inv ss" "lengths_ready ss" "pending ss = GetProtocolStr p @ rest"
    and "proto_ok mem p" "msg_payload (message p0) = []"
  shows "\<exists>ss'. RecvMessage mem junk ss p0 = Some (True, p, ss') \<and> stream_inv ss' \<and> pending ss' = rest"
  by (rule frame_received [OF assms])

theorem RecvMessage_frame_witness:
  "\<exists>ss'. RecvMessage 100 7 (new_stream [Chunk (take 18 (GetProtocolStr empty_proto)), Chunk [],
        Chunk (drop 18 (GetProtocolStr empty_proto) @ ''xyz'')]) empty_proto = Some (True, empty_proto, ss') \<and>
    stream_inv ss' \<and> pending ss' = ''xyz''"
  by (rule RecvMessage_frame)
    (simp_all add: empty_proto_wf lengths_ready_def, simp_all add: new_stream_def length_empty_proto,
      simp add: empty_proto_def)

text \<open>The lengths have to come in one piece because \<open>RecvMessage\<close> reads them with a single \<open>Read\<close>. When
  the first arrival has only \<open>n\<close> of their first eight bytes, enough to hold the length of the
  frame, the length of the header counts as 0, the message is taken from the wrong place, and the
  call reports success with the last \<open>16 - n\<close> bytes of the frame left as the start of the next.\<close>

lemma le_enc_front: "L < 256 ^ n \<Longrightarrow> n \<le> m \<Longrightarrow> take n (le_enc m L) @ drop n (le_enc m 0) = le_enc m L"
proof (induction m arbitrary: n L)
  case (Suc m)
  then show ?case
    by (cases n) (simp_all add: less_mult_imp_div_less mult.commute)
qed simp

lemma split_lengths:
  assumes "length c < 8" "c \<noteq> []" "L < 256 ^ length c" "L < 2 ^ 31" "c = take (length c) (word_bytes 8 (word_of_nat L :: u64))"
  shows "get_u64 0 (mk_in mem c) = Some (word_of_nat L, (mk_in mem [])\<lparr>is_fail := True\<rparr>)"
    and "get_u64 0 ((mk_in mem [])\<lparr>is_fail := True\<rparr>) = Some (0, (mk_in mem [])\<lparr>is_fail := True\<rparr>)"
proof -
  have L: "unat (word_of_nat L :: u64) = L" using assms(4) by (simp add: unat_of_nat)
  have "c @ drop (length c) (word_bytes 8 (0 :: u64)) = word_bytes 8 (word_of_nat L :: u64)"
    using le_enc_front [OF assms(3), of 8] assms(1,5) L by (simp add: word_bytes_def)
  with assms(1) show "get_u64 0 (mk_in mem c) = Some (word_of_nat L, (mk_in mem [])\<lparr>is_fail := True\<rparr>)"
    by (simp add: Deserialize_base_def read_bytes_def bytes_word_bytes mk_in_def)
  show "get_u64 0 ((mk_in mem [])\<lparr>is_fail := True\<rparr>) = Some (0, (mk_in mem [])\<lparr>is_fail := True\<rparr>)"
    by (simp add: Deserialize_base_def read_bytes_def bytes_word_bytes)
qed

lemma split_lengths_misread:
  assumes ok: "proto_ok mem p" and n: "0 < n" "n < 8" "length (GetProtocolStr p) < 256 ^ n"
    and R: "RecvMessage mem junk (new_stream [Chunk (take n (GetProtocolStr p)), Chunk (drop n (GetProtocolStr p) @ rest)]) p0 =
      Some (res, p', ss')"
  shows "res \<and> pending ss' = drop (length (GetProtocolStr p) - (16 - n)) (GetProtocolStr p) @ rest"
proof -
  let ?f = "GetProtocolStr p" and ?L = "length (GetProtocolStr p)"
  let ?c = "take n ?f" and ?ss = "new_stream [Chunk (take n ?f), Chunk (drop n ?f @ rest)]"
  have L: "?L < 2 ^ 31" "20 \<le> ?L" using ok by (auto simp: proto_ok_def length_protocol_str)
  have c: "length ?c = n" "?c \<noteq> []" "?c = take (length ?c) (word_bytes 8 (word_of_nat ?L :: u64))"
    using n L by (auto simp: protocol_str length_protocol_str simp flip: length_0_conv)
  obtain s1 where s1: "Read 16 ?ss = (int n, ?c, s1)" "pending s1 = drop n ?f @ rest" "stream_inv s1"
  proof -
    have "Read 16 ?ss = (int n, ?c, (new_stream [Chunk (drop n ?f @ rest)])\<lparr>readBuff := ?c @ drop n (replicate maxBuffSize NUL)\<rparr>)"
      using n c(1,2) by (simp add: Read_def new_stream_def Let_def copied_small maxBuffSize_def MAX_RECV_BUFF_SIZE_def)
    moreover have "stream_inv ((new_stream [Chunk (drop n ?f @ rest)])\<lparr>readBuff := ?c @ drop n (replicate maxBuffSize NUL)\<rparr>)"
      using n c(1) by (simp add: stream_inv_def new_stream_def maxBuffSize_def)
    ultimately show ?thesis by (intro that) (simp_all add: pending_def unread_def new_stream_def)
  qed
  have e: "to_int 16 = 16" "to_int (word_of_nat ?L) = int ?L"
    using to_int_small [of 16] to_int_small [OF L(1)] by simp_all
  have k: "nat (int ?L - 16) = ?L - 16" "?L - 16 \<le> length (pending s1)" using s1(2) n L by auto
  obtain s2 where s2: "read_part 16 (int ?L) s1 = (True, take (?L - 16) (pending s1), s2)"
    "pending s2 = drop (?L - 16) (pending s1)"
    using ReadBuf_collect [of s1 "int ?L" 16 "?L - 16" "[]"] s1(3) k by (auto simp: read_part_def)
  have "pending s2 = drop (?L - (16 - n)) ?f @ rest" using s2(2) s1(2) n L by (simp add: add.commute)
  moreover have "res \<and> ss' = s2"
  proof -
    have lens: "length ?c < 8" "?L < 256 ^ length ?c" using c(1) n by simp_all
    note g = split_lengths [OF lens(1) c(2) lens(2) L(1) c(3)]
    have h: "read_part 16 16 s1 = (True, [], s1)" by (simp add: read_part_def)
    show ?thesis
      using R s1(1) s2(1) e n g h
      by (auto simp: RecvMessage_def PROTOCOL_LENGTH_SIZE_def HEADER_LENGTH_SIZE_def Let_def bind_eq_Some_conv)
  qed
  ultimately show ?thesis by simp
qed

text \<open>The server builds a fresh stream per request. When two frames arrive in one chunk of at
  most 4096 bytes, the first is received, and the second is in the buffer that is thrown
  away with the stream: nothing of it is left on the socket.\<close>

lemma pipelined_frame_lost:
  assumes "proto_ok mem p" "proto_ok mem q" "length (GetProtocolStr p @ GetProtocolStr q) \<le> maxBuffSize"
    and "msg_payload (message p0) = []"
  shows "\<exists>ss'. RecvMessage mem junk (new_stream [Chunk (GetProtocolStr p @ GetProtocolStr q)]) p0 = Some (True, p, ss') \<and>
    arrived (sock ss') = []"
proof -
  let ?c = "GetProtocolStr p @ GetProtocolStr q"
  have len: "16 \<le> length ?c" "?c \<noteq> []"
    by (auto simp: length_protocol_str simp flip: length_0_conv)
  obtain ss' where r: "RecvMessage mem junk (new_stream [Chunk ?c]) p0 = Some (True, p, ss')"
    "pending ss' = GetProtocolStr q"
    using frame_received [of "new_stream [Chunk ?c]" p "GetProtocolStr q" mem p0 junk] assms len
    by (auto simp: lengths_ready_def) (auto simp: new_stream_def)
  have "recv [Chunk ?c] maxBuffSize = (int (length ?c), ?c, [])"
    using assms(3) len by simp
  then have "\<exists>n bs s1. Read (PROTOCOL_LENGTH_SIZE + HEADER_LENGTH_SIZE) (new_stream [Chunk ?c]) = (n, bs, s1) \<and> sock s1 = []"
    using len assms(3) buffer_bounds
    by (simp add: Read_def Let_def new_stream_def PROTOCOL_LENGTH_SIZE_def HEADER_LENGTH_SIZE_def
        maxBuffSize_def copied_small)
  with r(1) have "sock ss' = []" by (blast dest: RecvMessage_sock_nil)
  with r show ?thesis by simp
qed

lemma pipelined_frame_lost_witness:
  "\<exists>ss'. RecvMessage 100 7 (new_stream [Chunk (GetProtocolStr empty_proto @ GetProtocolStr empty_proto)]) empty_proto =
      Some (True, empty_proto, ss') \<and> arrived (sock ss') = []"
  by (rule pipelined_frame_lost)
    (simp_all add: empty_proto_wf length_empty_proto maxBuffSize_def, simp add: empty_proto_def)

end
