(* ===== verification/Instance_Run_Handler.thy ===== *)
theory Instance_Run_Handler
  imports Plugin_Store Message_Protocol
begin

text \<open>
  The scheduler of \<^verbatim>\<open>src/plugin_mgr/instance_run_handler.h\<close> and \<open>instance_run_handler.cpp\<close>, and the
  events of \<^verbatim>\<open>src/common/event.h\<close>. One record holds the fields of the class, the heap of
  instances, and the process-wide register of serializers. \<open>notified\<close> records the messages in the
  order in which \<open>NotifyOne\<close> was called on them. \<open>unset\<close> and \<open>uninit\<close> are the contents of
  a \<open>Result\<close> and of an integer that the code never initializes.
\<close>

subsection \<open>Events\<close>

datatype EventType = INTERNAL | EXTERNAL | EventTypeUnset

record Event =
  ev_opt :: Opt
  ev_type :: EventType
  ev_payload :: "string list"

record EventResult =
  er_opt :: Opt
  er_payload :: "string list"

subsection \<open>State\<close>

record ScheduleInstance =
  si_instance :: ref
  si_time :: nat

type_synonym TopicState = "(string \<times> (string \<times> (string \<times> bool) list) list) list"

record 'p irh =
  heap :: "'p heap"
  memoryStore :: MemoryStore
  scheduleQueue :: "ScheduleInstance list"
  recvQueue :: "InstanceRunMessage SafeQueue"
  recvData :: "Event SafeQueue"
  topicRunOnce :: "(Topic \<times> string) list"
  topicState :: TopicState
  subscibers :: "(string \<times> string list) list"
  time :: nat
  cycle :: nat
  notified :: "InstanceRunMessage list"
  register :: Register
  mem_limit :: nat
  unset :: Result
  uninit :: u64

text \<open>A method of instance \<open>r\<close> left it as \<open>i\<close> and pushed the messages \<open>ms\<close>.\<close>

definition called :: "ref \<Rightarrow> 'p Instance \<Rightarrow> msgs \<Rightarrow> 'p irh \<Rightarrow> 'p irh" where
  "called r i ms st = st\<lparr>heap := (heap st)[r := i], recvQueue := foldl Push (recvQueue st) ms\<rparr>"

definition at_ref :: "ref \<Rightarrow> 'p irh \<Rightarrow> 'p Instance option" where
  "at_ref r st = deref (heap st) r"

subsection \<open>The run queue\<close>

text \<open>
  \<open>operator<\<close> of \<open>ScheduleInstance\<close>. \<open>std::priority_queue\<close> yields a greatest element; which one
  of several equally great is not specified, the model takes the one first in its list.
\<close>

definition prio :: "'p heap \<Rightarrow> ref \<Rightarrow> int" where
  "prio h r = (case deref h r of Some i \<Rightarrow> priority (interface i) | None \<Rightarrow> 0)"

definition si_less :: "'p heap \<Rightarrow> ScheduleInstance \<Rightarrow> ScheduleInstance \<Rightarrow> bool" where
  "si_less h a b =
     (si_time a > si_time b \<or>
      (si_time a = si_time b \<and> prio h (si_instance a) > prio h (si_instance b)))"

definition queue_push :: "ScheduleInstance \<Rightarrow> ScheduleInstance list \<Rightarrow> ScheduleInstance list" where
  "queue_push x q = q @ [x]"

fun queue_top :: "'p heap \<Rightarrow> ScheduleInstance list \<Rightarrow> ScheduleInstance option" where
  "queue_top h [] = None"
| "queue_top h (x # q) =
     (case queue_top h q of None \<Rightarrow> Some x | Some y \<Rightarrow> Some (if si_less h x y then y else x))"

definition queue_pop :: "'p heap \<Rightarrow> ScheduleInstance list \<Rightarrow> ScheduleInstance list" where
  "queue_pop h q = (case queue_top h q of None \<Rightarrow> q | Some x \<Rightarrow> remove1 x q)"

subsection \<open>Enabling and disabling\<close>

text \<open>\<open>2 * period\<close> is computed in \<open>int\<close>: an overflow is undefined.\<close>

definition twice :: "int \<Rightarrow> int option" where
  "twice n = (if - (2 ^ 31) \<le> 2 * n \<and> 2 * n < 2 ^ 31 then Some (2 * n) else None)"

definition first_run :: "nat \<Rightarrow> 'p Interface \<Rightarrow> nat option" where
  "first_run now ifc =
     (if if_type ifc AND SCENARIO \<noteq> 0 then Some (u64_add now (period ifc))
      else if if_type ifc AND TUNE \<noteq> 0 then do { d \<leftarrow> twice (period ifc); Some (u64_add now d) }
      else Some now)"

definition EnableInstance :: "string \<Rightarrow> string \<Rightarrow> 'p irh \<Rightarrow> (Result \<times> 'p irh) option" where
  "EnableInstance n ps st =
     (if \<not> IsInstanceExist n (memoryStore st) then
        Some (\<lparr>code = FAILED, payload = ''instance {'' @ n @ ''} does not exist.''\<rparr>, st)
      else do {
        r \<leftarrow> GetInstance n (memoryStore st);
        i \<leftarrow> at_ref r st;
        (case v_Enable (interface i) ps (priv i) of (result, p, ms) \<Rightarrow>
           if res_failed result then Some (result, called r (i\<lparr>priv := p\<rparr>) ms st)
           else do {
             t \<leftarrow> first_run (time st) (interface i);
             let st1 = called r (i\<lparr>priv := p, enabled := True, enableCnt := u64_add (enableCnt i) 1\<rparr>) ms st;
             Some (result, st1\<lparr>scheduleQueue := queue_push \<lparr>si_instance = r, si_time = t\<rparr> (scheduleQueue st1)\<rparr>)
           })
      })"

text \<open>\<open>CloseInstance\<close>: the instance is marked first, then its \<open>Disable\<close> runs.\<close>

definition CloseInstance :: "ref \<Rightarrow> 'p irh \<Rightarrow> 'p irh option" where
  "CloseInstance r st = do {
     i \<leftarrow> at_ref r st;
     (i1, ms) \<leftarrow> Disable (i\<lparr>enabled := False\<rparr>);
     Some (called r i1 ms st)
   }"

definition DisableInstance :: "string \<Rightarrow> 'p irh \<Rightarrow> 'p irh option" where
  "DisableInstance n st =
     (if \<not> IsInstanceExist n (memoryStore st) then Some st
      else do {
        r \<leftarrow> GetInstance n (memoryStore st);
        i \<leftarrow> at_ref r st;
        (i1, ms) \<leftarrow> Disable (i\<lparr>enabled := False\<rparr>);
        Some (called r i1 ms st)
      })"

subsection \<open>Subscriptions\<close>

text \<open>\<open>topicState[a][b][c]\<close>: reading creates the entry.\<close>

definition ts_get :: "TopicState \<Rightarrow> string \<Rightarrow> string \<Rightarrow> string \<Rightarrow> bool" where
  "ts_get ts a b c = al_get False (al_get [] (al_get [] ts a) b) c"

definition ts_set :: "string \<Rightarrow> string \<Rightarrow> string \<Rightarrow> bool \<Rightarrow> TopicState \<Rightarrow> TopicState" where
  "ts_set a b c v ts =
     AList.update a (AList.update b (AList.update c v (al_get [] (al_get [] ts a) b)) (al_get [] ts a)) ts"

definition subs_insert :: "string \<Rightarrow> string \<Rightarrow> (string \<times> string list) list \<Rightarrow> (string \<times> string list) list" where
  "subs_insert type s m = AList.update type (List.insert s (al_get [] m type)) m"

definition INSTANCE_RUN_ONCE :: int where
  "INSTANCE_RUN_ONCE = 2"

text \<open>
  \<open>Subscribe\<close> in two parts: from the test of \<open>topicState\<close> on, where \<open>result\<close> is what the local
  variable holds by then, and the whole.
\<close>

definition subscribe_topic ::
  "string list \<Rightarrow> string \<Rightarrow> Topic \<Rightarrow> ref \<Rightarrow> Result \<Rightarrow> 'p irh \<Rightarrow> (Result \<times> 'p irh) option" where
  "subscribe_topic ps p0 topic r result st = do {
     let a = instanceName topic;
     let b = topicName topic;
     let c = params topic;
     let open = ts_get (topicState st) a b c;
     let st1 = st\<lparr>topicState := ts_set a b c open (topicState st)\<rparr>;
     i \<leftarrow> at_ref r st1;
     let (result1, i1, ms) = (if open then (result, i, []) else OpenTopic topic i);
     let st2 = called r i1 ms st1;
     if \<not> open \<and> res_failed result1 then do {
       st3 \<leftarrow> DisableInstance (ins_name i) st2;
       Some (result1, st3)
     } else do {
       s \<leftarrow> nth_opt ps 1;
       let st3 = st2\<lparr>topicState := ts_set a b c True (topicState st2), subscibers := subs_insert p0 s (subscibers st2)\<rparr>;
       Some (result1,
         if if_type (interface i) AND INSTANCE_RUN_ONCE \<noteq> 0
         then st3\<lparr>topicRunOnce := topicRunOnce st3 @ [(topic, s)]\<rparr> else st3)
     }
   }"

definition Subscribe :: "string list \<Rightarrow> 'p irh \<Rightarrow> (Result \<times> 'p irh) option" where
  "Subscribe ps st = do {
     p0 \<leftarrow> nth_opt ps 0;
     topic \<leftarrow> GetTopicFromType p0;
     let a = instanceName topic;
     if \<not> IsInstanceExist a (memoryStore st) then
       Some (\<lparr>code = FAILED, payload = ''instance {'' @ a @ ''} does not exist.''\<rparr>, st)
     else do {
       r \<leftarrow> GetInstance a (memoryStore st);
       i \<leftarrow> at_ref r st;
       if \<not> enabled i then do {
         (result, st1) \<leftarrow> EnableInstance (ins_name i) (params topic) st;
         if res_failed result then Some (result, st1)
         else subscribe_topic ps p0 topic r result st1
       } else subscribe_topic ps p0 topic r (unset st) st
     }
   }"

text \<open>
  \<open>UpdateInstance\<close>, loop by loop: the parameters of a topic, the topics of an instance, the
  instances. Each returns how many topics stay open.
\<close>

fun update_params :: "string \<Rightarrow> string \<Rightarrow> (string \<times> bool) list \<Rightarrow> 'p irh \<Rightarrow> (nat \<times> (string \<times> bool) list \<times> 'p irh) option" where
  "update_params a b [] st = Some (0, [], st)"
| "update_params a b ((c, open) # pps) st =
     (if open then
        (if \<not> al_count (subscibers st) (Concat [a, b, c] ''::'') then do {
           r \<leftarrow> GetInstance a (memoryStore st);
           i \<leftarrow> at_ref r st;
           let (i1, ms) = CloseTopic \<lparr>instanceName = a, topicName = b, params = c\<rparr> i;
           (n, pps1, st1) \<leftarrow> update_params a b pps (called r i1 ms st);
           Some (n, (c, False) # pps1, st1)
         } else do {
           (n, pps1, st1) \<leftarrow> update_params a b pps st;
           Some (Suc n, (c, open) # pps1, st1)
         })
      else do {
        (n, pps1, st1) \<leftarrow> update_params a b pps st;
        Some (n, (c, open) # pps1, st1)
      })"

fun update_topics :: "string \<Rightarrow> (string \<times> (string \<times> bool) list) list \<Rightarrow> 'p irh \<Rightarrow>
    (nat \<times> (string \<times> (string \<times> bool) list) list \<times> 'p irh) option" where
  "update_topics a [] st = Some (0, [], st)"
| "update_topics a ((b, pps) # pts) st = do {
     (n, pps1, st1) \<leftarrow> update_params a b pps st;
     (m, pts1, st2) \<leftarrow> update_topics a pts st1;
     Some (n + m, (b, pps1) # pts1, st2)
   }"

fun update_instances :: "TopicState \<Rightarrow> 'p irh \<Rightarrow> (TopicState \<times> 'p irh) option" where
  "update_instances [] st = Some ([], st)"
| "update_instances ((a, pts) # ts) st = do {
     (cntTopic, pts1, st1) \<leftarrow> update_topics a pts st;
     st2 \<leftarrow> (if cntTopic = 0 then do {
         r \<leftarrow> GetInstance a (memoryStore st1);
         i \<leftarrow> at_ref r st1;
         if enabled i then DisableInstance a st1 else Some st1
       } else Some st1);
     (ts1, st3) \<leftarrow> update_instances ts st2;
     Some ((a, pts1) # ts1, st3)
   }"

definition UpdateInstance :: "'p irh \<Rightarrow> 'p irh option" where
  "UpdateInstance st = do {
     (ts, st1) \<leftarrow> update_instances (topicState st) st;
     Some (st1\<lparr>topicState := ts\<rparr>)
   }"

definition subs_erase :: "string \<Rightarrow> string \<Rightarrow> (string \<times> string list) list \<Rightarrow> (string \<times> string list) list" where
  "subs_erase type s m =
     (let rest = removeAll s (al_get [] m type); m1 = AList.update type rest m in
      if rest = [] then AList.delete type m1 else m1)"

definition Unsubscribe :: "string list \<Rightarrow> 'p irh \<Rightarrow> (Result \<times> 'p irh) option" where
  "Unsubscribe ps st = do {
     p0 \<leftarrow> nth_opt ps 0;
     topic \<leftarrow> GetTopicFromType p0;
     p1 \<leftarrow> nth_opt ps 1;
     st1 \<leftarrow> UpdateInstance (st\<lparr>subscibers := subs_erase p0 p1 (subscibers st)\<rparr>);
     Some (unset st, st1)
   }"

text \<open>The loop over the subscribers: \<open>before\<close> is what the iterator has passed.\<close>

fun unsub_sdk :: "string \<Rightarrow> (string \<times> string list) list \<Rightarrow> (string \<times> string list) list \<Rightarrow> 'p irh \<Rightarrow> 'p irh option" where
  "unsub_sdk fd before [] st = Some (st\<lparr>subscibers := before\<rparr>)"
| "unsub_sdk fd before ((type, ss) # after) st =
     (if fd \<in> set ss then do {
        let rest = removeAll fd ss;
        let before1 = (if rest = [] then before else before @ [(type, rest)]);
        st1 \<leftarrow> UpdateInstance (st\<lparr>subscibers := before1 @ after\<rparr>);
        unsub_sdk fd before1 after st1
      } else unsub_sdk fd (before @ [(type, ss)]) after st)"

definition UnsubscribeSdk :: "string list \<Rightarrow> 'p irh \<Rightarrow> (Result \<times> 'p irh) option" where
  "UnsubscribeSdk ps st = do {
     fd \<leftarrow> nth_opt ps 0;
     st1 \<leftarrow> unsub_sdk fd [] (subscibers st) st;
     Some (unset st, st1)
   }"

subsection \<open>Publishing\<close>

text \<open>\<open>Publish\<close> opens the topic last, when the text names one.\<close>

definition publish_topic :: "Topic \<Rightarrow> ref \<Rightarrow> 'p irh \<Rightarrow> (Result \<times> 'p irh) option" where
  "publish_topic topic r st =
     (if topicName topic \<noteq> [] then do {
        i \<leftarrow> at_ref r st;
        let (result, i1, ms) = OpenTopic topic i;
        let st1 = called r i1 ms st;
        if res_failed result then Some (result, st1)
        else Some (\<lparr>code = OK, payload = []\<rparr>, st1)
      } else Some (\<lparr>code = OK, payload = []\<rparr>, st))"

definition Publish :: "string list \<Rightarrow> 'p irh \<Rightarrow> (Result \<times> 'p irh) option" where
  "Publish ps st = do {
     p0 \<leftarrow> nth_opt ps 0;
     (_, dataList, _) \<leftarrow> DataListDeserialize (register st) (uninit st) (mk_in (mem_limit st) p0);
     a \<leftarrow> std_string (ct_instance (dl_topic dataList));
     b \<leftarrow> std_string (ct_topic (dl_topic dataList));
     c \<leftarrow> std_string (ct_params (dl_topic dataList));
     let topic = \<lparr>instanceName = a, topicName = b, params = c\<rparr>;
     if \<not> IsInstanceExist a (memoryStore st) then
       Some (\<lparr>code = FAILED, payload = ''instance '' @ a @ '' is not exist.''\<rparr>, st)
     else do {
       r \<leftarrow> GetInstance a (memoryStore st);
       i \<leftarrow> at_ref r st;
       if b \<noteq> [] \<and> \<not> al_count (supportTopics i) b then
         Some (\<lparr>code = FAILED, payload = ''topic '' @ b @ '' is not exist.''\<rparr>, st)
       else do {
         let (p, ms) = v_UpdateData (interface i) dataList (priv i);
         let st1 = called r (i\<lparr>priv := p\<rparr>) ms st;
         if \<not> enabled i then do {
           (result, st2) \<leftarrow> EnableInstance a [] st1;
           if res_failed result then Some (result, st2) else publish_topic topic r st2
         } else publish_topic topic r st1
       }
     }
   }"

text \<open>
  A subscriber with a digit in its name is the connection of a client, any other an instance.
  A client gets the serialized data as an event, an instance a call of \<open>UpdateData\<close>.
\<close>

definition is_sdk :: "string \<Rightarrow> bool" where
  "is_sdk s = list_ex isdigit s"

fun deliver :: "string \<Rightarrow> DataList \<Rightarrow> string list \<Rightarrow> 'p irh \<Rightarrow> 'p irh option" where
  "deliver type dataList [] st = Some st"
| "deliver type dataList (s # ss) st =
     (if is_sdk s then do {
        (_, out) \<leftarrow> DataListSerialize (register st) dataList [];
        deliver type dataList ss
          (st\<lparr>recvData := Push (recvData st) \<lparr>ev_opt = OptDATA, ev_type = EventTypeUnset, ev_payload = [s, out]\<rparr>\<rparr>)
      } else do {
        _ \<leftarrow> GetTopicFromType type;
        r \<leftarrow> GetInstance s (memoryStore st);
        i \<leftarrow> at_ref r st;
        let (p, ms) = v_UpdateData (interface i) dataList (priv i);
        deliver type dataList ss (called r (i\<lparr>priv := p\<rparr>) ms st)
      })"

text \<open>\<open>subscibers[payload[0]]\<close> leaves an empty set behind for a topic nobody subscribed to.\<close>

definition PublishData :: "InstanceRunMessage \<Rightarrow> 'p irh \<Rightarrow> 'p irh option" where
  "PublishData msg st = do {
     type \<leftarrow> nth_opt (irm_payload msg) 0;
     let ss = al_get [] (subscibers st) type;
     let st1 = st\<lparr>subscibers := AList.update type ss (subscibers st)\<rparr>;
     if ss = [] then Some st1
     else do {
       dataList \<leftarrow> irm_dataList msg;
       deliver type dataList ss st1
     }
   }"

subsection \<open>The message loop\<close>

text \<open>The body of the switch: the result the message gets, and the state.\<close>

definition handle_msg :: "InstanceRunMessage \<Rightarrow> 'p irh \<Rightarrow> (InstanceRunMessage \<times> 'p irh) option" where
  "handle_msg msg st =
     (case irm_type msg of
        RunENABLED \<Rightarrow> do {
          p0 \<leftarrow> nth_opt (irm_payload msg) 0;
          p1 \<leftarrow> nth_opt (irm_payload msg) 1;
          (res, st1) \<leftarrow> EnableInstance p0 p1 st;
          Some (msg\<lparr>irm_result := res\<rparr>, st1) }
      | RunDISABLED \<Rightarrow> do {
          p0 \<leftarrow> nth_opt (irm_payload msg) 0;
          st1 \<leftarrow> DisableInstance p0 st;
          Some (msg, st1) }
      | RunDISABLED_FORCE \<Rightarrow> do {
          p0 \<leftarrow> nth_opt (irm_payload msg) 0;
          st1 \<leftarrow> DisableInstance p0 st;
          Some (msg, st1) }
      | RunSUBSCRIBE \<Rightarrow> do {
          (res, st1) \<leftarrow> Subscribe (irm_payload msg) st;
          Some (msg\<lparr>irm_result := res\<rparr>, st1) }
      | RunUNSUBSCRIBE \<Rightarrow> do { (_, st1) \<leftarrow> Unsubscribe (irm_payload msg) st; Some (msg, st1) }
      | RunUNSUBSCRIBE_SDK \<Rightarrow> do { (_, st1) \<leftarrow> UnsubscribeSdk (irm_payload msg) st; Some (msg, st1) }
      | RunPUBLISH \<Rightarrow> do {
          (res, st1) \<leftarrow> Publish (irm_payload msg) st;
          Some (msg\<lparr>irm_result := res\<rparr>, st1) }
      | RunPUBLISH_DATA \<Rightarrow> do { st1 \<leftarrow> PublishData msg st; Some (msg, st1) }
      | RunSHUTDOWN \<Rightarrow> Some (msg, st))"

text \<open>
  One turn of the loop on the local variable \<open>shutdown\<close> and the state; the first component
  says whether the loop goes on.
\<close>

definition handle_one :: "bool \<times> 'p irh \<Rightarrow> (bool \<times> bool \<times> 'p irh) option" where
  "handle_one s = (case s of (shutdown, st) \<Rightarrow>
     if shutdown then Some (False, shutdown, st)
     else (case TryPop (recvQueue st) of
        None \<Rightarrow> Some (False, shutdown, st)
      | Some (msg, q) \<Rightarrow> do {
          (msg1, st1) \<leftarrow> handle_msg msg (st\<lparr>recvQueue := q\<rparr>);
          Some (True, irm_type msg = RunSHUTDOWN, st1\<lparr>notified := notified st1 @ [NotifyOne msg1]\<rparr>)
        }))"

partial_function (option) message_loop :: "bool \<times> 'p irh \<Rightarrow> (bool \<times> 'p irh) option" where
  "message_loop s = do {
     (go, s1) \<leftarrow> handle_one s;
     if go then message_loop s1 else Some s1
   }"

text \<open>Whether to go on, and the state.\<close>

definition HandleMessage :: "'p irh \<Rightarrow> (bool \<times> 'p irh) option" where
  "HandleMessage st = do {
     (shutdown, st1) \<leftarrow> message_loop (False, st);
     Some (if shutdown then (False, st1) else (True, st1))
   }"

subsection \<open>The run loop\<close>

definition schedule_one :: "'p irh \<Rightarrow> (bool \<times> 'p irh) option" where
  "schedule_one st =
     (case queue_top (heap st) (scheduleQueue st) of
        None \<Rightarrow> Some (False, st)
      | Some si \<Rightarrow>
          if si_time si \<noteq> time st then Some (False, st)
          else do {
            let st1 = st\<lparr>scheduleQueue := queue_pop (heap st) (scheduleQueue st)\<rparr>;
            i \<leftarrow> at_ref (si_instance si) st1;
            if \<not> enabled i then Some (True, st1)
            else do {
              let (p, ms) = v_Run (interface i) (priv i);
              let st2 = called (si_instance si) (i\<lparr>priv := p\<rparr>) ms st1;
              if if_type (interface i) AND INSTANCE_RUN_ONCE \<noteq> 0 then do {
                st3 \<leftarrow> CloseInstance (si_instance si) st2;
                Some (True, st3)
              } else
                Some (True, st2\<lparr>scheduleQueue :=
                  queue_push (si\<lparr>si_time := u64_add (si_time si) (period (interface i))\<rparr>) (scheduleQueue st2)\<rparr>)
            }
          })"

partial_function (option) Schedule :: "'p irh \<Rightarrow> 'p irh option" where
  "Schedule st = do {
     (go, st1) \<leftarrow> schedule_one st;
     if go then Schedule st1 else Some st1
   }"

text \<open>\<open>GetCycle\<close> returns the cycle as an \<open>int\<close>; the cycle is 10, which every type on the way holds.\<close>

definition AddTime :: "nat \<Rightarrow> 'p irh \<Rightarrow> 'p irh" where
  "AddTime d st = st\<lparr>time := (time st + d) mod 2 ^ 64\<rparr>"

text \<open>One cycle of \<open>Start\<close>, and \<open>n\<close> of them; the loop ends for good at a shutdown message.\<close>

definition Start_cycle :: "'p irh \<Rightarrow> (bool \<times> 'p irh) option" where
  "Start_cycle st = do {
     (go, st1) \<leftarrow> HandleMessage st;
     if \<not> go then Some (False, st1)
     else do {
       st2 \<leftarrow> Schedule st1;
       Some (True, AddTime (cycle st2) st2)
     }
   }"

fun Start :: "nat \<Rightarrow> 'p irh \<Rightarrow> (bool \<times> 'p irh) option" where
  "Start 0 st = Some (True, st)"
| "Start (Suc n) st = do {
     (go, st1) \<leftarrow> Start_cycle st;
     if go then Start n st1 else Some (False, st1)
   }"

subsection \<open>The loops as instances of the loop contract\<close>

interpretation msg_loop: option_loop handle_one message_loop
proof (unfold_locales, goal_cases)
  case (1 s)
  show ?case by (rule message_loop.simps)
next
  case (2 P s s2)
  show ?case
  proof (rule message_loop.raw_induct [OF _ 2(3)])
    fix f s s2
    assume "\<And>s s2. f s = Some s2 \<Longrightarrow> P s s2"
      and "handle_one s \<bind> (\<lambda>(go, s1). if go then f s1 else Some s1) = Some s2"
    then show "P s s2"
      using 2(1,2) by (cases "handle_one s") (auto split: if_splits prod.splits)
  qed
qed

interpretation run_loop: option_loop schedule_one Schedule
proof (unfold_locales, goal_cases)
  case (1 s)
  show ?case by (rule Schedule.simps)
next
  case (2 P s s2)
  show ?case
  proof (rule Schedule.raw_induct [OF _ 2(3)])
    fix f s s2
    assume "\<And>s s2. f s = Some s2 \<Longrightarrow> P s s2"
      and "schedule_one s \<bind> (\<lambda>(go, s1). if go then f s1 else Some s1) = Some s2"
    then show "P s s2"
      using 2(1,2) by (cases "schedule_one s") (auto split: if_splits prod.splits)
  qed
qed

end
