(* ===== verification/Config.thy ===== *)
theory Config
  imports Utils
begin

text \<open>
  The configuration of the server, \<^verbatim>\<open>src/plugin_mgr/config.h\<close> and \<open>config.cpp\<close>, and the levels of
  its loggers, \<^verbatim>\<open>src/plugin_mgr/logger.h\<close> and \<open>logger.cpp\<close>.

  The YAML library is a parameter: \<open>yaml_api\<close> holds the functions on nodes the code calls,
  each \<open>None\<close> where it throws \<open>YAML::Exception\<close>. So are the numbers log4cplus gives its levels.
\<close>

subsection \<open>Nodes of a configuration file\<close>

record 'n yaml_api =
  y_LoadFile :: "string \<Rightarrow> 'n option"
  y_IsMap :: "'n \<Rightarrow> bool option"
  y_IsNull :: "'n \<Rightarrow> bool option"
  y_IsDefined :: "'n \<Rightarrow> bool option"
  y_IsSequence :: "'n \<Rightarrow> bool option"
  y_size :: "'n \<Rightarrow> nat option"
  y_index :: "'n \<Rightarrow> nat \<Rightarrow> 'n option"
  y_key :: "'n \<Rightarrow> string \<Rightarrow> 'n option"
  y_string :: "'n \<Rightarrow> string option"
  y_int :: "'n \<Rightarrow> int option"

subsection \<open>The configuration\<close>

record PluginInfo =
  pi_name :: string
  pi_description :: string
  pi_url :: string

record EnableItem =
  ei_instance :: "string list"
  ei_name :: string
  ei_enabled :: bool

definition AddInstance_item :: "string \<Rightarrow> EnableItem \<Rightarrow> EnableItem" where
  "AddInstance_item t item = item\<lparr>ei_instance := ei_instance item @ [t]\<rparr>"

record Config =
  logLevel :: int
  logPath :: string
  pluginList :: "(string \<times> PluginInfo) list"
  enableList :: "EnableItem list"

definition IsPluginInfoExist :: "string \<Rightarrow> Config \<Rightarrow> bool" where
  "IsPluginInfoExist n c = al_count (pluginList c) n"

text \<open>\<open>at\<close> throws on a name that is not there.\<close>

definition GetPluginInfo :: "string \<Rightarrow> Config \<Rightarrow> PluginInfo option" where
  "GetPluginInfo n c = map_of (pluginList c) n"

definition CheckPluginList :: "'n yaml_api \<Rightarrow> 'n \<Rightarrow> bool option" where
  "CheckPluginList y item = do {
     n \<leftarrow> y_key y item ''name'';
     nameNull \<leftarrow> y_IsNull y n;
     if nameNull then Some False
     else do {
       u \<leftarrow> y_key y item ''url'';
       urlNull \<leftarrow> y_IsNull y u;
       Some (\<not> urlNull)
     }
   }"

text \<open>
  A loop over the elements of a sequence. An exception leaves the loop with what the turns
  before it have stored; the first component says that none was thrown.
\<close>

fun each :: "(nat \<Rightarrow> 'c \<Rightarrow> 'c option) \<Rightarrow> nat list \<Rightarrow> 'c \<Rightarrow> bool \<times> 'c" where
  "each f [] c = (True, c)"
| "each f (i # is) c = (case f i c of None \<Rightarrow> (False, c) | Some c1 \<Rightarrow> each f is c1)"

definition add_plugin_info :: "'n yaml_api \<Rightarrow> 'n \<Rightarrow> nat \<Rightarrow> Config \<Rightarrow> Config option" where
  "add_plugin_info y items i c = do {
     item \<leftarrow> y_index y items i;
     good \<leftarrow> CheckPluginList y item;
     if \<not> good then Some c
     else do {
       n \<leftarrow> y_key y item ''name'' \<bind> y_string y;
       d \<leftarrow> y_key y item ''description'' \<bind> y_string y;
       u \<leftarrow> y_key y item ''url'' \<bind> y_string y;
       if al_count (pluginList c) n then Some c
       else Some (c\<lparr>pluginList := al_insert n \<lparr>pi_name = n, pi_description = d, pi_url = u\<rparr> (pluginList c)\<rparr>)
     }
   }"

definition SetPluginList :: "'n yaml_api \<Rightarrow> 'n \<Rightarrow> Config \<Rightarrow> bool \<times> Config" where
  "SetPluginList y node c =
     (case (do {
        items \<leftarrow> y_key y node ''plugin_list'';
        s \<leftarrow> y_IsSequence y items;
        n \<leftarrow> (if s then y_size y items else Some 0);
        Some (items, n) }) of
        None \<Rightarrow> (False, c)
      | Some (items, n) \<Rightarrow> each (add_plugin_info y items) [0..<n] c)"

fun item_instances :: "'n yaml_api \<Rightarrow> 'n \<Rightarrow> nat list \<Rightarrow> EnableItem \<Rightarrow> EnableItem option" where
  "item_instances y ns [] item = Some item"
| "item_instances y ns (j # js) item = do {
     t \<leftarrow> y_index y ns j \<bind> y_string y;
     item_instances y ns js (AddInstance_item t item)
   }"

definition add_enable_item :: "'n yaml_api \<Rightarrow> 'n \<Rightarrow> nat \<Rightarrow> Config \<Rightarrow> Config option" where
  "add_enable_item y items i c = do {
     e \<leftarrow> y_index y items i;
     p \<leftarrow> y_key y e ''name'' \<bind> y_string y;
     ns \<leftarrow> y_key y e ''instances'';
     let item = \<lparr>ei_instance = [], ei_name = p, ei_enabled = False\<rparr>;
     def \<leftarrow> y_IsDefined y ns;
     absent \<leftarrow> (if \<not> def then Some True else y_IsNull y ns);
     if absent then Some (c\<lparr>enableList := enableList c @ [item\<lparr>ei_enabled := True\<rparr>]\<rparr>)
     else do {
       s \<leftarrow> y_IsSequence y ns;
       if \<not> s then Some c
       else do {
         n \<leftarrow> y_size y ns;
         item1 \<leftarrow> item_instances y ns [0..<n] item;
         Some (c\<lparr>enableList := enableList c @ [item1]\<rparr>)
       }
     }
   }"

definition SetEnableList :: "'n yaml_api \<Rightarrow> 'n \<Rightarrow> Config \<Rightarrow> bool \<times> Config" where
  "SetEnableList y node c =
     (case (do {
        items \<leftarrow> y_key y node ''enable_list'';
        s \<leftarrow> y_IsSequence y items;
        n \<leftarrow> (if s then y_size y items else Some 0);
        Some (items, n) }) of
        None \<Rightarrow> (False, c)
      | Some (items, n) \<Rightarrow> each (add_enable_item y items) [0..<n] c)"

text \<open>
  One of the four keys of \<open>Load\<close>: skipped when its node is null, else handed on. \<open>Load\<close> runs
  the four in order; the last step is what follows the \<open>try\<close> block.
\<close>

definition load_key ::
  "'n yaml_api \<Rightarrow> 'n \<Rightarrow> string \<Rightarrow> ('n \<Rightarrow> Config \<Rightarrow> bool \<times> Config) \<Rightarrow> Config \<Rightarrow> bool \<times> Config" where
  "load_key y node key use c =
     (case (do { n \<leftarrow> y_key y node key; null \<leftarrow> y_IsNull y n; Some (n, null) }) of
        None \<Rightarrow> (False, c)
      | Some (n, null) \<Rightarrow> if null then (True, c) else use n c)"

definition set_log_path :: "'n yaml_api \<Rightarrow> 'n \<Rightarrow> Config \<Rightarrow> bool \<times> Config" where
  "set_log_path y n c = (case y_string y n of None \<Rightarrow> (False, c) | Some s \<Rightarrow> (True, c\<lparr>logPath := s\<rparr>))"

definition set_log_level :: "'n yaml_api \<Rightarrow> 'n \<Rightarrow> Config \<Rightarrow> bool \<times> Config" where
  "set_log_level y n c = (case y_int y n of None \<Rightarrow> (False, c) | Some l \<Rightarrow> (True, c\<lparr>logLevel := l\<rparr>))"

fun in_order :: "('c \<Rightarrow> bool \<times> 'c) list \<Rightarrow> 'c \<Rightarrow> bool \<times> 'c" where
  "in_order [] c = (True, c)"
| "in_order (f # fs) c = (case f c of (good, c1) \<Rightarrow> if good then in_order fs c1 else (False, c1))"

definition Load_config :: "'n yaml_api \<Rightarrow> (string \<Rightarrow> bool) \<Rightarrow> string \<Rightarrow> Config \<Rightarrow> bool \<times> Config" where
  "Load_config y file_stat path c =
     (if \<not> file_stat path then (False, c)
      else (case y_LoadFile y path of
          None \<Rightarrow> (False, c)
        | Some node \<Rightarrow>
            (case y_IsMap y node of
               None \<Rightarrow> (False, c)
             | Some isMap \<Rightarrow>
                 if \<not> isMap then (False, c)
                 else in_order
                   [load_key y node ''log_path'' (set_log_path y),
                    load_key y node ''log_level'' (set_log_level y),
                    load_key y node ''plugin_list'' (\<lambda>_. SetPluginList y node),
                    load_key y node ''enable_list'' (\<lambda>_. SetEnableList y node)] c)))"

definition OE_MAX_LOG_LEVELS :: int where
  "OE_MAX_LOG_LEVELS = 6"

text \<open>The level a file asks for: the text of an error, or the number.\<close>

definition read_level :: "'n yaml_api \<Rightarrow> string \<Rightarrow> string + int" where
  "read_level y path =
     (case (do {
        node \<leftarrow> y_LoadFile y path;
        isMap \<leftarrow> y_IsMap y node;
        if \<not> isMap then Some None
        else do {
          n \<leftarrow> y_key y node ''log_level'';
          null \<leftarrow> y_IsNull y n;
          if null then Some None else do { l \<leftarrow> y_int y n; Some (Some l) }
        } }) of
        None \<Rightarrow> Inl ''config file format error''
      | Some None \<Rightarrow> Inl ''config file format error''
      | Some (Some level) \<Rightarrow>
          if level < 0 \<or> level \<ge> OE_MAX_LOG_LEVELS then
            Inl (''log level is out of range, must be in [0, '' @ to_string (OE_MAX_LOG_LEVELS - 1) @ '']'')
          else Inr level)"

text \<open>The result, the error text and the configuration.\<close>

definition Reload :: "'n yaml_api \<Rightarrow> (string \<Rightarrow> bool) \<Rightarrow> string \<Rightarrow> Config \<Rightarrow> bool \<times> string \<times> Config" where
  "Reload y file_stat path c =
     (if \<not> file_stat path then (False, path @ '' config file not found'', c)
      else (case read_level y path of
          Inl err \<Rightarrow> (False, err, c)
        | Inr level \<Rightarrow> (True, [], c\<lparr>logLevel := level\<rparr>)))"

subsection \<open>Loggers\<close>

text \<open>The level of each registered logger, and the level new ones get.\<close>

record Logger =
  loggers :: "(string \<times> int) list"
  lg_path :: string
  lg_level :: int

definition Register_logger :: "string \<Rightarrow> Logger \<Rightarrow> Logger" where
  "Register_logger n lg =
     (if al_count (loggers lg) n then lg else lg\<lparr>loggers := al_insert n (lg_level lg) (loggers lg)\<rparr>)"

definition Get_logger :: "string \<Rightarrow> Logger \<Rightarrow> int \<times> Logger" where
  "Get_logger n lg = (let lg1 = Register_logger n lg in (al_get 0 (loggers lg1) n, lg1))"

text \<open>\<open>LOG_LEVELS\<close> is the table of the six levels of log4cplus.\<close>

definition Init_logger :: "int list \<Rightarrow> string \<Rightarrow> int \<Rightarrow> Logger \<Rightarrow> int \<times> Logger" where
  "Init_logger LOG_LEVELS path level lg =
     (if level < 0 \<or> level \<ge> int (length LOG_LEVELS) then (-1, lg)
      else (0, lg\<lparr>lg_level := LOG_LEVELS ! nat level, lg_path := path\<rparr>))"

definition ChangeAllLogLevel :: "int list \<Rightarrow> int \<Rightarrow> Logger \<Rightarrow> bool \<times> Logger" where
  "ChangeAllLogLevel LOG_LEVELS level lg =
     (if level < 0 \<or> level \<ge> int (length LOG_LEVELS) then (False, lg)
      else let l = LOG_LEVELS ! nat level in
        (True, lg\<lparr>loggers := map (\<lambda>(n, old). if n = ''Main'' then (n, old) else (n, l)) (loggers lg), lg_level := l\<rparr>))"

definition LogText :: "string \<Rightarrow> string" where
  "LogText t = (if t = [] then ''nullptr'' else t)"

subsection \<open>What the configuration keeps\<close>

text \<open>Every known plugin is doc_listed once, under its own name.\<close>

definition config_inv :: "Config \<Rightarrow> bool" where
  "config_inv c = (distinct (map fst (pluginList c)) \<and> (\<forall>(n, p) \<in> set (pluginList c). pi_name p = n))"

text \<open>What the lists were before: a doc_listed plugin keeps its entry.\<close>

definition config_ok :: "Config \<Rightarrow> Config \<Rightarrow> bool" where
  "config_ok c0 c = (config_inv c \<and> (\<forall>n p. map_of (pluginList c0) n = Some p \<longrightarrow> map_of (pluginList c) n = Some p))"

lemma config_ok_fields [simp]:
  "config_ok c0 (c\<lparr>logPath := s\<rparr>) = config_ok c0 c" "config_ok c0 (c\<lparr>logLevel := l\<rparr>) = config_ok c0 c"
  "config_ok c0 (c\<lparr>enableList := es\<rparr>) = config_ok c0 c"
  by (simp_all add: config_ok_def config_inv_def)

lemma each_keeps:
  assumes "each f is c = (good, c')" "I c" "\<And>i c c1. f i c = Some c1 \<Longrightarrow> I c \<Longrightarrow> I c1"
  shows "I c'"
  using assms(1,2)
proof (induction "is" arbitrary: c)
  case Nil
  then show ?case by simp
next
  case (Cons i "is")
  then show ?case using assms(3) [of i c] by (auto split: option.splits)
qed

lemma in_order_keeps:
  assumes "in_order fs c = (good, c')" "I c" "\<And>f c good c1. f \<in> set fs \<Longrightarrow> f c = (good, c1) \<Longrightarrow> I c \<Longrightarrow> I c1"
  shows "I c'"
  using assms
proof (induction fs arbitrary: c)
  case Nil
  then show ?case by simp
next
  case (Cons f fs)
  obtain g c1 where f: "f c = (g, c1)" by fastforce
  have c1: "I c1" using Cons.prems(2,3) f by (meson list.set_intros(1))
  show ?case
  proof (cases g)
    case True
    with Cons.prems(1) f have "in_order fs c1 = (good, c')" by simp
    from this c1 show ?thesis by (rule Cons.IH) (meson Cons.prems(3) list.set_intros(2))
  next
    case False
    with Cons.prems(1) f c1 show ?thesis by simp
  qed
qed

lemma add_plugin_info_ok: "add_plugin_info y items i c = Some c1 \<Longrightarrow> config_ok c0 c \<Longrightarrow> config_ok c0 c1"
  by (auto simp: add_plugin_info_def config_ok_def config_inv_def al_count_def al_insert_def bind_eq_Some_conv
      map_of_eq_None_iff split: if_splits)

lemma add_enable_item_ok: "add_enable_item y items i c = Some c1 \<Longrightarrow> config_ok c0 c \<Longrightarrow> config_ok c0 c1"
  by (auto simp: add_enable_item_def bind_eq_Some_conv Let_def split: if_splits)

lemma SetPluginList_ok: "SetPluginList y node c = (good, c1) \<Longrightarrow> config_ok c0 c \<Longrightarrow> config_ok c0 c1"
  by (auto simp: SetPluginList_def split: option.splits prod.splits
      elim: each_keeps [where I = "config_ok c0"] add_plugin_info_ok)

lemma SetEnableList_ok: "SetEnableList y node c = (good, c1) \<Longrightarrow> config_ok c0 c \<Longrightarrow> config_ok c0 c1"
  by (auto simp: SetEnableList_def split: option.splits prod.splits
      elim: each_keeps [where I = "config_ok c0"] add_enable_item_ok)

lemma load_key_ok:
  assumes "load_key y node k use c = (good, c1)" "config_ok c0 c"
    and "\<And>n g d. use n c = (g, d) \<Longrightarrow> config_ok c0 c \<Longrightarrow> config_ok c0 d"
  shows "config_ok c0 c1"
  using assms by (auto simp: load_key_def split: option.splits prod.splits if_splits)

lemma set_log_ok:
  "set_log_path y n c = (good, c1) \<Longrightarrow> config_ok c0 c \<Longrightarrow> config_ok c0 c1"
  "set_log_level y n c = (good, c1) \<Longrightarrow> config_ok c0 c \<Longrightarrow> config_ok c0 c1"
  by (auto simp: set_log_path_def set_log_level_def split: option.splits)

lemma Load_config_ok:
  assumes "Load_config y fs path c = (good, c1)" "config_ok c0 c"
  shows "config_ok c0 c1"
proof -
  have "config_ok c0 c1" if "in_order [load_key y node ''log_path'' (set_log_path y),
      load_key y node ''log_level'' (set_log_level y), load_key y node ''plugin_list'' (\<lambda>_. SetPluginList y node),
      load_key y node ''enable_list'' (\<lambda>_. SetEnableList y node)] c = (good, c1)" for node
    using that assms(2)
    by (rule in_order_keeps)
      (auto elim!: load_key_ok intro: set_log_ok SetPluginList_ok SetEnableList_ok)
  with assms show ?thesis by (auto simp: Load_config_def split: if_splits option.splits)
qed

text \<open>A load that ends with an exception half way also leaves every plugin doc_listed once, under its own name,
  with the entry it had before.\<close>

lemma Load_config_lists:
  assumes "Load_config y fs path c = (good, c1)" "config_inv c"
  shows "config_inv c1 \<and> (\<forall>n p. GetPluginInfo n c = Some p \<longrightarrow> GetPluginInfo n c1 = Some p)"
  using Load_config_ok [OF assms(1), of c] assms(2) by (simp add: config_ok_def GetPluginInfo_def)

subsection \<open>The documents the configuration is read from\<close>

text \<open>
  What a configuration file says, independently of the YAML library; \<open>None\<close> is a null node, and
  for the instances of an enabled plugin also a missing one.
\<close>

record plugin_doc =
  pd_name :: "string option"
  pd_description :: string
  pd_url :: "string option"

record enable_doc =
  ed_name :: string
  ed_instances :: "string list option"

record config_doc =
  cd_path :: "string option"
  cd_level :: "int option"
  cd_plugins :: "plugin_doc list option"
  cd_enable :: "enable_doc list option"

text \<open>That the functions of the library read a value off a node.\<close>

definition reads_key :: "'n yaml_api \<Rightarrow> ('n \<Rightarrow> 'v \<Rightarrow> bool) \<Rightarrow> 'n \<Rightarrow> string \<Rightarrow> 'v option \<Rightarrow> bool" where
  "reads_key y R node key v = (\<exists>n. y_key y node key = Some n \<and> y_IsNull y n = Some (v = None) \<and> (\<forall>x. v = Some x \<longrightarrow> R n x))"

definition reads_string :: "'n yaml_api \<Rightarrow> 'n \<Rightarrow> string \<Rightarrow> bool" where
  "reads_string y n s = (y_string y n = Some s)"

definition reads_seq :: "'n yaml_api \<Rightarrow> ('n \<Rightarrow> 'v \<Rightarrow> bool) \<Rightarrow> 'n \<Rightarrow> 'v list \<Rightarrow> bool" where
  "reads_seq y R n xs = (y_IsSequence y n = Some True \<and> y_size y n = Some (length xs) \<and>
     (\<forall>i < length xs. \<exists>e. y_index y n i = Some e \<and> R e (xs ! i)))"

definition reads_plugin :: "'n yaml_api \<Rightarrow> 'n \<Rightarrow> plugin_doc \<Rightarrow> bool" where
  "reads_plugin y e d = (reads_key y (reads_string y) e ''name'' (pd_name d) \<and>
     (\<exists>n. y_key y e ''description'' = Some n \<and> reads_string y n (pd_description d)) \<and>
     reads_key y (reads_string y) e ''url'' (pd_url d))"

definition reads_enable_item :: "'n yaml_api \<Rightarrow> 'n \<Rightarrow> enable_doc \<Rightarrow> bool" where
  "reads_enable_item y e d = ((\<exists>n. y_key y e ''name'' = Some n \<and> reads_string y n (ed_name d)) \<and>
     (\<exists>ns. y_key y e ''instances'' = Some ns \<and>
        (case ed_instances d of
           None \<Rightarrow> y_IsDefined y ns = Some False \<or> y_IsDefined y ns = Some True \<and> y_IsNull y ns = Some True
         | Some is \<Rightarrow> y_IsDefined y ns = Some True \<and> y_IsNull y ns = Some False \<and> reads_seq y (reads_string y) ns is)))"

definition reads_doc :: "'n yaml_api \<Rightarrow> 'n \<Rightarrow> config_doc \<Rightarrow> bool" where
  "reads_doc y node d = (y_IsMap y node = Some True \<and>
     reads_key y (reads_string y) node ''log_path'' (cd_path d) \<and>
     reads_key y (\<lambda>n l. y_int y n = Some l) node ''log_level'' (cd_level d) \<and>
     reads_key y (reads_seq y (reads_plugin y)) node ''plugin_list'' (cd_plugins d) \<and>
     reads_key y (reads_seq y (reads_enable_item y)) node ''enable_list'' (cd_enable d))"

text \<open>What the lists of a document contribute: plugins with a name and a url, and every enabled plugin.\<close>

fun doc_listed :: "plugin_doc list \<Rightarrow> (string \<times> PluginInfo) list" where
  "doc_listed [] = []"
| "doc_listed (d # ds) = (case (pd_name d, pd_url d) of
      (Some n, Some u) \<Rightarrow> (n, \<lparr>pi_name = n, pi_description = pd_description d, pi_url = u\<rparr>) # doc_listed ds
    | _ \<Rightarrow> doc_listed ds)"

definition enable_item :: "enable_doc \<Rightarrow> EnableItem" where
  "enable_item d = (case ed_instances d of
      None \<Rightarrow> \<lparr>ei_instance = [], ei_name = ed_name d, ei_enabled = True\<rparr>
    | Some is \<Rightarrow> \<lparr>ei_instance = is, ei_name = ed_name d, ei_enabled = False\<rparr>)"

lemma each_all:
  "(\<And>i c. i \<in> set is \<Longrightarrow> f i c = Some (h i c)) \<Longrightarrow> each f is c = (True, fold h is c)"
  by (induction "is" arbitrary: c) auto

lemma each_list:
  assumes "\<And>i c. i < length xs \<Longrightarrow> f i c = Some (g (xs ! i) c)"
  shows "each f [0..<length xs] c = (True, fold g xs c)"
proof -
  have "fold g xs c = fold (\<lambda>i. g (xs ! i)) [0..<length xs] c"
    using fold_map [of g "(!) xs" "[0..<length xs]"] by (simp add: map_nth o_def)
  with each_all [of "[0..<length xs]" f "\<lambda>i. g (xs ! i)" c] assms show ?thesis by simp
qed

definition add_doc :: "plugin_doc \<Rightarrow> Config \<Rightarrow> Config" where
  "add_doc d c = (case doc_listed [d] of [] \<Rightarrow> c
     | (n, p) # _ \<Rightarrow> if al_count (pluginList c) n then c else c\<lparr>pluginList := al_insert n p (pluginList c)\<rparr>)"

lemma add_plugin_info_doc:
  assumes "y_index y items i = Some e" "reads_plugin y e d"
  shows "add_plugin_info y items i c = Some (add_doc d c)"
  using assms by (auto simp: add_plugin_info_def CheckPluginList_def reads_plugin_def reads_key_def reads_string_def add_doc_def
      split: option.splits)

lemma item_instances_read:
  assumes "\<And>i. i \<in> set js \<Longrightarrow> \<exists>e. y_index y ns i = Some e \<and> y_string y e = Some (xs ! i)"
  shows "item_instances y ns js item = Some (item\<lparr>ei_instance := ei_instance item @ map ((!) xs) js\<rparr>)"
  using assms
proof (induction js arbitrary: item)
  case (Cons j js)
  then obtain e where "y_index y ns j = Some e" "y_string y e = Some (xs ! j)" by auto
  with Cons show ?case by (simp add: AddInstance_item_def)
qed simp

lemma add_enable_item_doc:
  assumes "y_index y items i = Some e" "reads_enable_item y e d"
  shows "add_enable_item y items i c = Some (c\<lparr>enableList := enableList c @ [enable_item d]\<rparr>)"
proof -
  obtain n ns where n: "y_key y e ''name'' = Some n" "y_string y n = Some (ed_name d)" "y_key y e ''instances'' = Some ns"
    and r: "case ed_instances d of
           None \<Rightarrow> y_IsDefined y ns = Some False \<or> y_IsDefined y ns = Some True \<and> y_IsNull y ns = Some True
         | Some is \<Rightarrow> y_IsDefined y ns = Some True \<and> y_IsNull y ns = Some False \<and> reads_seq y (reads_string y) ns is"
    using assms(2) by (auto simp: reads_enable_item_def reads_string_def)
  show ?thesis
  proof (cases "ed_instances d")
    case None
    with assms(1) n r show ?thesis by (auto simp: add_enable_item_def enable_item_def)
  next
    case (Some xs)
    then have "item_instances y ns [0..<length xs] \<lparr>ei_instance = [], ei_name = ed_name d, ei_enabled = False\<rparr> =
        Some \<lparr>ei_instance = xs, ei_name = ed_name d, ei_enabled = False\<rparr>"
      using item_instances_read [of "[0..<length xs]" y ns xs] r by (simp add: reads_seq_def reads_string_def map_nth)
    with assms(1) n r Some show ?thesis by (simp add: add_enable_item_def enable_item_def reads_seq_def)
  qed
qed

lemma add_docs_lookup:
  "GetPluginInfo n (fold add_doc ds c) =
     (case GetPluginInfo n c of Some p \<Rightarrow> Some p | None \<Rightarrow> map_of (doc_listed ds) n)"
proof (induction ds arbitrary: c)
  case (Cons d ds)
  then show ?case
    by (auto simp: add_doc_def GetPluginInfo_def al_insert_def al_count_def map_add_def split: option.splits)
qed (simp split: option.splits)

lemma add_docs_frame:
  "logPath (fold add_doc ds c) = logPath c \<and> logLevel (fold add_doc ds c) = logLevel c \<and> enableList (fold add_doc ds c) = enableList c"
  by (induction ds arbitrary: c) (auto simp: add_doc_def split: option.splits)


lemma load_key_reads:
  assumes "reads_key y R node key v"
  shows "load_key y node key use c = (case v of None \<Rightarrow> (True, c) | Some x \<Rightarrow> use (the (y_key y node key)) c)"
    and "v = Some x \<Longrightarrow> y_key y node key = Some (the (y_key y node key)) \<and> R (the (y_key y node key)) x"
  using assms by (auto simp: load_key_def reads_key_def split: option.splits)

lemma SetPluginList_reads:
  assumes "reads_key y (reads_seq y (reads_plugin y)) node ''plugin_list'' (Some ds)"
  shows "SetPluginList y node c = (True, fold add_doc ds c)"
proof -
  obtain n where n: "y_key y node ''plugin_list'' = Some n" "reads_seq y (reads_plugin y) n ds"
    using assms by (auto simp: reads_key_def)
  then have "each (add_plugin_info y n) [0..<length ds] c = (True, fold add_doc ds c)"
    by (intro each_list) (auto simp: reads_seq_def intro: add_plugin_info_doc)
  with n show ?thesis by (simp add: SetPluginList_def reads_seq_def)
qed

lemma SetEnableList_reads:
  assumes "reads_key y (reads_seq y (reads_enable_item y)) node ''enable_list'' (Some ds)"
  shows "SetEnableList y node c = (True, c\<lparr>enableList := enableList c @ map enable_item ds\<rparr>)"
proof -
  obtain n where n: "y_key y node ''enable_list'' = Some n" "reads_seq y (reads_enable_item y) n ds"
    using assms by (auto simp: reads_key_def)
  have "fold (\<lambda>d c. c\<lparr>enableList := enableList c @ [enable_item d]\<rparr>) ds c = c\<lparr>enableList := enableList c @ map enable_item ds\<rparr>"
    by (induction ds arbitrary: c) auto
  moreover have "each (add_enable_item y n) [0..<length ds] c = (True, fold (\<lambda>d c. c\<lparr>enableList := enableList c @ [enable_item d]\<rparr>) ds c)"
    using n(2) by (intro each_list) (auto simp: reads_seq_def intro: add_enable_item_doc)
  ultimately show ?thesis using n by (simp add: SetEnableList_def reads_seq_def)
qed

subsection \<open>Properties\<close>

text \<open>C21. Loading a file that says \<open>d\<close> succeeds and does what the file says: the log path and the log level
  are those of the file where it gives them; a plugin is doc_listed afterwards exactly when it was
  doc_listed before, with the entry it had, or else when the file has an entry of that name with a
  url, with the name, description and url of the first such entry; and every plugin of the enable
  list is appended in order, whole when it names no instances, else with the instances it names.\<close>

theorem Load_config_reads:
  assumes "file_stat path" "y_LoadFile y path = Some node" "reads_doc y node d"
  shows "\<exists>c1. Load_config y file_stat path c = (True, c1) \<and>
    logPath c1 = (case cd_path d of None \<Rightarrow> logPath c | Some s \<Rightarrow> s) \<and>
    logLevel c1 = (case cd_level d of None \<Rightarrow> logLevel c | Some l \<Rightarrow> l) \<and>
    (\<forall>n. GetPluginInfo n c1 = (case GetPluginInfo n c of Some p \<Rightarrow> Some p
       | None \<Rightarrow> map_of (doc_listed (case cd_plugins d of None \<Rightarrow> [] | Some ds \<Rightarrow> ds)) n)) \<and>
    enableList c1 = enableList c @ map enable_item (case cd_enable d of None \<Rightarrow> [] | Some ds \<Rightarrow> ds)"
proof -
  define c1 where "c1 = c\<lparr>logPath := (case cd_path d of None \<Rightarrow> logPath c | Some s \<Rightarrow> s)\<rparr>"
  define c2 where "c2 = c1\<lparr>logLevel := (case cd_level d of None \<Rightarrow> logLevel c | Some l \<Rightarrow> l)\<rparr>"
  define c3 where "c3 = fold add_doc (case cd_plugins d of None \<Rightarrow> [] | Some ds \<Rightarrow> ds) c2"
  define c4 where "c4 = c3\<lparr>enableList := enableList c3 @ map enable_item (case cd_enable d of None \<Rightarrow> [] | Some ds \<Rightarrow> ds)\<rparr>"
  note r = assms(3) [unfolded reads_doc_def]
  have s1: "load_key y node ''log_path'' (set_log_path y) c = (True, c1)"
    using load_key_reads [of y "reads_string y" node "''log_path''" "cd_path d"] r
    by (cases "cd_path d") (auto simp: c1_def set_log_path_def reads_string_def)
  have s2: "load_key y node ''log_level'' (set_log_level y) c1 = (True, c2)"
    using load_key_reads [of y "\<lambda>n l. y_int y n = Some l" node "''log_level''" "cd_level d"] r
    by (cases "cd_level d") (auto simp: c1_def c2_def set_log_level_def)
  have s3: "load_key y node ''plugin_list'' (\<lambda>_. SetPluginList y node) c2 = (True, c3)"
    using load_key_reads(1) [of y "reads_seq y (reads_plugin y)" node "''plugin_list''" "cd_plugins d"] r
    by (cases "cd_plugins d") (auto simp: c3_def SetPluginList_reads)
  have s4: "load_key y node ''enable_list'' (\<lambda>_. SetEnableList y node) c3 = (True, c4)"
    using load_key_reads(1) [of y "reads_seq y (reads_enable_item y)" node "''enable_list''" "cd_enable d"] r
    by (cases "cd_enable d") (auto simp: c4_def SetEnableList_reads)
  have "Load_config y file_stat path c = (True, c4)"
    using assms(1,2) r s1 s2 s3 s4 by (simp add: Load_config_def)
  moreover have "GetPluginInfo n c4 = GetPluginInfo n c3" "GetPluginInfo n c2 = GetPluginInfo n c" for n
    by (simp_all add: c4_def c2_def c1_def GetPluginInfo_def)
  ultimately show ?thesis
    using add_docs_lookup [of _ _ c2] add_docs_frame [of _ c2] by (auto simp: c4_def c3_def c2_def c1_def)
qed

definition demo_yaml :: "string yaml_api" where
  "demo_yaml = \<lparr>y_LoadFile = Some, y_IsMap = (\<lambda>_. Some True), y_IsNull = (\<lambda>_. Some False), y_IsDefined = (\<lambda>_. Some True),
     y_IsSequence = (\<lambda>_. Some True), y_size = (\<lambda>_. Some 2), y_index = (\<lambda>n i. Some n), y_key = (\<lambda>n k. Some k),
     y_string = Some, y_int = (\<lambda>_. Some 2)\<rparr>"

definition demo_config :: Config where
  "demo_config = \<lparr>logLevel = 20000, logPath = [], pluginList = [], enableList = []\<rparr>"


text \<open>Nodes as the values they hold; two plugins of one name, the first without a url.\<close>

datatype demo_node = DNull | DText string | DInt int | DSeq "demo_node list" | DMap "(string \<times> demo_node) list"

definition demo_lib :: "demo_node \<Rightarrow> demo_node yaml_api" where
  "demo_lib file = \<lparr>y_LoadFile = (\<lambda>_. Some file), y_IsMap = (\<lambda>n. Some (\<exists>kvs. n = DMap kvs)), y_IsNull = (\<lambda>n. Some (n = DNull)),
     y_IsDefined = (\<lambda>_. Some True), y_IsSequence = (\<lambda>n. Some (\<exists>xs. n = DSeq xs)),
     y_size = (\<lambda>n. case n of DSeq xs \<Rightarrow> Some (length xs) | _ \<Rightarrow> None),
     y_index = (\<lambda>n i. case n of DSeq xs \<Rightarrow> nth_opt xs i | _ \<Rightarrow> None),
     y_key = (\<lambda>n k. case n of DMap kvs \<Rightarrow> map_of kvs k | _ \<Rightarrow> None),
     y_string = (\<lambda>n. case n of DText s \<Rightarrow> Some s | _ \<Rightarrow> None), y_int = (\<lambda>n. case n of DInt i \<Rightarrow> Some i | _ \<Rightarrow> None)\<rparr>"

definition demo_file :: demo_node where
  "demo_file = DMap [(''log_path'', DNull), (''log_level'', DInt 2),
     (''plugin_list'', DSeq [DMap [(''name'', DText ''a''), (''description'', DText ''x''), (''url'', DNull)],
        DMap [(''name'', DText ''a''), (''description'', DText ''y''), (''url'', DText ''u'')]]),
     (''enable_list'', DSeq [DMap [(''name'', DText ''p.so''), (''instances'', DSeq [DText ''i''])]])]"

definition demo_doc :: config_doc where
  "demo_doc = \<lparr>cd_path = None, cd_level = Some 2,
     cd_plugins = Some [\<lparr>pd_name = Some ''a'', pd_description = ''x'', pd_url = None\<rparr>,
       \<lparr>pd_name = Some ''a'', pd_description = ''y'', pd_url = Some ''u''\<rparr>],
     cd_enable = Some [\<lparr>ed_name = ''p.so'', ed_instances = Some [''i'']\<rparr>]\<rparr>"

theorem Load_config_reads_witness:
  "\<exists>c1. Load_config (demo_lib demo_file) (\<lambda>_. True) ''f'' demo_config = (True, c1) \<and> logLevel c1 = 2 \<and>
     GetPluginInfo ''a'' c1 = Some \<lparr>pi_name = ''a'', pi_description = ''y'', pi_url = ''u''\<rparr> \<and>
     enableList c1 = [\<lparr>ei_instance = [''i''], ei_name = ''p.so'', ei_enabled = False\<rparr>]"
proof -
  have "reads_doc (demo_lib demo_file) demo_file demo_doc"
    by (auto simp: reads_doc_def reads_key_def reads_string_def reads_seq_def reads_plugin_def reads_enable_item_def demo_lib_def
        demo_file_def demo_doc_def nth_opt_def less_Suc_eq)
  from Load_config_reads [OF _ _ this, of "\<lambda>_. True" "''f''" demo_config] show ?thesis
    by (auto simp: demo_lib_def demo_doc_def demo_config_def GetPluginInfo_def enable_item_def)
qed

text \<open>Reloading changes nothing but the log level, and that only to a value that is an index of the
  table of levels; when it fails the configuration is as before and an error text is given.\<close>

lemma Reload_spec:
  "case Reload y fs path c of (good, err, c1) \<Rightarrow>
     if good then c1 = c\<lparr>logLevel := logLevel c1\<rparr> \<and> logLevel c1 \<in> {0 ..< OE_MAX_LOG_LEVELS} \<and> err = []
     else c1 = c \<and> err \<noteq> []"
  by (auto simp: Reload_def read_level_def split: sum.splits option.splits)

end
