(* ===== verification/Event_Handlers.thy ===== *)
theory Event_Handlers
  imports Instance_Run_Handler Config
begin

text \<open>
  The handlers of the requests of clients, \<^verbatim>\<open>src/plugin_mgr/event\<close>. They run on the thread of the
  plugin manager and share the store and the heap of instances with the scheduler.

  A handler that sends a message to the scheduler waits for it: its first part ends in
  \<open>After msg k\<close>, where \<open>k\<close> is what it does with the finished message; a handler that sends none
  ends in \<open>Now\<close>. The file system, the dynamic linker and the YAML library are in \<open>server_env\<close>.
\<close>

abbreviation nl :: string where
  "nl \<equiv> [CHR 0x0A]"

abbreviation tab :: string where
  "tab \<equiv> [CHR 0x09]"

subsection \<open>Errors\<close>

datatype ErrorCode =
    ENABLE_INSTANCE_NOT_LOAD | ENABLE_INSTANCE_UNAVAILABLE | ENABLE_INSTANCE_ALREADY_ENABLED | ENABLE_INSTANCE_ENV
  | DISABLE_INSTANCE_NOT_LOAD | DISABLE_INSTANCE_UNAVAILABLE | DISABLE_INSTANCE_ALREADY_DISABLED
  | REMOVE_PLUGIN_NOT_EXIST | REMOVE_INSTANCE_IS_RUNNING | REMOVE_INSTANCE_HAVE_DEP
  | LOAD_PLUGIN_FILE_NOT_EXIST | LOAD_PLUGIN_FILE_PERMISSION_DEFINED | LOAD_PLUGIN_FILE_IS_NOT_SO | LOAD_PLUGIN_EXIST
  | LOAD_PLUGIN_DLOPEN_FAILED | LOAD_PLUGIN_DLSYM_FAILED | QUERY_PLUGIN_NOT_EXIST | QUERY_DEP_NOT_EXIST
  | DOWNLOAD_NOT_FOUND | ErrorOK

definition errorCodes :: "(ErrorCode \<times> string) list" where
  "errorCodes =
    [(ENABLE_INSTANCE_NOT_LOAD, ''instance is not loaded''),
     (ENABLE_INSTANCE_UNAVAILABLE, ''instance is unavailable''),
     (ENABLE_INSTANCE_ALREADY_ENABLED, ''instance is already enabled''),
     (ENABLE_INSTANCE_ENV, ''instance init environment failed''),
     (DISABLE_INSTANCE_NOT_LOAD, ''instance is not loaded''),
     (DISABLE_INSTANCE_UNAVAILABLE, ''instance is unavailable''),
     (DISABLE_INSTANCE_ALREADY_DISABLED, ''instance is already disabled''),
     (REMOVE_PLUGIN_NOT_EXIST, ''plugin does not exist''),
     (REMOVE_INSTANCE_IS_RUNNING, ''instance is running''),
     (REMOVE_INSTANCE_HAVE_DEP, ''instance with pre-dependency''),
     (LOAD_PLUGIN_FILE_NOT_EXIST, ''plugin file does not exist''),
     (LOAD_PLUGIN_FILE_IS_NOT_SO, ''file is not a plugin file''),
     (LOAD_PLUGIN_FILE_PERMISSION_DEFINED, ''plugin file permission is not the specified permission''),
     (LOAD_PLUGIN_EXIST, ''plugin already loaded''),
     (LOAD_PLUGIN_DLOPEN_FAILED, ''plugin dlopen failed''),
     (LOAD_PLUGIN_DLSYM_FAILED, ''plugin dlsym failed''),
     (QUERY_PLUGIN_NOT_EXIST, ''plugin does not exist''),
     (QUERY_DEP_NOT_EXIST, ''instance does not exist''),
     (DOWNLOAD_NOT_FOUND, ''unable to find a match'')]"

definition GetErrorText :: "ErrorCode \<Rightarrow> string" where
  "GetErrorText c = (case map_of errorCodes c of Some t \<Rightarrow> t | None \<Rightarrow> ''unknown error.'')"

subsection \<open>Environment and state\<close>

record InfoCmd =
  ic_instance :: string
  ic_description :: string
  ic_effect :: string

record ('p, 'n) server_env =
  env_lstat :: "string \<Rightarrow> stat_t option"
  env_exists :: "string \<Rightarrow> bool"
  env_stat :: "string \<Rightarrow> bool"
  env_isdir :: "string \<Rightarrow> bool"
  env_readdir :: "string \<Rightarrow> string list option"
  env_dlopen :: "string \<Rightarrow> 'p library"
  env_yaml :: "'n yaml_api"
  env_levels :: "int list"
  env_opt :: Opt

text \<open>\<open>env_opt\<close> is the content of an \<open>EventResult::opt\<close> nobody has set.\<close>

datatype HandlerId =
    LoadHandler | RemoveHandler | QueryHandler | QuerySubscribeGraphHandler | EnableHandler | DisableHandler
  | ListHandler | InfoCmdHandler | DownloadHandler | SubscribeHandler | UnsubscribeHandler | PublishHandler
  | ReloadConfHandler

datatype 'a stage = Now 'a | After InstanceRunMessage "InstanceRunMessage \<Rightarrow> 'a"

definition ok_reply :: "string list \<Rightarrow> EventResult" where
  "ok_reply ps = \<lparr>er_opt = OptRESPONSE_OK, er_payload = ps\<rparr>"

definition error_reply :: "string \<Rightarrow> EventResult" where
  "error_reply t = \<lparr>er_opt = OptRESPONSE_ERROR, er_payload = [t]\<rparr>"

definition DEFAULT_PLUGIN_PATH :: string where
  "DEFAULT_PLUGIN_PATH = ''/usr/lib64/oeAware-plugin''"

subsection \<open>Loading and removing plugins\<close>

fun add_instances :: "'p heap \<Rightarrow> ref list \<Rightarrow> MemoryStore \<Rightarrow> MemoryStore option" where
  "add_instances h [] ms = Some ms"
| "add_instances h (r # rs) ms = do { ms1 \<leftarrow> AddInstance h r ms; add_instances h rs ms1 }"

text \<open>The mode asked for is \<open>S_IRUSR | S_IRGRP\<close>.\<close>

definition LoadPlugin :: "('p, 'n) server_env \<Rightarrow> string \<Rightarrow> 'p irh \<Rightarrow> (ErrorCode \<times> 'p irh) option" where
  "LoadPlugin env n st =
     (let plugin_path = DEFAULT_PLUGIN_PATH @ ''/'' @ n in
      if \<not> env_exists env plugin_path then Some (LOAD_PLUGIN_FILE_NOT_EXIST, st)
      else if \<not> EndWith n ''.so'' then Some (LOAD_PLUGIN_FILE_IS_NOT_SO, st)
      else do {
        permitted \<leftarrow> CheckPermission (env_lstat env) plugin_path 0x120;
        if \<not> permitted then Some (LOAD_PLUGIN_FILE_PERMISSION_DEFINED, st)
        else if IsPluginExist n (memoryStore st) then Some (LOAD_PLUGIN_EXIST, st)
        else (case Load (env_dlopen env) plugin_path (heap st) \<lparr>pl_name = n, pl_instances = [], handler = False\<rparr> of
          (error, h, plugin) \<Rightarrow>
            if error \<noteq> 0 then Some (LOAD_PLUGIN_DLOPEN_FAILED, st)
            else do {
              ms \<leftarrow> add_instances h (pl_instances plugin) (AddPlugin n plugin (memoryStore st));
              Some (ErrorOK, st\<lparr>heap := h, memoryStore := ms\<rparr>)
            })
      })"

definition LoadHandler_Handle :: "('p, 'n) server_env \<Rightarrow> Event \<Rightarrow> 'p irh \<Rightarrow> (EventResult \<times> 'p irh) option" where
  "LoadHandler_Handle env event st =
     (case ev_payload event of
        [] \<Rightarrow> Some (error_reply ''load event error'', st)
      | n # _ \<Rightarrow> do {
          (retCode, st1) \<leftarrow> LoadPlugin env n st;
          Some (if retCode = ErrorOK then ok_reply [] else error_reply (GetErrorText retCode), st1)
        })"

text \<open>The names of the instances of a plugin, or the first of them that is enabled.\<close>

fun idle_names :: "'p irh \<Rightarrow> ref list \<Rightarrow> (string + string list) option" where
  "idle_names st [] = Some (Inr [])"
| "idle_names st (r # rs) = do {
     i \<leftarrow> at_ref r st;
     if enabled i then Some (Inl (ins_name i))
     else do {
       rest \<leftarrow> idle_names st rs;
       Some (case rest of Inl n \<Rightarrow> Inl n | Inr ns \<Rightarrow> Inr (ins_name i # ns))
     }
   }"

definition Remove :: "string \<Rightarrow> 'p irh \<Rightarrow> (ErrorCode \<times> 'p irh) option" where
  "Remove n st =
     (if \<not> IsPluginExist n (memoryStore st) then Some (REMOVE_PLUGIN_NOT_EXIST, st)
      else do {
        plugin \<leftarrow> GetPlugin n (memoryStore st);
        names \<leftarrow> idle_names st (pl_instances plugin);
        Some (case names of
            Inl _ \<Rightarrow> (REMOVE_INSTANCE_IS_RUNNING, st)
          | Inr instanceNames \<Rightarrow>
              (ErrorOK, st\<lparr>memoryStore := DeletePlugin n (fold DeleteInstance instanceNames (memoryStore st))\<rparr>))
      })"

definition RemoveHandler_Handle :: "Event \<Rightarrow> 'p irh \<Rightarrow> (EventResult \<times> 'p irh) option" where
  "RemoveHandler_Handle event st =
     (case ev_payload event of
        [] \<Rightarrow> Some (error_reply ''remove event error'', st)
      | n # _ \<Rightarrow> do {
          (retCode, st1) \<leftarrow> Remove n st;
          Some (if retCode = ErrorOK then ok_reply [] else error_reply (GetErrorText retCode), st1)
        })"

subsection \<open>Enabling and disabling instances\<close>

definition InstanceEnabled :: "string \<Rightarrow> string \<Rightarrow> 'p irh \<Rightarrow> (ErrorCode \<times> string) stage option" where
  "InstanceEnabled n param st =
     (if \<not> IsInstanceExist n (memoryStore st) then Some (Now (ENABLE_INSTANCE_NOT_LOAD, []))
      else do {
        i \<leftarrow> GetInstance n (memoryStore st) \<bind> (\<lambda>r. at_ref r st);
        Some (
          if \<not> ins_state i then Now (ENABLE_INSTANCE_UNAVAILABLE, [])
          else if enabled i then Now (ENABLE_INSTANCE_ALREADY_ENABLED, [])
          else After (mk_message (unset st) RunENABLED [ins_name i, param])
            (\<lambda>msg. (if res_failed (irm_result msg) then ENABLE_INSTANCE_ENV else ErrorOK, payload (irm_result msg))))
      })"

definition EnableHandler_Handle :: "Event \<Rightarrow> 'p irh \<Rightarrow> EventResult stage option" where
  "EnableHandler_Handle event st =
     (case ev_payload event of
        [] \<Rightarrow> Some (Now (error_reply ''enable event error''))
      | n # rest \<Rightarrow> do {
          let param = (case rest of [] \<Rightarrow> [] | p # _ \<Rightarrow> p);
          s \<leftarrow> InstanceEnabled n param st;
          Some (map_stage (\<lambda>(retCode, err).
            if retCode = ErrorOK then ok_reply []
            else error_reply (if err = [] then GetErrorText retCode else err)) s)
        })"

definition InstanceDisabled :: "string \<Rightarrow> 'p irh \<Rightarrow> ErrorCode stage option" where
  "InstanceDisabled n st =
     (if \<not> IsInstanceExist n (memoryStore st) then Some (Now DISABLE_INSTANCE_NOT_LOAD)
      else do {
        i \<leftarrow> GetInstance n (memoryStore st) \<bind> (\<lambda>r. at_ref r st);
        Some (
          if \<not> ins_state i then Now DISABLE_INSTANCE_UNAVAILABLE
          else if \<not> enabled i then Now DISABLE_INSTANCE_ALREADY_DISABLED
          else After (mk_message (unset st) RunDISABLED [ins_name i]) (\<lambda>_. ErrorOK))
      })"

definition DisableHandler_Handle :: "Event \<Rightarrow> 'p irh \<Rightarrow> EventResult stage option" where
  "DisableHandler_Handle event st =
     (case ev_payload event of
        [] \<Rightarrow> Some (Now (error_reply ''disable event error''))
      | n # _ \<Rightarrow> do {
          s \<leftarrow> InstanceDisabled n st;
          Some (map_stage (\<lambda>retCode. if retCode = ErrorOK then ok_reply [] else error_reply (GetErrorText retCode)) s)
        })"

subsection \<open>Queries\<close>

fun info_lines :: "'p irh \<Rightarrow> ref list \<Rightarrow> string option" where
  "info_lines st [] = Some []"
| "info_lines st (r # rs) = do {
     i \<leftarrow> at_ref r st;
     rest \<leftarrow> info_lines st rs;
     Some (tab @ GetInfo i @ nl @ rest)
   }"

fun query_plugins :: "'p irh \<Rightarrow> Plugin list \<Rightarrow> string option" where
  "query_plugins st [] = Some []"
| "query_plugins st (p # ps) = do {
     ls \<leftarrow> info_lines st (pl_instances p);
     rest \<leftarrow> query_plugins st ps;
     Some (pl_name p @ nl @ ls @ rest)
   }"

definition QueryAllPlugins :: "'p irh \<Rightarrow> string option" where
  "QueryAllPlugins st = query_plugins st (GetAllPlugins (memoryStore st))"

definition QueryPlugin :: "string \<Rightarrow> 'p irh \<Rightarrow> (ErrorCode \<times> string) option" where
  "QueryPlugin n st =
     (if \<not> IsPluginExist n (memoryStore st) then Some (QUERY_PLUGIN_NOT_EXIST, [])
      else do {
        plugin \<leftarrow> GetPlugin n (memoryStore st);
        ls \<leftarrow> info_lines st (pl_instances plugin);
        Some (ErrorOK, n @ nl @ ls)
      })"

definition QueryHandler_Handle :: "Event \<Rightarrow> 'p irh \<Rightarrow> EventResult option" where
  "QueryHandler_Handle event st =
     (if ev_opt event = OptQUERY_ALL then do { t \<leftarrow> QueryAllPlugins st; Some (ok_reply [t]) }
      else (case ev_payload event of
          [] \<Rightarrow> Some (error_reply ''query event error'')
        | n # _ \<Rightarrow> do {
            (retCode, t) \<leftarrow> QueryPlugin n st;
            Some (if retCode = ErrorOK then ok_reply [t] else error_reply (GetErrorText retCode))
          }))"

definition dot_edge :: "string \<times> string \<Rightarrow> string" where
  "dot_edge p = ''    '' @ fst p @ ''->'' @ [CHR 0x22] @ snd p @ [CHR 0x22] @ '';'' @ nl"

definition GenerateDot :: "(string \<times> string) list \<Rightarrow> string" where
  "GenerateDot graph =
     ''digraph G {'' @ nl @ ''    rankdir = TB'' @ nl @ ''    ranksep = 1'' @ nl @ concat (map dot_edge graph) @ ''}''"

text \<open>The edges are appended to \<open>graph\<close>, one for each topic the instance subscribes to.\<close>

definition QuerySubGraph ::
  "string \<Rightarrow> 'p irh \<Rightarrow> (string \<times> string) list \<Rightarrow> ErrorCode \<times> (string \<times> string) list" where
  "QuerySubGraph n st graph =
     (if \<not> IsInstanceExist n (memoryStore st) then (QUERY_DEP_NOT_EXIST, graph)
      else (ErrorOK, graph @ map (\<lambda>p. (n, fst p)) (filter (\<lambda>p. n \<in> set (snd p)) (subscibers st))))"

fun graph_instances :: "'p irh \<Rightarrow> ref list \<Rightarrow> (string \<times> string) list \<Rightarrow> (string \<times> string) list option" where
  "graph_instances st [] graph = Some graph"
| "graph_instances st (r # rs) graph = do {
     i \<leftarrow> at_ref r st;
     graph_instances st rs (snd (QuerySubGraph (ins_name i) st graph))
   }"

definition QuerySubscribeGraphHandler_Handle :: "Event \<Rightarrow> 'p irh \<Rightarrow> EventResult option" where
  "QuerySubscribeGraphHandler_Handle event st =
     (if ev_opt event = OptQUERY_ALL_SUB_GRAPH then do {
        graph \<leftarrow> graph_instances st (concat (map pl_instances (GetAllPlugins (memoryStore st)))) [];
        Some (ok_reply [GenerateDot graph])
      }
      else (case ev_payload event of
          [] \<Rightarrow> Some (error_reply ''query subscribe graph event error'')
        | n # _ \<Rightarrow>
            (case QuerySubGraph n st [] of (retCode, graph) \<Rightarrow>
              Some (if retCode = ErrorOK then ok_reply [GenerateDot graph] else error_reply (GetErrorText retCode)))))"

subsection \<open>Subscribing and publishing\<close>

definition SUBSCRIBE_PARAM_SIZE :: nat where
  "SUBSCRIBE_PARAM_SIZE = 2"

definition UNSUBSCRIBE_PARAM_SIZE :: nat where
  "UNSUBSCRIBE_PARAM_SIZE = 2"

definition no_topic :: Topic where
  "no_topic = \<lparr>instanceName = [], topicName = [], params = []\<rparr>"

definition Subscribe_request :: "string \<Rightarrow> Topic \<Rightarrow> 'p irh \<Rightarrow> Result stage option" where
  "Subscribe_request n topic st =
     (if \<not> IsInstanceExist (instanceName topic) (memoryStore st) then
        Some (Now \<lparr>code = FAILED, payload = ''instance does not exist.''\<rparr>)
      else do {
        i \<leftarrow> GetInstance (instanceName topic) (memoryStore st) \<bind> (\<lambda>r. at_ref r st);
        Some (
          if \<not> al_count (supportTopics i) (topicName topic) then
            Now \<lparr>code = FAILED, payload = ''topic does not exist.''\<rparr>
          else After (mk_message (unset st) RunSUBSCRIBE [GetType topic, n]) irm_result)
      })"

definition result_reply :: "Opt \<Rightarrow> Result \<Rightarrow> EventResult" where
  "result_reply op r = \<lparr>er_opt = op, er_payload = [Encode Result_Serialize r]\<rparr>"

definition SubscribeHandler_Handle :: "Event \<Rightarrow> 'p irh \<Rightarrow> EventResult stage option" where
  "SubscribeHandler_Handle event st =
     (if length (ev_payload event) \<noteq> SUBSCRIBE_PARAM_SIZE then
        Some (Now (error_reply ''subscribe event error''))
      else do {
        p0 \<leftarrow> nth_opt (ev_payload event) 0;
        p1 \<leftarrow> nth_opt (ev_payload event) 1;
        (topic, _) \<leftarrow> Topic_Deserialize no_topic (mk_in (mem_limit st) p0);
        s \<leftarrow> Subscribe_request p1 topic st;
        Some (map_stage (result_reply OptSUBSCRIBE) s)
      })"

definition UnsubscribeHandler_Handle :: "('p, 'n) server_env \<Rightarrow> Event \<Rightarrow> 'p irh \<Rightarrow> EventResult stage option" where
  "UnsubscribeHandler_Handle env event st =
     (if length (ev_payload event) = 1 then
        Some (After (mk_message (unset st) RunUNSUBSCRIBE_SDK (ev_payload event))
          (\<lambda>_. \<lparr>er_opt = env_opt env, er_payload = []\<rparr>))
      else if length (ev_payload event) = UNSUBSCRIBE_PARAM_SIZE then do {
        p0 \<leftarrow> nth_opt (ev_payload event) 0;
        p1 \<leftarrow> nth_opt (ev_payload event) 1;
        (topic, _) \<leftarrow> Topic_Deserialize no_topic (mk_in (mem_limit st) p0);
        Some (After (mk_message (unset st) RunUNSUBSCRIBE [GetType topic, p1])
          (\<lambda>msg. result_reply OptUNSUBSCRIBE (irm_result msg)))
      }
      else Some (Now (error_reply ''unsubscribe event error'')))"

definition Publish_request :: "Event \<Rightarrow> 'p irh \<Rightarrow> Result stage" where
  "Publish_request event st = After (mk_message (unset st) RunPUBLISH (ev_payload event)) irm_result"

definition PublishHandler_Handle :: "Event \<Rightarrow> 'p irh \<Rightarrow> EventResult stage" where
  "PublishHandler_Handle event st = map_stage (result_reply OptPUBLISH) (Publish_request event st)"

subsection \<open>Packages\<close>

definition GetPluginInDir :: "('p, 'n) server_env \<Rightarrow> string \<Rightarrow> string" where
  "GetPluginInDir env path =
     (if \<not> env_isdir env path then []
      else (case env_readdir env path of
          None \<Rightarrow> []
        | Some names \<Rightarrow> concat (map (\<lambda>n. n @ nl) (filter (\<lambda>n. EndWith n ''.so'') names))))"

definition ListHandler_AddList :: "('p, 'n) server_env \<Rightarrow> Config \<Rightarrow> string" where
  "ListHandler_AddList env c =
     ''Supported Packages:'' @ nl @ concat (map (\<lambda>p. fst p @ nl) (pluginList c)) @
     ''Installed Plugins:'' @ nl @ GetPluginInDir env DEFAULT_PLUGIN_PATH"

definition ListHandler_Handle :: "('p, 'n) server_env \<Rightarrow> Config \<Rightarrow> EventResult" where
  "ListHandler_Handle env c = ok_reply [ListHandler_AddList env c]"

definition Download :: "string \<Rightarrow> Config \<Rightarrow> (ErrorCode \<times> string) option" where
  "Download n c =
     (if \<not> IsPluginInfoExist n c then Some (DOWNLOAD_NOT_FOUND, [])
      else do { i \<leftarrow> GetPluginInfo n c; Some (ErrorOK, pi_url i) })"

definition DownloadHandler_Handle :: "Event \<Rightarrow> Config \<Rightarrow> EventResult option" where
  "DownloadHandler_Handle event c =
     (case ev_payload event of
        [] \<Rightarrow> Some (error_reply ''download event error'')
      | n # _ \<Rightarrow> do {
          (retCode, t) \<leftarrow> Download n c;
          Some (if retCode = ErrorOK then ok_reply [t] else error_reply (GetErrorText retCode))
        })"

definition ReloadConfHandler_Handle ::
  "('p, 'n) server_env \<Rightarrow> Config \<Rightarrow> Logger \<Rightarrow> EventResult \<times> Config \<times> Logger" where
  "ReloadConfHandler_Handle env c lg =
     (let levelBefore = logLevel c in
      case Reload (env_yaml env) (env_stat env) ''/etc/oeAware/config.yaml'' c of (good, err, c1) \<Rightarrow>
        if \<not> good then (error_reply err, c1, lg)
        else (case ChangeAllLogLevel (env_levels env) (logLevel c1) lg of (changed, lg1) \<Rightarrow>
          if \<not> changed then (error_reply ''reload log level error'', c1, lg1)
          else (ok_reply [''log level changed from '' @ to_string levelBefore @ '' to '' @ to_string (logLevel c1) @ ''.''],
                c1, snd (Get_logger ''Main'' lg1))))"

subsection \<open>Properties\<close>

text \<open>A reload that is answered with success has given every logger but \<open>Main\<close> the level the file asks
  for, and so will every logger made later; \<open>Main\<close> keeps its level. A reload that is refused
  leaves all loggers as they were.\<close>

lemma ReloadConf_sets_levels:
  "case ReloadConfHandler_Handle env c lg of (r, c1, lg1) \<Rightarrow>
     if er_opt r = OptRESPONSE_OK then
       list_all (\<lambda>(n, l). n = ''Main'' \<or> l = env_levels env ! nat (logLevel c1)) (loggers lg1) \<and>
       lg_level lg1 = env_levels env ! nat (logLevel c1) \<and>
       (case map_of (loggers lg) ''Main'' of None \<Rightarrow> True | Some l \<Rightarrow> map_of (loggers lg1) ''Main'' = Some l)
     else lg1 = lg"
proof -
  have main: "map_of (map (\<lambda>(n, old). if n = ''Main'' then (n, old) else (n, l)) ls) ''Main'' = map_of ls ''Main''"
    for l :: int and ls :: "(string \<times> int) list"
    by (induction ls) auto
  show ?thesis
    by (auto simp: ReloadConfHandler_Handle_def ChangeAllLogLevel_def Get_logger_def Register_logger_def al_insert_def al_count_def
        ok_reply_def error_reply_def main list_all_iff Let_def split: prod.splits if_splits option.splits)
qed

end
