(* ===== verification/Info_Cmd.thy ===== *)
theory Info_Cmd
  imports Event_Handlers
begin

text \<open>
  The table of tuning instances, \<^verbatim>\<open>src/plugin_mgr/event/info_cmd_handler.cpp\<close>: its texts come from a
  YAML file, are wrapped to the width of their column and printed side by side.
\<close>

subsection \<open>Wrapping text\<close>

abbreviation sp :: char where
  "sp \<equiv> CHR '' ''"

text \<open>\<open>find_last_of\<close> up to a position and \<open>find_first_of\<close> from one, for the blank.\<close>

definition find_last_of_sp :: "string \<Rightarrow> nat \<Rightarrow> nat option" where
  "find_last_of_sp text pos =
     (case filter (\<lambda>i. text ! i = sp) [0 ..< min (length text) (pos + 1)] of [] \<Rightarrow> None | is \<Rightarrow> Some (last is))"

definition find_first_of_sp :: "string \<Rightarrow> nat \<Rightarrow> nat option" where
  "find_first_of_sp text pos =
     (let i = pos + length (takeWhile (\<lambda>c. c \<noteq> sp) (drop pos text)) in if i < length text then Some i else None)"

text \<open>Where the line that begins at \<open>start\<close> ends.\<close>

definition wrap_end :: "nat \<Rightarrow> string \<Rightarrow> nat \<Rightarrow> nat option" where
  "wrap_end width text start =
     (case find_last_of_sp text (start + width) of
        Some e \<Rightarrow> if e < start then find_first_of_sp text start else Some e
      | None \<Rightarrow> find_first_of_sp text start)"

definition skip_blanks :: "string \<Rightarrow> nat \<Rightarrow> nat" where
  "skip_blanks text start = start + length (takeWhile (\<lambda>c. c = sp) (drop start text))"

lemma find_last_of_sp_Some:
  assumes "find_last_of_sp text pos = Some e"
  shows "e < length text \<and> e \<le> pos \<and> text ! e = sp"
proof -
  let ?is = "filter (\<lambda>i. text ! i = sp) [0 ..< min (length text) (pos + 1)]"
  have "?is \<noteq> [] \<and> e = last ?is" using assms by (simp add: find_last_of_sp_def split: list.splits)
  then have "e \<in> set ?is" using last_in_set by blast
  then show ?thesis by auto
qed

lemma find_first_of_sp_Some:
  assumes "find_first_of_sp text pos = Some e"
  shows "pos \<le> e \<and> e < length text \<and> text ! e = sp \<and> sp \<notin> set (take (e - pos) (drop pos text))"
proof -
  let ?t = "takeWhile (\<lambda>c. c \<noteq> sp) (drop pos text)"
  have e: "e = pos + length ?t" "e < length text"
    using assms by (auto simp: find_first_of_sp_def Let_def split: if_splits)
  then have "drop pos text ! length ?t = sp" using nth_length_takeWhile [of "\<lambda>c. c \<noteq> sp" "drop pos text"] by simp
  moreover have "take (e - pos) (drop pos text) = ?t" using e(1) by (simp add: takeWhile_eq_take [symmetric])
  ultimately show ?thesis using e by (auto dest: set_takeWhileD)
qed

lemma takeWhile_shorter: "x \<in> set xs \<Longrightarrow> \<not> P x \<Longrightarrow> length (takeWhile P xs) < length xs"
  by (induction xs) auto

lemma find_first_of_sp_None:
  assumes "find_first_of_sp text pos = None" "pos < length text"
  shows "sp \<notin> set (drop pos text)"
proof
  assume "sp \<in> set (drop pos text)"
  then have "length (takeWhile (\<lambda>c. c \<noteq> sp) (drop pos text)) < length text - pos"
    using takeWhile_shorter [of sp "drop pos text" "\<lambda>c. c \<noteq> sp"] by simp
  with assms show False by (simp add: find_first_of_sp_def Let_def split: if_splits)
qed

lemma wrap_end_Some: "wrap_end width text start = Some e \<Longrightarrow> start \<le> e \<and> e < length text \<and> text ! e = sp"
  by (auto simp: wrap_end_def split: option.splits if_splits
      dest: find_last_of_sp_Some find_first_of_sp_Some)

function wrap_loop :: "nat \<Rightarrow> string \<Rightarrow> nat \<Rightarrow> string list" where
  "wrap_loop width text start =
     (if start < length text then
        if length text - start \<le> width then [drop start text]
        else (case wrap_end width text start of
            None \<Rightarrow> [drop start text]
          | Some e \<Rightarrow> take (e - start) (drop start text) # wrap_loop width text (skip_blanks text (e + 1)))
      else [])"
  by pat_completeness auto
termination
  by (relation "measure (\<lambda>(width, text, start). length text - start)")
    (auto simp: skip_blanks_def dest!: wrap_end_Some)

declare wrap_loop.simps [simp del]

definition wrapText :: "string \<Rightarrow> nat \<Rightarrow> string list" where
  "wrapText text width = wrap_loop width text 0"

subsection \<open>The table\<close>

definition instanceWidth :: nat where
  "instanceWidth = 26"

definition descriptionWidth :: nat where
  "descriptionWidth = 40"

definition effectWidth :: nat where
  "effectWidth = 40"

text \<open>\<open>std::left << std::setw(w)\<close>.\<close>

definition setw :: "nat \<Rightarrow> string \<Rightarrow> string" where
  "setw w s = s @ replicate (w - length s) sp"

definition cell :: "nat \<Rightarrow> string list \<Rightarrow> nat \<Rightarrow> string" where
  "cell w ls j = (if j < length ls then setw w (ls ! j) else setw w [])"

definition rule_line :: string where
  "rule_line = replicate (instanceWidth + 1 + descriptionWidth + 1 + effectWidth) (CHR ''-'') @ nl"

definition table_line :: "string list \<Rightarrow> string list \<Rightarrow> string list \<Rightarrow> nat \<Rightarrow> string" where
  "table_line is ds es j =
     cell instanceWidth is j @ ''|'' @ cell descriptionWidth ds j @ ''|'' @ cell effectWidth es j @ nl"

definition FormatAndPrint :: "string \<Rightarrow> string \<Rightarrow> string \<Rightarrow> string \<Rightarrow> string" where
  "FormatAndPrint n description effect formattedRes =
     (let instanceNames = wrapText n instanceWidth;
          descriptions = wrapText description descriptionWidth;
          effects = wrapText effect effectWidth;
          maxLines = max (max (length descriptions) (length effects)) 1
      in formattedRes @ concat (map (table_line instanceNames descriptions effects) [0 ..< maxLines]) @ rule_line)"

subsection \<open>The handler\<close>

definition read_info :: "'n yaml_api \<Rightarrow> 'n \<Rightarrow> nat \<Rightarrow> InfoCmd list \<Rightarrow> InfoCmd list option" where
  "read_info y cmds i infos = do {
     cmd \<leftarrow> y_index y cmds i;
     a \<leftarrow> y_key y cmd ''instance'';
     b \<leftarrow> y_key y cmd ''description'';
     c \<leftarrow> y_key y cmd ''effect'';
     a_def \<leftarrow> y_IsDefined y a;
     b_def \<leftarrow> y_IsDefined y b;
     c_def \<leftarrow> y_IsDefined y c;
     if \<not> a_def \<or> \<not> b_def \<or> \<not> c_def then None
     else do {
       s \<leftarrow> y_string y a;
       d \<leftarrow> y_string y b;
       e \<leftarrow> y_string y c;
       Some (infos @ [\<lparr>ic_instance = s, ic_description = d, ic_effect = e\<rparr>])
     }
   }"

text \<open>
  The result and the list, to which the entries of the file are appended; a bad entry ends
  the loop, and what was appended before stays.
\<close>

definition CreateInfoCmdInstances ::
  "('p, 'n) server_env \<Rightarrow> string \<Rightarrow> InfoCmd list \<Rightarrow> bool \<times> InfoCmd list" where
  "CreateInfoCmdInstances env filePath infoCmds =
     (let y = env_yaml env in
      if \<not> env_stat env filePath then (False, infoCmds)
      else (case (do {
          node \<leftarrow> y_LoadFile y filePath;
          null \<leftarrow> y_IsNull y node;
          if null then Some None
          else do {
            cmds \<leftarrow> y_key y node ''InfoCmd'';
            def \<leftarrow> y_IsDefined y cmds;
            s \<leftarrow> (if def then y_IsSequence y cmds else Some False);
            if \<not> s then None else do { n \<leftarrow> y_size y cmds; Some (Some (cmds, n)) }
          } }) of
          None \<Rightarrow> (False, infoCmds)
        | Some None \<Rightarrow> (True, infoCmds)
        | Some (Some (cmds, n)) \<Rightarrow> each (read_info y cmds) [0 ..< n] infoCmds))"

fun InfoCmd_GetInfo :: "InfoCmd list \<Rightarrow> string \<Rightarrow> InfoCmd" where
  "InfoCmd_GetInfo [] n = \<lparr>ic_instance = n, ic_description = [], ic_effect = []\<rparr>"
| "InfoCmd_GetInfo (curInfo # infos) n = (if ic_instance curInfo = n then curInfo else InfoCmd_GetInfo infos n)"

fun info_rows :: "'p irh \<Rightarrow> InfoCmd list \<Rightarrow> ref list \<Rightarrow> string \<Rightarrow> string option" where
  "info_rows st infos [] formattedRes = Some formattedRes"
| "info_rows st infos (r # rs) formattedRes = do {
     i \<leftarrow> at_ref r st;
     let infoPartner = InfoCmd_GetInfo infos (ins_name i);
     info_rows st infos rs (FormatAndPrint (GetRun i) (ic_description infoPartner) (ic_effect infoPartner) formattedRes)
   }"

definition InfoCmdHandler_AddList ::
  "('p, 'n) server_env \<Rightarrow> 'p irh \<Rightarrow> InfoCmd list \<Rightarrow> (ErrorCode \<times> string \<times> InfoCmd list) option" where
  "InfoCmdHandler_AddList env st infoCmd =
     (case CreateInfoCmdInstances env ''/etc/oeAware/info_cmd.yaml'' infoCmd of (good, infos) \<Rightarrow>
      if \<not> good then Some (LOAD_PLUGIN_FILE_NOT_EXIST, [], infos)
      else do {
        let formattedRes = setw instanceWidth ''Instance'' @ ''|'' @ setw descriptionWidth ''Description'' @ ''|'' @
          setw effectWidth ''Effect'' @ nl @ rule_line;
        let tunePlugins = filter (\<lambda>p. find_sub ''_tune'' (pl_name p) \<noteq> None) (GetAllPlugins (memoryStore st));
        res \<leftarrow> info_rows st infos (concat (map pl_instances tunePlugins)) formattedRes;
        Some (ErrorOK, res, infos)
      })"

definition InfoCmdHandler_Handle ::
  "('p, 'n) server_env \<Rightarrow> 'p irh \<Rightarrow> InfoCmd list \<Rightarrow> (EventResult \<times> InfoCmd list) option" where
  "InfoCmdHandler_Handle env st infoCmd = do {
     (retCode, resText, infos) \<leftarrow> InfoCmdHandler_AddList env st infoCmd;
     Some (if retCode = ErrorOK then ok_reply [resText] else error_reply (GetErrorText retCode), infos)
   }"

subsection \<open>Wrapping keeps the words\<close>

definition words_of :: "string \<Rightarrow> string list" where
  "words_of s = filter (\<lambda>w. w \<noteq> []) (getlines sp s)"

lemma words_of_Nil [simp]: "words_of [] = []"
  by (simp add: words_of_def)

lemma words_of_split: "words_of (a @ sp # b) = words_of a @ words_of b"
proof (induction "length a" arbitrary: a rule: less_induct)
  case less
  show ?case
  proof (cases "sp \<in> set a")
    case False
    then show ?thesis
      by (simp add: words_of_def getlines_step getlines_last)
  next
    case True
    then obtain x y where a: "a = x @ sp # y" "sp \<notin> set x" by (meson split_list_first)
    then have "words_of (y @ sp # b) = words_of y @ words_of b" using less by simp
    then show ?thesis using a(2) by (simp add: a(1) words_of_def getlines_step)
  qed
qed

lemma words_of_blanks: "\<forall>c \<in> set a. c = sp \<Longrightarrow> words_of (a @ b) = words_of b"
  by (induction a) (use words_of_split [of "[]"] in auto)

lemma drop_skip_blanks: "words_of (drop (skip_blanks text n) text) = words_of (drop n text)"
proof -
  let ?t = "takeWhile (\<lambda>c. c = sp) (drop n text)"
  have "drop n text = ?t @ drop (skip_blanks text n) text"
    using takeWhile_dropWhile_id [of "\<lambda>c. c = sp" "drop n text"]
    by (simp add: skip_blanks_def dropWhile_eq_drop add.commute)
  moreover have "\<forall>c \<in> set ?t. c = sp" by (auto dest: set_takeWhileD)
  ultimately show ?thesis using words_of_blanks [of ?t] by metis
qed

lemma drop_at_blank:
  "start \<le> e \<Longrightarrow> e < length text \<Longrightarrow> text ! e = sp \<Longrightarrow>
   drop start text = take (e - start) (drop start text) @ sp # drop (e + 1) text"
  using id_take_nth_drop [of "e - start" "drop start text"] by simp

lemma wrap_loop_words: "concat (map words_of (wrap_loop width text start)) = words_of (drop start text)"
proof (induction width "text" start rule: wrap_loop.induct)
  case (1 width "text" start)
  show ?case
  proof (cases "start < length text \<and> \<not> length text - start \<le> width")
    case False
    then show ?thesis by (simp add: wrap_loop.simps [of width "text" start])
  next
    case long: True
    show ?thesis
    proof (cases "wrap_end width text start")
      case None
      with long show ?thesis by (simp add: wrap_loop.simps [of width "text" start])
    next
      case (Some e)
      then have e: "start \<le> e" "e < length text" "text ! e = sp" using wrap_end_Some by blast+
      from 1 long Some have "concat (map words_of (wrap_loop width text (skip_blanks text (e + 1)))) =
          words_of (drop (skip_blanks text (e + 1)) text)" by simp
      then show ?thesis
        using long Some words_of_split [of "take (e - start) (drop start text)" "drop (e + 1) text"]
        by (simp add: wrap_loop.simps [of width "text" start] drop_skip_blanks) (simp flip: drop_at_blank [OF e, simplified])
    qed
  qed
qed

lemma wrap_loop_width: "line \<in> set (wrap_loop width text start) \<Longrightarrow> length line \<le> width \<or> sp \<notin> set line"
proof (induction width "text" start rule: wrap_loop.induct)
  case (1 width "text" start)
  show ?case
  proof (cases "start < length text \<and> \<not> length text - start \<le> width")
    case False
    with 1 show ?thesis by (auto simp: wrap_loop.simps [of width "text" start] split: if_splits)
  next
    case long: True
    show ?thesis
    proof (cases "wrap_end width text start")
      case None
      then have "find_first_of_sp text start = None" by (auto simp: wrap_end_def split: option.splits if_splits)
      with find_first_of_sp_None long have "sp \<notin> set (drop start text)" by blast
      with 1 long None show ?thesis by (auto simp: wrap_loop.simps [of width "text" start])
    next
      case (Some e)
      then have "e \<le> start + width \<or> sp \<notin> set (take (e - start) (drop start text))"
        by (auto simp: wrap_end_def split: option.splits if_splits dest: find_last_of_sp_Some find_first_of_sp_Some)
      then have "length (take (e - start) (drop start text)) \<le> width \<or> sp \<notin> set (take (e - start) (drop start text))"
        by auto
      with 1 long Some show ?thesis by (auto simp: wrap_loop.simps [of width "text" start])
    qed
  qed
qed

subsection \<open>Properties\<close>

text \<open>Wrapping a text ends for every width, keeps every word of the text in order, and a line that is
  wider than the column is a single word.\<close>

lemma wrapText_words:
  "concat (map words_of (wrapText text width)) = words_of text \<and>
   list_all (\<lambda>line. length line \<le> width \<or> sp \<notin> set line) (wrapText text width)"
  using wrap_loop_words [of width "text" 0] wrap_loop_width [of _ width "text" 0]
  by (auto simp: wrapText_def list_all_iff)

theorem wrapText_words_witness:
  "wrapText ''a bc de'' 4 = [''a bc'', ''de''] \<and> concat (map words_of (wrapText ''a bc de'' 4)) = [''a'', ''bc'', ''de'']"
proof -
  have "wrapText ''a bc de'' 4 = [''a bc'', ''de'']" "words_of ''a bc de'' = [''a'', ''bc'', ''de'']" by code_simp+
  with wrapText_words [of "''a bc de''" 4] show ?thesis by simp
qed

text \<open>The table drops the second line of a wrapped instance name when the other two columns need
  one line only: the number of lines is that of description and effect. For an instance name of
  20 characters without a description it is the running state that is lost.\<close>

lemma FormatAndPrint_drops_state:
  "FormatAndPrint ''smc_tune_instance_01 (running)'' [] [] [] = FormatAndPrint ''smc_tune_instance_01 (close)'' [] [] []"
  by code_simp

end
