(* ===== verification/Scheduler_Inv.thy ===== *)
theory Scheduler_Inv
  imports Instance_Run_Handler
begin

text \<open>
  What the operations of the scheduler leave alone (\<open>frame\<close>), the invariant \<open>irh_inv\<close> that every
  operation preserves, and when the operations are defined.
\<close>

subsection \<open>Frames\<close>

text \<open>
  The store, the clock and the settings stay; instances keep their identity; messages are
  only appended to the queue.
\<close>

definition frame :: "'p irh \<Rightarrow> 'p irh \<Rightarrow> bool" where
  "frame st st' = (memoryStore st' = memoryStore st \<and> time st' = time st \<and> cycle st' = cycle st \<and>
     register st' = register st \<and> mem_limit st' = mem_limit st \<and> unset st' = unset st \<and>
     uninit st' = uninit st \<and> notified st' = notified st \<and>
     same_heap (heap st) (heap st') \<and> prefix (recvQueue st) (recvQueue st'))"

definition subs_same :: "'p irh \<Rightarrow> 'p irh \<Rightarrow> bool" where
  "subs_same st st' = (topicState st' = topicState st \<and> subscibers st' = subscibers st \<and>
     topicRunOnce st' = topicRunOnce st \<and> recvData st' = recvData st)"

lemma frame_refl [simp]: "frame st st"
  by (simp add: frame_def)

lemma frame_trans: "frame a b \<Longrightarrow> frame b c \<Longrightarrow> frame a c"
  by (auto simp: frame_def intro: same_heap_trans prefix_order.trans)

lemma subs_same_refl [simp]: "subs_same st st"
  by (simp add: subs_same_def)

lemma subs_same_trans: "subs_same a b \<Longrightarrow> subs_same b c \<Longrightarrow> subs_same a c"
  by (simp add: subs_same_def)

lemma foldl_Push: "foldl Push q ms = q @ ms"
  by (induction ms arbitrary: q) (auto simp: Push_def)

lemma called_simps [simp]:
  "memoryStore (called r j ms st) = memoryStore st" "time (called r j ms st) = time st"
  "cycle (called r j ms st) = cycle st" "register (called r j ms st) = register st"
  "mem_limit (called r j ms st) = mem_limit st" "unset (called r j ms st) = unset st"
  "uninit (called r j ms st) = uninit st" "notified (called r j ms st) = notified st"
  "topicState (called r j ms st) = topicState st" "subscibers (called r j ms st) = subscibers st"
  "topicRunOnce (called r j ms st) = topicRunOnce st" "recvData (called r j ms st) = recvData st"
  "scheduleQueue (called r j ms st) = scheduleQueue st"
  "heap (called r j ms st) = (heap st)[r := j]" "recvQueue (called r j ms st) = recvQueue st @ ms"
  by (simp_all add: called_def foldl_Push)

lemma called_subs [simp]: "subs_same st (called r j ms st)"
  by (simp add: subs_same_def)

lemma at_ref_iff: "at_ref r st = Some i \<longleftrightarrow> r < length (heap st) \<and> heap st ! r = i"
  by (simp add: at_ref_def nth_opt_Some_iff)

lemma at_ref_called: "at_ref r st = Some i \<Longrightarrow> at_ref r (called r j ms st) = Some j"
  by (simp add: at_ref_iff)

lemma called_frame: "at_ref r st = Some i \<Longrightarrow> same_instance i j \<Longrightarrow> frame st (called r j ms st)"
  by (simp add: frame_def same_heap_update at_ref_def)

lemma same_instance_intros [intro]:
  "same_instance i (i\<lparr>priv := p\<rparr>)" "same_instance i (i\<lparr>priv := p, enabled := e, enableCnt := n\<rparr>)"
  "same_instance i (i\<lparr>enabled := e\<rparr>)"
  by (simp_all add: same_instance_def)

lemma same_instance_trans: "same_instance a b \<Longrightarrow> same_instance b c \<Longrightarrow> same_instance a c"
  by (simp add: same_instance_def)

subsection \<open>Messages from plugins\<close>

text \<open>A topic text in the form that \<open>Topic::GetType\<close> gives, and that parses back to its topic.\<close>

definition canonical :: "string \<Rightarrow> bool" where
  "canonical s = (case GetTopicFromType s of Some t \<Rightarrow> GetType t = s | None \<Rightarrow> False)"

definition msg_canon :: "InstanceRunMessage \<Rightarrow> bool" where
  "msg_canon m = (irm_type m = RunSUBSCRIBE \<longrightarrow> (\<forall>p0. nth_opt (irm_payload m) 0 = Some p0 \<longrightarrow> canonical p0))"

text \<open>Every message the methods of the interface push satisfies \<open>Q\<close>.\<close>

definition polite :: "(InstanceRunMessage \<Rightarrow> bool) \<Rightarrow> 'p Interface \<Rightarrow> bool" where
  "polite Q ifc = (\<forall>p. (\<forall>t. list_all Q (snd (snd (v_OpenTopic ifc t p)))) \<and>
     (\<forall>t. list_all Q (snd (v_CloseTopic ifc t p))) \<and>
     (\<forall>d. list_all Q (snd (v_UpdateData ifc d p))) \<and>
     (\<forall>s. list_all Q (snd (snd (v_Enable ifc s p)))) \<and>
     list_all Q (snd (v_Disable ifc p)) \<and> list_all Q (snd (v_Run ifc p)))"

lemma politeD:
  assumes "polite Q ifc"
  shows "v_OpenTopic ifc t p = (x, q, ms) \<Longrightarrow> list_all Q ms" "v_CloseTopic ifc t p = (q, ms) \<Longrightarrow> list_all Q ms"
    "v_UpdateData ifc d p = (q, ms) \<Longrightarrow> list_all Q ms" "v_Enable ifc s p = (x, q, ms) \<Longrightarrow> list_all Q ms"
    "v_Disable ifc p = (q, ms) \<Longrightarrow> list_all Q ms" "v_Run ifc p = (q, ms) \<Longrightarrow> list_all Q ms"
  using assms unfolding polite_def by (metis snd_conv)+

lemma OpenTopic_polite: "polite Q (interface i) \<Longrightarrow> OpenTopic t i = (ret, j, ms) \<Longrightarrow> list_all Q ms"
  by (auto simp: OpenTopic_def Let_def split: prod.splits dest: politeD)

lemma CloseTopic_polite: "polite Q (interface i) \<Longrightarrow> CloseTopic t i = (j, ms) \<Longrightarrow> list_all Q ms"
  by (auto simp: CloseTopic_def split: prod.splits dest: politeD)

lemma close_all_polite: "polite Q (interface i) \<Longrightarrow> close_all ts i = Some (j, ms) \<Longrightarrow> list_all Q ms"
proof (induction ts arbitrary: i ms)
  case Nil
  then show ?case by simp
next
  case (Cons t ts)
  from Cons.prems(2) obtain u p m ms' where c: "v_CloseTopic (interface i) u (priv i) = (p, m)"
    "close_all ts (i\<lparr>priv := p\<rparr>) = Some (j, ms')" "ms = m @ ms'"
    by (auto simp only: close_all_Cons)
  with Cons.IH [of "i\<lparr>priv := p\<rparr>" ms'] Cons.prems(1) politeD(2) [OF _ c(1)] show ?case by simp
qed

lemma Disable_polite: "polite Q (interface i) \<Longrightarrow> Disable i = Some (j, ms) \<Longrightarrow> list_all Q ms"
proof -
  assume p: "polite Q (interface i)" and "Disable i = Some (j, ms)"
  then obtain i1 m q m1 where c: "close_all (openTopics i) i = Some (i1, m)"
    "v_Disable (interface i1) (priv i1) = (q, m1)" "ms = m @ m1"
    by (cases "close_all (openTopics i) i") (auto simp: Disable_def split: prod.splits)
  with p close_all_polite [OF p c(1)] close_all_priv [OF c(1)] politeD(5) [of Q "interface i"] show ?thesis
    by auto
qed

definition polite_heap :: "(InstanceRunMessage \<Rightarrow> bool) \<Rightarrow> 'p irh \<Rightarrow> bool" where
  "polite_heap Q st = (\<forall>i \<in> set (heap st). polite Q (interface i))"

text \<open>The messages an operation adds are those its calls pushed.\<close>

definition pushes :: "'p irh \<Rightarrow> 'p irh \<Rightarrow> bool" where
  "pushes st st' = (\<exists>new. recvQueue st' = recvQueue st @ new \<and> (\<forall>Q. polite_heap Q st \<longrightarrow> list_all Q new))"

lemma polite_heap_frame: "frame st st' \<Longrightarrow> polite_heap Q st' = polite_heap Q st"
  by (auto simp: polite_heap_def frame_def same_heap_def same_instance_def list_all2_conv_all_nth all_set_conv_all_nth)

lemma pushes_refl [simp]: "pushes st st"
  by (simp add: pushes_def)

lemma pushes_trans: "frame a b \<Longrightarrow> pushes a b \<Longrightarrow> pushes b c \<Longrightarrow> pushes a c"
  using polite_heap_frame [of a b] unfolding pushes_def by (elim exE conjE) force

lemma called_pushes:
  "at_ref r st = Some i \<Longrightarrow> (\<And>Q. polite Q (interface i) \<Longrightarrow> list_all Q ms) \<Longrightarrow> pushes st (called r j ms st)"
  by (auto simp: pushes_def polite_heap_def at_ref_iff)

lemma pushes_queue: "pushes st st' \<Longrightarrow> polite_heap Q st \<Longrightarrow> m \<in> set (recvQueue st') \<Longrightarrow> m \<in> set (recvQueue st) \<or> Q m"
  unfolding pushes_def list_all_iff by (elim exE conjE) (drule spec [of _ Q], auto)

lemma pushes_silent: "pushes st st' \<Longrightarrow> polite_heap (\<lambda>_. False) st \<Longrightarrow> recvQueue st' = recvQueue st"
  by (auto simp: pushes_def list_all_iff)

subsection \<open>The operations by cases\<close>

lemma EnableInstance_cases:
  assumes "EnableInstance n ps st = Some (res, st')"
  obtains (missing) "GetInstance n (memoryStore st) = None" "st' = st" "res_failed res"
  | (refused) r i p ms where "GetInstance n (memoryStore st) = Some r" "at_ref r st = Some i"
      "v_Enable (interface i) ps (priv i) = (res, p, ms)" "res_failed res"
      "st' = called r (i\<lparr>priv := p\<rparr>) ms st"
  | (ran) r i p ms t where "GetInstance n (memoryStore st) = Some r" "at_ref r st = Some i"
      "v_Enable (interface i) ps (priv i) = (res, p, ms)" "\<not> res_failed res"
      "first_run (time st) (interface i) = Some t"
      "st' = called r (i\<lparr>priv := p, enabled := True, enableCnt := u64_add (enableCnt i) 1\<rparr>) ms st
         \<lparr>scheduleQueue := scheduleQueue st @ [\<lparr>si_instance = r, si_time = t\<rparr>]\<rparr>"
proof (cases "GetInstance n (memoryStore st)")
  case None
  then have "st' = st" "res_failed res"
    using assms by (auto simp: EnableInstance_def exist_iff FAILED_def)
  with None show ?thesis by (rule missing)
next
  case (Some r)
  obtain i where i: "at_ref r st = Some i"
    using assms Some by (cases "at_ref r st") (auto simp: EnableInstance_def exist_iff)
  obtain result p ms where v: "v_Enable (interface i) ps (priv i) = (result, p, ms)"
    by (cases "v_Enable (interface i) ps (priv i)") auto
  show ?thesis
  proof (cases "res_failed result")
    case True
    then have "res = result" "st' = called r (i\<lparr>priv := p\<rparr>) ms st"
      using assms Some i v by (simp_all add: EnableInstance_def exist_iff)
    with True Some i v show ?thesis by (intro refused) simp_all
  next
    case False
    obtain t where t: "first_run (time st) (interface i) = Some t"
      using False assms Some i v
      by (cases "first_run (time st) (interface i)") (simp_all add: EnableInstance_def exist_iff)
    then have "res = result" "st' = called r (i\<lparr>priv := p, enabled := True, enableCnt := u64_add (enableCnt i) 1\<rparr>) ms st
         \<lparr>scheduleQueue := scheduleQueue st @ [\<lparr>si_instance = r, si_time = t\<rparr>]\<rparr>"
      using False assms Some i v by (simp_all add: EnableInstance_def exist_iff Let_def queue_push_def)
    with False Some i v t show ?thesis by (intro ran) simp_all
  qed
qed

lemma CloseInstance_cases:
  assumes "CloseInstance r st = Some st'"
  obtains i p ms where "at_ref r st = Some i" "Disable (i\<lparr>enabled := False\<rparr>) = Some (i\<lparr>enabled := False, priv := p\<rparr>, ms)"
    "st' = called r (i\<lparr>enabled := False, priv := p\<rparr>) ms st"
proof -
  obtain i where i: "at_ref r st = Some i"
    using assms by (cases "at_ref r st") (simp_all add: CloseInstance_def)
  then obtain j ms where c: "Disable (i\<lparr>enabled := False\<rparr>) = Some (j, ms)" "st' = called r j ms st"
    using assms by (cases "Disable (i\<lparr>enabled := False\<rparr>)") (auto simp: CloseInstance_def)
  obtain p where "j = i\<lparr>enabled := False, priv := p\<rparr>"
    using Disable_priv [OF c(1)] by blast
  with i c show ?thesis by (intro that) simp_all
qed

lemma DisableInstance_Close:
  "DisableInstance n st =
     (case GetInstance n (memoryStore st) of None \<Rightarrow> Some st | Some r \<Rightarrow> CloseInstance r st)"
  by (auto simp: DisableInstance_def CloseInstance_def exist_iff split: option.splits)

lemma Close_disabled: "CloseInstance r st = Some st' \<Longrightarrow> \<not> enabled (heap st' ! r)"
  by (erule CloseInstance_cases) (simp add: at_ref_iff)

lemma Close_frame: "CloseInstance r st = Some st' \<Longrightarrow> frame st st' \<and> subs_same st st' \<and> scheduleQueue st' = scheduleQueue st"
  by (erule CloseInstance_cases) (auto intro!: called_frame simp: same_instance_def)

lemma DisableInstance_frame:
  "DisableInstance n st = Some st' \<Longrightarrow> frame st st' \<and> subs_same st st' \<and> scheduleQueue st' = scheduleQueue st"
  by (auto simp: DisableInstance_Close split: option.splits dest: Close_frame)

lemma EnableInstance_frame:
  assumes "EnableInstance n ps st = Some (res, st')"
  shows "frame st st' \<and> subs_same st st'"
  using assms
proof (cases rule: EnableInstance_cases)
  case (refused r i p ms)
  then show ?thesis by (auto intro!: called_frame)
next
  case (ran r i p ms t)
  then have "frame st (called r (i\<lparr>priv := p, enabled := True, enableCnt := u64_add (enableCnt i) 1\<rparr>) ms st)"
    by (intro called_frame) auto
  with ran show ?thesis by (simp add: frame_def subs_same_def)
qed simp

subsection \<open>Operations that only close\<close>

definition heap_wf :: "'p irh \<Rightarrow> bool" where
  "heap_wf st = (\<forall>i \<in> set (heap st). topics_wf i)"

text \<open>Nothing is scheduled, subscribed or enabled; only calls into instances happen.\<close>

definition quiet :: "'p irh \<Rightarrow> 'p irh \<Rightarrow> bool" where
  "quiet st st' = (frame st st' \<and> subs_same st st' \<and> scheduleQueue st' = scheduleQueue st \<and>
     (heap_wf st \<longrightarrow> heap_wf st') \<and>
     (\<forall>r < length (heap st). enabled (heap st' ! r) \<longrightarrow> enabled (heap st ! r)) \<and> pushes st st')"

lemma quiet_refl [simp]: "quiet st st"
  by (simp add: quiet_def)

lemma frame_length: "frame st st' \<Longrightarrow> length (heap st') = length (heap st)"
  by (simp add: frame_def same_heap_length)

lemma quiet_trans: "quiet a b \<Longrightarrow> quiet b c \<Longrightarrow> quiet a c"
  using frame_length [of a b] frame_trans [of a b c] subs_same_trans [of a b c] pushes_trans [of a b c]
  by (simp add: quiet_def)

lemma heap_wf_called: "heap_wf st \<Longrightarrow> topics_wf j \<Longrightarrow> heap_wf (called r j ms st)"
  unfolding heap_wf_def called_simps using set_update_subset_insert by fast

lemma heap_wf_at: "heap_wf st \<Longrightarrow> at_ref r st = Some i \<Longrightarrow> topics_wf i"
  by (auto simp: heap_wf_def at_ref_iff)

lemma called_quiet:
  assumes "at_ref r st = Some i" "same_instance i j" "enabled j \<Longrightarrow> enabled i" "topics_wf i \<Longrightarrow> topics_wf j"
    and "\<And>Q. polite Q (interface i) \<Longrightarrow> list_all Q ms"
  shows "quiet st (called r j ms st)"
  using assms called_frame [OF assms(1,2), of ms] called_pushes [OF assms(1) assms(5), of j] heap_wf_called [of st j r ms] heap_wf_at [of st r i]
  by (auto simp: quiet_def at_ref_iff nth_list_update)

lemma Close_quiet: "CloseInstance r st = Some st' \<Longrightarrow> quiet st st'"
proof (erule CloseInstance_cases)
  fix i p ms
  assume c: "at_ref r st = Some i" "Disable (i\<lparr>enabled := False\<rparr>) = Some (i\<lparr>enabled := False, priv := p\<rparr>, ms)"
    "st' = called r (i\<lparr>enabled := False, priv := p\<rparr>) ms st"
  show "quiet st st'"
    unfolding c(3) using Disable_polite [OF _ c(2)]
    by (intro called_quiet [OF c(1)]) (auto simp: same_instance_def topics_wf_def)
qed

lemma DisableInstance_quiet: "DisableInstance n st = Some st' \<Longrightarrow> quiet st st'"
  by (auto simp: DisableInstance_Close split: option.splits dest: Close_quiet)

lemma CloseTopic_quiet:
  "at_ref r st = Some i \<Longrightarrow> CloseTopic t i = (j, ms) \<Longrightarrow> quiet st (called r j ms st)"
  using CloseTopic_keeps [of t i j ms] topics_wf_ops(2) [of i t j ms] CloseTopic_polite [of _ i t j ms]
  by (intro called_quiet [of r st i j]) auto

definition enabled_of :: "'p irh \<Rightarrow> bool list" where
  "enabled_of st = map enabled (heap st)"

lemma nth_update_False: "r < length xs \<Longrightarrow> xs[q := False] ! r = (xs ! r \<and> q \<noteq> r)"
  by (cases "q = r") simp_all

lemma enabled_of_called: "enabled_of (called r j ms st) = (enabled_of st)[r := enabled j]"
  by (simp add: enabled_of_def map_update)

lemma CloseTopic_enabled:
  "at_ref r st = Some i \<Longrightarrow> CloseTopic t i = (j, ms) \<Longrightarrow> enabled_of (called r j ms st) = enabled_of st"
  using CloseTopic_keeps [of t i j ms]
  by (auto simp: enabled_of_called at_ref_iff) (auto simp: enabled_of_def list_update_same_conv)

lemma Close_enabled: "CloseInstance r st = Some st' \<Longrightarrow> enabled_of st' = (enabled_of st)[r := False]"
  by (erule CloseInstance_cases) (simp add: enabled_of_called)

lemma quiet_store: "quiet st st' \<Longrightarrow> memoryStore st' = memoryStore st \<and> subscibers st' = subscibers st"
  by (simp add: quiet_def frame_def subs_same_def)

subsection \<open>What an update of the instances does to the topics\<close>

definition close_params :: "(string \<times> string list) list \<Rightarrow> string \<Rightarrow> string \<Rightarrow> (string \<times> bool) list \<Rightarrow> (string \<times> bool) list" where
  "close_params subs a b = map (\<lambda>(c, o'). (c, o' \<and> al_count subs (Concat [a, b, c] ''::'')))"

definition close_topics where
  "close_topics subs a = map (\<lambda>(b, pps). (b, close_params subs a b pps))"

definition close_state :: "(string \<times> string list) list \<Rightarrow> TopicState \<Rightarrow> TopicState" where
  "close_state subs = map (\<lambda>(a, pts). (a, close_topics subs a pts))"

definition open_count :: "(string \<times> (string \<times> bool) list) list \<Rightarrow> nat" where
  "open_count pts = sum_list (map (\<lambda>(b, pps). length (filter snd pps)) pts)"

lemma update_params_effect:
  "update_params a b pps st = Some (n, pps1, st1) \<Longrightarrow>
   pps1 = close_params (subscibers st) a b pps \<and> n = length (filter snd pps1) \<and> quiet st st1 \<and>
   enabled_of st1 = enabled_of st"
proof (induction a b pps st arbitrary: n pps1 st1 rule: update_params.induct)
  case (1 a b st)
  then show ?case by (simp add: close_params_def)
next
  case (2 a b c opn pps st)
  show ?case
  proof (cases "opn \<and> \<not> al_count (subscibers st) (Concat [a, b, c] ''::'')")
    case True
    then obtain r i where r: "GetInstance a (memoryStore st) = Some r" "at_ref r st = Some i"
      using 2(4) by (auto simp: bind_eq_Some_conv)
    obtain j ms where j: "CloseTopic \<lparr>instanceName = a, topicName = b, params = c\<rparr> i = (j, ms)" by fastforce
    obtain pps2 where u: "update_params a b pps (called r j ms st) = Some (n, pps2, st1)" "pps1 = (c, False) # pps2"
      using 2(4) True r j by (auto simp: bind_eq_Some_conv)
    with True r j 2(1) [of r i "(j, ms)" j ms n pps2 st1] CloseTopic_quiet [OF r(2) j]
      CloseTopic_enabled [OF r(2) j] show ?thesis
      by (auto simp: close_params_def intro: quiet_trans)
  next
    case False
    then obtain m pps2 where "update_params a b pps st = Some (m, pps2, st1)" "pps1 = (c, opn) # pps2"
      "n = (if opn then Suc m else m)"
      using 2(4) by (auto simp: bind_eq_Some_conv split: if_splits)
    with False 2(2,3) [of m pps2 st1] show ?thesis by (cases opn) (auto simp: close_params_def)
  qed
qed

lemma update_topics_effect:
  "update_topics a pts st = Some (n, pts1, st1) \<Longrightarrow>
   pts1 = close_topics (subscibers st) a pts \<and> n = open_count pts1 \<and> quiet st st1 \<and>
   enabled_of st1 = enabled_of st"
proof (induction pts arbitrary: st n pts1 st1)
  case Nil
  then show ?case by (simp add: close_topics_def open_count_def)
next
  case (Cons bp pts)
  obtain b pps where bp: "bp = (b, pps)" by fastforce
  then obtain k pps1 sta m pts2 where u: "update_params a b pps st = Some (k, pps1, sta)"
    "update_topics a pts sta = Some (m, pts2, st1)" "n = k + m" "pts1 = (b, pps1) # pts2"
    using Cons.prems by (auto simp: bind_eq_Some_conv)
  from update_params_effect [OF u(1)] Cons.IH [OF u(2)] u(3,4) show ?case
    by (auto simp: bp close_topics_def open_count_def quiet_store intro: quiet_trans)
qed

text \<open>The instances an update leaves without an open topic.\<close>

definition idle :: "TopicState \<Rightarrow> string \<Rightarrow> bool" where
  "idle ts n = (\<exists>pts. (n, pts) \<in> set ts \<and> open_count pts = 0)"

lemma update_instances_effect:
  "update_instances ts st = Some (ts1, st1) \<Longrightarrow>
   ts1 = close_state (subscibers st) ts \<and> quiet st st1 \<and>
   (\<forall>r < length (heap st). enabled (heap st1 ! r) \<longleftrightarrow>
      enabled (heap st ! r) \<and> \<not> (\<exists>n. idle ts1 n \<and> GetInstance n (memoryStore st) = Some r))"
proof (induction ts arbitrary: st ts1 st1)
  case Nil
  then show ?case by (simp add: close_state_def idle_def)
next
  case (Cons ap ts)
  obtain a pts where ap: "ap = (a, pts)" by fastforce
  then obtain k pts1 sta stb ts2 where u: "update_topics a pts st = Some (k, pts1, sta)"
    "(if k = 0 then do { r \<leftarrow> GetInstance a (memoryStore sta); i \<leftarrow> at_ref r sta;
        if enabled i then DisableInstance a sta else Some sta } else Some sta) = Some stb"
    "update_instances ts stb = Some (ts2, st1)" "ts1 = (a, pts1) # ts2"
    using Cons.prems by (auto simp: bind_eq_Some_conv)
  have sta: "pts1 = close_topics (subscibers st) a pts" "k = open_count pts1" "quiet st sta"
    "enabled_of sta = enabled_of st"
    using update_topics_effect [OF u(1)] by auto
  have stb: "quiet sta stb"
    using u(2) by (auto simp: bind_eq_Some_conv split: if_splits dest: DisableInstance_quiet)
  have en: "enabled_of stb = (if k = 0 then (enabled_of sta)[the (GetInstance a (memoryStore sta)) := False] else enabled_of sta)"
    using u(2) by (auto simp: bind_eq_Some_conv DisableInstance_Close at_ref_iff split: if_splits dest: Close_enabled)
      (auto simp: enabled_of_def nth_list_update intro!: nth_equalityI split: if_splits)
  have q: "quiet st stb" using sta(3) stb(1) by (rule quiet_trans)
  then have len: "length (heap stb) = length (heap st)" "memoryStore stb = memoryStore st"
    by (simp_all add: quiet_def frame_length quiet_store)
  have some: "k = 0 \<Longrightarrow> \<exists>r. GetInstance a (memoryStore st) = Some r"
    using u(2) sta(3) by (auto simp: bind_eq_Some_conv quiet_store split: if_splits)
  have "enabled (heap stb ! r) \<longleftrightarrow> enabled (heap st ! r) \<and> \<not> (k = 0 \<and> GetInstance a (memoryStore st) = Some r)"
    if "r < length (heap st)" for r
  proof -
    have "enabled (heap stb ! r) = enabled_of stb ! r" "enabled (heap st ! r) = enabled_of st ! r"
      using that len by (simp_all add: enabled_of_def)
    with en sta(4) some that show ?thesis
      by (auto simp: nth_update_False enabled_of_def quiet_store [OF sta(3)])
  qed
  moreover have "idle ts1 n \<longleftrightarrow> (n = a \<and> k = 0) \<or> idle ts2 n" for n
    using u(4) sta(2) by (auto simp: idle_def)
  ultimately show ?case
    using Cons.IH [OF u(3)] q sta(1) u(4) len
    by (auto simp: ap close_state_def quiet_store intro: quiet_trans)
qed

lemma UpdateInstance_effect:
  assumes "UpdateInstance st = Some st'"
  shows "topicState st' = close_state (subscibers st) (topicState st)"
    and "frame st st'" "subscibers st' = subscibers st" "scheduleQueue st' = scheduleQueue st"
    and "heap_wf st \<Longrightarrow> heap_wf st'" "recvData st' = recvData st" "topicRunOnce st' = topicRunOnce st" "pushes st st'"
    and "r < length (heap st) \<Longrightarrow> enabled (heap st' ! r) \<longleftrightarrow>
      enabled (heap st ! r) \<and> \<not> (\<exists>n. idle (topicState st') n \<and> GetInstance n (memoryStore st) = Some r)"
proof -
  obtain ts st1 where u: "update_instances (topicState st) st = Some (ts, st1)" "st' = st1\<lparr>topicState := ts\<rparr>"
    using assms by (auto simp: UpdateInstance_def bind_eq_Some_conv)
  note e = update_instances_effect [OF u(1)]
  show "topicState st' = close_state (subscibers st) (topicState st)" "frame st st'"
    "subscibers st' = subscibers st" "scheduleQueue st' = scheduleQueue st"
    "heap_wf st \<Longrightarrow> heap_wf st'" "recvData st' = recvData st" "topicRunOnce st' = topicRunOnce st" "pushes st st'"
    using e u(2) by (auto simp: quiet_def frame_def subs_same_def heap_wf_def pushes_def)
  show "r < length (heap st) \<Longrightarrow> enabled (heap st' ! r) \<longleftrightarrow>
      enabled (heap st ! r) \<and> \<not> (\<exists>n. idle (topicState st') n \<and> GetInstance n (memoryStore st) = Some r)"
    using e u(2) by auto
qed

lemma map_of_keyed: "map_of (map (\<lambda>(k, v). (k, f k v)) xs) k = map_option (f k) (map_of xs k)"
  by (induction xs) auto

lemma ts_get_close_state:
  "ts_get (close_state subs ts) a b c \<longleftrightarrow> ts_get ts a b c \<and> al_count subs (Concat [a, b, c] ''::'')"
  by (cases "map_of ts a"; cases "map_of (the (map_of ts a)) b")
    (auto simp: ts_get_def close_state_def close_topics_def close_params_def al_get_def map_of_keyed
      simp del: Concat.simps split: option.splits)

lemma ts_get_set:
  "ts_get (ts_set a b c v ts) a' b' c' = (if a' = a \<and> b' = b \<and> c' = c then v else ts_get ts a' b' c')"
  by (auto simp: ts_get_def ts_set_def al_get_def map_of_al_update split: option.splits)

lemma fst_close_state [simp]: "fst ` set (close_state subs ts) = fst ` set ts"
  by (force simp: close_state_def)

lemma fst_ts_set: "fst ` set (ts_set a b c v ts) = insert a (fst ` set ts)"
  by (simp add: ts_set_def dom_update flip: dom_map_of_conv_image_fst) (auto simp: map_of_al_update dom_def)

subsection \<open>The invariant of the scheduler\<close>

definition irh_wf :: "'p irh \<Rightarrow> bool" where
  "irh_wf st = (store_inv (heap st) (memoryStore st) \<and>
     (\<forall>x \<in> set (scheduleQueue st). ref_ok (heap st) (si_instance x)) \<and> heap_wf st \<and>
     distinct (map fst (subscibers st)))"

text \<open>Every instance with a recorded topic is still loaded.\<close>

definition ts_known :: "'p irh \<Rightarrow> bool" where
  "ts_known st = (\<forall>a \<in> fst ` set (topicState st). GetInstance a (memoryStore st) \<noteq> None)"

lemma irh_wf_frame:
  assumes "irh_wf st" "frame st st'" "heap_wf st'" "distinct (map fst (subscibers st'))"
    and "\<forall>x \<in> set (scheduleQueue st'). x \<in> set (scheduleQueue st) \<or> ref_ok (heap st) (si_instance x)"
  shows "irh_wf st'"
  using assms store_inv_same_heap [of "heap st" "heap st'" "memoryStore st"]
  by (auto simp: irh_wf_def frame_def same_heap_ref)

lemma wf_lookup:
  assumes "irh_wf st" "GetInstance n (memoryStore st) = Some r"
  shows "r < length (heap st)" "at_ref r st = Some (heap st ! r)" "ins_name (heap st ! r) = n"
    "topics_wf (heap st ! r)"
  using assms by (auto simp: irh_wf_def store_inv_def ref_ok_def at_ref_iff heap_wf_def dest!: map_of_SomeD)

lemma Close_total: "heap_wf st \<Longrightarrow> r < length (heap st) \<Longrightarrow> \<exists>st'. CloseInstance r st = Some st'"
proof -
  assume "heap_wf st" "r < length (heap st)"
  then have "topics_wf ((heap st ! r)\<lparr>enabled := False\<rparr>)"
    by (auto simp: heap_wf_def topics_wf_def dest: bspec [OF _ nth_mem])
  from Disable_total [OF this] show ?thesis
    using \<open>r < length (heap st)\<close> by (auto simp: CloseInstance_def at_ref_def nth_opt_def)
qed

lemma DisableInstance_total: "irh_wf st \<Longrightarrow> \<exists>st'. DisableInstance n st = Some st'"
  using Close_total wf_lookup by (fastforce simp: DisableInstance_Close irh_wf_def split: option.splits)

lemma quiet_wf: "quiet st st' \<Longrightarrow> irh_wf st \<Longrightarrow> irh_wf st'"
  by (rule irh_wf_frame) (auto simp: quiet_def subs_same_def irh_wf_def)

lemma update_params_total:
  "irh_wf st \<Longrightarrow> GetInstance a (memoryStore st) = Some r \<Longrightarrow> \<exists>n pps1 st1. update_params a b pps st = Some (n, pps1, st1)"
proof (induction pps arbitrary: st)
  case Nil
  then show ?case by simp
next
  case (Cons co pps)
  obtain c o' where co: "co = (c, o')" by fastforce
  obtain j ms where j: "CloseTopic \<lparr>instanceName = a, topicName = b, params = c\<rparr> (heap st ! r) = (j, ms)" by fastforce
  note at = wf_lookup(2) [OF Cons.prems]
  have "irh_wf (called r j ms st)"
    using quiet_wf CloseTopic_quiet [OF at j] Cons.prems(1) by blast
  with Cons.IH [of "called r j ms st"] Cons.IH [of st] Cons.prems at j co show ?case
    by (auto simp del: Concat.simps)
qed

lemma update_topics_total:
  "irh_wf st \<Longrightarrow> GetInstance a (memoryStore st) = Some r \<Longrightarrow> \<exists>n pts1 st1. update_topics a pts st = Some (n, pts1, st1)"
proof (induction pts arbitrary: st)
  case Nil
  then show ?case by simp
next
  case (Cons bp pts)
  obtain b pps where bp: "bp = (b, pps)" by fastforce
  obtain n pps1 st1 where u: "update_params a b pps st = Some (n, pps1, st1)"
    using update_params_total [OF Cons.prems] by blast
  then have "quiet st st1" using update_params_effect by blast
  with Cons.IH [of st1] Cons.prems quiet_wf [of st st1] u bp show ?case
    by (auto simp: quiet_store)
qed

lemma update_instances_total:
  "irh_wf st \<Longrightarrow> \<forall>a \<in> fst ` set ts. GetInstance a (memoryStore st) \<noteq> None \<Longrightarrow>
   \<exists>ts1 st1. update_instances ts st = Some (ts1, st1)"
proof (induction ts arbitrary: st)
  case Nil
  then show ?case by simp
next
  case (Cons ap ts)
  obtain a pts where ap: "ap = (a, pts)" by fastforce
  then obtain r where r: "GetInstance a (memoryStore st) = Some r" using Cons.prems by auto
  obtain n pts1 st1 where u: "update_topics a pts st = Some (n, pts1, st1)"
    using update_topics_total [OF Cons.prems(1) r] by blast
  have q: "quiet st st1" using update_topics_effect [OF u] by blast
  then have wf: "irh_wf st1" using Cons.prems quiet_wf by blast
  have r1: "GetInstance a (memoryStore st1) = Some r" using q r by (simp add: quiet_store)
  obtain stb where d: "DisableInstance a st1 = Some stb" using DisableInstance_total [OF wf] by blast
  have known: "\<forall>a \<in> fst ` set ts. GetInstance a (memoryStore st1) \<noteq> None"
    using Cons.prems(2) q by (auto simp: quiet_store)
  have "irh_wf stb" "memoryStore stb = memoryStore st1"
    using DisableInstance_quiet [OF d] wf by (auto intro: quiet_wf simp: quiet_store)
  with Cons.IH [of stb] Cons.IH [of st1] u d wf_lookup(2) [OF wf r1] r1 wf known ap show ?case
    by auto
qed

lemma UpdateInstance_total: "irh_wf st \<Longrightarrow> ts_known st \<Longrightarrow> \<exists>st'. UpdateInstance st = Some st'"
  using update_instances_total [of st "topicState st"] by (auto simp: ts_known_def UpdateInstance_def)

lemma UpdateInstance_wf: "UpdateInstance st = Some st' \<Longrightarrow> irh_wf st \<Longrightarrow> irh_wf st'"
  by (rule irh_wf_frame) (auto simp: irh_wf_def UpdateInstance_effect)

lemma UpdateInstance_known: "UpdateInstance st = Some st' \<Longrightarrow> ts_known st \<Longrightarrow> ts_known st'"
  using UpdateInstance_effect [of st st'] by (simp add: ts_known_def frame_def)

subsection \<open>What every operation may change\<close>

text \<open>An entry of the run queue made by enabling an instance now.\<close>

definition fresh_entry :: "'p irh \<Rightarrow> ScheduleInstance \<Rightarrow> bool" where
  "fresh_entry st x = (ref_ok (heap st) (si_instance x) \<and>
     first_run (time st) (interface (heap st ! si_instance x)) = Some (si_time x))"

lemma fresh_entry_frame: "frame st st' \<Longrightarrow> fresh_entry st' x = fresh_entry st x"
  using same_heap_nth [of "heap st" "heap st'" "si_instance x"]
    same_heap_length [of "heap st" "heap st'"]
  by (auto simp: fresh_entry_def frame_def same_instance_def ref_ok_def)

definition evolves :: "'p irh \<Rightarrow> 'p irh \<Rightarrow> bool" where
  "evolves st st' = (frame st st' \<and> pushes st st' \<and> (heap_wf st \<longrightarrow> heap_wf st') \<and>
     (\<forall>x \<in> set (scheduleQueue st'). x \<in> set (scheduleQueue st) \<or> fresh_entry st x))"

lemma evolves_refl [simp]: "evolves st st"
  by (simp add: evolves_def)

lemma evolves_trans: "evolves a b \<Longrightarrow> evolves b c \<Longrightarrow> evolves a c"
  using frame_trans [of a b c] pushes_trans [of a b c] fresh_entry_frame [of a b] by (auto simp: evolves_def)

lemma quiet_evolves: "quiet st st' \<Longrightarrow> evolves st st'"
  by (simp add: quiet_def evolves_def)

lemma evolves_wf: "evolves st st' \<Longrightarrow> irh_wf st \<Longrightarrow> distinct (map fst (subscibers st')) \<Longrightarrow> irh_wf st'"
  by (rule irh_wf_frame [of st]) (auto simp: evolves_def irh_wf_def fresh_entry_def)

lemma evolves_store: "evolves st st' \<Longrightarrow> memoryStore st' = memoryStore st"
  by (simp add: evolves_def frame_def)

lemma evolves_fields [simp]:
  "evolves st (st'\<lparr>topicState := ts\<rparr>) = evolves st st'" "evolves st (st'\<lparr>subscibers := sb\<rparr>) = evolves st st'"
  "evolves st (st'\<lparr>topicRunOnce := ro\<rparr>) = evolves st st'" "evolves st (st'\<lparr>recvData := rd\<rparr>) = evolves st st'"
  by (simp_all add: evolves_def frame_def heap_wf_def pushes_def)

lemma called_evolves:
  assumes "at_ref r st = Some i" "same_instance i j" "topics_wf i \<Longrightarrow> topics_wf j"
    and "\<And>Q. polite Q (interface i) \<Longrightarrow> list_all Q ms"
  shows "evolves st (called r j ms st)"
  using assms called_frame [OF assms(1,2), of ms] called_pushes [OF assms(1) assms(4), of j] heap_wf_called [of st j r ms] heap_wf_at [of st r i]
  by (auto simp: evolves_def)

lemma OpenTopic_evolves:
  "at_ref r st = Some i \<Longrightarrow> OpenTopic t i = (ret, j, ms) \<Longrightarrow> evolves st (called r j ms st)"
  using OpenTopic_keeps [of t i ret j ms] topics_wf_ops(1) [of i t ret j ms] OpenTopic_polite [of _ i t ret j ms]
  by (intro called_evolves [of r st i j]) auto

lemma priv_evolves:
  "at_ref r st = Some i \<Longrightarrow> (\<And>Q. polite Q (interface i) \<Longrightarrow> list_all Q ms) \<Longrightarrow> evolves st (called r (i\<lparr>priv := p\<rparr>) ms st)"
  by (rule called_evolves) (auto simp: topics_wf_def)

lemma EnableInstance_evolves:
  assumes "EnableInstance n ps st = Some (res, st')"
  shows "evolves st st'"
  using assms
proof (cases rule: EnableInstance_cases)
  case (refused r i p ms)
  then show ?thesis by (auto intro!: priv_evolves dest: politeD)
next
  case (ran r i p ms t)
  then have "evolves st (called r (i\<lparr>priv := p, enabled := True, enableCnt := u64_add (enableCnt i) 1\<rparr>) ms st)"
    by (intro called_evolves) (auto simp: topics_wf_def dest: politeD)
  with ran show ?thesis
    by (auto simp: evolves_def frame_def heap_wf_def ref_ok_def at_ref_iff pushes_def fresh_entry_def)
qed simp

lemma UpdateInstance_evolves: "UpdateInstance st = Some st' \<Longrightarrow> evolves st st'"
  using UpdateInstance_effect [of st st'] by (auto simp: evolves_def)

end
