(* ===== verification/Pubsub.thy ===== *)
theory Pubsub
  imports Scheduler_Inv
begin

text \<open>
  Publish and subscribe: the operations of the scheduler against an abstract broker. The
  abstract state is the set of pairs of a topic and a subscriber; the locale \<open>broker\<close> is the
  contract of a store of subscriptions, and the map \<open>subscibers\<close> of the code is its instance.
\<close>

subsection \<open>The abstract broker\<close>

datatype sub_op = SubOp string string | UnsubOp string string | DropOp string

fun spec_op :: "sub_op \<Rightarrow> (string \<times> string) set \<Rightarrow> (string \<times> string) set" where
  "spec_op (SubOp t s) S = insert (t, s) S"
| "spec_op (UnsubOp t s) S = S - {(t, s)}"
| "spec_op (DropOp s) S = {(t, s') \<in> S. s' \<noteq> s}"

locale broker =
  fixes abs :: "'b \<Rightarrow> (string \<times> string) set"
    and sub :: "string \<Rightarrow> string \<Rightarrow> 'b \<Rightarrow> 'b"
    and unsub :: "string \<Rightarrow> string \<Rightarrow> 'b \<Rightarrow> 'b"
    and drop_all :: "string \<Rightarrow> 'b \<Rightarrow> 'b"
    and ok :: "'b \<Rightarrow> bool"
  assumes abs_sub: "abs (sub t s b) = insert (t, s) (abs b)"
    and abs_unsub: "ok b \<Longrightarrow> abs (unsub t s b) = abs b - {(t, s)}"
    and abs_drop: "ok b \<Longrightarrow> abs (drop_all s b) = {(t, s') \<in> abs b. s' \<noteq> s}"
    and ok_sub: "ok b \<Longrightarrow> ok (sub t s b)"
    and ok_unsub: "ok b \<Longrightarrow> ok (unsub t s b)"
    and ok_drop: "ok b \<Longrightarrow> ok (drop_all s b)"
begin

fun apply_op :: "sub_op \<Rightarrow> 'b \<Rightarrow> 'b" where
  "apply_op (SubOp t s) b = sub t s b"
| "apply_op (UnsubOp t s) b = unsub t s b"
| "apply_op (DropOp s) b = drop_all s b"

lemma apply_op_refines: "ok b \<Longrightarrow> abs (apply_op op b) = spec_op op (abs b) \<and> ok (apply_op op b)"
  by (cases op) (auto simp: abs_sub abs_unsub abs_drop ok_sub ok_unsub ok_drop)

lemma ops_refine: "ok b \<Longrightarrow> abs (fold apply_op ops b) = fold spec_op ops (abs b)"
  by (induction ops arbitrary: b) (auto simp: apply_op_refines)

end

type_synonym subs = "(string \<times> string list) list"

definition subs_abs :: "subs \<Rightarrow> (string \<times> string) set" where
  "subs_abs m = {(t, s). s \<in> set (al_get [] m t)}"

text \<open>What the loop of \<open>UnsubscribeSdk\<close> leaves of the subscriptions.\<close>

definition drop_entry :: "string \<Rightarrow> string \<times> string list \<Rightarrow> subs" where
  "drop_entry fd e = (case e of (t, ss) \<Rightarrow>
     if fd \<in> set ss then (if removeAll fd ss = [] then [] else [(t, removeAll fd ss)]) else [(t, ss)])"

definition subs_drop :: "string \<Rightarrow> subs \<Rightarrow> subs" where
  "subs_drop fd m = concat (map (drop_entry fd) m)"

lemma al_get_delete: "al_get d (AList.delete k m) k' = (if k' = k then d else al_get d m k')"
  by (simp add: al_get_def map_of_al_delete)

lemma al_get_subs_insert: "al_get [] (subs_insert t s m) t' = (if t' = t then List.insert s (al_get [] m t) else al_get [] m t')"
  by (simp add: subs_insert_def al_get_update)

lemma al_get_subs_erase: "al_get [] (subs_erase t s m) t' = (if t' = t then removeAll s (al_get [] m t) else al_get [] m t')"
  by (auto simp: subs_erase_def Let_def al_get_update al_get_delete)

lemma subs_drop_Cons: "subs_drop fd (e # m) = drop_entry fd e @ subs_drop fd m"
  by (simp add: subs_drop_def)

lemma drop_entry_cases: "drop_entry fd e = [] \<or> (\<exists>ss. drop_entry fd e = [(fst e, ss)])"
  by (auto simp: drop_entry_def split: prod.splits)

lemma fst_subs_drop: "fst ` set (subs_drop fd m) \<subseteq> fst ` set m"
proof (induction m)
  case Nil
  then show ?case by (simp add: subs_drop_def)
next
  case (Cons e m)
  with drop_entry_cases [of fd e] show ?case by (auto simp: subs_drop_Cons)
qed

lemma distinct_subs_drop: "distinct (map fst m) \<Longrightarrow> distinct (map fst (subs_drop fd m))"
proof (induction m)
  case Nil
  then show ?case by (simp add: subs_drop_def)
next
  case (Cons e m)
  have "fst e \<notin> fst ` set (subs_drop fd m)"
    using fst_subs_drop [of fd m] Cons.prems by auto
  with Cons drop_entry_cases [of fd e] show ?case
    by (elim disjE exE) (simp_all add: subs_drop_Cons)
qed

lemma map_of_subs_drop:
  "distinct (map fst m) \<Longrightarrow> map_of (subs_drop fd m) t = (case map_of m t of None \<Rightarrow> None
     | Some ss \<Rightarrow> if fd \<in> set ss \<and> removeAll fd ss = [] then None else Some (removeAll fd ss))"
proof (induction m)
  case Nil
  then show ?case by (simp add: subs_drop_def)
next
  case (Cons e m)
  obtain t' ss where e: "e = (t', ss)" by fastforce
  have "map_of (subs_drop fd m) t' = None"
    using fst_subs_drop [of fd m] Cons.prems e by (auto simp: map_of_eq_None_iff)
  with Cons e show ?case
    by (auto simp: subs_drop_Cons drop_entry_def map_add_def split: option.splits)
qed

lemma al_get_subs_drop:
  "distinct (map fst m) \<Longrightarrow> al_get [] (subs_drop fd m) t = removeAll fd (al_get [] m t)"
  by (auto simp: al_get_def map_of_subs_drop split: option.splits)

lemma distinct_subs_insert: "distinct (map fst m) \<Longrightarrow> distinct (map fst (subs_insert t s m))"
  by (simp add: subs_insert_def distinct_update)

lemma distinct_subs_erase: "distinct (map fst m) \<Longrightarrow> distinct (map fst (subs_erase t s m))"
  by (simp add: subs_erase_def Let_def distinct_update distinct_delete)

lemmas distinct_subs = distinct_subs_insert distinct_subs_erase distinct_subs_drop
lemmas get_subs = al_get_subs_insert al_get_subs_erase al_get_subs_drop

interpretation subs_broker: broker subs_abs subs_insert subs_erase subs_drop "\<lambda>m. distinct (map fst m)"
  by unfold_locales (auto simp: subs_abs_def get_subs distinct_subs split: if_splits)

text \<open>Entries that survive an erasure are not empty unless they were empty before.\<close>

lemma count_subs_erase:
  "al_count (subs_erase t s m) t' \<Longrightarrow> al_get [] m t' \<noteq> [] \<Longrightarrow> al_get [] (subs_erase t s m) t' \<noteq> []"
  by (auto simp: al_get_subs_erase)
    (auto simp: subs_erase_def Let_def al_count_def map_of_al_delete)

lemma count_subs_drop:
  "distinct (map fst m) \<Longrightarrow> al_count (subs_drop fd m) t \<Longrightarrow> al_get [] m t \<noteq> [] \<Longrightarrow> al_get [] (subs_drop fd m) t \<noteq> []"
  by (cases "map_of m t"; cases "fd \<in> set (the (map_of m t))")
    (simp_all add: al_count_def al_get_def map_of_subs_drop removeAll_id split: if_splits)

lemma get_count: "al_get [] m t \<noteq> [] \<Longrightarrow> al_count m t"
  by (auto simp: al_get_def al_count_def split: option.splits)

subsection \<open>Subscribe by cases\<close>

text \<open>
  A subscription is rejected when the instance is missing or one of \<open>Enable\<close> and \<open>OpenTopic\<close>
  fails; otherwise it is recorded, whatever the result code says.
\<close>

definition sub_rejected :: "Topic \<Rightarrow> Result \<Rightarrow> 'p irh \<Rightarrow> 'p irh \<Rightarrow> bool" where
  "sub_rejected topic res st st' = (res_failed res \<and> evolves st st' \<and> subscibers st' = subscibers st \<and>
     recvData st' = recvData st \<and> (\<forall>a b c. ts_get (topicState st') a b c = ts_get (topicState st) a b c) \<and>
     (topicState st' = topicState st \<or> fst ` set (topicState st') = insert (instanceName topic) (fst ` set (topicState st))))"

definition sub_accepted :: "string \<Rightarrow> Topic \<Rightarrow> string \<Rightarrow> 'p irh \<Rightarrow> 'p irh \<Rightarrow> bool" where
  "sub_accepted p0 topic s st st' = (evolves st st' \<and> subscibers st' = subs_insert p0 s (subscibers st) \<and>
     recvData st' = recvData st \<and>
     (\<forall>a b c. ts_get (topicState st') a b c =
        (ts_get (topicState st) a b c \<or> a = instanceName topic \<and> b = topicName topic \<and> c = params topic)) \<and>
     fst ` set (topicState st') = insert (instanceName topic) (fst ` set (topicState st)))"

lemma subscribe_topic_cases:
  assumes S: "subscribe_topic ps p0 topic r res st = Some (res', st')"
  shows "sub_rejected topic res' st st' \<and> \<not> ts_get (topicState st) (instanceName topic) (topicName topic) (params topic) \<or>
    (\<exists>s. nth_opt ps 1 = Some s \<and> sub_accepted p0 topic s st st' \<and>
    (if ts_get (topicState st) (instanceName topic) (topicName topic) (params topic) then res' = res else \<not> res_failed res'))"
proof -
  let ?a = "instanceName topic" and ?b = "topicName topic" and ?c = "params topic"
  let ?open = "ts_get (topicState st) ?a ?b ?c"
  let ?st1 = "st\<lparr>topicState := ts_set ?a ?b ?c ?open (topicState st)\<rparr>"
  obtain i where i: "at_ref r ?st1 = Some i" "at_ref r st = Some i"
    using S by (cases "at_ref r ?st1") (auto simp: subscribe_topic_def Let_def at_ref_def)
  obtain res1 i1 ms where o: "(if ?open then (res, i, []) else OpenTopic topic i) = (res1, i1, ms)"
    by (cases "if ?open then (res, i, []) else OpenTopic topic i") auto
  let ?st2 = "called r i1 ms ?st1"
  have "evolves ?st1 ?st2"
    using o i by (auto split: if_splits intro: OpenTopic_evolves called_evolves simp: same_instance_def)
  then have st2: "evolves st ?st2" by (rule evolves_trans [rotated]) simp
  show ?thesis
  proof (cases "\<not> ?open \<and> res_failed res1")
    case True
    then obtain st3 where d: "DisableInstance (ins_name i) ?st2 = Some st3" "res' = res1" "st' = st3"
      using S i(1) o by (cases "DisableInstance (ins_name i) ?st2") (auto simp: subscribe_topic_def Let_def)
    have q: "quiet ?st2 st3" using d(1) by (rule DisableInstance_quiet)
    then have "evolves st st'" using st2 d(3) by (auto intro: evolves_trans quiet_evolves)
    with True d q show ?thesis
      by (auto simp: sub_rejected_def quiet_def subs_same_def ts_get_set fst_ts_set)
  next
    case ok: False
    then obtain s where s: "nth_opt ps 1 = Some s"
      using S i(1) o by (cases "nth_opt ps 1") (auto simp: subscribe_topic_def Let_def)
    let ?st3 = "?st2\<lparr>topicState := ts_set ?a ?b ?c True (topicState ?st2), subscibers := subs_insert p0 s (subscibers ?st2)\<rparr>"
    have "res' = res1" "st' = (if if_type (interface i) AND INSTANCE_RUN_ONCE \<noteq> 0
         then ?st3\<lparr>topicRunOnce := topicRunOnce ?st3 @ [(topic, s)]\<rparr> else ?st3)"
      using S i(1) o ok s by (auto simp: subscribe_topic_def Let_def)
    with st2 s o ok show ?thesis
      by (auto simp: sub_accepted_def ts_get_set fst_ts_set)
  qed
qed

text \<open>
  Whether a topic was being served before the message: its instance runs and it is open.
  Then \<open>Subscribe\<close> calls no plugin and returns its uninitialized result.
\<close>

definition topic_served :: "Topic \<Rightarrow> 'p irh \<Rightarrow> bool" where
  "topic_served topic st =
     (ts_get (topicState st) (instanceName topic) (topicName topic) (params topic) \<and>
      (case GetInstance (instanceName topic) (memoryStore st) of None \<Rightarrow> False
       | Some r \<Rightarrow> (case at_ref r st of None \<Rightarrow> False | Some i \<Rightarrow> enabled i)))"

lemma Subscribe_cases:
  assumes S: "Subscribe ps st = Some (res, st')"
  obtains (missing) p0 topic where "nth_opt ps 0 = Some p0" "GetTopicFromType p0 = Some topic"
      "GetInstance (instanceName topic) (memoryStore st) = None" "res_failed res" "st' = st"
  | (rejected) p0 topic where "nth_opt ps 0 = Some p0" "GetTopicFromType p0 = Some topic"
      "GetInstance (instanceName topic) (memoryStore st) \<noteq> None" "sub_rejected topic res st st'" "\<not> topic_served topic st"
  | (accepted) p0 topic s where "nth_opt ps 0 = Some p0" "GetTopicFromType p0 = Some topic"
      "GetInstance (instanceName topic) (memoryStore st) \<noteq> None"
      "nth_opt ps 1 = Some s" "sub_accepted p0 topic s st st'" "topic_served topic st \<or> \<not> res_failed res"
proof -
  obtain p0 topic where p: "nth_opt ps 0 = Some p0" "GetTopicFromType p0 = Some topic"
    using S by (auto simp: Subscribe_def bind_eq_Some_conv)
  note unf = Subscribe_def exist_iff Let_def
  show ?thesis
  proof (cases "GetInstance (instanceName topic) (memoryStore st)")
    case None
    then show ?thesis using S p by (intro missing [of p0 topic]) (auto simp: unf FAILED_def)
  next
    case (Some r)
    obtain i where i: "at_ref r st = Some i"
      using S p Some by (cases "at_ref r st") (auto simp: unf)
    have "\<exists>res1 st1. evolves st st1 \<and> subs_same st st1 \<and>
      ((res_failed res \<and> st' = st1 \<and> \<not> enabled i) \<or>
       subscribe_topic ps p0 topic r res1 st1 = Some (res, st') \<and> (enabled i \<or> \<not> res_failed res1))"
    proof (cases "enabled i")
      case True
      with S p Some i show ?thesis by (intro exI [of _ "unset st"] exI [of _ st]) (simp add: unf)
    next
      case False
      with S p Some i obtain res1 st1 where e: "EnableInstance (ins_name i) (params topic) st = Some (res1, st1)"
        by (cases "EnableInstance (ins_name i) (params topic) st") (auto simp: unf)
      with S p Some i False EnableInstance_evolves [OF e] EnableInstance_frame [OF e] show ?thesis
        by (intro exI [of _ res1] exI [of _ st1]) (auto simp: unf split: if_splits)
    qed
    then obtain res1 st1 where st1: "evolves st st1" "subs_same st st1"
      "(res_failed res \<and> st' = st1 \<and> \<not> enabled i) \<or>
       subscribe_topic ps p0 topic r res1 st1 = Some (res, st') \<and> (enabled i \<or> \<not> res_failed res1)" by blast
    have served: "topic_served topic st \<longleftrightarrow> enabled i \<and> ts_get (topicState st) (instanceName topic) (topicName topic) (params topic)"
      using Some i by (auto simp: topic_served_def)
    from st1(3) show ?thesis
    proof
      assume "res_failed res \<and> st' = st1 \<and> \<not> enabled i"
      with st1 p Some served show ?thesis by (intro rejected [of p0 topic]) (auto simp: sub_rejected_def subs_same_def)
    next
      assume st: "subscribe_topic ps p0 topic r res1 st1 = Some (res, st') \<and> (enabled i \<or> \<not> res_failed res1)"
      from subscribe_topic_cases [OF conjunct1 [OF st]] st1(1,2) st served
      have "sub_rejected topic res st st' \<and> \<not> topic_served topic st \<or>
        (\<exists>s. nth_opt ps 1 = Some s \<and> sub_accepted p0 topic s st st' \<and> (topic_served topic st \<or> \<not> res_failed res))"
        using evolves_trans [of st st1 st'] by (auto simp: sub_rejected_def sub_accepted_def subs_same_def split: if_splits)
      with p Some rejected accepted show ?thesis by (elim disjE exE) auto
    qed
  qed
qed

subsection \<open>Open topics and subscribers\<close>

definition opened :: "'p irh \<Rightarrow> Topic \<Rightarrow> bool" where
  "opened st t = ts_get (topicState st) (instanceName t) (topicName t) (params t)"

definition subscribers_of :: "'p irh \<Rightarrow> string \<Rightarrow> string list" where
  "subscribers_of st s = al_get [] (subscibers st) s"

text \<open>A topic is open exactly while somebody subscribes to it.\<close>

definition pubsub_inv :: "'p irh \<Rightarrow> bool" where
  "pubsub_inv st = ((\<forall>t. opened st t \<longrightarrow> subscribers_of st (GetType t) \<noteq> []) \<and>
     (\<forall>s. subscribers_of st s \<noteq> [] \<longrightarrow> canonical s \<and> opened st (the (GetTopicFromType s))))"

lemma opened_update:
  "UpdateInstance st = Some st' \<Longrightarrow> opened st' t \<longleftrightarrow> opened st t \<and> al_count (subscibers st) (GetType t)"
  by (simp add: opened_def UpdateInstance_effect ts_get_close_state GetType_def del: Concat.simps)

lemma pubsub_shrink:
  assumes inv: "pubsub_inv st" and u: "UpdateInstance (st\<lparr>subscibers := m\<rparr>) = Some st'"
    and less: "\<And>k. al_get [] m k \<noteq> [] \<Longrightarrow> subscribers_of st k \<noteq> []"
    and live: "\<And>k. al_count m k \<Longrightarrow> subscribers_of st k \<noteq> [] \<Longrightarrow> al_get [] m k \<noteq> []"
  shows "pubsub_inv st'"
proof -
  have subs: "subscribers_of st' k = al_get [] m k" for k
    using UpdateInstance_effect(3) [OF u] by (simp add: subscribers_of_def)
  have op: "opened st' t \<longleftrightarrow> opened st t \<and> al_count m (GetType t)" for t
    using opened_update [OF u] by (simp add: opened_def)
  have "opened st' t \<Longrightarrow> subscribers_of st' (GetType t) \<noteq> []" for t
    using inv live by (auto simp: op subs pubsub_inv_def)
  moreover have "canonical s \<and> opened st' (the (GetTopicFromType s))" if "subscribers_of st' s \<noteq> []" for s
  proof -
    have "canonical s" "opened st (the (GetTopicFromType s))" "al_count m s"
      using inv less [of s] that get_count by (auto simp: subs pubsub_inv_def)
    moreover from this(1) have "GetType (the (GetTopicFromType s)) = s"
      by (auto simp: canonical_def split: option.splits)
    ultimately show ?thesis by (simp add: op)
  qed
  ultimately show ?thesis by (simp add: pubsub_inv_def)
qed

lemma pubsub_same: "topicState st' = topicState st \<Longrightarrow> subscibers st' = subscibers st \<Longrightarrow> pubsub_inv st' = pubsub_inv st"
  by (simp add: pubsub_inv_def opened_def subscribers_of_def)

subsection \<open>The state under each operation\<close>

text \<open>The whole invariant of the scheduler between two messages.\<close>

definition sched_inv :: "'p irh \<Rightarrow> bool" where
  "sched_inv st = (irh_wf st \<and> ts_known st \<and> pubsub_inv st)"

lemma sched_inv_evolves:
  assumes "sched_inv st" "evolves st st'" "topicState st' = topicState st" "subscibers st' = subscibers st"
  shows "sched_inv st'"
  using assms evolves_wf [OF assms(2)] pubsub_same [of st' st]
  by (auto simp: sched_inv_def ts_known_def irh_wf_def evolves_store)

lemma Enable_inv: "EnableInstance n ps st = Some (res, st') \<Longrightarrow> sched_inv st \<Longrightarrow> sched_inv st' \<and> subscibers st' = subscibers st"
  using sched_inv_evolves [of st st'] EnableInstance_evolves [of n ps st res st'] EnableInstance_frame [of n ps st res st']
  by (auto simp: subs_same_def)

lemma Disable_inv: "DisableInstance n st = Some st' \<Longrightarrow> sched_inv st \<Longrightarrow> sched_inv st' \<and> subscibers st' = subscibers st"
  using sched_inv_evolves [of st st'] quiet_evolves [OF DisableInstance_quiet [of n st st']] DisableInstance_quiet [of n st st']
  by (auto simp: quiet_def subs_same_def)

lemma ts_known_insert:
  assumes "ts_known st" "memoryStore st' = memoryStore st" "GetInstance a (memoryStore st) \<noteq> None"
    and "fst ` set (topicState st') \<subseteq> insert a (fst ` set (topicState st))"
  shows "ts_known st'"
  using assms unfolding ts_known_def by (intro ballI) (drule (1) subsetD, auto)

lemma List_insert_ne [simp]: "List.insert x xs \<noteq> []"
  by (auto simp: List.insert_def)

lemma opened_accepted: "sub_accepted p0 topic s st st' \<Longrightarrow> opened st' t \<longleftrightarrow> opened st t \<or> t = topic"
  by (cases t; cases topic) (auto simp: sub_accepted_def opened_def)

lemma accepted_inv:
  assumes inv: "sched_inv st" and acc: "sub_accepted p0 topic s st st'" and p0: "canonical p0" "GetTopicFromType p0 = Some topic"
    and known: "GetInstance (instanceName topic) (memoryStore st) \<noteq> None"
  shows "sched_inv st'"
proof -
  have ev: "evolves st st'" and subs: "subscibers st' = subs_insert p0 s (subscibers st)"
    and keys: "fst ` set (topicState st') = insert (instanceName topic) (fst ` set (topicState st))"
    using acc by (auto simp: sub_accepted_def)
  have of': "subscribers_of st' k = (if k = p0 then List.insert s (subscribers_of st p0) else subscribers_of st k)" for k
    by (simp add: subscribers_of_def subs al_get_subs_insert)
  have ty: "GetType topic = p0" using p0 by (simp add: canonical_def)
  have "pubsub_inv st'"
    using inv p0 ty by (auto simp: sched_inv_def pubsub_inv_def of' opened_accepted [OF acc])
  moreover have "irh_wf st'"
    using inv by (intro evolves_wf [OF ev]) (auto simp: sched_inv_def irh_wf_def subs distinct_subs)
  moreover have "ts_known st'"
    using inv keys by (intro ts_known_insert [OF _ evolves_store [OF ev] known]) (auto simp: sched_inv_def)
  ultimately show ?thesis by (simp add: sched_inv_def)
qed

lemma rejected_inv:
  assumes inv: "sched_inv st" and rej: "sub_rejected topic res st st'"
    and known: "GetInstance (instanceName topic) (memoryStore st) \<noteq> None"
  shows "sched_inv st' \<and> subscibers st' = subscibers st"
proof -
  have ev: "evolves st st'" and subs: "subscibers st' = subscibers st"
    and keys: "topicState st' = topicState st \<or> fst ` set (topicState st') = insert (instanceName topic) (fst ` set (topicState st))"
    and ts: "opened st' t = opened st t" for t
    using rej by (auto simp: sub_rejected_def opened_def)
  have "pubsub_inv st'"
    using inv by (simp add: sched_inv_def pubsub_inv_def subscribers_of_def subs ts)
  moreover have "irh_wf st'"
    using inv by (intro evolves_wf [OF ev]) (auto simp: sched_inv_def irh_wf_def subs)
  moreover have "ts_known st'"
    using inv keys by (intro ts_known_insert [OF _ evolves_store [OF ev] known]) (auto simp: sched_inv_def)
  ultimately show ?thesis by (simp add: sched_inv_def subs)
qed

lemma evolves_subs_left [simp]: "evolves (st\<lparr>subscibers := m\<rparr>) st' = evolves st st'"
  by (simp add: evolves_def frame_def heap_wf_def pushes_def polite_heap_def fresh_entry_def)

lemma irh_wf_subs: "irh_wf st \<Longrightarrow> distinct (map fst m) \<Longrightarrow> irh_wf (st\<lparr>subscibers := m\<rparr>)"
  by (simp add: irh_wf_def heap_wf_def)

text \<open>Taking subscriptions away and updating the instances.\<close>

lemma shrink_total:
  assumes inv: "sched_inv st" and m: "distinct (map fst m)"
    and less: "\<And>k. al_get [] m k \<noteq> [] \<Longrightarrow> subscribers_of st k \<noteq> []"
    and live: "\<And>k. al_count m k \<Longrightarrow> subscribers_of st k \<noteq> [] \<Longrightarrow> al_get [] m k \<noteq> []"
  shows "\<exists>st'. UpdateInstance (st\<lparr>subscibers := m\<rparr>) = Some st' \<and> sched_inv st' \<and> subscibers st' = m \<and>
    evolves st st' \<and> recvData st' = recvData st"
proof -
  let ?st = "st\<lparr>subscibers := m\<rparr>"
  have wf: "irh_wf ?st" "ts_known ?st"
    using inv m by (auto simp: sched_inv_def ts_known_def intro: irh_wf_subs)
  obtain st' where u: "UpdateInstance ?st = Some st'"
    using UpdateInstance_total [OF wf] by blast
  have "sched_inv st'"
    using pubsub_shrink [OF _ u less live] UpdateInstance_wf [OF u wf(1)] UpdateInstance_known [OF u wf(2)] inv
    by (simp add: sched_inv_def)
  with u UpdateInstance_effect [OF u] UpdateInstance_evolves [OF u] show ?thesis by auto
qed

lemma Unsubscribe_total:
  assumes "sched_inv st" "GetTopicFromType p0 = Some topic"
  shows "\<exists>st'. Unsubscribe (p0 # p1 # ps) st = Some (unset st, st') \<and> sched_inv st' \<and>
    subscibers st' = subs_erase p0 p1 (subscibers st) \<and> evolves st st' \<and> recvData st' = recvData st"
proof -
  have "distinct (map fst (subscibers st))"
    using assms by (simp add: sched_inv_def irh_wf_def)
  from shrink_total [OF assms(1) distinct_subs_erase [OF this, of p0 p1]]
  show ?thesis
    using assms(2) count_subs_erase [of p0 p1 "subscibers st"]
    by (fastforce simp: Unsubscribe_def subscribers_of_def al_get_subs_erase split: if_splits)
qed

lemma map_of_drop_entry:
  assumes "distinct (map fst (xs @ e # ys))"
  shows "map_of (xs @ drop_entry fd e @ ys) k =
    (if k = fst e then (if fd \<in> set (snd e) \<and> removeAll fd (snd e) = [] then None else Some (removeAll fd (snd e)))
     else map_of (xs @ e # ys) k)"
proof -
  have "map_of xs (fst e) = None" "map_of ys (fst e) = None"
    using assms by (auto simp: map_of_eq_None_iff)
  then show ?thesis
    by (auto simp: drop_entry_def map_add_def removeAll_id split: option.splits prod.splits)
qed

lemma distinct_drop_entry:
  "distinct (map fst (xs @ e # ys)) \<Longrightarrow> distinct (map fst (xs @ drop_entry fd e @ ys))"
  using drop_entry_cases [of fd e] by (elim disjE exE) simp_all

lemma unsub_sdk_total:
  "sched_inv (st\<lparr>subscibers := before @ after\<rparr>) \<Longrightarrow>
   \<exists>st'. unsub_sdk fd before after st = Some st' \<and> sched_inv st' \<and> subscibers st' = before @ subs_drop fd after \<and>
     evolves st st' \<and> recvData st' = recvData st"
proof (induction after arbitrary: before st)
  case Nil
  then show ?case by (simp add: subs_drop_def)
next
  case (Cons e after)
  obtain type ss where e: "e = (type, ss)" by fastforce
  show ?case
  proof (cases "fd \<in> set ss")
    case False
    with Cons.IH [of "before @ [e]" st] Cons.prems e show ?thesis
      by (simp add: subs_drop_Cons drop_entry_def)
  next
    case True
    let ?b = "before @ drop_entry fd e"
    let ?st = "st\<lparr>subscibers := before @ e # after\<rparr>"
    have d: "distinct (map fst (before @ e # after))"
      using Cons.prems by (simp add: sched_inv_def irh_wf_def)
    have get: "map_of (?b @ after) k = (if k = type then (if removeAll fd ss = [] then None else Some (removeAll fd ss))
        else map_of (before @ e # after) k)" for k
      using map_of_drop_entry [OF d, of fd k] True e by simp
    have old: "map_of (before @ e # after) type = Some ss"
      using d e map_of_eq_None_iff [of before type] by (simp add: map_add_def)
    have "ss \<noteq> []" using True by auto
    then have less: "al_get [] (?b @ after) k \<noteq> [] \<Longrightarrow> subscribers_of ?st k \<noteq> []"
      and live: "al_count (?b @ after) k \<Longrightarrow> subscribers_of ?st k \<noteq> [] \<Longrightarrow> al_get [] (?b @ after) k \<noteq> []" for k
      unfolding subscribers_of_def al_get_def al_count_def get using old
      by (cases "k = type"; simp split: if_splits option.splits)+
    obtain st1 where u: "UpdateInstance (st\<lparr>subscibers := ?b @ after\<rparr>) = Some st1" "sched_inv st1"
      "subscibers st1 = ?b @ after" "evolves st st1" "recvData st1 = recvData st"
      using shrink_total [OF Cons.prems _ less live] distinct_drop_entry [OF d, of fd] by auto
    have "st1\<lparr>subscibers := ?b @ after\<rparr> = st1" using u(3) by simp
    then obtain st2 where "unsub_sdk fd ?b after st1 = Some st2" "sched_inv st2" "subscibers st2 = ?b @ subs_drop fd after"
      "evolves st1 st2" "recvData st2 = recvData st1"
      using Cons.IH [of ?b st1] u(2) by auto
    with u True e evolves_trans [of st st1 st2] show ?thesis
      by (auto simp: subs_drop_Cons drop_entry_def Let_def)
  qed
qed

subsection \<open>Publishing\<close>

lemma publish_topic_effect:
  "publish_topic t r st = Some (res, st') \<Longrightarrow> evolves st st' \<and> subs_same st st'"
  by (cases "at_ref r st")
    (auto simp: publish_topic_def Let_def split: if_splits prod.splits intro: OpenTopic_evolves)

lemma Publish_effect:
  assumes P: "Publish ps st = Some (res, st')"
  shows "evolves st st' \<and> subs_same st st'"
proof -
  obtain p0 x dl y a b c where d: "nth_opt ps 0 = Some p0"
    "DataListDeserialize (register st) (uninit st) (mk_in (mem_limit st) p0) = Some (x, dl, y)"
    "std_string (ct_instance (dl_topic dl)) = Some a" "std_string (ct_topic (dl_topic dl)) = Some b"
    "std_string (ct_params (dl_topic dl)) = Some c"
    using P by (auto simp: Publish_def bind_eq_Some_conv)
  note unf = Publish_def exist_iff Let_def
  show ?thesis
  proof (cases "\<exists>r i. GetInstance a (memoryStore st) = Some r \<and> at_ref r st = Some i \<and> \<not> (b \<noteq> [] \<and> \<not> al_count (supportTopics i) b)")
    case False
    then have "st' = st"
      using P d by (cases "GetInstance a (memoryStore st)"; cases "at_ref (the (GetInstance a (memoryStore st))) st")
        (auto simp: unf split: if_splits)
    then show ?thesis by simp
  next
    case True
    then obtain r i where r: "GetInstance a (memoryStore st) = Some r" "at_ref r st = Some i"
      "\<not> (b \<noteq> [] \<and> \<not> al_count (supportTopics i) b)" by blast
    obtain p ms where v: "v_UpdateData (interface i) dl (priv i) = (p, ms)" by fastforce
    let ?st1 = "called r (i\<lparr>priv := p\<rparr>) ms st"
    have "evolves ?st1 st' \<and> subs_same ?st1 st'"
    proof (cases "enabled i")
      case True
      with P d r v show ?thesis by (auto simp: unf split: if_splits dest: publish_topic_effect)
    next
      case False
      obtain res2 st2 where e: "EnableInstance a [] ?st1 = Some (res2, st2)"
        using P d r v False by (cases "EnableInstance a [] ?st1") (auto simp: unf)
      have "st' = st2 \<or> evolves st2 st' \<and> subs_same st2 st'"
        using P d r v e False by (auto simp: unf split: if_splits dest: publish_topic_effect)
      with EnableInstance_evolves [OF e] EnableInstance_frame [OF e] show ?thesis
        by (auto intro: evolves_trans subs_same_trans)
    qed
    with priv_evolves [OF r(2) politeD(3) [OF _ v], of p] show ?thesis by (auto simp: subs_same_def intro: evolves_trans)
  qed
qed

definition data_event :: "string \<Rightarrow> string \<Rightarrow> Event" where
  "data_event out s = \<lparr>ev_opt = OptDATA, ev_type = EventTypeUnset, ev_payload = [s, out]\<rparr>"

definition wire_of :: "'p irh \<Rightarrow> DataList \<Rightarrow> string" where
  "wire_of st dl = snd (the (DataListSerialize (register st) dl []))"

lemma deliver_effect:
  "deliver type dl ss st = Some st' \<Longrightarrow>
   evolves st st' \<and> topicState st' = topicState st \<and> subscibers st' = subscibers st \<and>
   recvData st' = recvData st @ map (data_event (wire_of st dl)) (filter is_sdk ss)"
proof (induction ss arbitrary: st)
  case Nil
  then show ?case by simp
next
  case (Cons s ss)
  show ?case
  proof (cases "is_sdk s")
    case True
    let ?st = "st\<lparr>recvData := Push (recvData st) (data_event (wire_of st dl) s)\<rparr>"
    have "deliver type dl ss ?st = Some st'"
      using Cons.prems True
      by (cases "DataListSerialize (register st) dl []") (auto simp: data_event_def wire_of_def)
    with Cons.IH [of ?st] True show ?thesis
      by (auto simp: Push_def wire_of_def evolves_def frame_def heap_wf_def pushes_def polite_heap_def fresh_entry_def)
  next
    case False
    then obtain r i where r0: "GetInstance s (memoryStore st) = Some r" "at_ref r st = Some i"
      using Cons.prems by (auto simp: bind_eq_Some_conv)
    obtain p ms where v: "v_UpdateData (interface i) dl (priv i) = (p, ms)" by fastforce
    have r: "at_ref r st = Some i" "v_UpdateData (interface i) dl (priv i) = (p, ms)"
      "deliver type dl ss (called r (i\<lparr>priv := p\<rparr>) ms st) = Some st'"
      using Cons.prems False r0 v by (auto simp: bind_eq_Some_conv)
    with Cons.IH [OF r(3)] False priv_evolves [OF r(1) politeD(3) [OF _ r(2)], of p] show ?thesis
      by (auto simp: wire_of_def intro: evolves_trans)
  qed
qed

lemma PublishData_effect:
  assumes "PublishData msg st = Some st'"
  obtains type where "nth_opt (irm_payload msg) 0 = Some type" "evolves st st'" "topicState st' = topicState st"
    "\<And>k. subscribers_of st' k = subscribers_of st k" "fst ` set (subscibers st') = insert type (fst ` set (subscibers st))"
    "distinct (map fst (subscibers st)) \<Longrightarrow> distinct (map fst (subscibers st'))"
    "recvData st' = recvData st @ map (data_event (wire_of st (the (irm_dataList msg)))) (filter is_sdk (subscribers_of st type))"
proof -
  obtain type where t: "nth_opt (irm_payload msg) 0 = Some type"
    using assms by (auto simp: PublishData_def bind_eq_Some_conv)
  let ?ss = "subscribers_of st type"
  let ?st = "st\<lparr>subscibers := AList.update type ?ss (subscibers st)\<rparr>"
  have ne: "?ss \<noteq> [] \<Longrightarrow> \<exists>dl. irm_dataList msg = Some dl"
    using assms t by (cases "irm_dataList msg") (auto simp: PublishData_def subscribers_of_def)
  have "deliver type (the (irm_dataList msg)) ?ss ?st = Some st'"
    using assms t ne
    by (cases "?ss = []"; cases "irm_dataList msg") (simp_all add: PublishData_def subscribers_of_def Let_def)
  from deliver_effect [OF this] t that [of type] show ?thesis
    by (auto simp: subscribers_of_def al_get_update wire_of_def dom_update distinct_update)
qed

end
