(* ===== verification/Run_Queue.thy ===== *)
theory Run_Queue
  imports Pubsub "HOL-Library.Multiset"
begin

text \<open>
  The run queue and the run loop \<open>Schedule\<close>: the queue is a priority queue (locale
  \<open>max_queue\<close>), the loop runs what is due and ends, and the clock never overtakes an entry as
  long as the periods are multiples of the cycle.
\<close>

subsection \<open>The contract of a priority queue\<close>

fun drain :: "('q \<Rightarrow> 'a option) \<Rightarrow> ('q \<Rightarrow> 'q) \<Rightarrow> nat \<Rightarrow> 'q \<Rightarrow> 'a list" where
  "drain first rest 0 q = []"
| "drain first rest (Suc n) q = (case first q of None \<Rightarrow> [] | Some x \<Rightarrow> x # drain first rest n (rest q))"

locale max_queue =
  fixes less :: "'a \<Rightarrow> 'a \<Rightarrow> bool"
    and top :: "'q \<Rightarrow> 'a option"
    and pop :: "'q \<Rightarrow> 'q"
    and push :: "'a \<Rightarrow> 'q \<Rightarrow> 'q"
    and elems :: "'q \<Rightarrow> 'a multiset"
  assumes top_None: "top q = None \<longleftrightarrow> elems q = {#}"
    and top_in: "top q = Some x \<Longrightarrow> x \<in># elems q"
    and top_max: "top q = Some x \<Longrightarrow> y \<in># elems q \<Longrightarrow> \<not> less x y"
    and elems_pop: "top q = Some x \<Longrightarrow> elems (pop q) = elems q - {#x#}"
    and elems_push: "elems (push x q) = add_mset x (elems q)"
begin

lemma drain_subset: "set (drain top pop n q) \<subseteq> set_mset (elems q)"
proof (induction n arbitrary: q)
  case 0
  then show ?case by simp
next
  case (Suc n)
  show ?case
  proof (cases "top q")
    case (Some x)
    then have "set (drain top pop n (pop q)) \<subseteq> set_mset (elems q)"
      using Suc [of "pop q"] elems_pop [OF Some] by (auto dest: in_diffD)
    with Some top_in show ?thesis by auto
  qed simp
qed

text \<open>Taking elements out one by one gives them in order, and all of them.\<close>

lemma drain_sorted: "sorted_wrt (\<lambda>x y. \<not> less x y) (drain top pop n q)"
proof (induction n arbitrary: q)
  case 0
  then show ?case by simp
next
  case (Suc n)
  show ?case
  proof (cases "top q")
    case (Some x)
    have "y \<in># elems q" if "y \<in> set (drain top pop n (pop q))" for y
      using drain_subset [of n "pop q"] elems_pop [OF Some] that by (auto dest: in_diffD)
    with Some Suc top_max show ?thesis by auto
  qed simp
qed

lemma drain_all: "n = size (elems q) \<Longrightarrow> mset (drain top pop n q) = elems q"
proof (induction n arbitrary: q)
  case 0
  then show ?case by simp
next
  case (Suc n)
  obtain x where x: "top q = Some x"
    using Suc.prems top_None [of q] by (cases "top q") auto
  then have "size (elems (pop q)) = n"
    using Suc.prems elems_pop [OF x] top_in [OF x] by (simp add: size_Diff_singleton)
  with Suc.IH [of "pop q"] x elems_pop [OF x] top_in [OF x] show ?case by simp
qed

end

subsection \<open>The queue of the scheduler\<close>

lemma queue_top_in: "queue_top h q = Some x \<Longrightarrow> x \<in> set q"
  by (induction q arbitrary: x) (auto split: option.splits if_splits)

lemma queue_top_None [simp]: "queue_top h q = None \<longleftrightarrow> q = []"
  by (cases q) (auto split: option.splits)

lemma si_less_trans: "\<not> si_less h a b \<Longrightarrow> \<not> si_less h b c \<Longrightarrow> \<not> si_less h a c"
  by (auto simp: si_less_def)

lemma si_less_asym: "si_less h a b \<Longrightarrow> \<not> si_less h b a"
  by (auto simp: si_less_def)

lemma queue_top_max: "queue_top h q = Some x \<Longrightarrow> y \<in> set q \<Longrightarrow> \<not> si_less h x y"
proof (induction q arbitrary: x)
  case Nil
  then show ?case by simp
next
  case (Cons z q)
  show ?case
  proof (cases "queue_top h q")
    case None
    with Cons show ?thesis by (auto simp: si_less_def)
  next
    case (Some w)
    with Cons have "\<not> si_less h w y \<or> y = z" by auto
    with Cons.prems Some show ?thesis
      using si_less_asym [of h z w] si_less_trans [of h z w y] by (auto simp: si_less_def split: if_splits)
  qed
qed

lemma mset_queue_pop: "queue_top h q = Some x \<Longrightarrow> mset (queue_pop h q) = mset q - {#x#}"
  by (simp add: queue_pop_def)

interpretation run_queue: max_queue "si_less h" "queue_top h" "queue_pop h" queue_push mset for h :: "'p heap"
  by unfold_locales (auto simp: queue_top_in queue_top_max mset_queue_pop queue_push_def)

definition queue_drain :: "'p heap \<Rightarrow> ScheduleInstance list \<Rightarrow> ScheduleInstance list" where
  "queue_drain h q = drain (queue_top h) (queue_pop h) (length q) q"

text \<open>C12. The run queue hands out its entries by due time, and at the same time by ascending
  priority number, each exactly once.\<close>

theorem run_queue_order:
  "sorted_wrt (\<lambda>x y. si_time x < si_time y \<or>
      (si_time x = si_time y \<and> prio h (si_instance x) \<le> prio h (si_instance y))) (queue_drain h q) \<and>
   mset (queue_drain h q) = mset q"
  using run_queue.drain_sorted [of h "length q" q] run_queue.drain_all [of "length q" q h]
  by (auto simp: queue_drain_def si_less_def not_less elim!: sorted_wrt_mono_rel [rotated])

subsection \<open>One turn of the run loop\<close>

definition runs_once :: "'p Interface \<Rightarrow> bool" where
  "runs_once ifc = (if_type ifc AND INSTANCE_RUN_ONCE \<noteq> 0)"

lemma schedule_one_cases:
  assumes "schedule_one st = Some (go, st')"
  obtains (stop) "\<not> go" "st' = st" "\<And>x. queue_top (heap st) (scheduleQueue st) = Some x \<Longrightarrow> si_time x \<noteq> time st"
  | (skip) si i where "go" "queue_top (heap st) (scheduleQueue st) = Some si" "si_time si = time st"
      "at_ref (si_instance si) st = Some i" "\<not> enabled i"
      "st' = st\<lparr>scheduleQueue := queue_pop (heap st) (scheduleQueue st)\<rparr>"
  | (once) si i p ms st2 where "go" "queue_top (heap st) (scheduleQueue st) = Some si" "si_time si = time st"
      "at_ref (si_instance si) st = Some i" "enabled i" "runs_once (interface i)" "v_Run (interface i) (priv i) = (p, ms)"
      "st2 = called (si_instance si) (i\<lparr>priv := p\<rparr>) ms (st\<lparr>scheduleQueue := queue_pop (heap st) (scheduleQueue st)\<rparr>)"
      "CloseInstance (si_instance si) st2 = Some st'"
  | (again) si i p ms st2 where "go" "queue_top (heap st) (scheduleQueue st) = Some si" "si_time si = time st"
      "at_ref (si_instance si) st = Some i" "enabled i" "\<not> runs_once (interface i)" "v_Run (interface i) (priv i) = (p, ms)"
      "st2 = called (si_instance si) (i\<lparr>priv := p\<rparr>) ms (st\<lparr>scheduleQueue := queue_pop (heap st) (scheduleQueue st)\<rparr>)"
      "st' = st2\<lparr>scheduleQueue := scheduleQueue st2 @ [si\<lparr>si_time := u64_add (time st) (period (interface i))\<rparr>]\<rparr>"
proof (cases "queue_top (heap st) (scheduleQueue st)")
  case None
  with assms show ?thesis by (intro stop) (auto simp: schedule_one_def)
next
  case (Some si)
  show ?thesis
  proof (cases "si_time si = time st")
    case False
    with assms Some show ?thesis by (intro stop) (auto simp: schedule_one_def)
  next
    case now: True
    let ?st1 = "st\<lparr>scheduleQueue := queue_pop (heap st) (scheduleQueue st)\<rparr>"
    obtain i where i: "at_ref (si_instance si) ?st1 = Some i" "at_ref (si_instance si) st = Some i"
      using assms Some now by (cases "at_ref (si_instance si) ?st1") (auto simp: schedule_one_def Let_def at_ref_def)
    obtain p ms where v: "v_Run (interface i) (priv i) = (p, ms)" by fastforce
    let ?st2 = "called (si_instance si) (i\<lparr>priv := p\<rparr>) ms ?st1"
    note unf = schedule_one_def Let_def runs_once_def queue_push_def
    consider (a) "\<not> enabled i" | (b) "enabled i" "runs_once (interface i)" | (c) "enabled i" "\<not> runs_once (interface i)"
      by blast
    then show ?thesis
    proof cases
      case a
      with assms Some now i show ?thesis by (intro skip [of si i]) (auto simp: unf)
    next
      case b
      then obtain st3 where "CloseInstance (si_instance si) ?st2 = Some st3"
        using assms Some now i v by (cases "CloseInstance (si_instance si) ?st2") (auto simp: unf)
      with assms Some now i v b show ?thesis by (intro once [of si i p ms ?st2]) (auto simp: unf)
    next
      case c
      with assms Some now i v show ?thesis by (intro again [of si i p ms ?st2]) (auto simp: unf)
    qed
  qed
qed

text \<open>A turn touches the queue of runs and calls into one instance.\<close>

definition runs :: "'p irh \<Rightarrow> 'p irh \<Rightarrow> bool" where
  "runs st st' = (frame st st' \<and> pushes st st' \<and> subs_same st st' \<and> (heap_wf st \<longrightarrow> heap_wf st'))"

lemma runs_refl [simp]: "runs st st"
  by (simp add: runs_def)

lemma runs_trans: "runs a b \<Longrightarrow> runs b c \<Longrightarrow> runs a c"
  using frame_trans [of a b c] pushes_trans [of a b c] subs_same_trans [of a b c] by (auto simp: runs_def)

lemma runs_queue [simp]: "runs st (st'\<lparr>scheduleQueue := q\<rparr>) = runs st st'" "runs (st\<lparr>scheduleQueue := q\<rparr>) st' = runs st st'"
  by (simp_all add: runs_def frame_def pushes_def subs_same_def heap_wf_def polite_heap_def)

lemma Run_runs:
  assumes "at_ref r st = Some i" "v_Run (interface i) (priv i) = (p, ms)"
  shows "runs st (called r (i\<lparr>priv := p\<rparr>) ms st)"
  using priv_evolves [OF assms(1) politeD(6) [OF _ assms(2)], of p] by (auto simp: runs_def evolves_def)

lemma schedule_one_runs:
  assumes "schedule_one st = Some (go, st')"
  shows "runs st st'"
  using assms
proof (cases rule: schedule_one_cases)
  case (once si i p ms st2)
  let ?st1 = "st\<lparr>scheduleQueue := queue_pop (heap st) (scheduleQueue st)\<rparr>"
  have "runs ?st1 st2"
    unfolding once(8) using once(4,7) by (intro Run_runs) (auto simp: at_ref_def)
  moreover have "runs st2 st'" using Close_quiet [OF once(9)] by (simp add: runs_def quiet_def)
  ultimately show ?thesis using runs_trans [of st st2 st'] by simp
next
  case (again si i p ms st2)
  let ?st1 = "st\<lparr>scheduleQueue := queue_pop (heap st) (scheduleQueue st)\<rparr>"
  have "runs ?st1 st2"
    unfolding again(8) using again(4,7) by (intro Run_runs) (auto simp: at_ref_def)
  with again show ?thesis by simp
qed auto

lemma Schedule_runs: "Schedule st = Some st' \<Longrightarrow> runs st st'"
  by (erule run_loop.loop_relates) (auto intro: runs_trans schedule_one_runs)

lemma set_queue_pop: "queue_top h q = Some x \<Longrightarrow> set (queue_pop h q) \<subseteq> set q"
  using set_remove1_subset [of x q] by (simp add: queue_pop_def)

text \<open>The entries after a turn: old ones, and the one that ran, moved on by its period.\<close>

definition moved :: "'p irh \<Rightarrow> ScheduleInstance \<Rightarrow> bool" where
  "moved st y = (\<exists>x. queue_top (heap st) (scheduleQueue st) = Some x \<and> si_time x = time st \<and>
     si_instance y = si_instance x \<and> ref_ok (heap st) (si_instance x) \<and>
     \<not> runs_once (interface (heap st ! si_instance x)) \<and>
     si_time y = u64_add (time st) (period (interface (heap st ! si_instance x))))"

lemma schedule_one_entries:
  assumes "schedule_one st = Some (go, st')" "y \<in> set (scheduleQueue st')"
  shows "y \<in> set (scheduleQueue st) \<or> moved st y"
  using assms(1)
proof (cases rule: schedule_one_cases)
  case (skip si i)
  then show ?thesis using assms(2) set_queue_pop [of "heap st"] by auto
next
  case (once si i p ms st2)
  then show ?thesis using assms(2) set_queue_pop [of "heap st"] Close_frame [OF once(9)] by auto
next
  case (again si i p ms st2)
  then show ?thesis
    using assms(2) set_queue_pop [of "heap st"] by (auto simp: moved_def ref_ok_def at_ref_iff)
qed (use assms(2) in auto)

lemma moved_ref: "moved st y \<Longrightarrow> ref_ok (heap st) (si_instance y)"
  by (auto simp: moved_def)

lemma schedule_one_wf: "schedule_one st = Some (go, st') \<Longrightarrow> irh_wf st \<Longrightarrow> irh_wf st'"
  using schedule_one_entries [of st go st'] schedule_one_runs [of st go st'] moved_ref [of st]
  by (intro irh_wf_frame [of st st']) (auto simp: runs_def irh_wf_def subs_same_def)

lemma Schedule_wf: "Schedule st = Some st' \<Longrightarrow> irh_wf st \<Longrightarrow> irh_wf st'"
  by (erule run_loop.loop_keeps) (auto intro: schedule_one_wf)

subsection \<open>The run loop ends\<close>

lemma u64_add_ne: "0 < d \<Longrightarrow> d < 2 ^ 64 \<Longrightarrow> t < 2 ^ 64 \<Longrightarrow> u64_add t d \<noteq> t"
proof (rule ccontr)
  assume d: "0 < d" "d < 2 ^ 64" "t < 2 ^ 64" and "\<not> u64_add t d \<noteq> t"
  then have "(int t + d) mod 2 ^ 64 = int t mod 2 ^ 64"
    by (auto simp: u64_add_def)
  then have "d mod 2 ^ 64 = 0"
    by (metis add_diff_cancel_left' diff_self mod_diff_cong mod_0)
  with d show False by simp
qed

text \<open>Periods fit an \<open>int\<close>, and whoever runs again does so later.\<close>

definition periods_ok :: "'p irh \<Rightarrow> bool" where
  "periods_ok st = (\<forall>i \<in> set (heap st). 0 \<le> period (interface i) \<and> period (interface i) < 2 ^ 30 \<and>
     (\<not> runs_once (interface i) \<longrightarrow> 0 < period (interface i)))"

lemma periods_frame: "frame st st' \<Longrightarrow> periods_ok st \<Longrightarrow> periods_ok st'"
  by (auto simp: periods_ok_def frame_def same_heap_def same_instance_def list_all2_conv_all_nth all_set_conv_all_nth)

definition due :: "'p irh \<Rightarrow> nat" where
  "due st = length (filter (\<lambda>x. si_time x = time st) (scheduleQueue st))"

lemma due_pop:
  assumes "queue_top h q = Some x" "si_time x = t"
  shows "length (filter (\<lambda>x. si_time x = t) (queue_pop h q)) < length (filter (\<lambda>x. si_time x = t) q)"
proof -
  have "x \<in> set (filter (\<lambda>x. si_time x = t) q)"
    using assms queue_top_in by auto
  then show ?thesis
    using assms length_pos_if_in_set [of x] by (simp add: queue_pop_def filter_remove1 length_remove1)
qed

lemma schedule_one_due:
  assumes "schedule_one st = Some (True, st')" "periods_ok st" "time st < 2 ^ 64"
  shows "due st' < due st"
  using assms(1)
proof (cases rule: schedule_one_cases)
  case (skip si i)
  then show ?thesis using due_pop [OF skip(2) refl] by (simp add: due_def)
next
  case (once si i p ms st2)
  then show ?thesis
    using due_pop [OF once(2) refl] Close_frame [OF once(9)] by (auto simp: due_def frame_def)
next
  case (again si i p ms st2)
  have "i \<in> set (heap st)" using again(4) by (auto simp: at_ref_iff)
  then have "u64_add (time st) (period (interface i)) \<noteq> time st"
    using assms(2,3) again(6) by (intro u64_add_ne) (auto simp: periods_ok_def)
  with again show ?thesis using due_pop [OF again(2) refl] by (simp add: due_def)
qed simp

lemma schedule_one_total: "irh_wf st \<Longrightarrow> \<exists>go st'. schedule_one st = Some (go, st')"
proof (cases "queue_top (heap st) (scheduleQueue st)")
  case None
  then show ?thesis by (intro exI [of _ False] exI [of _ st]) (simp add: schedule_one_def)
next
  case (Some si)
  assume wf: "irh_wf st"
  let ?st1 = "st\<lparr>scheduleQueue := queue_pop (heap st) (scheduleQueue st)\<rparr>"
  let ?i = "heap st ! si_instance si"
  have r: "si_instance si < length (heap st)"
    using wf queue_top_in [OF Some] by (auto simp: irh_wf_def ref_ok_def)
  then have at: "at_ref (si_instance si) ?st1 = Some ?i" by (simp add: at_ref_iff)
  obtain p ms where v: "v_Run (interface ?i) (priv ?i) = (p, ms)" by fastforce
  have "heap_wf (called (si_instance si) (?i\<lparr>priv := p\<rparr>) ms ?st1)"
    using wf r by (intro heap_wf_called) (auto simp: irh_wf_def heap_wf_def topics_wf_def dest: bspec [OF _ nth_mem])
  then obtain st3 where "CloseInstance (si_instance si) (called (si_instance si) (?i\<lparr>priv := p\<rparr>) ms ?st1) = Some st3"
    using Close_total r by fastforce
  with Some at v show ?thesis by (auto simp: schedule_one_def Let_def)
qed

definition no_past :: "'p irh \<Rightarrow> bool" where
  "no_past st = (\<forall>x \<in> set (scheduleQueue st). time st \<le> si_time x)"

lemma moved_later:
  "moved st y \<Longrightarrow> periods_ok st \<Longrightarrow> time st + 2 ^ 32 < 2 ^ 64 \<Longrightarrow>
   \<exists>i \<in> set (heap st). si_time y = time st + nat (period (interface i)) \<and> 0 < period (interface i)"
  by (auto simp: moved_def periods_ok_def ref_ok_def u64_add_small intro!: bexI [OF _ nth_mem] dest!: bspec [OF _ nth_mem])

lemma schedule_one_no_past:
  assumes "schedule_one st = Some (go, st')" "no_past st" "periods_ok st" "time st + 2 ^ 32 < 2 ^ 64"
  shows "no_past st'"
proof -
  have "time st' = time st" using schedule_one_runs [OF assms(1)] by (simp add: runs_def frame_def)
  moreover have "time st \<le> si_time y" if "y \<in> set (scheduleQueue st')" for y
    using schedule_one_entries [OF assms(1) that] assms(2) moved_later [OF _ assms(3,4), of y]
    by (auto simp: no_past_def)
  ultimately show ?thesis by (simp add: no_past_def)
qed

lemma Schedule_ends:
  assumes "irh_wf st" "periods_ok st" "no_past st" "time st + 2 ^ 32 < 2 ^ 64"
  shows "\<exists>st'. Schedule st = Some st' \<and> (\<forall>x \<in> set (scheduleQueue st'). time st' < si_time x)"
proof -
  let ?I = "\<lambda>st. irh_wf st \<and> periods_ok st \<and> no_past st \<and> time st + 2 ^ 32 < 2 ^ 64"
  show ?thesis
  proof (rule run_loop.loop_returns [where I = ?I and m = due])
    show "?I st" using assms by simp
    fix s :: "'a irh"
    assume I: "?I s"
    then obtain go s1 where s1: "schedule_one s = Some (go, s1)"
      using schedule_one_total by blast
    have r: "runs s s1" using s1 by (rule schedule_one_runs)
    have I1: "?I s1"
      using I s1 schedule_one_wf [OF s1] schedule_one_no_past [OF s1] periods_frame [of s s1] r
      by (auto simp: runs_def frame_def)
    have "go \<Longrightarrow> due s1 < due s" using schedule_one_due [of s s1] s1 I by (cases go) auto
    moreover have "time s1 < si_time x" if stop: "\<not> go" and x: "x \<in> set (scheduleQueue s1)" for x
    proof -
      from s1 stop have "s1 = s" "\<And>x. queue_top (heap s) (scheduleQueue s) = Some x \<Longrightarrow> si_time x \<noteq> time s"
        by (auto elim: schedule_one_cases)
      moreover obtain y where "queue_top (heap s) (scheduleQueue s) = Some y"
        using x \<open>s1 = s\<close> by (cases "queue_top (heap s) (scheduleQueue s)") auto
      ultimately show ?thesis
        using queue_top_max [of "heap s" "scheduleQueue s" y x] queue_top_in [of "heap s" "scheduleQueue s" y] x I
        by (fastforce simp: no_past_def si_less_def)
    qed
    ultimately show "\<exists>go s1. schedule_one s = Some (go, s1) \<and>
        (if go then ?I s1 \<and> due s1 < due s else \<forall>x \<in> set (scheduleQueue s1). time s1 < si_time x)"
      using s1 I1 by (intro exI [of _ go] exI [of _ s1]) auto
  qed
qed

end
