(* ===== verification/Scheduler_Props.thy ===== *)
theory Scheduler_Props
  imports Run_Queue
begin

text \<open>
  The message loop and the main loop of the scheduler: every message keeps the invariant and
  refines the abstract broker, the loops end, and the clock and the run queue agree.
\<close>

subsection \<open>One message\<close>

lemma Unsubscribe_evolves: "Unsubscribe ps st = Some (res, st') \<Longrightarrow> evolves st st'"
  by (auto simp: Unsubscribe_def bind_eq_Some_conv dest!: UpdateInstance_evolves)

lemma unsub_sdk_evolves: "unsub_sdk fd before after st = Some st' \<Longrightarrow> evolves st st'"
proof (induction after arbitrary: before st)
  case Nil
  then show ?case by auto
next
  case (Cons e after)
  obtain t ss where e: "e = (t, ss)" by fastforce
  show ?case
  proof (cases "fd \<in> set ss")
    case False
    with Cons e show ?thesis by auto
  next
    case True
    then obtain m b1 st1 where "UpdateInstance (st\<lparr>subscibers := m\<rparr>) = Some st1" "unsub_sdk fd b1 after st1 = Some st'"
      using Cons.prems e by (auto simp: bind_eq_Some_conv Let_def)
    with Cons.IH [of b1 st1] UpdateInstance_evolves [of "st\<lparr>subscibers := m\<rparr>" st1] show ?thesis
      by (auto intro: evolves_trans)
  qed
qed

lemma UnsubscribeSdk_evolves: "UnsubscribeSdk ps st = Some (res, st') \<Longrightarrow> evolves st st'"
  by (auto simp: UnsubscribeSdk_def bind_eq_Some_conv dest: unsub_sdk_evolves)

lemma Subscribe_evolves: "Subscribe ps st = Some (res, st') \<Longrightarrow> evolves st st'"
  by (erule Subscribe_cases) (auto simp: sub_rejected_def sub_accepted_def)

lemma PublishData_evolves: "PublishData msg st = Some st' \<Longrightarrow> evolves st st'"
  by (erule PublishData_effect)

lemma handle_msg_evolves: "handle_msg msg st = Some (msg', st') \<Longrightarrow> evolves st st'"
  by (cases "irm_type msg")
    (auto simp: handle_msg_def bind_eq_Some_conv
      dest: EnableInstance_evolves DisableInstance_quiet [THEN quiet_evolves] Subscribe_evolves
        Unsubscribe_evolves UnsubscribeSdk_evolves PublishData_evolves Publish_effect)

lemma Unsubscribe_inv:
  assumes "Unsubscribe ps st = Some (res, st')" "sched_inv st"
  obtains p0 p1 where "nth_opt ps 0 = Some p0" "nth_opt ps 1 = Some p1" "sched_inv st'"
    "subscibers st' = subs_erase p0 p1 (subscibers st)"
proof -
  from assms(1) obtain p0 p1 topic where p: "nth_opt ps 0 = Some p0" "nth_opt ps 1 = Some p1"
    "GetTopicFromType p0 = Some topic"
    by (auto simp: Unsubscribe_def bind_eq_Some_conv)
  then have ps: "ps = p0 # p1 # drop 2 ps"
    by (cases ps; cases "tl ps") auto
  from Unsubscribe_total [OF assms(2) p(3), of p1 "drop 2 ps"] assms(1) ps p that show ?thesis by auto
qed

lemma UnsubscribeSdk_inv:
  assumes "UnsubscribeSdk ps st = Some (res, st')" "sched_inv st"
  obtains fd where "nth_opt ps 0 = Some fd" "sched_inv st'" "subscibers st' = subs_drop fd (subscibers st)"
proof -
  from assms(1) obtain fd where fd: "nth_opt ps 0 = Some fd" "unsub_sdk fd [] (subscibers st) st = Some st'"
    by (auto simp: UnsubscribeSdk_def bind_eq_Some_conv)
  with unsub_sdk_total [of "[]" "subscibers st" st fd] assms(2) that show ?thesis by auto
qed

lemma PublishData_inv:
  assumes "PublishData msg st = Some st'" "sched_inv st"
  shows "sched_inv st' \<and> subs_abs (subscibers st') = subs_abs (subscibers st)"
  using assms(1)
proof (rule PublishData_effect)
  fix type
  assume e: "evolves st st'" "topicState st' = topicState st" "\<And>k. subscribers_of st' k = subscribers_of st k"
    "distinct (map fst (subscibers st)) \<Longrightarrow> distinct (map fst (subscibers st'))"
  have "pubsub_inv st'" using assms(2) e(2,3) by (simp add: sched_inv_def pubsub_inv_def opened_def)
  moreover have "irh_wf st'" using assms(2) e(4) by (intro evolves_wf [OF e(1)]) (auto simp: sched_inv_def irh_wf_def)
  moreover have "ts_known st'" using assms(2) e by (simp add: sched_inv_def ts_known_def evolves_store)
  ultimately show ?thesis using e(3) by (simp add: sched_inv_def subs_abs_def subscribers_of_def)
qed

lemma Publish_inv: "Publish ps st = Some (res, st') \<Longrightarrow> sched_inv st \<Longrightarrow> sched_inv st' \<and> subscibers st' = subscibers st"
  using Publish_effect [of ps st res st'] sched_inv_evolves [of st st'] by (simp add: subs_same_def)

lemma Subscribe_inv:
  assumes S: "Subscribe ps st = Some (res, st')" and inv: "sched_inv st"
    and canon: "\<And>p0. nth_opt ps 0 = Some p0 \<Longrightarrow> canonical p0"
  shows "\<exists>p0 topic. nth_opt ps 0 = Some p0 \<and> GetTopicFromType p0 = Some topic \<and> sched_inv st' \<and>
    (if topic_served topic st \<or> \<not> res_failed res
     then \<exists>p1. nth_opt ps 1 = Some p1 \<and> subscibers st' = subs_insert p0 p1 (subscibers st)
     else subscibers st' = subscibers st)"
  using S
proof (cases rule: Subscribe_cases)
  case (rejected p0 topic)
  with rejected_inv [OF inv rejected(4,3)] show ?thesis by (auto simp: sub_rejected_def)
next
  case (accepted p0 topic s)
  with accepted_inv [OF inv accepted(5) canon accepted(2,3)] show ?thesis by (auto simp: sub_accepted_def)
qed (use inv in \<open>auto simp: topic_served_def\<close>)

text \<open>
  The effect of a message on the subscriptions, as the abstract broker has it. \<open>served\<close> says
  which topics were being served before the message, \<open>res\<close> is the result the message carries
  afterwards. A subscription to a served topic is always recorded, any other exactly when its
  result is not a failure.
\<close>

definition spec_msg ::
  "InstanceRunMessage \<Rightarrow> (Topic \<Rightarrow> bool) \<Rightarrow> Result \<Rightarrow> (string \<times> string) set \<Rightarrow> (string \<times> string) set \<Rightarrow> bool" where
  "spec_msg msg served res S S' =
     (case (irm_type msg, irm_payload msg) of
        (RunSUBSCRIBE, t # ss) \<Rightarrow>
          (if (case GetTopicFromType t of None \<Rightarrow> False | Some topic \<Rightarrow> served topic) \<or> \<not> res_failed res
           then (\<exists>s. nth_opt ss 0 = Some s \<and> S' = spec_op (SubOp t s) S) else S' = S)
      | (RunUNSUBSCRIBE, t # s # _) \<Rightarrow> S' = spec_op (UnsubOp t s) S
      | (RunUNSUBSCRIBE_SDK, s # _) \<Rightarrow> S' = spec_op (DropOp s) S
      | _ \<Rightarrow> S' = S)"

lemma nth_opt_0: "nth_opt ps 0 = Some p \<Longrightarrow> \<exists>qs. ps = p # qs"
  by (cases ps) auto

lemma nth_opt_01: "nth_opt ps 0 = Some p \<Longrightarrow> nth_opt ps 1 = Some q \<Longrightarrow> \<exists>qs. ps = p # q # qs"
  by (cases ps; cases "tl ps") auto

lemma handle_msg_inv:
  assumes h: "handle_msg msg st = Some (msg', st')" and inv: "sched_inv st" and canon: "msg_canon msg"
  shows "sched_inv st' \<and> 
    spec_msg msg (\<lambda>t. topic_served t st) (irm_result msg') (subs_abs (subscibers st)) (subs_abs (subscibers st'))"
proof -
  have d: "distinct (map fst (subscibers st))" using inv by (simp add: sched_inv_def irh_wf_def)
  show ?thesis
  proof (cases "irm_type msg")
    case RunSUBSCRIBE
    then obtain res where S: "Subscribe (irm_payload msg) st = Some (res, st')" and res: "irm_result msg' = res"
      using h by (auto simp: handle_msg_def bind_eq_Some_conv)
    from Subscribe_inv [OF S inv] canon RunSUBSCRIBE obtain p0 topic where p: "nth_opt (irm_payload msg) 0 = Some p0"
      "GetTopicFromType p0 = Some topic" "sched_inv st'" and
      e: "if topic_served topic st \<or> \<not> res_failed res
        then \<exists>p1. nth_opt (irm_payload msg) 1 = Some p1 \<and> subscibers st' = subs_insert p0 p1 (subscibers st)
        else subscibers st' = subscibers st" by (auto simp: msg_canon_def)
    obtain qs where qs: "irm_payload msg = p0 # qs" using nth_opt_0 [OF p(1)] by blast
    with e p(2) RunSUBSCRIBE res have "spec_msg msg (\<lambda>t. topic_served t st) (irm_result msg')
        (subs_abs (subscibers st)) (subs_abs (subscibers st'))"
      by (auto simp: spec_msg_def subs_broker.abs_sub split: if_splits)
    with p(3) show ?thesis by simp
  next
    case RunUNSUBSCRIBE
    then obtain res where "Unsubscribe (irm_payload msg) st = Some (res, st')"
      using h by (auto simp: handle_msg_def bind_eq_Some_conv)
    then show ?thesis
      by (rule Unsubscribe_inv [OF _ inv])
        (use RunUNSUBSCRIBE subs_broker.abs_unsub [OF d] in \<open>auto simp: spec_msg_def dest!: nth_opt_01\<close>)
  next
    case RunUNSUBSCRIBE_SDK
    then obtain res where "UnsubscribeSdk (irm_payload msg) st = Some (res, st')"
      using h by (auto simp: handle_msg_def bind_eq_Some_conv)
    then show ?thesis
      by (rule UnsubscribeSdk_inv [OF _ inv])
        (use RunUNSUBSCRIBE_SDK subs_broker.abs_drop [OF d] in \<open>auto simp: spec_msg_def dest!: nth_opt_0\<close>)
  qed (use h inv in \<open>auto simp: handle_msg_def spec_msg_def bind_eq_Some_conv split: list.splits
      dest: Enable_inv Disable_inv Publish_inv PublishData_inv\<close>)
qed

subsection \<open>The loops keep the invariant\<close>

definition all_inv :: "'p irh \<Rightarrow> bool" where
  "all_inv st = (sched_inv st \<and> polite_heap msg_canon st \<and> (\<forall>m \<in> set (recvQueue st). msg_canon m))"

lemma sched_inv_queue [simp]:
  "sched_inv (st\<lparr>recvQueue := q\<rparr>) = sched_inv st" "sched_inv (st\<lparr>notified := n\<rparr>) = sched_inv st"
  "sched_inv (st\<lparr>time := t\<rparr>) = sched_inv st"
  by (simp_all add: sched_inv_def irh_wf_def heap_wf_def ts_known_def pubsub_inv_def opened_def subscribers_of_def)

lemma polite_heap_fields [simp]:
  "polite_heap Q (st\<lparr>recvQueue := q\<rparr>) = polite_heap Q st" "polite_heap Q (st\<lparr>notified := n\<rparr>) = polite_heap Q st"
  "polite_heap Q (st\<lparr>time := t\<rparr>) = polite_heap Q st"
  by (simp_all add: polite_heap_def)

lemma handle_one_cases:
  assumes "handle_one (sd, st) = Some (go, s1)"
  obtains (stop) "\<not> go" "s1 = (sd, st)" "sd \<or> recvQueue st = []"
  | (turn) msg q msg1 st1 where "go" "recvQueue st = msg # q" "\<not> sd" "handle_msg msg (st\<lparr>recvQueue := q\<rparr>) = Some (msg1, st1)"
      "s1 = (irm_type msg = RunSHUTDOWN, st1\<lparr>notified := notified st1 @ [NotifyOne msg1]\<rparr>)"
proof (cases "sd \<or> recvQueue st = []")
  case True
  with assms show ?thesis by (intro stop) (auto simp: handle_one_def split: if_splits)
next
  case False
  then obtain msg q where q: "recvQueue st = msg # q" by (cases "recvQueue st") auto
  with assms False obtain msg1 st1 where "handle_msg msg (st\<lparr>recvQueue := q\<rparr>) = Some (msg1, st1)"
    by (cases "handle_msg msg (st\<lparr>recvQueue := q\<rparr>)") (auto simp: handle_one_def)
  with assms q False show ?thesis by (intro turn [of msg q msg1 st1]) (auto simp: handle_one_def)
qed

lemma handle_one_inv:
  assumes "handle_one (sd, st) = Some (go, sd', st')" "all_inv st"
  shows "all_inv st'"
  using assms(1)
proof (cases rule: handle_one_cases)
  case stop
  with assms(2) show ?thesis by simp
next
  case (turn msg q msg1 st1)
  let ?st = "st\<lparr>recvQueue := q\<rparr>"
  have st: "sched_inv ?st" "msg_canon msg" "polite_heap msg_canon ?st" "\<forall>m \<in> set q. msg_canon m"
    using assms(2) turn(2) by (auto simp: all_inv_def)
  have ev: "evolves ?st st1" using turn(4) by (rule handle_msg_evolves)
  have "sched_inv st1" using handle_msg_inv [OF turn(4) st(1,2)] by simp
  moreover have "polite_heap msg_canon st1"
    using st(3) polite_heap_frame [of ?st st1] ev by (auto simp: evolves_def)
  moreover have "\<forall>m \<in> set (recvQueue st1). msg_canon m"
    using pushes_queue [of ?st st1 msg_canon] ev st(3,4) by (auto simp: evolves_def)
  ultimately show ?thesis using turn(5) by (simp add: all_inv_def)
qed

lemma HandleMessage_inv:
  assumes "HandleMessage st = Some (go, st')" "all_inv st"
  shows "all_inv st'"
proof -
  obtain sd where "message_loop (False, st) = Some (sd, st')"
    using assms(1) by (auto simp: HandleMessage_def bind_eq_Some_conv split: if_splits)
  then have "(\<lambda>(sd, st). all_inv st) (sd, st')"
    by (rule msg_loop.loop_keeps) (use assms(2) handle_one_inv in auto)
  then show ?thesis by simp
qed

lemma runs_inv:
  assumes "runs st st'" "irh_wf st'" "all_inv st"
  shows "all_inv st'"
proof -
  have st: "frame st st'" "subs_same st st'" "pushes st st'" using assms(1) by (auto simp: runs_def)
  have "ts_known st'" "pubsub_inv st'"
    using assms(3) st pubsub_same [of st' st] by (auto simp: all_inv_def sched_inv_def ts_known_def subs_same_def frame_def)
  moreover have "polite_heap msg_canon st'"
    using assms(3) polite_heap_frame [OF st(1)] by (auto simp: all_inv_def)
  moreover have "\<forall>m \<in> set (recvQueue st'). msg_canon m"
    using assms(3) pushes_queue [OF st(3)] by (auto simp: all_inv_def)
  ultimately show ?thesis using assms(2) by (simp add: all_inv_def sched_inv_def)
qed

lemma Schedule_inv:
  assumes "Schedule st = Some st'" "all_inv st"
  shows "all_inv st'"
proof -
  have "irh_wf st'" using Schedule_wf [OF assms(1)] assms(2) by (simp add: all_inv_def sched_inv_def)
  with Schedule_runs [OF assms(1)] show ?thesis using assms(2) by (rule runs_inv)
qed

lemma all_inv_time [simp]: "all_inv (st\<lparr>time := t\<rparr>) = all_inv st"
  by (simp add: all_inv_def)

lemma Start_cycle_cases:
  assumes "Start_cycle st = Some (go, st')"
  obtains (quit) "\<not> go" "HandleMessage st = Some (False, st')"
  | (tick) st1 st2 where "go" "HandleMessage st = Some (True, st1)" "Schedule st1 = Some st2" "st' = AddTime (cycle st2) st2"
  using assms by (auto simp: Start_cycle_def bind_eq_Some_conv split: if_splits)

lemma Start_cycle_inv: "Start_cycle st = Some (go, st') \<Longrightarrow> all_inv st \<Longrightarrow> all_inv st'"
  by (erule Start_cycle_cases) (auto simp: AddTime_def dest: HandleMessage_inv Schedule_inv)

lemma Start_inv: "Start n st = Some (go, st') \<Longrightarrow> all_inv st \<Longrightarrow> all_inv st'"
proof (induction n arbitrary: st)
  case 0
  then show ?case by simp
next
  case (Suc n)
  then obtain g st1 where "Start_cycle st = Some (g, st1)" "if g then Start n st1 = Some (go, st') else st1 = st'"
    by (auto simp: bind_eq_Some_conv split: if_splits)
  with Suc Start_cycle_inv [of st g st1] show ?case by (cases g) auto
qed

subsection \<open>Every control message is answered\<close>

definition control :: "InstanceRunMessage \<Rightarrow> bool" where
  "control msg = (case irm_type msg of
      RunENABLED \<Rightarrow> 2 \<le> length (irm_payload msg)
    | RunDISABLED \<Rightarrow> 1 \<le> length (irm_payload msg)
    | RunDISABLED_FORCE \<Rightarrow> 1 \<le> length (irm_payload msg)
    | RunSUBSCRIBE \<Rightarrow> 2 \<le> length (irm_payload msg) \<and> canonical (irm_payload msg ! 0)
    | RunUNSUBSCRIBE \<Rightarrow> 2 \<le> length (irm_payload msg) \<and> GetTopicFromType (irm_payload msg ! 0) \<noteq> None
    | RunUNSUBSCRIBE_SDK \<Rightarrow> 1 \<le> length (irm_payload msg)
    | _ \<Rightarrow> False)"

lemma first_run_total: "0 \<le> period ifc \<Longrightarrow> period ifc < 2 ^ 30 \<Longrightarrow> \<exists>t. first_run now ifc = Some t"
  by (simp add: first_run_def twice_def)

lemma EnableInstance_total: "irh_wf st \<Longrightarrow> periods_ok st \<Longrightarrow> \<exists>res st'. EnableInstance n ps st = Some (res, st')"
proof (cases "GetInstance n (memoryStore st)")
  case None
  then show ?thesis by (simp add: EnableInstance_def exist_iff)
next
  case (Some r)
  assume wf: "irh_wf st" and p: "periods_ok st"
  let ?i = "heap st ! r"
  have "\<exists>t. first_run (time st) (interface ?i) = Some t"
    using p wf_lookup(1) [OF wf Some] by (intro first_run_total) (auto simp: periods_ok_def)
  then show ?thesis
    using Some wf_lookup(2) [OF wf Some] by (auto simp: EnableInstance_def exist_iff Let_def split: prod.splits)
qed

lemma irh_wf_topicState [simp]: "irh_wf (st\<lparr>topicState := ts\<rparr>) = irh_wf st"
  by (simp add: irh_wf_def heap_wf_def)

lemma evolves_wf_same: "evolves st st' \<Longrightarrow> irh_wf st \<Longrightarrow> subscibers st' = subscibers st \<Longrightarrow> irh_wf st'"
  using evolves_wf [of st st'] by (simp add: irh_wf_def)

lemma subscribe_topic_total:
  assumes wf: "irh_wf st" and r: "r < length (heap st)" and s: "nth_opt ps 1 = Some s"
  shows "\<exists>res' st'. subscribe_topic ps p0 topic r res st = Some (res', st')"
proof -
  let ?a = "instanceName topic" and ?b = "topicName topic" and ?c = "params topic"
  let ?open = "ts_get (topicState st) ?a ?b ?c"
  let ?st1 = "st\<lparr>topicState := ts_set ?a ?b ?c ?open (topicState st)\<rparr>"
  let ?i = "heap st ! r"
  have at: "at_ref r ?st1 = Some ?i" using r by (simp add: at_ref_iff)
  obtain res1 i1 ms where o: "OpenTopic topic ?i = (res1, i1, ms)" by (cases "OpenTopic topic ?i")
  have "evolves ?st1 (called r i1 ms ?st1)" using OpenTopic_evolves [OF at o] .
  then have "irh_wf (called r i1 ms ?st1)"
    by (rule evolves_wf_same) (use wf in simp_all)
  then obtain st2 where "DisableInstance (ins_name ?i) (called r i1 ms ?st1) = Some st2"
    using DisableInstance_total by blast
  with at o s show ?thesis
    by (cases ?open; cases "res_failed res1") (simp_all add: subscribe_topic_def Let_def)
qed

lemma Subscribe_total:
  assumes wf: "irh_wf st" "periods_ok st" and p: "GetTopicFromType p0 = Some topic"
  shows "\<exists>res st'. Subscribe (p0 # p1 # ps) st = Some (res, st')"
proof (cases "GetInstance (instanceName topic) (memoryStore st)")
  case None
  with p show ?thesis by (simp add: Subscribe_def exist_iff)
next
  case (Some r)
  note r = wf_lookup(1,2) [OF wf(1) Some]
  obtain res1 st1 where e: "EnableInstance (ins_name (heap st ! r)) (params topic) st = Some (res1, st1)"
    using EnableInstance_total [OF wf] by blast
  have "irh_wf st1" "r < length (heap st1)"
    using evolves_wf_same [OF EnableInstance_evolves [OF e] wf(1)] EnableInstance_frame [OF e] r(1)
      frame_length [of st st1]
    by (simp_all add: subs_same_def)
  then have "\<exists>res' st'. subscribe_topic (p0 # p1 # ps) p0 topic r res1 st1 = Some (res', st')"
    "\<exists>res' st'. subscribe_topic (p0 # p1 # ps) p0 topic r (unset st) st = Some (res', st')"
    using subscribe_topic_total [of st1 r "p0 # p1 # ps" p1] subscribe_topic_total [OF wf(1) r(1), of "p0 # p1 # ps" p1]
    by auto
  with Some p e r(2) show ?thesis
    by (cases "enabled (heap st ! r)") (auto simp: Subscribe_def exist_iff)
qed

lemma handle_msg_total:
  assumes inv: "sched_inv st" "periods_ok st" and c: "control msg"
  shows "\<exists>res st'. handle_msg msg st = Some (msg\<lparr>irm_result := res\<rparr>, st')"
proof -
  have wf: "irh_wf st" using inv by (simp add: sched_inv_def)
  have two: "\<exists>p0 p1 ps. irm_payload msg = p0 # p1 # ps" if "2 \<le> length (irm_payload msg)"
    using that by (cases "irm_payload msg"; cases "tl (irm_payload msg)") auto
  have one: "\<exists>p0 ps. irm_payload msg = p0 # ps" if "Suc 0 \<le> length (irm_payload msg)"
    using that by (cases "irm_payload msg") auto
  have same: "\<exists>res. msg = msg\<lparr>irm_result := res\<rparr>"
    by (intro exI [of _ "irm_result msg"]) simp
  note c' = c [unfolded control_def]
  show ?thesis
  proof (cases "irm_type msg")
    case RunENABLED
    with c' two obtain p0 p1 ps where p: "irm_payload msg = p0 # p1 # ps" by auto
    with RunENABLED EnableInstance_total [OF wf inv(2), of p0 p1] show ?thesis by (auto simp: handle_msg_def)
  next
    case RunDISABLED
    with c' one obtain p0 ps where p: "irm_payload msg = p0 # ps" by auto
    with RunDISABLED DisableInstance_total [OF wf, of p0] same show ?thesis by (auto simp: handle_msg_def)
  next
    case RunDISABLED_FORCE
    with c' one obtain p0 ps where p: "irm_payload msg = p0 # ps" by auto
    with RunDISABLED_FORCE DisableInstance_total [OF wf, of p0] same show ?thesis by (auto simp: handle_msg_def)
  next
    case RunSUBSCRIBE
    with c' two obtain p0 p1 ps where p: "irm_payload msg = p0 # p1 # ps" "canonical p0" by auto
    then obtain topic where "GetTopicFromType p0 = Some topic" by (auto simp: canonical_def split: option.splits)
    from Subscribe_total [OF wf inv(2) this, of p1 ps] p RunSUBSCRIBE show ?thesis by (auto simp: handle_msg_def)
  next
    case RunUNSUBSCRIBE
    with c' two obtain p0 p1 ps topic where p: "irm_payload msg = p0 # p1 # ps" "GetTopicFromType p0 = Some topic" by auto
    from Unsubscribe_total [OF inv(1) p(2), of p1 ps] p RunUNSUBSCRIBE same show ?thesis by (auto simp: handle_msg_def)
  next
    case RunUNSUBSCRIBE_SDK
    with c' one obtain p0 ps where p: "irm_payload msg = p0 # ps" by auto
    from unsub_sdk_total [of "[]" "subscibers st" st p0] inv p RunUNSUBSCRIBE_SDK same show ?thesis
      by (auto simp: handle_msg_def UnsubscribeSdk_def)
  qed (use c' in simp_all)
qed

end
