(* ===== verification/Scheduler_Claims.thy ===== *)
theory Scheduler_Claims
  imports Scheduler_Props
begin

text \<open>
  The properties of the scheduler: its invariant, the refinement of the abstract broker,
  delivery of data, termination of its loops and the agreement of clock and run queue, with
  a small loaded plugin as the witness of their hypotheses.
\<close>

subsection \<open>A loaded plugin\<close>

definition ok_result :: Result where
  "ok_result = \<lparr>code = OK, payload = []\<rparr>"

definition demo_ifc :: "int \<Rightarrow> int \<Rightarrow> nat Interface" where
  "demo_ifc ty per = \<lparr>if_name = ''demo'', if_supportTopics = [], priority = 0, if_type = ty, period = per,
     v_OpenTopic = (\<lambda>t n. (ok_result, n, [])), v_CloseTopic = (\<lambda>t n. (n, [])), v_UpdateData = (\<lambda>d n. (n + 100, [])),
     v_Enable = (\<lambda>s n. (ok_result, n, [])), v_Disable = (\<lambda>n. (n, [])), v_Run = (\<lambda>n. (n + 1, []))\<rparr>"

definition demo_instance :: "int \<Rightarrow> int \<Rightarrow> nat Instance" where
  "demo_instance ty per = new_instance ''demo.so'' (demo_ifc ty per, 0)"

definition demo_state :: "int \<Rightarrow> int \<Rightarrow> InstanceRunMessage list \<Rightarrow> nat irh" where
  "demo_state ty per q = \<lparr>heap = [demo_instance ty per],
     memoryStore = \<lparr>instances = [(''demo'', 0)], plugins = [(''demo.so'', \<lparr>pl_name = ''demo.so'', pl_instances = [0], handler = True\<rparr>)]\<rparr>,
     scheduleQueue = [], recvQueue = q, recvData = [], topicRunOnce = [], topicState = [], subscibers = [],
     time = 0, cycle = 10, notified = [], register = [], mem_limit = 1000, unset = ok_result, uninit = 0\<rparr>"

lemmas demo_defs = demo_state_def demo_instance_def new_instance_def demo_ifc_def

lemma demo_polite: "polite_heap Q (demo_state ty per q)"
  by (simp add: demo_defs polite_heap_def polite_def)

lemma demo_sched_inv: "sched_inv (demo_state ty per q)"
  by (simp add: demo_defs sched_inv_def irh_wf_def heap_wf_def topics_wf_def store_inv_def store_keys_def ref_ok_def
      ts_known_def pubsub_inv_def opened_def subscribers_of_def ts_get_def al_get_def)

lemma demo_inv: "list_all msg_canon q \<Longrightarrow> all_inv (demo_state ty per q)"
  using demo_sched_inv [of ty per q] demo_polite [of msg_canon ty per q]
  by (simp add: all_inv_def) (simp add: demo_defs list_all_iff)

lemma demo_periods: "0 < per \<Longrightarrow> per < 2 ^ 30 \<Longrightarrow> periods_ok (demo_state ty per q)"
  by (simp add: demo_defs periods_ok_def)

definition sub_msg :: "string \<Rightarrow> string \<Rightarrow> InstanceRunMessage" where
  "sub_msg t s = mk_message ok_result RunSUBSCRIBE [t, s]"

lemma demo_topic: "canonical ''demo::t::''" "GetTopicFromType ''demo::t::'' = Some \<lparr>instanceName = ''demo'', topicName = ''t'', params = []\<rparr>"
  by code_simp+

lemma sub_msg_canon: "msg_canon (sub_msg ''demo::t::'' s)" "control (sub_msg ''demo::t::'' s)"
  using demo_topic by (simp_all add: sub_msg_def mk_message_def msg_canon_def control_def)

subsection \<open>The message loop answers\<close>

definition answered :: "InstanceRunMessage \<Rightarrow> RunType \<times> string list \<times> bool" where
  "answered m = (irm_type m, irm_payload m, finish m)"

definition to_answer :: "InstanceRunMessage \<Rightarrow> RunType \<times> string list \<times> bool" where
  "to_answer m = (irm_type m, irm_payload m, True)"

definition control_queue :: "'p irh \<Rightarrow> bool" where
  "control_queue st = (all_inv st \<and> periods_ok st \<and> polite_heap (\<lambda>_. False) st \<and> (\<forall>m \<in> set (recvQueue st). control m))"

lemma control_turn:
  assumes st: "control_queue st" and q: "recvQueue st = msg # q"
  shows "\<exists>st'. handle_one (False, st) = Some (True, False, st') \<and> control_queue st' \<and> recvQueue st' = q \<and>
    map answered (notified st') = map answered (notified st) @ [to_answer msg]"
proof -
  let ?st = "st\<lparr>recvQueue := q\<rparr>"
  have c: "control msg" and inv: "sched_inv ?st" "periods_ok ?st"
    using st q by (auto simp: control_queue_def all_inv_def periods_ok_def)
  obtain res st1 where h: "handle_msg msg ?st = Some (msg\<lparr>irm_result := res\<rparr>, st1)"
    using handle_msg_total [OF inv c] by blast
  have ev: "evolves ?st st1" using h by (rule handle_msg_evolves)
  let ?st' = "st1\<lparr>notified := notified st1 @ [NotifyOne (msg\<lparr>irm_result := res\<rparr>)]\<rparr>"
  have o: "handle_one (False, st) = Some (True, False, ?st')"
    using h q c by (auto simp: handle_one_def control_def)
  have fr: "frame ?st st1" using ev by (simp add: evolves_def)
  have "recvQueue st1 = q"
    using pushes_silent [of ?st st1] ev st by (simp add: evolves_def control_queue_def)
  moreover have "notified st1 = notified st" using fr by (simp add: frame_def)
  moreover have "control_queue ?st'"
    using st q handle_one_inv [OF o] periods_frame [OF fr] polite_heap_frame [OF fr] inv(2) \<open>recvQueue st1 = q\<close>
    by (auto simp: control_queue_def periods_ok_def)
  ultimately show ?thesis using o by (auto simp: answered_def to_answer_def NotifyOne_def)
qed

lemma message_loop_answers:
  assumes "control_queue st"
  shows "\<exists>s. message_loop (False, st) = Some s \<and> (case s of (sd, st') \<Rightarrow> \<not> sd \<and> control_queue st' \<and> recvQueue st' = [] \<and>
    map answered (notified st') = map answered (notified st) @ map to_answer (recvQueue st))"
proof -
  let ?log = "\<lambda>st. map answered (notified st) @ map to_answer (recvQueue st)"
  let ?I = "\<lambda>(sd, s). \<not> sd \<and> control_queue s \<and> ?log s = ?log st"
  show ?thesis
  proof (rule msg_loop.loop_returns [where I = ?I and m = "\<lambda>(sd, s). length (recvQueue s)"])
    show "?I (False, st)" using assms by simp
    fix s
    assume I: "?I s"
    then obtain st1 where s: "s = (False, st1)" "control_queue st1" "?log st1 = ?log st" by (cases s) auto
    show "\<exists>go s1. handle_one s = Some (go, s1) \<and>
        (if go then ?I s1 \<and> (\<lambda>(sd, s). length (recvQueue s)) s1 < (\<lambda>(sd, s). length (recvQueue s)) s
         else case s1 of (sd, st') \<Rightarrow> \<not> sd \<and> control_queue st' \<and> recvQueue st' = [] \<and>
           map answered (notified st') = ?log st)"
    proof (cases "recvQueue st1")
      case Nil
      with s show ?thesis by (intro exI [of _ False] exI [of _ s]) (simp add: handle_one_def)
    next
      case (Cons msg q)
      with control_turn [OF s(2) Cons] s show ?thesis by fastforce
    qed
  qed
qed

text \<open>C7. With plugins that push nothing themselves, the message loop ends on every queue of
  well-formed control messages (enable, disable, subscribe, unsubscribe): it empties the
  queue, notifies every message in the order of the queue, asks to go on, and leaves the
  invariant in place.\<close>

theorem HandleMessage_answers:
  assumes "all_inv st" "periods_ok st" "polite_heap (\<lambda>_. False) st" "\<forall>m \<in> set (recvQueue st). control m"
  shows "\<exists>st'. HandleMessage st = Some (True, st') \<and> all_inv st' \<and> recvQueue st' = [] \<and>
    map (\<lambda>m. (irm_type m, irm_payload m, finish m)) (notified st') =
      map (\<lambda>m. (irm_type m, irm_payload m, finish m)) (notified st) @
      map (\<lambda>m. (irm_type m, irm_payload m, True)) (recvQueue st)"
  using message_loop_answers [of st] assms
  by (auto simp: HandleMessage_def control_queue_def answered_def [abs_def] to_answer_def [abs_def])

theorem HandleMessage_answers_witness:
  "\<exists>st'. HandleMessage (demo_state 0 100 [sub_msg ''demo::t::'' ''7'', sub_msg ''demo::t::'' ''8'']) = Some (True, st') \<and>
    all_inv st' \<and> recvQueue st' = [] \<and> map (\<lambda>m. (irm_type m, irm_payload m, finish m)) (notified st') =
      [(RunSUBSCRIBE, [''demo::t::'', ''7''], True), (RunSUBSCRIBE, [''demo::t::'', ''8''], True)]"
  using HandleMessage_answers [OF demo_inv demo_periods demo_polite,
      of "[sub_msg ''demo::t::'' ''7'', sub_msg ''demo::t::'' ''8'']" 100 0] sub_msg_canon
  by (simp add: demo_state_def) (simp add: sub_msg_def mk_message_def)

subsection \<open>The invariant and the broker\<close>

text \<open>The demo plugin enabled, with one open topic nobody subscribes to.\<close>

definition demo_topic_name :: Topic where
  "demo_topic_name = \<lparr>instanceName = ''demo'', topicName = ''t'', params = []\<rparr>"

definition demo_open :: "nat irh" where
  "demo_open = (demo_state 0 100 [])\<lparr>heap := [(demo_instance 0 100)\<lparr>enabled := True\<rparr>],
     topicState := [(''demo'', [(''t'', [([], True)])])]\<rparr>"

definition demo_closed :: "nat irh" where
  "demo_closed = (demo_state 0 100 [])\<lparr>topicState := [(''demo'', [(''t'', [([], False)])])]\<rparr>"

lemmas update_eval = UpdateInstance_def at_ref_def CloseTopic_def DisableInstance_def Disable_def called_def
  exist_iff al_count_def

lemma demo_update: "UpdateInstance demo_open = Some demo_closed"
  by (simp add: update_eval demo_open_def demo_closed_def demo_defs)

lemma demo_start: "Start 1 demo_closed = Some (True, demo_closed\<lparr>time := 10\<rparr>)"
  by (simp add: Start_cycle_def HandleMessage_def message_loop.simps handle_one_def Schedule.simps schedule_one_def
      AddTime_def demo_closed_def demo_state_def)

lemma demo_closed_inv: "all_inv demo_closed"
  by (auto simp: demo_closed_def all_inv_def demo_defs sched_inv_def irh_wf_def heap_wf_def topics_wf_def store_inv_def
      store_keys_def ref_ok_def ts_known_def pubsub_inv_def opened_def subscribers_of_def ts_get_def al_get_def
      polite_heap_def polite_def)

text \<open>C5. However many cycles the scheduler runs, whatever its messages are, if it does not crash
  its invariant holds afterwards: names lead to live instances, queue entries refer to
  instances, and a topic is open exactly while somebody subscribes to it. It is enough that
  subscriptions name their topic the way \<open>Topic::GetType\<close> writes it.\<close>

theorem Start_keeps_invariant:
  assumes "all_inv st" "Start n st = Some (go, st')"
  shows "all_inv st' \<and> (\<forall>t. opened st' t \<longrightarrow> subscribers_of st' (GetType t) \<noteq> []) \<and>
    (\<forall>s. subscribers_of st' s \<noteq> [] \<longrightarrow> opened st' (the (GetTopicFromType s)))"
  using Start_inv [OF assms(2,1)] by (simp add: all_inv_def sched_inv_def pubsub_inv_def)

theorem Start_keeps_invariant_witness: "all_inv (demo_closed\<lparr>time := 10\<rparr>)"
  using Start_keeps_invariant [OF demo_closed_inv demo_start] by simp

text \<open>C6. Every message the scheduler handles acts on the subscriptions as the abstract broker
  does: a subscription adds its pair when its result is not a failure, and always when the
  topic is open and its instance runs already (then \<open>Subscribe\<close> leaves its result
  uninitialized); a subscription with a failed result to any other topic changes nothing; an
  unsubscription removes its pair, a closed client loses all its pairs, and every other message
  leaves the relation of topics and subscribers alone. The invariant is kept.\<close>

theorem messages_refine_broker:
  assumes "handle_msg msg st = Some (msg', st')" "sched_inv st" "msg_canon msg"
  shows "sched_inv st' \<and> 
    spec_msg msg (\<lambda>t. topic_served t st) (irm_result msg') (subs_abs (subscibers st)) (subs_abs (subscibers st'))"
  by (rule handle_msg_inv [OF assms])

theorem messages_refine_broker_witness:
  "\<exists>msg' st'. handle_msg (sub_msg ''demo::t::'' ''7'') (demo_state 0 100 []) = Some (msg', st') \<and> sched_inv st' \<and>
    spec_msg (sub_msg ''demo::t::'' ''7'') (\<lambda>t. topic_served t (demo_state 0 100 [])) (irm_result msg') {} (subs_abs (subscibers st'))"
proof -
  obtain res st' where h: "handle_msg (sub_msg ''demo::t::'' ''7'') (demo_state 0 100 []) =
      Some (sub_msg ''demo::t::'' ''7''\<lparr>irm_result := res\<rparr>, st')"
    using handle_msg_total [OF demo_sched_inv demo_periods sub_msg_canon(2), of 100] by fastforce
  have "subs_abs (subscibers (demo_state 0 100 [])) = {}"
    by (simp add: demo_state_def subs_abs_def al_get_def)
  with messages_refine_broker [OF h demo_sched_inv sub_msg_canon(1)] h show ?thesis by auto
qed

text \<open>C11. \<open>UpdateInstance\<close> closes exactly the open topics without an entry in the subscriptions, and
  afterwards an instance runs if and only if it ran before and is not one whose recorded
  topics are all closed.\<close>

theorem UpdateInstance_disables_idle:
  assumes "UpdateInstance st = Some st'" "r < length (heap st)"
  shows "(opened st' t \<longleftrightarrow> opened st t \<and> al_count (subscibers st) (GetType t)) \<and>
    (enabled (heap st' ! r) \<longleftrightarrow>
       enabled (heap st ! r) \<and> \<not> (\<exists>n. idle (topicState st') n \<and> GetInstance n (memoryStore st) = Some r))"
  using opened_update [OF assms(1)] UpdateInstance_effect(9) [OF assms] by simp

theorem UpdateInstance_disables_idle_witness:
  "\<not> opened demo_closed demo_topic_name \<and> \<not> enabled (heap demo_closed ! 0)"
  using UpdateInstance_disables_idle [OF demo_update, of 0 demo_topic_name]
  by (simp add: demo_open_def demo_state_def al_count_def)
    (simp add: demo_closed_def demo_state_def idle_def open_count_def)

lemma update_instances_known:
  "update_instances ts st = Some (ts1, st1) \<Longrightarrow> (a, pts) \<in> set ts \<Longrightarrow>
   open_count (close_topics (subscibers st) a pts) = 0 \<Longrightarrow> GetInstance a (memoryStore st) \<noteq> None"
proof (induction ts arbitrary: st ts1)
  case Nil
  then show ?case by simp
next
  case (Cons ap ts)
  obtain a' pts' where ap: "ap = (a', pts')" by fastforce
  then obtain k pts1 sta stb ts2 where u: "update_topics a' pts' st = Some (k, pts1, sta)"
    "(if k = 0 then do { r \<leftarrow> GetInstance a' (memoryStore sta); i \<leftarrow> at_ref r sta;
        if enabled i then DisableInstance a' sta else Some sta } else Some sta) = Some stb"
    "update_instances ts stb = Some (ts2, st1)"
    using Cons.prems(1) by (auto simp: bind_eq_Some_conv)
  have q: "quiet st sta" "k = open_count pts1" "pts1 = close_topics (subscibers st) a' pts'"
    using update_topics_effect [OF u(1)] by auto
  have "quiet sta stb"
    using u(2) by (auto simp: bind_eq_Some_conv split: if_splits dest: DisableInstance_quiet)
  then have st: "memoryStore stb = memoryStore st" "subscibers stb = subscibers st"
    using q(1) by (simp_all add: quiet_store)
  show ?case
  proof (cases "(a, pts) = ap")
    case True
    with u(2) q Cons.prems(3) ap show ?thesis by (auto simp: quiet_store [OF q(1)] bind_eq_Some_conv)
  next
    case False
    with Cons.IH [OF u(3)] Cons.prems st show ?thesis by auto
  qed
qed

lemma UpdateInstance_needs_instance:
  assumes "(a, pts) \<in> set (topicState st)" "GetInstance a (memoryStore st) = None"
    and "\<And>b c pps. (b, pps) \<in> set pts \<Longrightarrow> (c, True) \<in> set pps \<Longrightarrow> \<not> al_count (subscibers st) (Concat [a, b, c] ''::'')"
  shows "UpdateInstance st = None"
proof (rule ccontr)
  assume "UpdateInstance st \<noteq> None"
  then obtain ts1 st1 where u: "update_instances (topicState st) st = Some (ts1, st1)"
    by (cases "update_instances (topicState st) st") (auto simp: UpdateInstance_def)
  have "filter snd (close_params (subscibers st) a b pps) = []" if "(b, pps) \<in> set pts" for b pps
    using assms(3) [OF that] by (auto simp: close_params_def filter_empty_conv simp del: Concat.simps)
  then have "open_count (close_topics (subscibers st) a pts) = 0"
    by (auto simp: open_count_def close_topics_def)
  with update_instances_known [OF u assms(1)] assms(2) show False by simp
qed

text \<open>When an instance with a recorded topic is no longer loaded and none of its topics is
  subscribed to, \<open>UpdateInstance\<close> reads through the null pointer the store returns: the
  scheduler crashes, whoever unsubscribes from whatever.\<close>

lemma UpdateInstance_crashes_after_removal:
  assumes "(a, pts) \<in> set (topicState st)" "GetInstance a (memoryStore st) = None"
    and "\<And>b c pps. (b, pps) \<in> set pts \<Longrightarrow> (c, True) \<in> set pps \<Longrightarrow> \<not> al_count (subscibers st) (Concat [a, b, c] ''::'')"
  shows "UpdateInstance st = None"
  using assms by (rule UpdateInstance_needs_instance)

theorem UpdateInstance_crashes_after_removal_witness:
  "UpdateInstance (demo_closed\<lparr>memoryStore := \<lparr>instances = [], plugins = []\<rparr>\<rparr>) = None"
  by (rule UpdateInstance_crashes_after_removal [of "''demo''" "[(''t'', [([], False)])]"])
    (auto simp: demo_closed_def)

subsection \<open>Delivery\<close>

definition updated :: "DataList \<Rightarrow> 'p Instance \<Rightarrow> 'p Instance" where
  "updated dl i = i\<lparr>priv := fst (v_UpdateData (interface i) dl (priv i))\<rparr>"

text \<open>The instances among the subscribers.\<close>

definition targets :: "MemoryStore \<Rightarrow> string list \<Rightarrow> ref \<Rightarrow> bool" where
  "targets ms ss r = (\<exists>s \<in> set ss. \<not> is_sdk s \<and> GetInstance s ms = Some r)"

lemma deliver_heap:
  "deliver type dl ss st = Some st' \<Longrightarrow> irh_wf st \<Longrightarrow> distinct ss \<Longrightarrow> r < length (heap st) \<Longrightarrow>
   heap st' ! r = (if targets (memoryStore st) ss r then updated dl (heap st ! r) else heap st ! r)"
proof (induction ss arbitrary: st)
  case Nil
  then show ?case by (simp add: targets_def)
next
  case (Cons s ss)
  show ?case
  proof (cases "is_sdk s")
    case True
    then obtain ev where "deliver type dl ss (st\<lparr>recvData := Push (recvData st) ev\<rparr>) = Some st'"
      using Cons.prems(1) by (auto simp: bind_eq_Some_conv)
    moreover have "irh_wf (st\<lparr>recvData := Push (recvData st) ev\<rparr>)"
      using Cons.prems(2) by (simp add: irh_wf_def heap_wf_def)
    ultimately show ?thesis
      using Cons.IH [of "st\<lparr>recvData := Push (recvData st) ev\<rparr>"] Cons.prems True by (auto simp: targets_def)
  next
    case False
    then obtain q where q: "GetInstance s (memoryStore st) = Some q"
      using Cons.prems(1) by (auto simp: bind_eq_Some_conv)
    note w = wf_lookup [OF Cons.prems(2) q]
    obtain p ms where v: "v_UpdateData (interface (heap st ! q)) dl (priv (heap st ! q)) = (p, ms)" by fastforce
    let ?st1 = "called q ((heap st ! q)\<lparr>priv := p\<rparr>) ms st"
    have d: "deliver type dl ss ?st1 = Some st'"
      using Cons.prems(1) False q w(2) v by (auto simp: bind_eq_Some_conv)
    have "irh_wf ?st1"
      using evolves_wf_same [OF priv_evolves [OF w(2) politeD(3) [OF _ v], of p] Cons.prems(2)] by simp
    from Cons.IH [OF d this] Cons.prems
    have "heap st' ! r = (if targets (memoryStore st) ss r then updated dl (heap ?st1 ! r) else heap ?st1 ! r)" by simp
    moreover have "\<not> targets (memoryStore st) ss q"
      using wf_lookup(3) [OF Cons.prems(2)] q w(3) Cons.prems(3) by (auto simp: targets_def)
    ultimately show ?thesis
      using False q w(1) v Cons.prems(4) by (cases "r = q") (auto simp: targets_def updated_def)
  qed
qed

lemma PublishData_heap:
  assumes p: "PublishData msg st = Some st'" and t: "nth_opt (irm_payload msg) 0 = Some type" and wf: "irh_wf st"
    and d: "distinct (subscribers_of st type)" and r: "r < length (heap st)"
  shows "heap st' ! r = (if targets (memoryStore st) (subscribers_of st type) r
    then updated (the (irm_dataList msg)) (heap st ! r) else heap st ! r)"
proof -
  let ?st = "st\<lparr>subscibers := AList.update type (subscribers_of st type) (subscibers st)\<rparr>"
  have "deliver type (the (irm_dataList msg)) (subscribers_of st type) ?st = Some st'"
    using p t by (cases "subscribers_of st type = []"; cases "irm_dataList msg")
      (simp_all add: PublishData_def subscribers_of_def Let_def)
  moreover have "irh_wf ?st" using wf by (intro irh_wf_subs) (simp_all add: irh_wf_def distinct_update)
  ultimately show ?thesis using deliver_heap d r by fastforce
qed

text \<open>C10. Published data reach exactly the subscribers of their topic: every subscribed instance
  gets one \<open>UpdateData\<close> with the data and no other instance is touched; every subscribed
  client gets one event with the serialized data, in order, and nobody else gets one. The
  subscriptions stay as they are.\<close>

theorem PublishData_delivers:
  assumes "PublishData msg st = Some st'" "irm_payload msg = type # rest" "irh_wf st"
    and "distinct (subscribers_of st type)" "r < length (heap st)"
  shows "heap st' ! r = (if targets (memoryStore st) (subscribers_of st type) r
      then updated (the (irm_dataList msg)) (heap st ! r) else heap st ! r) \<and>
    recvData st' = recvData st @
      map (data_event (wire_of st (the (irm_dataList msg)))) (filter is_sdk (subscribers_of st type)) \<and>
    subs_abs (subscibers st') = subs_abs (subscibers st)"
proof -
  have t: "nth_opt (irm_payload msg) 0 = Some type" using assms(2) by simp
  show ?thesis
    using assms(1) by (rule PublishData_effect)
      (use t PublishData_heap [OF assms(1) t assms(3-5)] in \<open>auto simp: subs_abs_def subscribers_of_def\<close>)
qed

definition demo_data :: DataList where
  "demo_data = \<lparr>dl_topic = \<lparr>ct_instance = Some ''demo'', ct_topic = Some ''t'', ct_params = Some []\<rparr>, dl_len = 0, dl_data = []\<rparr>"

definition demo_published :: InstanceRunMessage where
  "demo_published = (mk_message ok_result RunPUBLISH_DATA [''demo::t::''])\<lparr>irm_dataList := Some demo_data\<rparr>"

definition demo_subscribed :: "nat irh" where
  "demo_subscribed = demo_closed\<lparr>subscibers := [(''demo::t::'', [''demo'', ''7''])]\<rparr>"

theorem PublishData_delivers_witness:
  "\<exists>st'. PublishData demo_published demo_subscribed = Some st' \<and> priv (heap st' ! 0) = 100 \<and>
     recvData st' = [data_event (wire_of demo_subscribed demo_data) ''7'']"
proof -
  have ser: "\<exists>out. DataListSerialize [] demo_data [] = Some (0, out)"
    by (simp add: DataListSerialize_def TopicSerialize_def std_string_def demo_data_def)
  have sdk: "\<not> is_sdk ''demo''" "is_sdk ''7''" by code_simp+
  obtain st' where p: "PublishData demo_published demo_subscribed = Some st'"
    using ser sdk demo_topic(2)
    by (auto simp: PublishData_def demo_published_def mk_message_def demo_subscribed_def demo_closed_def demo_defs
        al_get_def at_ref_def called_def)
  have wf: "irh_wf demo_subscribed"
    using demo_closed_inv by (simp add: all_inv_def sched_inv_def irh_wf_def demo_subscribed_def heap_wf_def)
  show ?thesis
    using PublishData_delivers [OF p _ wf, of "''demo::t::''" "[]" 0] p sdk
    by (auto simp: demo_published_def mk_message_def demo_subscribed_def subscribers_of_def demo_closed_def demo_defs
        al_get_def targets_def updated_def)
qed

end
