(* ===== verification/Scheduler_Clock.thy ===== *)
theory Scheduler_Clock
  imports Scheduler_Claims
begin

text \<open>
  The clock of the scheduler and its run queue, and the situations in which the two come
  apart: an entry in the past, a period of zero, an instance with two entries.
\<close>

subsection \<open>Entries on the grid of the cycle\<close>

text \<open>
  Due times are multiples of the cycle and never in the past, periods are multiples of the
  cycle. The plugins of the repository have periods of 0, 100, 500 and 1000 milliseconds or
  more, all multiples of the cycle of 10.
\<close>

definition on_grid :: "'p irh \<Rightarrow> bool" where
  "on_grid st = (0 < cycle st \<and> cycle st dvd time st \<and>
     (\<forall>x \<in> set (scheduleQueue st). time st \<le> si_time x \<and> cycle st dvd si_time x) \<and>
     (\<forall>i \<in> set (heap st). int (cycle st) dvd period (interface i)))"

definition ticking :: "'p irh \<Rightarrow> bool" where
  "ticking st = (on_grid st \<and> periods_ok st \<and> time st + 2 ^ 32 < 2 ^ 64)"

lemma dvd_nat_part: "int c dvd d \<Longrightarrow> c dvd nat d"
  by (metis dvd_0_right int_nat_eq of_nat_0 of_nat_dvd_iff)

lemma grid_add:
  assumes "c dvd t" "int c dvd d" "0 \<le> d" "d < 2 ^ 31" "t + 2 ^ 32 < (2 ^ 64 :: nat)"
  shows "c dvd u64_add t d \<and> t \<le> u64_add t d"
proof -
  have "u64_add t d = t + nat d" using assms by (intro u64_add_small) auto
  moreover have "c dvd nat d" using assms by (simp add: dvd_nat_part)
  ultimately show ?thesis using assms(1) by simp
qed

lemma fresh_on_grid:
  assumes "fresh_entry st x" "ticking st"
  shows "time st \<le> si_time x \<and> cycle st dvd si_time x"
proof -
  let ?ifc = "interface (heap st ! si_instance x)"
  have i: "heap st ! si_instance x \<in> set (heap st)" using assms(1) by (simp add: fresh_entry_def ref_ok_def)
  then have p: "0 \<le> period ?ifc" "period ?ifc < 2 ^ 30" "int (cycle st) dvd period ?ifc" "cycle st dvd time st"
    "time st + 2 ^ 32 < 2 ^ 64"
    using assms(2) by (auto simp: ticking_def periods_ok_def on_grid_def)
  have "int (cycle st) dvd 2 * period ?ifc" using p(3) by simp
  with grid_add [OF p(4), of "period ?ifc"] grid_add [OF p(4), of "2 * period ?ifc"] p assms(1) show ?thesis
    by (auto simp: fresh_entry_def first_run_def twice_def split: if_splits)
qed

lemma ticking_fields [simp]:
  "ticking (st\<lparr>recvQueue := q\<rparr>) = ticking st" "ticking (st\<lparr>notified := n\<rparr>) = ticking st"
  by (simp_all add: ticking_def on_grid_def periods_ok_def)

lemma grid_heap: "frame st st' \<Longrightarrow> (\<forall>i \<in> set (heap st'). Q (interface i)) = (\<forall>i \<in> set (heap st). Q (interface i))"
  by (auto simp: frame_def same_heap_def same_instance_def list_all2_conv_all_nth all_set_conv_all_nth)

lemma evolves_ticking:
  assumes "evolves st st'" "ticking st"
  shows "ticking st'"
proof -
  have fr: "frame st st'" using assms(1) by (simp add: evolves_def)
  have "time st \<le> si_time x \<and> cycle st dvd si_time x" if "x \<in> set (scheduleQueue st')" for x
    using that assms fresh_on_grid [OF _ assms(2)] by (auto simp: evolves_def ticking_def on_grid_def)
  with assms(2) fr periods_frame [OF fr] grid_heap [OF fr, of "\<lambda>ifc. int (cycle st) dvd period ifc"] show ?thesis
    by (auto simp: ticking_def on_grid_def frame_def)
qed

lemma handle_one_ticking: "handle_one (sd, st) = Some (go, sd', st') \<Longrightarrow> ticking st \<Longrightarrow> ticking st'"
  by (erule handle_one_cases) (auto dest!: handle_msg_evolves evolves_ticking)

definition same_clock :: "'p irh \<Rightarrow> 'p irh \<Rightarrow> bool" where
  "same_clock st st' = (time st' = time st \<and> cycle st' = cycle st)"

lemma HandleMessage_ticking:
  assumes "HandleMessage st = Some (go, st')" "ticking st"
  shows "ticking st' \<and> same_clock st st'"
proof -
  obtain sd where l: "message_loop (False, st) = Some (sd, st')"
    using assms(1) by (auto simp: HandleMessage_def bind_eq_Some_conv split: if_splits)
  have "(\<lambda>(sd, s). ticking s \<and> same_clock st s) (sd, st')"
  proof (rule msg_loop.loop_keeps [OF l])
    show "(\<lambda>(sd, s). ticking s \<and> same_clock st s) (False, st)" using assms(2) by (simp add: same_clock_def)
    fix s go s1
    assume I: "(\<lambda>(sd, s). ticking s \<and> same_clock st s) s" and h: "handle_one s = Some (go, s1)"
    obtain sa s' sb s1' where s: "s = (sa, s')" "s1 = (sb, s1')" by fastforce
    have "same_clock s' s1'"
      using h unfolding s by (rule handle_one_cases) (auto simp: same_clock_def evolves_def frame_def dest!: handle_msg_evolves)
    with handle_one_ticking [of sa s' go sb s1'] h I s show "(\<lambda>(sd, s). ticking s \<and> same_clock st s) s1"
      by (auto simp: same_clock_def)
  qed
  then show ?thesis by simp
qed

lemma schedule_one_ticking:
  assumes "schedule_one st = Some (go, st')" "ticking st"
  shows "ticking st' \<and> same_clock st st'"
proof -
  have fr: "frame st st'" using schedule_one_runs [OF assms(1)] by (simp add: runs_def)
  have t: "periods_ok st" "time st + 2 ^ 32 < 2 ^ 64" using assms(2) by (auto simp: ticking_def)
  have "time st \<le> si_time y \<and> cycle st dvd si_time y" if y: "y \<in> set (scheduleQueue st')" for y
  proof (cases "moved st y")
    case True
    then obtain i where "i \<in> set (heap st)" "si_time y = time st + nat (period (interface i))" "0 < period (interface i)"
      using moved_later [OF _ t] by blast
    with assms(2) show ?thesis by (auto simp: ticking_def on_grid_def dvd_nat_part)
  next
    case False
    with schedule_one_entries [OF assms(1) y] assms(2) show ?thesis by (auto simp: ticking_def on_grid_def)
  qed
  with assms(2) fr periods_frame [OF fr] grid_heap [OF fr, of "\<lambda>ifc. int (cycle st) dvd period ifc"] show ?thesis
    by (auto simp: ticking_def on_grid_def frame_def same_clock_def)
qed

lemma Schedule_ticking:
  assumes "Schedule st = Some st'" "ticking st"
  shows "ticking st' \<and> same_clock st st'"
proof (rule run_loop.loop_keeps [OF assms(1), where I = "\<lambda>s. ticking s \<and> same_clock st s"])
  show "ticking st \<and> same_clock st st" using assms(2) by (simp add: same_clock_def)
  show "ticking s \<and> same_clock st s \<Longrightarrow> schedule_one s = Some (go, s1) \<Longrightarrow> ticking s1 \<and> same_clock st s1" for s go s1
    using schedule_one_ticking [of s go s1] by (auto simp: same_clock_def)
qed

lemma grid_next: "c dvd t \<Longrightarrow> c dvd x \<Longrightarrow> t < x \<Longrightarrow> t + c \<le> (x :: nat)"
  by (metis add_le_mono dvd_diffD1 dvd_imp_le le_add_diff_inverse less_imp_le nat_le_linear not_le zero_less_diff dvd_diff_nat le_refl)

lemma ticking_no_past: "ticking st \<Longrightarrow> no_past st"
  by (simp add: ticking_def on_grid_def no_past_def)

lemma Start_cycle_grid:
  assumes "Start_cycle st = Some (True, st')" "all_inv st" "ticking st" "cycle st < 2 ^ 32"
  shows "on_grid st' \<and> time st' = time st + cycle st"
proof -
  obtain s1 s2 where h: "HandleMessage st = Some (True, s1)" and r: "Schedule s1 = Some s2"
    and st': "st' = AddTime (cycle s2) s2"
    using assms(1) by (auto simp: Start_cycle_def bind_eq_Some_conv split: if_splits)
  have t1: "ticking s1" "same_clock st s1" using HandleMessage_ticking [OF h assms(3)] by auto
  have t2: "ticking s2" "same_clock s1 s2" using Schedule_ticking [OF r t1(1)] by auto
  have "irh_wf s1" using HandleMessage_inv [OF h assms(2)] by (simp add: all_inv_def sched_inv_def)
  then have later: "\<forall>x \<in> set (scheduleQueue s2). time s2 < si_time x"
    using Schedule_ends [of s1] r t1(1) ticking_no_past [OF t1(1)] by (auto simp: ticking_def)
  have c: "cycle s2 = cycle st" "time s2 = time st" using t1 t2 by (auto simp: same_clock_def)
  have now: "time st' = time st + cycle st"
    using assms(3,4) c by (simp add: st' AddTime_def ticking_def)
  have "time st + cycle st \<le> si_time x" if "x \<in> set (scheduleQueue s2)" for x
    using later t2(1) that c by (intro grid_next) (auto simp: ticking_def on_grid_def)
  then show ?thesis
    using t2(1) c now by (auto simp: st' AddTime_def ticking_def on_grid_def)
qed

subsection \<open>Properties\<close>

text \<open>C8. The run loop always ends when whoever runs again has a positive period, and then nothing
  that was due is left: every entry lies strictly in the future.\<close>

theorem Schedule_terminates:
  assumes "irh_wf st" "periods_ok st" "no_past st" "time st + 2 ^ 32 < 2 ^ 64"
  shows "\<exists>st'. Schedule st = Some st' \<and> (\<forall>x \<in> set (scheduleQueue st'). time st' < si_time x)"
  by (rule Schedule_ends [OF assms])

definition demo_due :: "int \<Rightarrow> nat irh" where
  "demo_due per = (demo_state 0 per [])\<lparr>heap := [(demo_instance 0 per)\<lparr>enabled := True\<rparr>],
     scheduleQueue := [\<lparr>si_instance = 0, si_time = 0\<rparr>]\<rparr>"

lemma demo_due_inv: "all_inv (demo_due per)"
  by (simp add: demo_due_def all_inv_def demo_defs sched_inv_def irh_wf_def heap_wf_def topics_wf_def store_inv_def
      store_keys_def ref_ok_def ts_known_def pubsub_inv_def opened_def subscribers_of_def ts_get_def al_get_def
      polite_heap_def polite_def)

lemma demo_due_ticking: "ticking (demo_due 100)" "no_past (demo_due 100)"
  by (simp_all add: demo_due_def ticking_def on_grid_def no_past_def periods_ok_def demo_defs)

theorem Schedule_terminates_witness:
  "\<exists>st'. Schedule (demo_due 100) = Some st' \<and> (\<forall>x \<in> set (scheduleQueue st'). time st' < si_time x)"
  using Schedule_terminates [of "demo_due 100"] demo_due_inv [of 100] demo_due_ticking
  by (simp add: all_inv_def sched_inv_def ticking_def)

text \<open>C9. A cycle of the scheduler moves the clock by exactly one cycle and leaves the run queue
  on the grid of the cycle, with no entry in the past, whatever messages it handled and whatever
  instances it ran, when the periods of the plugins are multiples of the cycle.\<close>

theorem Start_cycle_keeps_grid:
  assumes "Start_cycle st = Some (True, st')" "all_inv st" "ticking st" "cycle st < 2 ^ 32"
  shows "on_grid st' \<and> time st' = time st + cycle st"
  by (rule Start_cycle_grid [OF assms])

definition demo_ran :: "nat irh" where
  "demo_ran = (demo_due 100)\<lparr>heap := [(demo_instance 0 100)\<lparr>enabled := True, priv := 1\<rparr>],
     scheduleQueue := [\<lparr>si_instance = 0, si_time = 100\<rparr>]\<rparr>"

lemma demo_runs: "Schedule (demo_due 100) = Some demo_ran"
proof -
  have "schedule_one (demo_due 100) = Some (True, demo_ran)"
    by (simp add: schedule_one_def demo_due_def demo_ran_def demo_defs queue_pop_def queue_push_def at_ref_def
        called_def u64_add_def INSTANCE_RUN_ONCE_def)
  moreover have "schedule_one demo_ran = Some (False, demo_ran)"
    by (simp add: schedule_one_def demo_due_def demo_ran_def demo_defs)
  ultimately show ?thesis by (simp add: Schedule.simps [of "demo_due 100"] Schedule.simps [of demo_ran])
qed

theorem Start_cycle_keeps_grid_witness: "on_grid (demo_ran\<lparr>time := 10\<rparr>)"
proof -
  have "message_loop (False, demo_due 100) = Some (False, demo_due 100)"
    by (simp add: message_loop.simps handle_one_def demo_due_def demo_defs)
  then have "Start_cycle (demo_due 100) = Some (True, AddTime 10 demo_ran)"
    by (simp add: Start_cycle_def HandleMessage_def demo_runs) (simp add: demo_ran_def demo_due_def demo_state_def)
  from Start_cycle_keeps_grid [OF this demo_due_inv demo_due_ticking(1)] show ?thesis
    by (simp add: AddTime_def) (simp add: demo_ran_def demo_due_def demo_state_def)
qed

text \<open>One entry in the past stops the scheduler for good: the run loop leaves everything as it is,
  the entries that are due included, since it compares the top of the queue with the clock for equality.\<close>

lemma overdue_entry_stalls:
  assumes "x \<in> set (scheduleQueue st)" "si_time x < time st"
  shows "Schedule st = Some st"
proof -
  obtain y where y: "queue_top (heap st) (scheduleQueue st) = Some y"
    using assms(1) by (cases "queue_top (heap st) (scheduleQueue st)") auto
  then have "si_time y \<le> si_time x" using queue_top_max [OF y assms(1)] by (auto simp: si_less_def)
  with y assms(2) have "schedule_one st = Some (False, st)" by (simp add: schedule_one_def)
  then show ?thesis by (simp add: Schedule.simps [of st])
qed

theorem overdue_entry_stalls_witness: "Schedule ((demo_due 100)\<lparr>time := 10\<rparr>) = Some ((demo_due 100)\<lparr>time := 10\<rparr>)"
  using overdue_entry_stalls [of "\<lparr>si_instance = 0, si_time = 0\<rparr>" "(demo_due 100)\<lparr>time := 10\<rparr>"]
  by (simp add: demo_due_def)

definition busy :: "nat \<Rightarrow> ref \<Rightarrow> 'p irh \<Rightarrow> bool" where
  "busy now r st = (time st = now \<and> now < 2 ^ 64 \<and> scheduleQueue st = [\<lparr>si_instance = r, si_time = now\<rparr>] \<and>
     (\<exists>i. at_ref r st = Some i \<and> enabled i \<and> \<not> runs_once (interface i) \<and> period (interface i) = 0))"

text \<open>An enabled instance with period 0 that is not a run-once instance keeps the run loop busy
  forever: its entry is due again as soon as it has run.\<close>

lemma period_zero_diverges:
  assumes "busy now r st"
  shows "Schedule st = None"
proof (rule run_loop.loop_diverges [of "busy now r"])
  show "busy now r st" by (rule assms)
  fix s :: "'a irh"
  assume "busy now r s"
  then obtain i where s: "time s = now" "now < 2 ^ 64" "scheduleQueue s = [\<lparr>si_instance = r, si_time = now\<rparr>]"
    "at_ref r s = Some i" "enabled i" "\<not> runs_once (interface i)" "period (interface i) = 0"
    by (auto simp: busy_def)
  obtain p ms where v: "v_Run (interface i) (priv i) = (p, ms)" by fastforce
  let ?s1 = "(called r (i\<lparr>priv := p\<rparr>) ms s)\<lparr>scheduleQueue := [\<lparr>si_instance = r, si_time = now\<rparr>]\<rparr>"
  have "schedule_one s = Some (True, ?s1)"
    using s v by (simp add: schedule_one_def queue_pop_def queue_push_def at_ref_def runs_once_def u64_add_def called_def)
  moreover have "busy now r ?s1" using s by (auto simp: busy_def at_ref_iff)
  ultimately show "\<exists>s1. schedule_one s = Some (True, s1) \<and> busy now r s1" by blast
qed

theorem period_zero_diverges_witness: "Schedule (demo_due 0) = None"
  using period_zero_diverges [of 0 0 "demo_due 0"]
  by (simp add: busy_def demo_due_def demo_defs at_ref_def runs_once_def INSTANCE_RUN_ONCE_def)

end
