(* ===== verification/Plugin_Manager.thy ===== *)
theory Plugin_Manager
  imports Info_Cmd Scheduler_Clock
begin

text \<open>
  The plugin manager, \<^verbatim>\<open>src/plugin_mgr/plugin_manager.h\<close> and \<open>plugin_manager.cpp\<close>: the table of
  handlers, what is loaded and enabled at the start, the loop over the events of clients and
  the end of the server. Its thread runs beside that of the scheduler: \<open>sys_step\<close> interleaves
  the two at the granularity of whole events and whole turns of the scheduler.
\<close>

subsection \<open>State and dispatch\<close>

record 'p manager =
  sched :: "'p irh"
  pm_config :: Config
  pm_logger :: Logger
  pm_infoCmd :: "InfoCmd list"
  eventHandler :: "(Opt \<times> HandlerId) list"
  recvMessage :: "Event SafeQueue"
  sendMessage :: "EventResult SafeQueue"

definition InitEventHandler :: "'p manager \<Rightarrow> 'p manager" where
  "InitEventHandler m = m\<lparr>eventHandler := fold (\<lambda>(op, h). AList.update op h)
     [(OptLOAD, LoadHandler), (OptREMOVE, RemoveHandler), (OptQUERY_ALL, QueryHandler), (OptQUERY, QueryHandler),
      (OptQUERY_SUB_GRAPH, QuerySubscribeGraphHandler), (OptQUERY_ALL_SUB_GRAPH, QuerySubscribeGraphHandler),
      (OptENABLED, EnableHandler), (OptDISABLED, DisableHandler), (OptLIST, ListHandler), (OptINFO, InfoCmdHandler),
      (OptDOWNLOAD, DownloadHandler), (OptSUBSCRIBE, SubscribeHandler), (OptUNSUBSCRIBE, UnsubscribeHandler),
      (OptPUBLISH, PublishHandler), (OptRELOAD_CONF, ReloadConfHandler)] (eventHandler m)\<rparr>"

definition with_sched :: "'p manager \<Rightarrow> ('a \<times> 'p irh) option \<Rightarrow> ('a stage \<times> 'p manager) option" where
  "with_sched m x = do { (a, st) \<leftarrow> x; Some (Now a, m\<lparr>sched := st\<rparr>) }"

definition Handle ::
  "('p, 'n) server_env \<Rightarrow> HandlerId \<Rightarrow> Event \<Rightarrow> 'p manager \<Rightarrow> (EventResult stage \<times> 'p manager) option" where
  "Handle env h event m =
     (case h of
        LoadHandler \<Rightarrow> with_sched m (LoadHandler_Handle env event (sched m))
      | RemoveHandler \<Rightarrow> with_sched m (RemoveHandler_Handle event (sched m))
      | QueryHandler \<Rightarrow> map_option (\<lambda>r. (Now r, m)) (QueryHandler_Handle event (sched m))
      | QuerySubscribeGraphHandler \<Rightarrow> map_option (\<lambda>r. (Now r, m)) (QuerySubscribeGraphHandler_Handle event (sched m))
      | EnableHandler \<Rightarrow> map_option (\<lambda>s. (s, m)) (EnableHandler_Handle event (sched m))
      | DisableHandler \<Rightarrow> map_option (\<lambda>s. (s, m)) (DisableHandler_Handle event (sched m))
      | ListHandler \<Rightarrow> Some (Now (ListHandler_Handle env (pm_config m)), m)
      | InfoCmdHandler \<Rightarrow> map_option (\<lambda>(r, infos). (Now r, m\<lparr>pm_infoCmd := infos\<rparr>))
          (InfoCmdHandler_Handle env (sched m) (pm_infoCmd m))
      | DownloadHandler \<Rightarrow> map_option (\<lambda>r. (Now r, m)) (DownloadHandler_Handle event (pm_config m))
      | SubscribeHandler \<Rightarrow> map_option (\<lambda>s. (s, m)) (SubscribeHandler_Handle event (sched m))
      | UnsubscribeHandler \<Rightarrow> map_option (\<lambda>s. (s, m)) (UnsubscribeHandler_Handle env event (sched m))
      | PublishHandler \<Rightarrow> Some (PublishHandler_Handle event (sched m), m)
      | ReloadConfHandler \<Rightarrow>
          (case ReloadConfHandler_Handle env (pm_config m) (pm_logger m) of (r, c, lg) \<Rightarrow>
            Some (Now r, m\<lparr>pm_config := c, pm_logger := lg\<rparr>)))"

subsection \<open>The start of the server\<close>

definition SendMsg :: "Event \<Rightarrow> 'p manager \<Rightarrow> 'p manager" where
  "SendMsg msg m = m\<lparr>recvMessage := Push (recvMessage m) msg\<rparr>"

definition enable_event :: "string \<Rightarrow> Event" where
  "enable_event n = \<lparr>ev_opt = OptENABLED, ev_type = INTERNAL, ev_payload = [n]\<rparr>"

fun enable_refs :: "ref list \<Rightarrow> 'p manager \<Rightarrow> 'p manager option" where
  "enable_refs [] m = Some m"
| "enable_refs (r # rs) m = do {
     i \<leftarrow> at_ref r (sched m);
     enable_refs rs (SendMsg (enable_event (ins_name i)) m)
   }"

definition EnablePlugin :: "string \<Rightarrow> 'p manager \<Rightarrow> 'p manager option" where
  "EnablePlugin n m = do {
     plugin \<leftarrow> GetPlugin n (memoryStore (sched m));
     enable_refs (pl_instances plugin) m
   }"

definition EnableInstance_item :: "EnableItem \<Rightarrow> 'p manager \<Rightarrow> 'p manager" where
  "EnableInstance_item item m = fold (\<lambda>n. SendMsg (enable_event n)) (ei_instance item) m"

fun PreEnable_items :: "EnableItem list \<Rightarrow> 'p manager \<Rightarrow> 'p manager option" where
  "PreEnable_items [] m = Some m"
| "PreEnable_items (item # rest) m =
     (if \<not> IsPluginExist (ei_name item) (memoryStore (sched m)) then PreEnable_items rest m
      else if ei_enabled item then do { m1 \<leftarrow> EnablePlugin (ei_name item) m; PreEnable_items rest m1 }
      else PreEnable_items rest (EnableInstance_item item m))"

definition PreEnable :: "'p manager \<Rightarrow> 'p manager option" where
  "PreEnable m = PreEnable_items (enableList (pm_config m)) m"

fun preload_files :: "('p, 'n) server_env \<Rightarrow> string list \<Rightarrow> 'p manager \<Rightarrow> 'p manager option" where
  "preload_files env [] m = Some m"
| "preload_files env (n # ns) m =
     (if EndWith n ''.so'' then do {
        h \<leftarrow> map_of (eventHandler m) OptLOAD;
        (_, m1) \<leftarrow> Handle env h \<lparr>ev_opt = OptLOAD, ev_type = INTERNAL, ev_payload = [n]\<rparr> m;
        preload_files env ns m1
      } else preload_files env ns m)"

definition PreLoadPlugin :: "('p, 'n) server_env \<Rightarrow> 'p manager \<Rightarrow> 'p manager option" where
  "PreLoadPlugin env m =
     (case env_readdir env DEFAULT_PLUGIN_PATH of None \<Rightarrow> Some m | Some names \<Rightarrow> preload_files env names m)"

definition PreLoad :: "('p, 'n) server_env \<Rightarrow> 'p manager \<Rightarrow> 'p manager option" where
  "PreLoad env m = do { m1 \<leftarrow> PreLoadPlugin env m; PreEnable m1 }"

subsection \<open>The event loop\<close>

text \<open>
  One event of \<open>Run\<close> up to the point where the handler is done or waits, and the rest. A
  missing handler is a null pointer.
\<close>

definition start_event ::
  "('p, 'n) server_env \<Rightarrow> Event \<Rightarrow> 'p manager \<Rightarrow> (EventResult stage \<times> 'p manager) option" where
  "start_event env event m = do {
     h \<leftarrow> map_of (eventHandler m) (ev_opt event);
     Handle env h event m
   }"

definition finish_event :: "EventType \<Rightarrow> EventResult \<Rightarrow> 'p manager \<Rightarrow> 'p manager" where
  "finish_event type eventResult m =
     (if type = EXTERNAL then m\<lparr>sendMessage := Push (sendMessage m) eventResult\<rparr> else m)"

definition SendMsgToInstancRunHandler :: "InstanceRunMessage \<Rightarrow> 'p manager \<Rightarrow> 'p manager" where
  "SendMsgToInstancRunHandler msg m = m\<lparr>sched := (sched m)\<lparr>recvQueue := Push (recvQueue (sched m)) msg\<rparr>\<rparr>"

subsection \<open>The end of the server\<close>

text \<open>\<open>Exit\<close>: the message it waits for, and what follows once the scheduler has stopped. The
  constructor leaves the flag \<open>finish\<close> uninitialized, here it starts as \<open>False\<close>.\<close>

definition Exit_message :: "'p manager \<Rightarrow> InstanceRunMessage" where
  "Exit_message m = mk_message (unset (sched m)) RunSHUTDOWN []"

fun exit_refs :: "ref list \<Rightarrow> 'p irh \<Rightarrow> 'p irh option" where
  "exit_refs [] st = Some st"
| "exit_refs (r # rs) st = do {
     i \<leftarrow> at_ref r st;
     if \<not> enabled i then exit_refs rs st
     else do {
       (i1, ms) \<leftarrow> Disable i;
       exit_refs rs (called r i1 ms st)
     }
   }"

definition Exit_disable :: "'p manager \<Rightarrow> 'p manager option" where
  "Exit_disable m = do {
     st \<leftarrow> exit_refs (concat (map pl_instances (GetAllPlugins (memoryStore (sched m))))) (sched m);
     Some (m\<lparr>sched := st\<rparr>)
   }"

subsection \<open>The two threads\<close>

text \<open>
  \<open>asked\<close> is the message the manager waits for with the type of the event and what it does
  with the answer, \<open>seen\<close> how many finished messages it has looked at, \<open>asks\<close> and \<open>replies\<close> the
  events of clients and the answers handed back to them so far.
\<close>

record 'p system =
  mgr :: "'p manager"
  asked :: "(InstanceRunMessage \<times> EventType \<times> (InstanceRunMessage \<Rightarrow> EventResult)) option"
  seen :: nat
  asks :: "Event list"
  replies :: "EventResult list"

definition set_sched :: "'p irh \<Rightarrow> 'p system \<Rightarrow> 'p system" where
  "set_sched st s = s\<lparr>mgr := (mgr s)\<lparr>sched := st\<rparr>\<rparr>"

inductive sys_step :: "('p, 'n) server_env \<Rightarrow> 'p system \<Rightarrow> 'p system \<Rightarrow> bool" for env where
  step_request: "ev_type e = EXTERNAL \<Longrightarrow>
    sys_step env s (s\<lparr>mgr := SendMsg e (mgr s), asks := asks s @ [e]\<rparr>)"
| step_internal: "ev_type e \<noteq> EXTERNAL \<Longrightarrow> sys_step env s (s\<lparr>mgr := SendMsg e (mgr s)\<rparr>)"
| step_now: "asked s = None \<Longrightarrow> TryPop (recvMessage (mgr s)) = Some (e, q) \<Longrightarrow> ev_opt e \<noteq> OptSHUTDOWN \<Longrightarrow>
    start_event env e ((mgr s)\<lparr>recvMessage := q\<rparr>) = Some (Now r, m) \<Longrightarrow>
    sys_step env s (s\<lparr>mgr := finish_event (ev_type e) r m\<rparr>)"
| step_send: "asked s = None \<Longrightarrow> TryPop (recvMessage (mgr s)) = Some (e, q) \<Longrightarrow> ev_opt e \<noteq> OptSHUTDOWN \<Longrightarrow>
    start_event env e ((mgr s)\<lparr>recvMessage := q\<rparr>) = Some (After msg k, m) \<Longrightarrow>
    sys_step env s (s\<lparr>mgr := SendMsgToInstancRunHandler msg m, asked := Some (msg, ev_type e, k)\<rparr>)"
| step_wake: "asked s = Some (msg0, ty, k) \<Longrightarrow> drop (seen s) (notified (sched (mgr s))) = pre @ msg # post \<Longrightarrow>
    awaited msg \<Longrightarrow> \<forall>m \<in> set pre. \<not> awaited m \<Longrightarrow>
    sys_step env s (s\<lparr>mgr := finish_event ty (k msg) (mgr s), asked := None, seen := seen s + length pre + 1\<rparr>)"
| step_reply: "TryPop (sendMessage (mgr s)) = Some (r, q) \<Longrightarrow>
    sys_step env s (s\<lparr>mgr := (mgr s)\<lparr>sendMessage := q\<rparr>, replies := replies s @ [r]\<rparr>)"
| step_message: "handle_one (False, sched (mgr s)) = Some (go, sd, st) \<Longrightarrow> sys_step env s (set_sched st s)"
| step_run: "schedule_one (sched (mgr s)) = Some (go, st) \<Longrightarrow> sys_step env s (set_sched st s)"
| step_tick: "sys_step env s (set_sched (AddTime (cycle (sched (mgr s))) (sched (mgr s))) s)"

inductive_cases sys_stepE: "sys_step env s s'"

inductive sys_reach :: "('p, 'n) server_env \<Rightarrow> 'p system \<Rightarrow> 'p system \<Rightarrow> bool" for env where
  reach_refl: "sys_reach env s s"
| reach_step: "sys_reach env s t \<Longrightarrow> sys_step env t u \<Longrightarrow> sys_reach env s u"

end
