(* ===== verification/Manager_Claims.thy ===== *)
theory Manager_Claims
  imports Plugin_Manager
begin

text \<open>
  Properties of the plugin manager: what loading and removing a plugin does to the store and
  to the invariant of the scheduler, that every request of a client is answered once, and that
  the answer the manager waits for is the one to its own message.
\<close>

subsection \<open>Loading\<close>

definition plugin_path :: "string \<Rightarrow> string" where
  "plugin_path n = DEFAULT_PLUGIN_PATH @ ''/'' @ n"

lemma add_instances_eq:
  "\<forall>r \<in> set rs. ref_ok h r \<Longrightarrow>
   add_instances h rs ms = Some (fold (\<lambda>(k, v). put_instance k v) (map (\<lambda>r. (ins_name (h ! r), r)) rs) ms)"
  by (induction rs arbitrary: ms) (simp_all add: AddInstance_def deref_ok)

definition loaded_store :: "string \<Rightarrow> ('p Interface \<times> 'p) list \<Rightarrow> nat \<Rightarrow> MemoryStore \<Rightarrow> MemoryStore" where
  "loaded_store n ips k ms = fold (\<lambda>(n, r). put_instance n r) (zip (map (if_name \<circ> fst) ips) [k ..< k + length ips])
     (AddPlugin n \<lparr>pl_name = n, pl_instances = [k ..< k + length ips], handler = True\<rparr> ms)"

definition loaded :: "string \<Rightarrow> ('p Interface \<times> 'p) list \<Rightarrow> 'p irh \<Rightarrow> 'p irh" where
  "loaded n ips st = st\<lparr>heap := heap st @ map (new_instance n) ips,
     memoryStore := loaded_store n ips (length (heap st)) (memoryStore st)\<rparr>"

lemma new_names:
  "map (\<lambda>r. (ins_name ((h @ map (new_instance n) ips) ! r), r)) [length h ..< length h + length ips] =
   zip (map (if_name \<circ> fst) ips) [length h ..< length h + length ips]"
  by (rule nth_equalityI) (simp_all add: nth_append new_instance_def)

lemma Load_provides:
  "env_dlopen env path = Provides ips \<Longrightarrow>
   Load (env_dlopen env) path h \<lparr>pl_name = n, pl_instances = [], handler = False\<rparr> =
     (0, h @ map (new_instance n) ips, \<lparr>pl_name = n, pl_instances = [length h ..< length h + length ips], handler = True\<rparr>)"
  by (simp add: Load_def LoadInstance_def LoadDlInstance_def SaveInstance_eq)

lemma LoadPlugin_provides:
  assumes "LoadPlugin env n st = Some (c, st')" "env_dlopen env (plugin_path n) = Provides ips"
  shows "(c \<noteq> ErrorOK \<and> st' = st) \<or> (c = ErrorOK \<and> \<not> IsPluginExist n (memoryStore st) \<and> st' = loaded n ips st)"
proof -
  let ?h = "heap st @ map (new_instance n) ips" and ?rs = "[length (heap st) ..< length (heap st) + length ips]"
  have "\<forall>r \<in> set ?rs. ref_ok ?h r" by (simp add: ref_ok_def)
  note add = add_instances_eq [OF this, unfolded new_names]
  note load = Load_provides [OF assms(2) [unfolded plugin_path_def]]
  show ?thesis
    using assms(1) unfolding LoadPlugin_def Let_def load
    by (cases "CheckPermission (env_lstat env) (DEFAULT_PLUGIN_PATH @ ''/'' @ n) 0x120")
      (simp_all add: add loaded_def loaded_store_def split: if_splits)
qed

lemma LoadPlugin_fails:
  assumes "LoadPlugin env n st = Some (c, st')" "\<And>ips. env_dlopen env (plugin_path n) \<noteq> Provides ips"
  shows "c \<noteq> ErrorOK \<and> st' = st"
  using assms unfolding LoadPlugin_def Let_def plugin_path_def
  by (cases "CheckPermission (env_lstat env) (DEFAULT_PLUGIN_PATH @ ''/'' @ n) 0x120";
      cases "env_dlopen env (DEFAULT_PLUGIN_PATH @ ''/'' @ n)")
    (simp_all add: Load_def LoadInstance_def LoadDlInstance_def split: if_splits)

lemma LoadPlugin_cases:
  assumes "LoadPlugin env n st = Some (c, st')"
  obtains (refused) "c \<noteq> ErrorOK" "st' = st"
  | (loads) ips where "c = ErrorOK" "env_dlopen env (plugin_path n) = Provides ips"
      "\<not> IsPluginExist n (memoryStore st)" "st' = loaded n ips st"
proof (cases "\<exists>ips. env_dlopen env (plugin_path n) = Provides ips")
  case True
  with LoadPlugin_provides [OF assms] refused loads show ?thesis by blast
next
  case False
  with LoadPlugin_fails [OF assms] refused show ?thesis by blast
qed

subsection \<open>Loading keeps the invariant of the scheduler\<close>

definition libs_polite :: "(InstanceRunMessage \<Rightarrow> bool) \<Rightarrow> ('p, 'n) server_env \<Rightarrow> bool" where
  "libs_polite Q env = (\<forall>path ips. env_dlopen env path = Provides ips \<longrightarrow> (\<forall>ip \<in> set ips. polite Q (fst ip)))"

lemma loaded_fields [simp]:
  "topicState (loaded n ips st) = topicState st" "subscibers (loaded n ips st) = subscibers st"
  "scheduleQueue (loaded n ips st) = scheduleQueue st" "recvQueue (loaded n ips st) = recvQueue st"
  "notified (loaded n ips st) = notified st" "time (loaded n ips st) = time st" "cycle (loaded n ips st) = cycle st"
  by (simp_all add: loaded_def)

lemma fold_put_plugins [simp]: "plugins (fold (\<lambda>(k, v). put_instance k v) kvs ms) = plugins ms"
  by (induction kvs arbitrary: ms) auto

lemma loaded_instances:
  "GetInstance k (memoryStore (loaded n ips st)) =
     (case GetInstance k (memoryStore st) of Some r \<Rightarrow> Some r
      | None \<Rightarrow> map_of (zip (map (if_name \<circ> fst) ips) [length (heap st) ..< length (heap st) + length ips]) k)"
  using instance_reg.get_add_all [of k "zip (map (if_name \<circ> fst) ips) [length (heap st) ..< length (heap st) + length ips]"
      "AddPlugin n \<lparr>pl_name = n, pl_instances = [length (heap st) ..< length (heap st) + length ips], handler = True\<rparr> (memoryStore st)"]
  by (simp add: loaded_def loaded_store_def)

lemma loaded_plugins:
  "plugins (memoryStore (loaded n ips st)) = al_insert n
     \<lparr>pl_name = n, pl_instances = [length (heap st) ..< length (heap st) + length ips], handler = True\<rparr> (plugins (memoryStore st))"
  by (simp add: loaded_def loaded_store_def AddPlugin_def)

lemma loaded_ref: "ref_ok (heap st) r \<Longrightarrow> ref_ok (heap (loaded n ips st)) r \<and> heap (loaded n ips st) ! r = heap st ! r"
  by (simp add: loaded_def ref_ok_def nth_append)

lemma zip_names_ok:
  assumes "map_of (zip (map (if_name \<circ> fst) ips) [length h ..< length h + length ips]) k = Some r"
  shows "r < length h + length ips \<and> ins_name ((h @ map (new_instance n) ips) ! r) = k"
proof -
  have "(k, r) \<in> set (zip (map (if_name \<circ> fst) ips) [length h ..< length h + length ips])"
    using assms by (rule map_of_SomeD)
  then show ?thesis by (auto simp: set_zip nth_append new_instance_def)
qed

lemma loaded_wf:
  assumes "irh_wf st" "\<not> IsPluginExist n (memoryStore st)"
  shows "irh_wf (loaded n ips st)"
proof -
  let ?st = "loaded n ips st" and ?ms = "memoryStore (loaded n ips st)"
  have inv: "store_inv (heap st) (memoryStore st)" using assms(1) by (simp add: irh_wf_def)
  have "store_keys (memoryStore st)" using inv by (simp add: store_inv_def)
  then have keys: "store_keys ?ms"
    unfolding loaded_def loaded_store_def by (auto intro!: instance_reg.inv_add_all plugin_reg.inv_add)
  have "ref_ok (heap ?st) r \<and> ins_name (heap ?st ! r) = k" if "(k, r) \<in> set (instances ?ms)" for k r
  proof -
    have "GetInstance k ?ms = Some r" using that keys by (simp add: store_keys_def)
    then consider "GetInstance k (memoryStore st) = Some r"
      | "map_of (zip (map (if_name \<circ> fst) ips) [length (heap st) ..< length (heap st) + length ips]) k = Some r"
      unfolding loaded_instances by (auto split: option.splits)
    then show ?thesis
    proof cases
      case 1
      then have "(k, r) \<in> set (instances (memoryStore st))" by (simp add: map_of_SomeD)
      then show ?thesis using inv loaded_ref [of st r n ips] by (auto simp: store_inv_def)
    next
      case 2
      from zip_names_ok [OF this] show ?thesis by (simp add: loaded_def ref_ok_def)
    qed
  qed
  moreover have "pl_name p = k \<and> (\<forall>r \<in> set (pl_instances p). ref_ok (heap ?st) r)" if "(k, p) \<in> set (plugins ?ms)" for k p
    using that inv loaded_ref [of st _ n ips]
    by (auto simp: loaded_plugins al_insert_def store_inv_def split: if_splits) (auto simp: loaded_def ref_ok_def)
  ultimately have "store_inv (heap ?st) ?ms" using keys by (auto simp: store_inv_def)
  moreover have "heap_wf ?st" using assms(1) by (auto simp: irh_wf_def heap_wf_def loaded_def topics_wf_def new_instance_def)
  ultimately show ?thesis using assms(1) loaded_ref [of st _ n ips] by (auto simp: irh_wf_def)
qed

lemma loaded_polite:
  "polite_heap Q st \<Longrightarrow> (\<forall>ip \<in> set ips. polite Q (fst ip)) \<Longrightarrow> polite_heap Q (loaded n ips st)"
  by (auto simp: polite_heap_def loaded_def new_instance_def)

lemma loaded_all_inv:
  assumes "all_inv st" "\<not> IsPluginExist n (memoryStore st)" "\<forall>ip \<in> set ips. polite msg_canon (fst ip)"
  shows "all_inv (loaded n ips st)"
proof -
  have "ts_known (loaded n ips st)"
    using assms(1) unfolding ts_known_def loaded_instances
    by (auto simp: all_inv_def sched_inv_def ts_known_def simp del: get_map_of split: option.splits)
  moreover have "pubsub_inv (loaded n ips st)"
    using assms(1) pubsub_same [of "loaded n ips st" st] by (simp add: all_inv_def sched_inv_def)
  ultimately show ?thesis
    using assms loaded_wf [of st n ips] loaded_polite [of msg_canon st ips n] by (simp add: all_inv_def sched_inv_def)
qed

subsection \<open>Removing\<close>

lemma idle_names_idle:
  "idle_names st rs = Some (Inr ns) \<Longrightarrow> ns = map (\<lambda>r. ins_name (heap st ! r)) rs \<and> (\<forall>r \<in> set rs. \<not> enabled (heap st ! r))"
proof (induction rs arbitrary: ns)
  case Nil
  then show ?case by simp
next
  case (Cons r rs)
  obtain x where x: "r < length (heap st)" "\<not> enabled (heap st ! r)" "idle_names st rs = Some x"
    "(case x of Inl n \<Rightarrow> Inl n | Inr ns \<Rightarrow> Inr (ins_name (heap st ! r) # ns)) = Inr ns"
    using Cons.prems by (auto simp: at_ref_iff bind_eq_Some_conv split: if_splits)
  then show ?case using Cons.IH by (cases x) auto
qed

lemma idle_names_total:
  "\<forall>r \<in> set rs. ref_ok (heap st) r \<and> \<not> enabled (heap st ! r) \<Longrightarrow>
   idle_names st rs = Some (Inr (map (\<lambda>r. ins_name (heap st ! r)) rs))"
  by (induction rs) (auto simp: at_ref_def deref_ok)

definition removed :: "string \<Rightarrow> string list \<Rightarrow> 'p irh \<Rightarrow> 'p irh" where
  "removed n ns st = st\<lparr>memoryStore := DeletePlugin n (fold DeleteInstance ns (memoryStore st))\<rparr>"

lemma Remove_cases:
  assumes "Remove n st = Some (c, st')"
  obtains (refused) "c \<noteq> ErrorOK" "st' = st"
  | (removes) p where "c = ErrorOK" "GetPlugin n (memoryStore st) = Some p" "\<forall>r \<in> set (pl_instances p). \<not> enabled (heap st ! r)"
      "st' = removed n (map (\<lambda>r. ins_name (heap st ! r)) (pl_instances p)) st"
proof (cases "IsPluginExist n (memoryStore st)")
  case False
  with assms show ?thesis by (intro refused) (auto simp: Remove_def)
next
  case True
  then obtain p x where p: "GetPlugin n (memoryStore st) = Some p" and x: "idle_names st (pl_instances p) = Some x"
    and r: "(case x of Inl _ \<Rightarrow> (REMOVE_INSTANCE_IS_RUNNING, st) | Inr ns \<Rightarrow> (ErrorOK, removed n ns st)) = (c, st')"
    using assms unfolding Remove_def removed_def by (auto simp: bind_eq_Some_conv)
  show ?thesis
  proof (cases x)
    case (Inl m)
    with r show ?thesis by (intro refused) auto
  next
    case (Inr ns)
    with r p x idle_names_idle show ?thesis by (intro removes [of p]) auto
  qed
qed

lemma fold_delete_plugins [simp]: "plugins (fold DeleteInstance ns ms) = plugins ms"
  by (induction ns arbitrary: ms) auto

lemma removed_lookup:
  "GetInstance k (memoryStore (removed n ns st)) = (if k \<in> set ns then None else GetInstance k (memoryStore st))"
  "GetPlugin k (memoryStore (removed n ns st)) = (if k = n then None else GetPlugin k (memoryStore st))"
  using instance_reg.get_del_all [of k ns "memoryStore st"] plugin_reg.get_del [of k n "fold DeleteInstance ns (memoryStore st)"]
  by (simp_all add: removed_def)

text \<open>C17. Removing a plugin is refused unless none of its instances runs. When it succeeds the plugin and
  the names of its instances are gone, also a name that another plugin has registered first, and
  every other name leads where it led; nothing else of the state changes.\<close>

theorem Remove_unloads:
  assumes "Remove n st = Some (ErrorOK, st')" "GetPlugin n (memoryStore st) = Some p"
  shows "(\<forall>r \<in> set (pl_instances p). \<not> enabled (heap st ! r)) \<and>
    GetPlugin k (memoryStore st') = (if k = n then None else GetPlugin k (memoryStore st)) \<and>
    GetInstance k (memoryStore st') =
      (if \<exists>r \<in> set (pl_instances p). ins_name (heap st ! r) = k then None else GetInstance k (memoryStore st)) \<and>
    st' = st\<lparr>memoryStore := memoryStore st'\<rparr>"
  using assms(1)
proof (cases rule: Remove_cases)
  case (removes p')
  with assms(2) have "p' = p" by simp
  with removes show ?thesis by (auto simp: removed_lookup simp del: get_map_of) (simp_all add: removed_def)
qed simp

lemma demo_removable: "Remove ''demo.so'' demo_closed = Some (ErrorOK, demo_closed\<lparr>memoryStore := \<lparr>instances = [], plugins = []\<rparr>\<rparr>)"
  by (simp add: Remove_def demo_closed_def demo_defs IsPluginExist_def al_count_def at_ref_def DeletePlugin_def DeleteInstance_def)

lemma demo_plugin: "GetPlugin ''demo.so'' (memoryStore demo_closed) = Some \<lparr>pl_name = ''demo.so'', pl_instances = [0], handler = True\<rparr>"
  by (simp add: demo_closed_def demo_state_def)

theorem Remove_unloads_witness:
  "GetInstance ''demo'' (memoryStore (demo_closed\<lparr>memoryStore := \<lparr>instances = [], plugins = []\<rparr>\<rparr>)) = None"
  using Remove_unloads [OF demo_removable demo_plugin, of "''demo''"]
  by (simp add: demo_closed_def demo_defs)

text \<open>C18. Removing an idle plugin leaves the recorded topics of its instances behind. From then on every
  unsubscription, of whatever topic by whatever client, crashes the scheduler, when none of the
  recorded topics of one of its instances is open.\<close>

theorem Remove_breaks_unsubscribe:
  assumes "Remove n st = Some (ErrorOK, st')" "GetPlugin n (memoryStore st) = Some p" "r \<in> set (pl_instances p)"
    and "(ins_name (heap st ! r), pts) \<in> set (topicState st)" "\<forall>(b, pps) \<in> set pts. \<forall>(c, open) \<in> set pps. \<not> open"
  shows "handle_msg (mk_message u RunUNSUBSCRIBE [t, s]) st' = None"
  using assms(1)
proof (cases rule: Remove_cases)
  case (removes p')
  let ?a = "ins_name (heap st ! r)"
  have "UpdateInstance (st'\<lparr>subscibers := m\<rparr>) = None" for m
  proof (rule UpdateInstance_needs_instance [of ?a pts])
    show "(?a, pts) \<in> set (topicState (st'\<lparr>subscibers := m\<rparr>))" using removes(4) assms(4) by (simp add: removed_def)
    have "?a \<in> set (map (\<lambda>r. ins_name (heap st ! r)) (pl_instances p'))" using removes(2) assms(2,3) by auto
    then show "GetInstance ?a (memoryStore (st'\<lparr>subscibers := m\<rparr>)) = None"
      unfolding removes(4) using removed_lookup(1) [of ?a n _ st] by simp
    show "(b, pps) \<in> set pts \<Longrightarrow> (c, True) \<in> set pps \<Longrightarrow> \<not> al_count (subscibers (st'\<lparr>subscibers := m\<rparr>)) (Concat [?a, b, c] ''::'')"
      for b c pps using assms(5) by fastforce
  qed
  then show ?thesis by (auto simp: handle_msg_def mk_message_def Unsubscribe_def bind_eq_None_conv split: option.splits)
qed simp

theorem Remove_breaks_unsubscribe_witness:
  "handle_msg (mk_message ok_result RunUNSUBSCRIBE [''any::topic::'', ''9''])
     (demo_closed\<lparr>memoryStore := \<lparr>instances = [], plugins = []\<rparr>\<rparr>) = None"
  by (rule Remove_breaks_unsubscribe [OF demo_removable demo_plugin, of 0 "[(''t'', [([], False)])]"])
    (simp_all add: demo_closed_def demo_defs)

subsection \<open>Loading and removing\<close>

lemma fold_put_fresh:
  "distinct (map fst kvs) \<Longrightarrow> fst ` set kvs \<inter> fst ` set (instances ms) = {} \<Longrightarrow>
   instances (fold (\<lambda>(k, v). put_instance k v) kvs ms) = instances ms @ kvs"
proof (induction kvs arbitrary: ms)
  case Nil
  then show ?case by simp
next
  case (Cons kv kvs)
  obtain k v where kv: "kv = (k, v)" by fastforce
  with Cons.prems have "instances (put_instance k v ms) = instances ms @ [(k, v)]"
    by (auto simp: put_instance_def al_insert_def map_of_eq_None_iff)
  with Cons kv show ?case by (auto simp: image_Un)
qed

lemma fold_delete_instances:
  "instances (fold DeleteInstance ks ms) = filter (\<lambda>p. fst p \<notin> set ks) (instances ms)"
  by (induction ks arbitrary: ms) (auto simp: DeleteInstance_def AList.delete_eq intro: filter_cong)

lemma filter_appended:
  "fst ` set ys \<subseteq> K \<Longrightarrow> fst ` set xs \<inter> K = {} \<Longrightarrow> filter (\<lambda>p. fst p \<notin> K) (xs @ ys) = xs"
proof -
  assume "fst ` set ys \<subseteq> K" "fst ` set xs \<inter> K = {}"
  then have "filter (\<lambda>p. fst p \<notin> K) ys = []" "filter (\<lambda>p. fst p \<notin> K) xs = xs"
    by (auto simp: filter_empty_conv filter_id_conv)
  then show ?thesis by simp
qed

text \<open>C16. Loading a plugin and removing it gives back the store as it was, when the plugin was not loaded
  before, its instances have different names and none of these names is taken.\<close>

theorem Load_Remove_roundtrip:
  assumes "LoadPlugin env n st = Some (ErrorOK, st')" "env_dlopen env (plugin_path n) = Provides ips"
    and "distinct (map (if_name \<circ> fst) ips)" "\<forall>ip \<in> set ips. \<not> IsInstanceExist (if_name (fst ip)) (memoryStore st)"
  shows "\<exists>st''. Remove n st' = Some (ErrorOK, st'') \<and> memoryStore st'' = memoryStore st"
  using assms(1)
proof (cases rule: LoadPlugin_cases)
  case (loads ips')
  let ?k = "length (heap st)" and ?names = "map (if_name \<circ> fst) ips"
  let ?rs = "[?k ..< ?k + length ips]"
  have st': "st' = loaded n ips st" using loads assms(2) by simp
  have fresh: "\<not> IsPluginExist n (memoryStore st)" by (rule loads(3))
  have heap: "heap st' ! (?k + j) = new_instance n (ips ! j)" if "j < length ips" for j
    using that by (simp add: st' loaded_def nth_append)
  have "\<forall>r \<in> set ?rs. ref_ok (heap st') r \<and> \<not> enabled (heap st' ! r)"
  proof
    fix r
    assume "r \<in> set ?rs"
    then have "r = ?k + (r - ?k)" "r - ?k < length ips" by auto
    then show "ref_ok (heap st') r \<and> \<not> enabled (heap st' ! r)"
      using heap [of "r - ?k"] by (simp add: st' loaded_def ref_ok_def new_instance_def)
  qed
  moreover have "map (\<lambda>r. ins_name (heap st' ! r)) ?rs = ?names"
    by (rule nth_equalityI) (simp_all add: heap new_instance_def)
  ultimately have idle: "idle_names st' ?rs = Some (Inr ?names)" using idle_names_total [of ?rs st'] by simp
  have plug: "GetPlugin n (memoryStore st') = Some \<lparr>pl_name = n, pl_instances = ?rs, handler = True\<rparr>"
    using fresh unfolding st' loaded_plugins get_map_of
    by (auto simp: map_of_al_insert IsPluginExist_def al_count_def)
  have zip: "fst ` set (zip ?names ?rs) = set ?names"
    by (metis length_map length_upt diff_add_inverse set_map map_fst_zip)
  moreover have free: "fst ` set (instances (memoryStore st)) \<inter> set ?names = {}"
    using assms(4) by (force simp: IsInstanceExist_def al_count_iff)
  ultimately have "fst ` set (zip ?names ?rs) \<inter> fst ` set (instances (memoryStore st)) = {}" by blast
  with assms(3) have "instances (memoryStore st') = instances (memoryStore st) @ zip ?names ?rs"
    using fold_put_fresh [of "zip ?names ?rs" "AddPlugin n \<lparr>pl_name = n, pl_instances = ?rs, handler = True\<rparr> (memoryStore st)"]
    by (simp add: st' loaded_def loaded_store_def)
  then have "instances (memoryStore (removed n ?names st')) = instances (memoryStore st)"
    using filter_appended [OF eq_refl [OF zip] free] by (simp add: removed_def fold_delete_instances del: filter_append set_map)
  moreover have "plugins (memoryStore (removed n ?names st')) = plugins (memoryStore st)"
    using fresh by (simp add: removed_def DeletePlugin_def st' loaded_plugins al_insert_def IsPluginExist_def al_count_iff
        AList.delete_eq filter_id_conv map_of_eq_None_iff) (auto simp: image_iff)
  ultimately have "memoryStore (removed n ?names st') = memoryStore st" by simp
  moreover have "Remove n st' = Some (ErrorOK, removed n ?names st')"
    using plug idle by (simp add: Remove_def removed_def IsPluginExist_def al_count_def)
  ultimately show ?thesis by blast
qed simp

definition demo_env :: "(nat, string) server_env" where
  "demo_env = \<lparr>env_lstat = (\<lambda>_. Some \<lparr>st_mode = 0x120, st_uid = 0, st_gid = 0\<rparr>), env_exists = (\<lambda>_. True), env_stat = (\<lambda>_. True),
     env_isdir = (\<lambda>_. True), env_readdir = (\<lambda>_. Some []), env_dlopen = (\<lambda>_. Provides [(demo_ifc 0 100, 0)]),
     env_yaml = demo_yaml, env_levels = [0, 10000, 20000, 30000, 40000, 50000], env_opt = OptLOAD\<rparr>"

definition demo_empty :: "nat irh" where
  "demo_empty = (demo_state 0 100 [])\<lparr>heap := [], memoryStore := \<lparr>instances = [], plugins = []\<rparr>\<rparr>"

lemma demo_loads: "LoadPlugin demo_env ''demo.so'' demo_empty = Some (ErrorOK, loaded ''demo.so'' [(demo_ifc 0 100, 0)] demo_empty)"
  by (simp add: LoadPlugin_def demo_env_def demo_empty_def demo_state_def EndWith_def CheckPermission_def IsPluginExist_def
      al_count_def Load_def LoadInstance_def LoadDlInstance_def AddInstance_def loaded_def loaded_store_def new_instance_def demo_ifc_def)

theorem Load_Remove_roundtrip_witness:
  "\<exists>st''. Remove ''demo.so'' (loaded ''demo.so'' [(demo_ifc 0 100, 0)] demo_empty) = Some (ErrorOK, st'') \<and>
     memoryStore st'' = \<lparr>instances = [], plugins = []\<rparr>"
  using Load_Remove_roundtrip [OF demo_loads, of "[(demo_ifc 0 100, 0)]"]
  by (simp add: demo_env_def IsInstanceExist_def al_count_def) (simp add: demo_empty_def)

end
