(* ===== verification/Manager_System.thy ===== *)
theory Manager_System
  imports Manager_Claims
begin

text \<open>
  Invariants of the two interleaved threads, by induction over \<open>sys_reach\<close>: requests are counted
  out against answers, and at most one message the manager waits for is under way.
\<close>

subsection \<open>What a handler leaves alone\<close>

definition shares :: "'p manager \<Rightarrow> 'p manager \<Rightarrow> bool" where
  "shares m m' = (recvMessage m' = recvMessage m \<and> sendMessage m' = sendMessage m \<and> eventHandler m' = eventHandler m \<and>
     recvQueue (sched m') = recvQueue (sched m) \<and> notified (sched m') = notified (sched m))"

lemma shares_refl [simp]: "shares m m"
  by (simp add: shares_def)

lemma LoadHandler_shares:
  assumes "LoadHandler_Handle env e st = Some (r, st')"
  shows "recvQueue st' = recvQueue st \<and> notified st' = notified st \<and>
    (libs_polite Q env \<longrightarrow> polite_heap Q st \<longrightarrow> polite_heap Q st')"
proof (cases "ev_payload e")
  case Nil
  with assms show ?thesis by (simp add: LoadHandler_Handle_def)
next
  case (Cons n ns)
  with assms obtain c where "LoadPlugin env n st = Some (c, st')" by (auto simp: LoadHandler_Handle_def bind_eq_Some_conv)
  then show ?thesis
    by (cases rule: LoadPlugin_cases) (auto simp: libs_polite_def intro: loaded_polite)
qed

lemma RemoveHandler_shares:
  assumes "RemoveHandler_Handle e st = Some (r, st')"
  shows "recvQueue st' = recvQueue st \<and> notified st' = notified st \<and> heap st' = heap st"
proof (cases "ev_payload e")
  case Nil
  with assms show ?thesis by (simp add: RemoveHandler_Handle_def)
next
  case (Cons n ns)
  with assms obtain c where "Remove n st = Some (c, st')" by (auto simp: RemoveHandler_Handle_def bind_eq_Some_conv)
  then show ?thesis by (cases rule: Remove_cases) (auto simp: removed_def)
qed

lemma Handle_shares: "Handle env h e m = Some (x, m') \<Longrightarrow> shares m m'"
  by (cases h) (auto simp: Handle_def with_sched_def shares_def bind_eq_Some_conv split: prod.splits
      dest: LoadHandler_shares RemoveHandler_shares)

lemma Handle_polite:
  "Handle env h e m = Some (x, m') \<Longrightarrow> libs_polite Q env \<Longrightarrow> polite_heap Q (sched m) \<Longrightarrow> polite_heap Q (sched m')"
  by (cases h) (auto simp: Handle_def with_sched_def bind_eq_Some_conv polite_heap_def [of _ "sched m'"] split: prod.splits
      dest!: RemoveHandler_shares, auto simp: polite_heap_def dest: LoadHandler_shares [where Q = Q])

lemma map_stage_After: "map_stage f s = After msg k \<Longrightarrow> \<exists>k'. s = After msg k'"
  by (cases s) auto

lemma awaited_mk [simp]: "awaited (mk_message u ty ps)"
  by (simp add: mk_message_def)

lemma request_awaited:
  "InstanceEnabled n p st = Some (After msg k1) \<Longrightarrow> awaited msg"
  "InstanceDisabled n st = Some (After msg k2) \<Longrightarrow> awaited msg"
  "Subscribe_request n t st = Some (After msg k3) \<Longrightarrow> awaited msg"
  by (auto simp: InstanceEnabled_def InstanceDisabled_def Subscribe_request_def bind_eq_Some_conv split: if_splits)

lemma Handle_After: "Handle env h e m = Some (After msg k, m') \<Longrightarrow> awaited msg \<and> m' = m"
  by (cases h)
    (auto simp: Handle_def with_sched_def bind_eq_Some_conv EnableHandler_Handle_def DisableHandler_Handle_def
      SubscribeHandler_Handle_def UnsubscribeHandler_Handle_def PublishHandler_Handle_def Publish_request_def Let_def
      split: prod.splits list.splits if_splits dest!: map_stage_After sym [of _ "map_stage _ _"] dest: request_awaited)

lemma start_event_props:
  assumes "start_event env e m = Some (x, m')"
  shows "shares m m'" "libs_polite Q env \<Longrightarrow> polite_heap Q (sched m) \<Longrightarrow> polite_heap Q (sched m')"
    "x = After msg k \<Longrightarrow> awaited msg \<and> m' = m"
  using assms by (auto simp: start_event_def bind_eq_Some_conv dest: Handle_shares Handle_polite Handle_After)

subsection \<open>Every request is answered once\<close>

definition from_client :: "Event \<Rightarrow> bool" where
  "from_client e = (ev_type e = EXTERNAL)"

definition owed :: "'p system \<Rightarrow> nat" where
  "owed s = (case asked s of Some (_, ty, _) \<Rightarrow> if ty = EXTERNAL then 1 else 0 | None \<Rightarrow> 0)"

definition answers_inv :: "'p system \<Rightarrow> bool" where
  "answers_inv s = (length (asks s) = length (replies s) + length (sendMessage (mgr s)) + owed s +
     length (filter from_client (recvMessage (mgr s))))"

lemma TryPop_Some: "TryPop q = Some (x, q') \<longleftrightarrow> q = x # q'"
  by (cases q) auto

lemma finish_event_simps [simp]:
  "recvMessage (finish_event ty r m) = recvMessage m" "sched (finish_event ty r m) = sched m"
  "length (sendMessage (finish_event ty r m)) = length (sendMessage m) + (if ty = EXTERNAL then 1 else 0)"
  by (simp_all add: finish_event_def Push_def)

lemma answers_step: "sys_step env s s' \<Longrightarrow> answers_inv s \<Longrightarrow> answers_inv s'"
  by (erule sys_stepE)
    (auto simp: answers_inv_def owed_def from_client_def TryPop_Some SendMsg_def Push_def set_sched_def
      SendMsgToInstancRunHandler_def shares_def dest!: start_event_props(1))

lemma answers_reach: "sys_reach env s s' \<Longrightarrow> answers_inv s \<Longrightarrow> answers_inv s'"
  by (induction rule: sys_reach.induct) (auto intro: answers_step)

subsection \<open>The manager gets the answer to its own message\<close>

text \<open>The messages somebody waits for: those in the queue, and those finished but not yet seen.\<close>

definition under_way :: "'p system \<Rightarrow> InstanceRunMessage list" where
  "under_way s = filter awaited (recvQueue (sched (mgr s))) @ filter awaited (drop (seen s) (notified (sched (mgr s))))"

definition same_request :: "InstanceRunMessage \<Rightarrow> InstanceRunMessage \<Rightarrow> bool" where
  "same_request m m' = (irm_type m = irm_type m' \<and> irm_payload m = irm_payload m')"

fun expected :: "(InstanceRunMessage \<times> EventType \<times> (InstanceRunMessage \<Rightarrow> EventResult)) option \<Rightarrow> InstanceRunMessage list \<Rightarrow> bool" where
  "expected None ms = (ms = [])"
| "expected (Some (m0, ty, k)) ms = (\<exists>m. ms = [m] \<and> same_request m m0)"

definition wait_inv :: "'p system \<Rightarrow> bool" where
  "wait_inv s = (seen s \<le> length (notified (sched (mgr s))) \<and> (\<forall>m \<in> set (notified (sched (mgr s))). finish m) \<and>
     polite_heap (\<lambda>m. \<not> awaited m) (sched (mgr s)) \<and>
     expected (asked s) (under_way s))"

lemma handle_msg_result: "handle_msg msg st = Some (msg', st') \<Longrightarrow> \<exists>r. msg' = msg\<lparr>irm_result := r\<rparr>"
proof -
  assume "handle_msg msg st = Some (msg', st')"
  then consider "msg' = msg" | r where "msg' = msg\<lparr>irm_result := r\<rparr>"
    by (auto simp: handle_msg_def bind_eq_Some_conv split: RunType.splits)
  then show ?thesis by cases (auto intro: exI [of _ "irm_result msg"])
qed

lemma pushes_unawaited:
  "pushes st st' \<Longrightarrow> polite_heap (\<lambda>m. \<not> awaited m) st \<Longrightarrow> filter awaited (recvQueue st') = filter awaited (recvQueue st)"
  unfolding pushes_def list_all_iff by (elim exE conjE, drule spec [of _ "\<lambda>m. \<not> awaited m"]) (auto simp: filter_empty_conv)

lemma wait_sched:
  assumes "wait_inv s" "frame (sched (mgr s)) st" "pushes (sched (mgr s)) st"
  shows "wait_inv (set_sched st s)"
  using assms pushes_unawaited [OF assms(3)] polite_heap_frame [OF assms(2)]
  by (auto simp: wait_inv_def under_way_def set_sched_def frame_def)

lemma wait_message:
  assumes "wait_inv s" "handle_one (False, sched (mgr s)) = Some (go, sd, st)"
  shows "wait_inv (set_sched st s)"
  using assms(2)
proof (cases rule: handle_one_cases)
  case stop
  with assms(1) show ?thesis by (simp add: set_sched_def)
next
  case (turn msg q msg1 st1)
  let ?st = "(sched (mgr s))\<lparr>recvQueue := q\<rparr>"
  obtain r where r: "msg1 = msg\<lparr>irm_result := r\<rparr>" using handle_msg_result [OF turn(4)] by blast
  have ev: "frame ?st st1" "pushes ?st st1" using handle_msg_evolves [OF turn(4)] by (auto simp: evolves_def)
  have p: "polite_heap (\<lambda>m. \<not> awaited m) ?st" using assms(1) by (simp add: wait_inv_def)
  have q: "filter awaited (recvQueue st1) = filter awaited q" using pushes_unawaited [OF ev(2) p] by simp
  have n: "notified st1 = notified (sched (mgr s))" "polite_heap (\<lambda>m. \<not> awaited m) st1"
    using ev(1) p polite_heap_frame [OF ev(1)] by (auto simp: frame_def)
  let ?rest = "filter awaited q @ filter awaited (drop (seen s) (notified (sched (mgr s))))"
  have len: "seen s \<le> length (notified (sched (mgr s)))" using assms(1) by (simp add: wait_inv_def)
  have "expected (asked s) (under_way (set_sched st s))"
  proof (cases "awaited msg")
    case True
    have old: "under_way s = msg # ?rest" using True turn(2) by (simp add: under_way_def)
    then obtain m0 ty k where a: "asked s = Some (m0, ty, k)" "same_request msg m0" "?rest = []"
      using assms(1) by (cases "(asked s, under_way s)" rule: expected.cases) (auto simp: wait_inv_def)
    have "under_way (set_sched st s) = ?rest @ [NotifyOne msg1]"
      using True len turn(5) q n(1) r by (simp add: under_way_def set_sched_def NotifyOne_def)
    with a r show ?thesis by (simp add: NotifyOne_def same_request_def)
  next
    case False
    with len turn(2,5) q n(1) r have "under_way (set_sched st s) = under_way s"
      by (simp add: under_way_def set_sched_def NotifyOne_def)
    with assms(1) show ?thesis by (simp add: wait_inv_def)
  qed
  then show ?thesis using assms(1) turn(5) n by (auto simp: wait_inv_def set_sched_def NotifyOne_def)
qed

lemma wait_now:
  assumes "wait_inv s" "asked s = None" "start_event env e ((mgr s)\<lparr>recvMessage := q\<rparr>) = Some (x, m)"
    and "libs_polite (\<lambda>m. \<not> awaited m) env"
  shows "wait_inv (s\<lparr>mgr := finish_event ty r m\<rparr>)"
  using assms start_event_props(1,2) [OF assms(3)]
  by (auto simp: wait_inv_def under_way_def shares_def)

lemma wait_send:
  assumes "wait_inv s" "asked s = None" "start_event env e ((mgr s)\<lparr>recvMessage := q\<rparr>) = Some (After msg k, m)"
  shows "wait_inv (s\<lparr>mgr := SendMsgToInstancRunHandler msg m, asked := Some (msg, ty, k)\<rparr>)"
  using assms(1,2) start_event_props(3) [OF assms(3) refl]
  by (auto simp: wait_inv_def under_way_def SendMsgToInstancRunHandler_def Push_def same_request_def)

lemma wait_wake:
  assumes "wait_inv s" "asked s = Some (m0, ty, k)" "drop (seen s) (notified (sched (mgr s))) = pre @ msg # post"
    and "awaited msg" "\<forall>m \<in> set pre. \<not> awaited m"
  shows "wait_inv (s\<lparr>mgr := finish_event ty (k msg) (mgr s), asked := None, seen := seen s + length pre + 1\<rparr>)"
    and "same_request msg m0"
proof -
  obtain m where m: "under_way s = [m]" "same_request m m0" using assms(1,2) by (auto simp: wait_inv_def)
  have pre: "filter awaited pre = []" using assms(5) by (simp add: filter_empty_conv)
  have u: "filter awaited (recvQueue (sched (mgr s))) = []" "filter awaited post = []" "m = msg"
    using m(1) assms(3,4) pre by (auto simp: under_way_def append_eq_Cons_conv)
  have "drop (seen s + length pre + 1) (notified (sched (mgr s))) = drop (length pre + 1) (pre @ msg # post)"
    using assms(3) by (metis add.assoc add.commute drop_drop)
  then have d: "drop (seen s + length pre + 1) (notified (sched (mgr s))) = post" by simp
  have "length (pre @ msg # post) = length (notified (sched (mgr s))) - seen s" using assms(3) by (metis length_drop)
  then have "seen s + length pre + 1 \<le> length (notified (sched (mgr s)))" by simp
  with assms(1) u d show "wait_inv (s\<lparr>mgr := finish_event ty (k msg) (mgr s), asked := None, seen := seen s + length pre + 1\<rparr>)"
    by (auto simp: wait_inv_def under_way_def)
  show "same_request msg m0" using m(2) u(3) by simp
qed

lemma wait_step:
  assumes "sys_step env s s'" "libs_polite (\<lambda>m. \<not> awaited m) env" "wait_inv s"
  shows "wait_inv s'"
  using assms(1)
proof (cases rule: sys_step.cases)
  case (step_now e q r m)
  with wait_now [OF assms(3) step_now(2,5) assms(2)] show ?thesis by simp
next
  case (step_send e q msg k m)
  with wait_send [OF assms(3) step_send(2,5)] show ?thesis by simp
next
  case (step_wake m0 ty k pre msg post)
  with wait_wake(1) [OF assms(3) step_wake(2-5)] show ?thesis by simp
next
  case (step_message go sd st)
  with wait_message [OF assms(3)] show ?thesis by simp
next
  case (step_run go st)
  with wait_sched [OF assms(3)] schedule_one_runs show ?thesis by (auto simp: runs_def)
qed (use assms(3) in \<open>auto simp: wait_inv_def under_way_def SendMsg_def set_sched_def AddTime_def\<close>)

lemma wait_reach:
  "sys_reach env s s' \<Longrightarrow> libs_polite (\<lambda>m. \<not> awaited m) env \<Longrightarrow> wait_inv s \<Longrightarrow> wait_inv s'"
  by (induction rule: sys_reach.induct) (auto intro: wait_step)

subsection \<open>Properties\<close>

text \<open>A server before its first event, with whatever plugins are loaded.\<close>

definition sys_start :: "'p system \<Rightarrow> bool" where
  "sys_start s = (recvMessage (mgr s) = [] \<and> sendMessage (mgr s) = [] \<and> recvQueue (sched (mgr s)) = [] \<and>
     notified (sched (mgr s)) = [] \<and> asked s = None \<and> seen s = 0 \<and> asks s = [] \<and> replies s = [])"

lemma start_invs:
  "sys_start s \<Longrightarrow> answers_inv s" "sys_start s \<Longrightarrow> polite_heap (\<lambda>m. \<not> awaited m) (sched (mgr s)) \<Longrightarrow> wait_inv s"
  by (simp_all add: sys_start_def answers_inv_def owed_def wait_inv_def under_way_def)

text \<open>C2. However the threads interleave, the answers handed to clients, the answers waiting to be sent,
  the request under way and the requests still queued add up to the requests made: no request is
  lost or answered twice.\<close>

theorem requests_answered_once:
  assumes "sys_reach env s0 s" "sys_start s0"
  shows "length (asks s) = length (replies s) + length (sendMessage (mgr s)) + owed s +
    length (filter from_client (recvMessage (mgr s)))"
  using answers_reach [OF assms(1) start_invs(1) [OF assms(2)]] by (simp add: answers_inv_def)

definition demo_mgr :: "nat manager" where
  "demo_mgr = InitEventHandler \<lparr>sched = demo_state 0 100 [], pm_config = demo_config,
     pm_logger = \<lparr>loggers = [], lg_path = [], lg_level = 20000\<rparr>, pm_infoCmd = [], eventHandler = [], recvMessage = [], sendMessage = []\<rparr>"

definition demo_sys :: "nat system" where
  "demo_sys = \<lparr>mgr = demo_mgr, asked = None, seen = 0, asks = [], replies = []\<rparr>"

definition demo_request :: Event where
  "demo_request = \<lparr>ev_opt = OptENABLED, ev_type = EXTERNAL, ev_payload = [''demo'']\<rparr>"

definition demo_asked :: "nat system" where
  "demo_asked = demo_sys\<lparr>mgr := SendMsg demo_request demo_mgr, asks := [demo_request]\<rparr>"

lemma demo_sys_start: "sys_start demo_sys"
  by (simp add: sys_start_def demo_sys_def demo_mgr_def InitEventHandler_def demo_state_def)

lemma demo_step1: "sys_step demo_env demo_sys demo_asked"
  using step_request [of demo_request demo_env demo_sys]
  by (simp add: demo_asked_def demo_sys_def demo_request_def)

theorem requests_answered_once_witness: "length (asks demo_asked) = length (filter from_client (recvMessage (mgr demo_asked)))"
  using requests_answered_once [OF reach_step [OF reach_refl demo_step1] demo_sys_start]
  by (simp add: demo_asked_def demo_sys_def owed_def demo_mgr_def InitEventHandler_def SendMsg_def)

text \<open>In the code a handler waits on the flag of its own message object. Here messages are values, and
  the step \<open>step_wake\<close> looks for a finished message that somebody waits for. This is the same:
  when the manager waits, a finished message with the flag \<open>awaited\<close> is the one it sent, since the
  plugins only push messages nobody waits for.\<close>

lemma manager_gets_own_answer:
  assumes "sys_reach env s0 s" "sys_start s0" "polite_heap (\<lambda>m. \<not> awaited m) (sched (mgr s0))"
    and "libs_polite (\<lambda>m. \<not> awaited m) env" "asked s = Some (m0, ty, k)"
    and "msg \<in> set (drop (seen s) (notified (sched (mgr s))))" "awaited msg"
  shows "irm_type msg = irm_type m0 \<and> irm_payload msg = irm_payload m0 \<and> finish msg"
proof -
  have "wait_inv s" using wait_reach [OF assms(1,4)] start_invs(2) [OF assms(2,3)] by blast
  then obtain m where m: "under_way s = [m]" "same_request m m0" "\<forall>m \<in> set (notified (sched (mgr s))). finish m"
    using assms(5) by (auto simp: wait_inv_def)
  have "msg \<in> set (under_way s)" using assms(6,7) by (simp add: under_way_def)
  with m assms(6) show ?thesis by (auto simp: same_request_def dest: in_set_dropD)
qed

definition demo_message :: InstanceRunMessage where
  "demo_message = mk_message ok_result RunENABLED [''demo'', []]"

definition demo_waiting :: "(InstanceRunMessage \<Rightarrow> EventResult) \<Rightarrow> nat system" where
  "demo_waiting k = demo_asked\<lparr>mgr := SendMsgToInstancRunHandler demo_message demo_mgr,
     asked := Some (demo_message, EXTERNAL, k)\<rparr>"

lemma demo_step2: "\<exists>k. sys_step demo_env demo_asked (demo_waiting k)"
proof -
  obtain k where "start_event demo_env demo_request demo_mgr = Some (After demo_message k, demo_mgr)"
    by (simp add: start_event_def demo_mgr_def InitEventHandler_def demo_request_def Handle_def EnableHandler_Handle_def
        InstanceEnabled_def IsInstanceExist_def al_count_def demo_defs at_ref_def demo_message_def update_conv')
  then have "sys_step demo_env demo_asked (demo_asked\<lparr>mgr := SendMsgToInstancRunHandler demo_message demo_mgr,
      asked := Some (demo_message, ev_type demo_request, k)\<rparr>)"
    by (intro step_send [where q = "[]"])
      (simp_all add: demo_asked_def demo_sys_def SendMsg_def Push_def demo_mgr_def InitEventHandler_def,
       simp add: demo_request_def)
  then show ?thesis by (auto simp: demo_waiting_def demo_request_def)
qed

definition demo_answered :: "nat irh" where
  "demo_answered = (demo_state 0 100 [])\<lparr>heap := [(demo_instance 0 100)\<lparr>enabled := True, enableCnt := 1\<rparr>],
     scheduleQueue := [\<lparr>si_instance = 0, si_time = 0\<rparr>], notified := [NotifyOne demo_message]\<rparr>"

lemma demo_step3: "sys_step demo_env (demo_waiting k) (set_sched demo_answered (demo_waiting k))"
proof (rule step_message)
  show "handle_one (False, sched (mgr (demo_waiting k))) = Some (True, False, demo_answered)"
    by (simp add: demo_waiting_def SendMsgToInstancRunHandler_def demo_mgr_def InitEventHandler_def Push_def handle_one_def
        handle_msg_def demo_message_def mk_message_def EnableInstance_def IsInstanceExist_def al_count_def demo_defs at_ref_def
        ok_result_def OK_def first_run_def called_def u64_add_def queue_push_def demo_answered_def NotifyOne_def SCENARIO_def TUNE_def)
qed

text \<open>A request with an operation that has no handler, such as one of the codes of responses, makes the
  manager call through a null pointer: the server crashes, and nothing in between checks the code.\<close>

lemma unknown_operation_crashes:
  assumes "ev_opt e \<in> {OptDATA, OptRESPONSE_OK, OptRESPONSE_ERROR, OptOther w}"
  shows "start_event env e (InitEventHandler (m\<lparr>eventHandler := []\<rparr>)) = None"
  using assms by (auto simp: start_event_def InitEventHandler_def)

theorem unknown_operation_crashes_witness:
  "start_event demo_env \<lparr>ev_opt = OptDATA, ev_type = EXTERNAL, ev_payload = []\<rparr> (InitEventHandler (demo_mgr\<lparr>eventHandler := []\<rparr>)) = None"
  by (rule unknown_operation_crashes [where w = 99]) simp

text \<open>C15. Loading a plugin while the scheduler runs keeps the invariant of the scheduler.\<close>

theorem Load_keeps_invariant:
  assumes "Handle env LoadHandler e m = Some (x, m')" "libs_polite msg_canon env" "all_inv (sched m)"
  shows "all_inv (sched m')"
proof (cases "ev_payload e")
  case Nil
  with assms show ?thesis by (auto simp: Handle_def with_sched_def LoadHandler_Handle_def)
next
  case (Cons n ns)
  then obtain c where c: "LoadPlugin env n (sched m) = Some (c, sched m')"
    using assms(1) by (auto simp: Handle_def with_sched_def LoadHandler_Handle_def bind_eq_Some_conv)
  then show ?thesis
  proof (cases rule: LoadPlugin_cases)
    case (loads ips)
    with loaded_all_inv [OF assms(3), of n ips] assms(2) show ?thesis by (auto simp: libs_polite_def)
  qed (use assms(3) in simp)
qed

theorem Load_keeps_invariant_witness:
  "all_inv (loaded ''demo.so'' [(demo_ifc 0 100, 0)] demo_empty)"
proof -
  let ?m = "demo_mgr\<lparr>sched := demo_empty\<rparr>"
  have "Handle demo_env LoadHandler \<lparr>ev_opt = OptLOAD, ev_type = EXTERNAL, ev_payload = [''demo.so'']\<rparr> ?m =
      Some (Now (ok_reply []), ?m\<lparr>sched := loaded ''demo.so'' [(demo_ifc 0 100, 0)] demo_empty\<rparr>)"
    by (simp add: Handle_def with_sched_def LoadHandler_Handle_def demo_loads)
  moreover have "libs_polite msg_canon demo_env" by (auto simp: libs_polite_def demo_env_def polite_def demo_ifc_def)
  moreover have "all_inv (sched ?m)"
    by (simp add: demo_empty_def all_inv_def demo_defs sched_inv_def irh_wf_def heap_wf_def topics_wf_def store_inv_def
        store_keys_def ref_ok_def ts_known_def pubsub_inv_def opened_def subscribers_of_def ts_get_def al_get_def
        polite_heap_def polite_def)
  ultimately show ?thesis using Load_keeps_invariant by fastforce
qed

end
