(* ===== verification/Manager_Answers.thy ===== *)
theory Manager_Answers
  imports Manager_System
begin

text \<open>
  An enable request from the client to the plugin and back, over the interleaved threads of the
  manager and the scheduler: the answer the manager sends is the one \<open>EnableInstance\<close> computed
  when the scheduler took the message of the request from its queue.
\<close>

subsection \<open>The reply to an enable request\<close>

definition enable_reply :: "Result \<Rightarrow> EventResult" where
  "enable_reply res =
     (if res_failed res then error_reply (if payload res = [] then GetErrorText ENABLE_INSTANCE_ENV else payload res)
      else ok_reply [])"

definition enables :: "InstanceRunMessage \<Rightarrow> (InstanceRunMessage \<Rightarrow> EventResult) \<Rightarrow> bool" where
  "enables m0 k = (irm_type m0 = RunENABLED \<longrightarrow>
     (\<exists>n p. irm_payload m0 = [n, p]) \<and> (\<forall>msg. k msg = enable_reply (irm_result msg)))"

lemma InstanceEnabled_After:
  "InstanceEnabled n p st = Some (After msg k) \<Longrightarrow>
     (\<exists>n. irm_payload msg = [n, p]) \<and>
     (\<forall>m. k m = (if res_failed (irm_result m) then ENABLE_INSTANCE_ENV else ErrorOK, payload (irm_result m)))"
  by (auto simp: InstanceEnabled_def mk_message_def bind_eq_Some_conv split: if_splits)

lemma EnableHandler_enables:
  assumes "EnableHandler_Handle e st = Some (After msg k)"
  shows "enables msg k"
proof -
  obtain n rest where e: "ev_payload e = n # rest" using assms by (cases "ev_payload e") (auto simp: EnableHandler_Handle_def)
  then obtain s where s: "InstanceEnabled n (case rest of [] \<Rightarrow> [] | p # _ \<Rightarrow> p) st = Some s"
    "map_stage (\<lambda>(retCode, err). if retCode = ErrorOK then ok_reply []
       else error_reply (if err = [] then GetErrorText retCode else err)) s = After msg k"
    using assms by (auto simp: EnableHandler_Handle_def bind_eq_Some_conv Let_def)
  then obtain k1 where k: "s = After msg k1" "\<forall>m. k m = (case k1 m of (retCode, err) \<Rightarrow> if retCode = ErrorOK then ok_reply []
       else error_reply (if err = [] then GetErrorText retCode else err))"
    by (cases s) auto
  with InstanceEnabled_After [OF s(1) [unfolded k(1)]] show ?thesis
    by (auto simp: enables_def enable_reply_def)
qed

lemma other_requests:
  "InstanceDisabled n st = Some (After msg k1) \<Longrightarrow> irm_type msg = RunDISABLED"
  "Subscribe_request n t st = Some (After msg k2) \<Longrightarrow> irm_type msg = RunSUBSCRIBE"
  by (auto simp: InstanceDisabled_def Subscribe_request_def mk_message_def bind_eq_Some_conv split: if_splits)

lemma Handle_enables: "Handle env h e m = Some (After msg k, m') \<Longrightarrow> enables msg k"
proof (cases "h = EnableHandler")
  case True
  then show "Handle env h e m = Some (After msg k, m') \<Longrightarrow> enables msg k"
    using EnableHandler_enables by (auto simp: Handle_def)
next
  case False
  assume H: "Handle env h e m = Some (After msg k, m')"
  have "irm_type msg \<noteq> RunENABLED"
    using False H by (cases h)
      (auto simp: Handle_def with_sched_def bind_eq_Some_conv DisableHandler_Handle_def mk_message_def
        SubscribeHandler_Handle_def UnsubscribeHandler_Handle_def PublishHandler_Handle_def Publish_request_def Let_def
        split: prod.splits list.splits if_splits dest!: map_stage_After sym [of _ "map_stage _ _"] dest: other_requests)
  then show "enables msg k" by (simp add: enables_def)
qed

lemma start_event_enables: "start_event env e m = Some (After msg k, m') \<Longrightarrow> enables msg k"
  by (auto simp: start_event_def bind_eq_Some_conv intro: Handle_enables)

subsection \<open>Where an answer comes from\<close>

text \<open>The run from \<open>s0\<close> to \<open>s\<close> has a state in which the scheduler took \<open>m0\<close> from the head of its queue,
  handled it and finished it as \<open>msg\<close>.\<close>

definition handled_in :: "('p, 'n) server_env \<Rightarrow> 'p system \<Rightarrow> 'p system \<Rightarrow> InstanceRunMessage \<Rightarrow> InstanceRunMessage \<Rightarrow> bool" where
  "handled_in env s0 s m0 msg = (\<exists>s1 q m1 st1. sys_reach env s0 s1 \<and> recvQueue (sched (mgr s1)) = m0 # q \<and>
     handle_msg m0 ((sched (mgr s1))\<lparr>recvQueue := q\<rparr>) = Some (m1, st1) \<and> msg = NotifyOne m1 \<and>
     sys_reach env (set_sched (st1\<lparr>notified := notified st1 @ [msg]\<rparr>) s1) s)"

lemma handled_in_step: "handled_in env s0 s m0 msg \<Longrightarrow> sys_step env s s' \<Longrightarrow> handled_in env s0 s' m0 msg"
  unfolding handled_in_def by (fast intro: reach_step)

definition asked_trace :: "('p, 'n) server_env \<Rightarrow> 'p system \<Rightarrow> 'p system \<Rightarrow> bool" where
  "asked_trace env s0 s = (\<forall>m0 ty k. asked s = Some (m0, ty, k) \<longrightarrow> enables m0 k \<and>
     (\<forall>m \<in> set (recvQueue (sched (mgr s))). awaited m \<longrightarrow> m = m0) \<and>
     (\<forall>m \<in> set (drop (seen s) (notified (sched (mgr s)))). awaited m \<longrightarrow> handled_in env s0 s m0 m))"

lemma asked_trace_same:
  assumes "asked_trace env s0 s" "sys_step env s s'" "asked s' = asked s" "seen s' = seen s"
    and "notified (sched (mgr s')) = notified (sched (mgr s))"
    and "filter awaited (recvQueue (sched (mgr s'))) = filter awaited (recvQueue (sched (mgr s)))"
  shows "asked_trace env s0 s'"
proof -
  have "awaited m \<Longrightarrow> m \<in> set (recvQueue (sched (mgr s'))) \<Longrightarrow> m \<in> set (recvQueue (sched (mgr s)))" for m
    using arg_cong [OF assms(6), of set] by auto
  with assms(1,3-5) handled_in_step [OF _ assms(2)] show ?thesis unfolding asked_trace_def by metis
qed

lemma asked_trace_send:
  assumes "wait_inv s" "asked s = None" "start_event env e ((mgr s)\<lparr>recvMessage := q\<rparr>) = Some (After msg k, m)"
  shows "asked_trace env s0 (s\<lparr>mgr := SendMsgToInstancRunHandler msg m, asked := Some (msg, ty, k)\<rparr>)"
proof -
  have u: "\<forall>m \<in> set (recvQueue (sched (mgr s))). \<not> awaited m"
    "\<forall>m \<in> set (drop (seen s) (notified (sched (mgr s)))). \<not> awaited m"
    using assms(1,2) by (auto simp: wait_inv_def under_way_def filter_empty_conv)
  with start_event_enables [OF assms(3)] start_event_props(3) [OF assms(3) refl] show ?thesis
    by (auto simp: asked_trace_def SendMsgToInstancRunHandler_def Push_def)
qed

lemma asked_trace_message:
  assumes "asked_trace env s0 s" "sys_reach env s0 s" "wait_inv s" "handle_one (False, sched (mgr s)) = Some (go, sd, st)"
  shows "asked_trace env s0 (set_sched st s)"
  using assms(4)
proof (cases rule: handle_one_cases)
  case stop
  with assms(1) show ?thesis by (simp add: set_sched_def)
next
  case (turn msg q msg1 st1)
  let ?st = "(sched (mgr s))\<lparr>recvQueue := q\<rparr>" and ?s = "set_sched st s"
  have step: "sys_step env s ?s" using assms(4) by (rule step_message)
  obtain r where r: "msg1 = msg\<lparr>irm_result := r\<rparr>" using handle_msg_result [OF turn(4)] by blast
  have ev: "frame ?st st1" "pushes ?st st1" using handle_msg_evolves [OF turn(4)] by (auto simp: evolves_def)
  have p: "polite_heap (\<lambda>m. \<not> awaited m) ?st" using assms(3) by (simp add: wait_inv_def)
  have q: "\<forall>m \<in> set (recvQueue st1). awaited m \<longrightarrow> m \<in> set q" using pushes_queue [OF ev(2) p] by auto
  have n: "notified st1 = notified (sched (mgr s))" using ev(1) by (simp add: frame_def)
  have h: "handled_in env s0 ?s msg (NotifyOne msg1)"
    using assms(2) turn(2,4,5) reach_refl [of env ?s] unfolding handled_in_def by blast
  show ?thesis
    unfolding asked_trace_def
  proof (intro allI impI)
    fix m0 ty k
    assume "asked ?s = Some (m0, ty, k)"
    then have a: "asked s = Some (m0, ty, k)" by (simp add: set_sched_def)
    then have t: "enables m0 k" "\<forall>m \<in> set (recvQueue (sched (mgr s))). awaited m \<longrightarrow> m = m0"
      "\<forall>m \<in> set (drop (seen s) (notified (sched (mgr s)))). awaited m \<longrightarrow> handled_in env s0 s m0 m"
      using assms(1) by (auto simp: asked_trace_def)
    have len: "seen s \<le> length (notified (sched (mgr s)))" using assms(3) by (simp add: wait_inv_def)
    have "\<forall>m \<in> set (drop (seen ?s) (notified (sched (mgr ?s)))). awaited m \<longrightarrow> handled_in env s0 ?s m0 m"
      using t(2,3) turn(2,5) n len h r handled_in_step [OF _ step] by (auto simp: set_sched_def NotifyOne_def)
    with t q turn(2,5) show "enables m0 k \<and> (\<forall>m \<in> set (recvQueue (sched (mgr ?s))). awaited m \<longrightarrow> m = m0) \<and>
        (\<forall>m \<in> set (drop (seen ?s) (notified (sched (mgr ?s)))). awaited m \<longrightarrow> handled_in env s0 ?s m0 m)"
      by (auto simp: set_sched_def)
  qed
qed

lemma asked_trace_step:
  assumes "sys_step env s s'" "asked_trace env s0 s" "sys_reach env s0 s" "wait_inv s"
  shows "asked_trace env s0 s'"
  using assms(1)
proof (cases rule: sys_step.cases)
  case (step_send e q msg k m)
  with asked_trace_send [OF assms(4) step_send(2,5)] show ?thesis by simp
next
  case (step_message go sd st)
  with asked_trace_message [OF assms(2-4)] show ?thesis by simp
next
  case (step_run go st)
  then have "frame (sched (mgr s)) st" "pushes (sched (mgr s)) st" using schedule_one_runs by (auto simp: runs_def)
  moreover have "polite_heap (\<lambda>m. \<not> awaited m) (sched (mgr s))" using assms(4) by (simp add: wait_inv_def)
  ultimately show ?thesis
    using step_run pushes_unawaited by (intro asked_trace_same [OF assms(2,1)]) (auto simp: set_sched_def frame_def)
next
  case (step_tick)
  then show ?thesis by (intro asked_trace_same [OF assms(2,1)]) (auto simp: set_sched_def AddTime_def)
qed (use asked_trace_same [OF assms(2,1)] in \<open>auto simp: asked_trace_def SendMsg_def\<close>)

lemma asked_trace_reach:
  assumes "sys_reach env s0 s" "libs_polite (\<lambda>m. \<not> awaited m) env" "wait_inv s0" "asked s0 = None"
  shows "asked_trace env s0 s"
  using assms
proof (induction rule: sys_reach.induct)
  case (reach_refl s)
  then show ?case by (simp add: asked_trace_def)
next
  case (reach_step s t u)
  with wait_reach [OF reach_step(1)] asked_trace_step [OF reach_step(2)] show ?case by blast
qed


subsection \<open>Waking up\<close>

text \<open>Only \<open>step_wake\<close> ends the wait of the manager, and it can as soon as the message is finished.\<close>

lemma wake_only:
  assumes "sys_step env s s'" "asked s = Some (m0, ty, k)" "asked s' = None"
  shows "\<exists>msg \<in> set (drop (seen s) (notified (sched (mgr s)))). awaited msg \<and> mgr s' = finish_event ty (k msg) (mgr s)"
  using assms by (cases rule: sys_step.cases) (auto simp: set_sched_def)

lemma wake_possible:
  assumes "asked s = Some (m0, ty, k)" "msg \<in> set (drop (seen s) (notified (sched (mgr s))))" "awaited msg"
  shows "\<exists>s'. sys_step env s s' \<and> asked s' = None"
proof -
  obtain pre m post where "drop (seen s) (notified (sched (mgr s))) = pre @ m # post" "awaited m" "\<forall>m \<in> set pre. \<not> awaited m"
    using split_list_first_prop [of "drop (seen s) (notified (sched (mgr s)))" awaited] assms(2,3) by blast
  from step_wake [OF assms(1) this, of env] show ?thesis by fastforce
qed

lemma EnableInstance_ok_enabled:
  assumes "EnableInstance n p st = Some (res, st')" "\<not> res_failed res"
  shows "\<exists>r i. GetInstance n (memoryStore st') = Some r \<and> at_ref r st' = Some i \<and> enabled i"
  using assms(1)
proof (cases rule: EnableInstance_cases)
  case (ran r i p ms t)
  then show ?thesis by (auto simp: called_def at_ref_iff)
qed (use assms(2) in auto)

text \<open>C1. However the two threads interleave: when the manager waits for an enable request, the message is
  still in the queue of the scheduler, or the scheduler has taken it from the head of the queue in
  some earlier state and run \<open>EnableInstance\<close> on it there, with a result \<open>res\<close>. In the latter case the
  manager can wake up, and however it wakes up, the answer it sends is OK if \<open>res\<close> is not a failure,
  and then the instance was enabled, and else the error with the text of the plugin, or the
  text of \<open>ENABLE_INSTANCE_ENV\<close> when the plugin gave none. The plugins push only messages nobody
  waits for (\<open>Subscribe\<close>, \<open>Unsubscribe\<close> and \<open>Publish\<close> of \<open>Interface\<close> do), and the scheduler is not
  in its shutdown.\<close>

theorem enable_request_answered:
  assumes "sys_reach env s0 s" "sys_start s0" "polite_heap (\<lambda>m. \<not> awaited m) (sched (mgr s0))"
    and "libs_polite (\<lambda>m. \<not> awaited m) env" "asked s = Some (m0, ty, k)" "irm_type m0 = RunENABLED"
  shows "\<exists>n p. irm_payload m0 = [n, p] \<and>
    (m0 \<in> set (recvQueue (sched (mgr s))) \<or>
     (\<exists>s1 q res st1. sys_reach env s0 s1 \<and> recvQueue (sched (mgr s1)) = m0 # q \<and>
        EnableInstance n p ((sched (mgr s1))\<lparr>recvQueue := q\<rparr>) = Some (res, st1) \<and>
        sys_reach env (set_sched (st1\<lparr>notified := notified st1 @ [NotifyOne (m0\<lparr>irm_result := res\<rparr>)]\<rparr>) s1) s \<and>
        (\<not> res_failed res \<longrightarrow> (\<exists>r i. GetInstance n (memoryStore st1) = Some r \<and> at_ref r st1 = Some i \<and> enabled i)) \<and>
        (\<exists>s'. sys_step env s s' \<and> asked s' = None) \<and>
        (\<forall>s'. sys_step env s s' \<and> asked s' = None \<longrightarrow> mgr s' = finish_event ty
          (if res_failed res then error_reply (if payload res = [] then GetErrorText ENABLE_INSTANCE_ENV else payload res)
           else ok_reply []) (mgr s))))"
proof -
  have w0: "wait_inv s0" using start_invs(2) [OF assms(2,3)] .
  have w: "wait_inv s" using wait_reach [OF assms(1,4) w0] .
  have a0: "asked s0 = None" using assms(2) by (simp add: sys_start_def)
  have tr: "enables m0 k" "\<forall>m \<in> set (recvQueue (sched (mgr s))). awaited m \<longrightarrow> m = m0"
    "\<forall>m \<in> set (drop (seen s) (notified (sched (mgr s)))). awaited m \<longrightarrow> handled_in env s0 s m0 m"
    using asked_trace_reach [OF assms(1,4) w0 a0] assms(5) by (auto simp: asked_trace_def)
  obtain n p where np: "irm_payload m0 = [n, p]" "\<forall>msg. k msg = enable_reply (irm_result msg)"
    using tr(1) assms(6) by (auto simp: enables_def)
  obtain m where m: "under_way s = [m]" using w assms(5) by (auto simp: wait_inv_def)
  then have "m \<in> set (under_way s)" by simp
  then consider "m \<in> set (recvQueue (sched (mgr s)))" "awaited m"
    | "m \<in> set (drop (seen s) (notified (sched (mgr s))))" "awaited m"
    by (auto simp: under_way_def)
  then show ?thesis
  proof cases
    case 1
    with tr(2) np(1) show ?thesis by blast
  next
    case 2
    then obtain s1 q m1 st1 where h: "sys_reach env s0 s1" "recvQueue (sched (mgr s1)) = m0 # q"
      "handle_msg m0 ((sched (mgr s1))\<lparr>recvQueue := q\<rparr>) = Some (m1, st1)" "m = NotifyOne m1"
      "sys_reach env (set_sched (st1\<lparr>notified := notified st1 @ [m]\<rparr>) s1) s"
      using tr(3) by (auto simp: handled_in_def)
    then obtain res where res: "EnableInstance n p ((sched (mgr s1))\<lparr>recvQueue := q\<rparr>) = Some (res, st1)"
      "m1 = m0\<lparr>irm_result := res\<rparr>"
      using assms(6) np(1) by (auto simp: handle_msg_def bind_eq_Some_conv)
    have all: "mgr s' = finish_event ty (enable_reply res) (mgr s)" if st: "sys_step env s s'" "asked s' = None" for s'
    proof -
      obtain msg where "msg \<in> set (drop (seen s) (notified (sched (mgr s))))" "awaited msg"
        "mgr s' = finish_event ty (k msg) (mgr s)" using wake_only [OF st(1) assms(5) st(2)] by blast
      moreover from this(1,2) have "msg \<in> set (under_way s)" by (simp add: under_way_def)
      then have "msg = m" using m by simp
      ultimately show ?thesis using np(2) h(4) res(2) by (simp add: NotifyOne_def)
    qed
    show ?thesis
      using np(1) h res wake_possible [OF assms(5) 2] all EnableInstance_ok_enabled [OF res(1)]
      unfolding enable_reply_def by blast
  qed
qed

theorem enable_request_answered_witness:
  "\<exists>s s' res. sys_reach demo_env demo_sys s \<and> sys_step demo_env s s' \<and> asked s' = None \<and>
     sendMessage (mgr s) = [] \<and> sendMessage (mgr s') = [enable_reply res]"
proof -
  obtain k where k: "sys_step demo_env demo_asked (demo_waiting k)" using demo_step2 by blast
  let ?s = "set_sched demo_answered (demo_waiting k)"
  have r: "sys_reach demo_env demo_sys ?s"
    by (meson reach_refl reach_step demo_step1 k demo_step3)
  have "polite_heap (\<lambda>m. \<not> awaited m) (sched (mgr demo_sys))"
    using demo_polite [of _ 0 100 "[]"] by (simp add: demo_sys_def demo_mgr_def InitEventHandler_def)
  moreover have "libs_polite (\<lambda>m. \<not> awaited m) demo_env"
    by (auto simp: libs_polite_def demo_env_def polite_def demo_ifc_def)
  moreover have "asked ?s = Some (demo_message, EXTERNAL, k)" by (simp add: set_sched_def demo_waiting_def)
  moreover have "irm_type demo_message = RunENABLED" by (simp add: demo_message_def mk_message_def)
  moreover have "demo_message \<notin> set (recvQueue (sched (mgr ?s)))" by (simp add: set_sched_def demo_answered_def demo_defs)
  ultimately obtain res s' where "sys_step demo_env ?s s'" "asked s' = None"
    "mgr s' = finish_event EXTERNAL (enable_reply res) (mgr ?s)"
    using enable_request_answered [OF r demo_sys_start] unfolding enable_reply_def by metis
  moreover have "sendMessage (mgr ?s) = []"
    by (simp add: set_sched_def demo_waiting_def demo_mgr_def InitEventHandler_def SendMsgToInstancRunHandler_def)
  ultimately show ?thesis using r by (intro exI [of _ ?s] exI [of _ s'] exI [of _ res]) (simp add: finish_event_def Push_def)
qed

end
