(* ===== verification/Queue_Threads.thy ===== *)
theory Queue_Threads
  imports Safe_Queue
begin

text \<open>
  \<open>SafeQueue\<close> statement by statement: any number of threads call the methods of
  \<^verbatim>\<open>include/oeaware/safe_queue.h\<close> on one queue, and every statement (taking the lock, testing
  the queue, \<open>push_back\<close>, \<open>notify_one\<close>, reading \<open>front\<close>, \<open>pop_front\<close>, the destructor of the
  lock) is a step of its own. \<open>front\<close> and \<open>pop_front\<close> on an empty deque crash. A thread in
  \<open>cond.wait\<close> has released the lock, is woken by \<open>notify_one\<close>, by nobody (a spurious wake-up)
  or, in \<open>wait_for\<close>, by the timeout, and takes the lock again before it tests the queue.

  The main result is that every interleaving is a sequence of whole methods: the calls that
  have returned, in the order they released the lock, have the results and the effect of the
  definitions of \<open>Safe_Queue\<close>.
\<close>

subsection \<open>Threads and their program counters\<close>

datatype 'a call = CallPush 'a | CallTryPop | CallWaitAndPop | CallWaitTimeAndPop | CallEmpty

datatype 'a ret = Sent | Got 'a | Missed | IsEmpty bool

text \<open>
  Where a thread is: outside, before the lock, at the first statement under the lock, before
  \<open>notify_one\<close>, inside \<open>cond.wait\<close>, woken, timed out, at the last test of \<open>wait_for\<close>, before
  \<open>value = queue.front()\<close>, before \<open>queue.pop_front()\<close>, before the release of the lock, crashed.
\<close>

datatype 'a pc =
    Outside
  | Acquire "'a call"
  | Body "'a call"
  | Notify "'a call"
  | Waiting "'a call"
  | Woken "'a call"
  | TimedOut "'a call"
  | LastTest "'a call"
  | Front "'a call"
  | PopFront "'a call" 'a
  | Release "'a call" "'a ret"
  | Crashed

record 'a machine =
  mutex :: "nat option"
  deque :: "'a SafeQueue"
  threads :: "'a pc list"
  history :: "('a call \<times> 'a ret) list"

text \<open>What the scheduler decides: which thread moves (below), and how where there is a choice.\<close>

datatype 'a choice = Invoke "'a call" | Go | Wake nat | Spurious | Timeout

definition goto :: "nat \<Rightarrow> 'a pc \<Rightarrow> 'a machine \<Rightarrow> 'a machine" where
  "goto t p m = m\<lparr>threads := (threads m)[t := p]\<rparr>"

text \<open>\<open>std::unique_lock lock(mutex)\<close>, also at the end of a wait: it blocks while the lock is held.\<close>

definition lock :: "nat \<Rightarrow> 'a pc \<Rightarrow> 'a machine \<Rightarrow> 'a machine option" where
  "lock t p m = (if mutex m = None then Some (goto t p (m\<lparr>mutex := Some t\<rparr>)) else None)"

text \<open>The first statement under the lock of each method; a wait with a false predicate releases it.\<close>

fun body :: "nat \<Rightarrow> 'a call \<Rightarrow> 'a machine \<Rightarrow> 'a machine" where
  "body t (CallPush v) m = goto t (Notify (CallPush v)) (m\<lparr>deque := deque m @ [v]\<rparr>)"
| "body t CallTryPop m =
     (if deque m = [] then goto t (Release CallTryPop Missed) m else goto t (Front CallTryPop) m)"
| "body t CallWaitAndPop m =
     (if deque m = [] then goto t (Waiting CallWaitAndPop) (m\<lparr>mutex := None\<rparr>) else goto t (Front CallWaitAndPop) m)"
| "body t CallWaitTimeAndPop m =
     (if deque m = [] then goto t (Waiting CallWaitTimeAndPop) (m\<lparr>mutex := None\<rparr>) else goto t (Front CallWaitTimeAndPop) m)"
| "body t CallEmpty m = goto t (Release CallEmpty (IsEmpty (deque m = []))) m"

fun is_waiting :: "'a pc \<Rightarrow> bool" where
  "is_waiting (Waiting c) = True"
| "is_waiting _ = False"

text \<open>\<open>notify_one\<close> wakes one of the waiting threads, if there is one.\<close>

definition notify :: "nat \<Rightarrow> 'a call \<Rightarrow> 'a choice \<Rightarrow> 'a machine \<Rightarrow> 'a machine option" where
  "notify t c ch m =
     (case ch of
        Wake u \<Rightarrow> if u < length (threads m) then
            (case threads m ! u of Waiting d \<Rightarrow> Some (goto t (Release c Sent) (goto u (Woken d) m)) | _ \<Rightarrow> None)
          else None
      | Go \<Rightarrow> if list_ex is_waiting (threads m) then None else Some (goto t (Release c Sent) m)
      | _ \<Rightarrow> None)"

definition thread_step :: "nat \<Rightarrow> 'a choice \<Rightarrow> 'a machine \<Rightarrow> 'a machine option" where
  "thread_step t ch m =
     (if length (threads m) \<le> t then None else
      case threads m ! t of
        Outside \<Rightarrow> (case ch of Invoke c \<Rightarrow> Some (goto t (Acquire c) m) | _ \<Rightarrow> None)
      | Acquire c \<Rightarrow> lock t (Body c) m
      | Body c \<Rightarrow> Some (body t c m)
      | Notify c \<Rightarrow> notify t c ch m
      | Waiting c \<Rightarrow> (case ch of
            Spurious \<Rightarrow> Some (goto t (Woken c) m)
          | Timeout \<Rightarrow> if c = CallWaitTimeAndPop then Some (goto t (TimedOut c) m) else None
          | _ \<Rightarrow> None)
      | Woken c \<Rightarrow> lock t (Body c) m
      | TimedOut c \<Rightarrow> lock t (LastTest c) m
      | LastTest c \<Rightarrow> Some (if deque m = [] then goto t (Release c Missed) m else goto t (Front c) m)
      | Front c \<Rightarrow> Some (case deque m of [] \<Rightarrow> goto t Crashed m | v # _ \<Rightarrow> goto t (PopFront c v) m)
      | PopFront c v \<Rightarrow> Some (case deque m of [] \<Rightarrow> goto t Crashed m
          | _ # q \<Rightarrow> goto t (Release c (Got v)) (m\<lparr>deque := q\<rparr>))
      | Release c r \<Rightarrow> Some (goto t Outside (m\<lparr>mutex := None, history := history m @ [(c, r)]\<rparr>))
      | Crashed \<Rightarrow> None)"

text \<open>\<open>n\<close> threads that start on a queue with the contents \<open>q\<close>, under every scheduler.\<close>

definition start :: "nat \<Rightarrow> 'a SafeQueue \<Rightarrow> 'a machine" where
  "start n q = \<lparr>mutex = None, deque = q, threads = replicate n Outside, history = []\<rparr>"

inductive reached :: "nat \<Rightarrow> 'a SafeQueue \<Rightarrow> 'a machine \<Rightarrow> bool" for n q where
  begins: "reached n q (start n q)"
| moves: "reached n q m \<Longrightarrow> thread_step t ch m = Some m' \<Longrightarrow> reached n q m'"

fun run_schedule :: "(nat \<times> 'a choice) list \<Rightarrow> 'a machine \<Rightarrow> 'a machine option" where
  "run_schedule [] m = Some m"
| "run_schedule ((t, ch) # es) m = Option.bind (thread_step t ch m) (run_schedule es)"

lemma run_schedule_reached:
  "reached n q m \<Longrightarrow> run_schedule es m = Some m' \<Longrightarrow> reached n q m'"
  by (induction es m rule: run_schedule.induct) (auto split: bind_splits intro: moves)

subsection \<open>The specification: whole methods one after the other\<close>

text \<open>A call on the deque as one step; \<open>None\<close> where the call cannot return.\<close>

fun spec_call :: "'a call \<Rightarrow> 'a SafeQueue \<Rightarrow> ('a ret \<times> 'a SafeQueue) option" where
  "spec_call (CallPush v) q = Some (Sent, Push q v)"
| "spec_call CallTryPop q = Some (case TryPop q of None \<Rightarrow> (Missed, q) | Some (v, q') \<Rightarrow> (Got v, q'))"
| "spec_call CallWaitAndPop q = map_option (\<lambda>(v, q'). (Got v, q')) (WaitAndPop q [])"
| "spec_call CallWaitTimeAndPop q =
     Some (case WaitTimeAndPop q [] of (None, q') \<Rightarrow> (Missed, q') | (Some v, q') \<Rightarrow> (Got v, q'))"
| "spec_call CallEmpty q = Some (IsEmpty (Empty q), q)"

text \<open>The deque after a history of calls, if every call has the result the history says.\<close>

fun replay :: "'a SafeQueue \<Rightarrow> ('a call \<times> 'a ret) list \<Rightarrow> 'a SafeQueue option" where
  "replay q [] = Some q"
| "replay q ((c, r) # h) =
     (case spec_call c q of None \<Rightarrow> None | Some (r', q') \<Rightarrow> if r = r' then replay q' h else None)"

lemma replay_append: "replay q (h @ h') = Option.bind (replay q h) (\<lambda>q'. replay q' h')"
  by (induction q h rule: replay.induct) (auto split: option.splits)

lemma replay_snoc:
  "replay q h = Some q1 \<Longrightarrow> spec_call c q1 = Some (r, q2) \<Longrightarrow> replay q (h @ [(c, r)]) = Some q2"
  by (simp add: replay_append)

subsection \<open>Values sent and received\<close>

fun sent_in :: "('a call \<times> 'a ret) list \<Rightarrow> 'a list" where
  "sent_in [] = []"
| "sent_in ((CallPush v, _) # h) = v # sent_in h"
| "sent_in (_ # h) = sent_in h"

fun got_in :: "('a call \<times> 'a ret) list \<Rightarrow> 'a list" where
  "got_in [] = []"
| "got_in ((_, Got v) # h) = v # got_in h"
| "got_in (_ # h) = got_in h"

text \<open>The history as operations of the contract \<open>fifo_queue\<close>.\<close>

fun ops_of :: "('a call \<times> 'a ret) list \<Rightarrow> 'a queue_op list" where
  "ops_of [] = []"
| "ops_of ((CallPush v, _) # h) = QPush v # ops_of h"
| "ops_of ((_, Got v) # h) = QPop # ops_of h"
| "ops_of (_ # h) = ops_of h"

lemma waits_now: "WaitAndPop q [] = TryPop q"
  "WaitTimeAndPop q [] = (case TryPop q of None \<Rightarrow> (None, []) | Some (v, q') \<Rightarrow> (Some v, q'))"
  by (cases q; simp add: WaitAndPop_def WaitTimeAndPop_def after_wait_eq)+

lemma pushed_ops_of: "sq.pushed (ops_of h) = sent_in h"
  by (induction h rule: ops_of.induct) auto

lemma replay_run:
  "replay q h = Some q' \<Longrightarrow> sq.run q (ops_of h) = (q', got_in h)"
proof (induction q h rule: replay.induct)
  case (1 q)
  then show ?case by simp
next
  case (2 q c r h)
  then obtain q1 where c: "spec_call c q = Some (r, q1)" "replay q1 h = Some q'"
    by (auto split: option.splits if_splits)
  with 2 have "sq.run q1 (ops_of h) = (q', got_in h)" by simp
  with c(1) show ?case
    by (cases c; cases q) (auto simp: waits_now Empty_def)
qed

lemma replay_fifo: "replay q h = Some q' \<Longrightarrow> got_in h @ q' = q @ sent_in h"
  using sq.run_contents [OF replay_run] by (simp add: pushed_ops_of)

subsection \<open>The invariant: one thread under the lock, in the middle of one method\<close>

text \<open>The program counters under the lock, and what they know of the deque \<open>q0\<close> at its acquisition.\<close>

fun in_critical :: "'a pc \<Rightarrow> bool" where
  "in_critical (Body _) = True"
| "in_critical (Notify _) = True"
| "in_critical (LastTest _) = True"
| "in_critical (Front _) = True"
| "in_critical (PopFront _ _) = True"
| "in_critical (Release _ _) = True"
| "in_critical _ = False"

fun pops :: "'a call \<Rightarrow> bool" where
  "pops CallTryPop = True"
| "pops CallWaitAndPop = True"
| "pops CallWaitTimeAndPop = True"
| "pops _ = False"

fun progress :: "'a pc \<Rightarrow> 'a SafeQueue \<Rightarrow> 'a SafeQueue \<Rightarrow> bool" where
  "progress (Body c) q0 q = (q = q0)"
| "progress (Notify c) q0 q = (spec_call c q0 = Some (Sent, q))"
| "progress (LastTest c) q0 q = (c = CallWaitTimeAndPop \<and> q = q0)"
| "progress (Front c) q0 q = (pops c \<and> q \<noteq> [] \<and> q = q0)"
| "progress (PopFront c v) q0 q = (pops c \<and> (\<exists>q'. q = v # q') \<and> q = q0)"
| "progress (Release c r) q0 q = (spec_call c q0 = Some (r, q))"
| "progress _ q0 q = False"

text \<open>Outside the critical section only the calls that wait can be in a wait.\<close>

fun pc_ok :: "'a pc \<Rightarrow> bool" where
  "pc_ok (Waiting c) = (c = CallWaitAndPop \<or> c = CallWaitTimeAndPop)"
| "pc_ok (Woken c) = (c = CallWaitAndPop \<or> c = CallWaitTimeAndPop)"
| "pc_ok (TimedOut c) = (c = CallWaitTimeAndPop)"
| "pc_ok Crashed = False"
| "pc_ok _ = True"

definition exclusive :: "'a machine \<Rightarrow> bool" where
  "exclusive m = (\<forall>t < length (threads m). in_critical (threads m ! t) \<longleftrightarrow> mutex m = Some t)"

definition explained :: "'a SafeQueue \<Rightarrow> 'a machine \<Rightarrow> bool" where
  "explained q m = (case mutex m of
      None \<Rightarrow> replay q (history m) = Some (deque m)
    | Some t \<Rightarrow> t < length (threads m) \<and>
        (\<exists>q0. replay q (history m) = Some q0 \<and> progress (threads m ! t) q0 (deque m)))"

definition machine_inv :: "nat \<Rightarrow> 'a SafeQueue \<Rightarrow> 'a machine \<Rightarrow> bool" where
  "machine_inv n q m = (length (threads m) = n \<and> (\<forall>p \<in> set (threads m). pc_ok p) \<and> exclusive m \<and> explained q m)"

lemma goto_simps [simp]:
  "mutex (goto t p m) = mutex m" "deque (goto t p m) = deque m" "history (goto t p m) = history m"
  "threads (goto t p m) = (threads m)[t := p]"
  by (simp_all add: goto_def)


lemma nth_threads: "t < length xs \<Longrightarrow> u < length xs \<Longrightarrow> xs[t := p] ! u = (if u = t then p else xs ! u)"
  by simp

text \<open>The four ways a step changes the lock: not at all, outside or inside it, taking or releasing it.\<close>

lemma inv_outside:
  assumes "machine_inv n q m" "t < n" "\<not> in_critical (threads m ! t)" "\<not> in_critical p" "pc_ok p"
  shows "machine_inv n q (goto t p m)"
  using assms by (auto simp: machine_inv_def exclusive_def explained_def nth_threads all_set_conv_all_nth split: option.splits)

lemma inv_lock:
  assumes "machine_inv n q m" "t < n" "lock t p m = Some m'" "in_critical p" "pc_ok p" "progress p (deque m) (deque m)"
  shows "machine_inv n q m'"
  using assms by (auto simp: machine_inv_def exclusive_def explained_def nth_threads all_set_conv_all_nth lock_def
      split: option.splits if_splits)

lemma inv_inside:
  assumes "machine_inv n q m" "t < n" "in_critical (threads m ! t)" "in_critical p" "pc_ok p"
    and "\<And>q0. progress (threads m ! t) q0 (deque m) \<Longrightarrow> progress p q0 d"
  shows "machine_inv n q (goto t p (m\<lparr>deque := d\<rparr>))"
  using assms by (auto simp: machine_inv_def exclusive_def explained_def nth_threads all_set_conv_all_nth split: option.splits)

lemma inv_unlock:
  assumes "machine_inv n q m" "t < n" "in_critical (threads m ! t)" "\<not> in_critical p" "pc_ok p"
    and "\<And>q0. replay q (history m) = Some q0 \<Longrightarrow> progress (threads m ! t) q0 (deque m) \<Longrightarrow> replay q h = Some (deque m)"
  shows "machine_inv n q (goto t p (m\<lparr>mutex := None, history := h\<rparr>))"
proof -
  have m: "mutex m = Some t" using assms(1-3) by (simp add: machine_inv_def exclusive_def)
  with assms show ?thesis
    by (auto simp: machine_inv_def exclusive_def explained_def nth_threads all_set_conv_all_nth)
qed

lemma spec_pop: "pops c \<Longrightarrow> spec_call c (v # q) = Some (Got v, q)"
  by (cases c) (auto simp: waits_now)

lemma body_inv:
  assumes "machine_inv n q m" "t < n" "threads m ! t = Body c"
  shows "machine_inv n q (body t c m)"
proof -
  have inside: "machine_inv n q (goto t p (m\<lparr>deque := d\<rparr>))" if "in_critical p" "pc_ok p" "progress p (deque m) d" for p d
    using inv_inside [of n q m t p d] assms that by simp
  have wait: "machine_inv n q (goto t (Waiting c) (m\<lparr>mutex := None\<rparr>))" if "pc_ok (Waiting c)"
    using inv_unlock [of n q m t "Waiting c" "history m"] assms that by simp
  show ?thesis
    using inside [of _ "deque m"] inside wait by (cases c) (auto simp: Push_def waits_now Empty_def)
qed

lemma notify_inv:
  assumes "machine_inv n q m" "t < n" "threads m ! t = Notify c" "notify t c ch m = Some m'"
  shows "machine_inv n q m'"
proof -
  have rel: "machine_inv n q (goto t (Release c Sent) m1)" if "machine_inv n q m1" "threads m1 ! t = Notify c" for m1
    using inv_inside [of n q m1 t "Release c Sent" "deque m1"] that assms(2) by simp
  show ?thesis
  proof (cases "\<exists>u. ch = Wake u")
    case True
    then obtain u d where u: "u < n" "threads m ! u = Waiting d" "m' = goto t (Release c Sent) (goto u (Woken d) m)"
      using assms(1,4) by (auto simp: notify_def machine_inv_def split: if_splits pc.splits)
    moreover have "pc_ok (Waiting d)" using assms(1) u(1,2) by (metis machine_inv_def nth_mem)
    ultimately have "machine_inv n q (goto u (Woken d) m)" using inv_outside [OF assms(1) u(1)] by simp
    moreover have "u \<noteq> t" using u assms(3) by auto
    ultimately show ?thesis using rel [of "goto u (Woken d) m"] u(3) assms(3) by simp
  next
    case False
    with assms(4) have "m' = goto t (Release c Sent) m" by (auto simp: notify_def split: choice.splits if_splits)
    with rel assms show ?thesis by simp
  qed
qed

lemma thread_step_inv:
  assumes inv: "machine_inv n q m" and st: "thread_step t ch m = Some m'"
  shows "machine_inv n q m'"
proof -
  have t: "t < n" using assms by (auto simp: thread_step_def machine_inv_def split: if_splits)
  have ok: "pc_ok (threads m ! t)" using inv t by (metis machine_inv_def nth_mem)
  have step: "thread_step t ch m = Some m'" "\<not> length (threads m) \<le> t" using st t inv by (auto simp: machine_inv_def)
  have same: "m\<lparr>deque := deque m\<rparr> = m" by simp
  have known: "\<exists>q0. progress (threads m ! t) q0 (deque m)" if "in_critical (threads m ! t)"
    using inv t that by (auto simp: machine_inv_def exclusive_def explained_def split: option.splits)
  note inside = inv_inside [OF inv t, of _ "deque m", unfolded same]
  show ?thesis
  proof (cases "threads m ! t")
    case (Acquire c)
    with step inv_lock [OF inv t, of "Body c" m'] show ?thesis by (auto simp: thread_step_def)
  next
    case (Woken c)
    with step inv_lock [OF inv t, of "Body c" m'] show ?thesis by (auto simp: thread_step_def)
  next
    case (TimedOut c)
    with step ok inv_lock [OF inv t, of "LastTest c" m'] show ?thesis by (auto simp: thread_step_def)
  next
    case (Body c)
    with step body_inv [OF inv t] show ?thesis by (auto simp: thread_step_def)
  next
    case (Notify c)
    with step notify_inv [OF inv t] show ?thesis by (auto simp: thread_step_def)
  next
    case (LastTest c)
    with step inside [of "Front c"] inside [of "Release c Missed"] show ?thesis
      by (auto simp: thread_step_def waits_now split: if_splits)
  next
    case (Front c)
    then obtain v d where "deque m = v # d" using known by (auto simp: neq_Nil_conv)
    with Front step inside [of "PopFront c v"] show ?thesis by (auto simp: thread_step_def)
  next
    case (PopFront c v)
    then obtain d where "deque m = v # d" using known by auto
    with PopFront step inv_inside [OF inv t, of "Release c (Got v)" d] show ?thesis
      by (auto simp: thread_step_def spec_pop)
  next
    case (Release c r)
    with step inv_unlock [OF inv t, of Outside "history m @ [(c, r)]"] show ?thesis
      by (auto simp: thread_step_def intro: replay_snoc)
  qed (use step ok inv_outside [OF inv t] in \<open>auto simp: thread_step_def split: choice.splits if_splits\<close>)
qed

lemma reached_inv: "reached n q m \<Longrightarrow> machine_inv n q m"
proof (induction rule: reached.induct)
  case begins
  show ?case by (auto simp: machine_inv_def start_def exclusive_def explained_def)
qed (rule thread_step_inv)

subsection \<open>No wake-up is lost\<close>

text \<open>A thread that takes an element before it leaves or sleeps, or that is about to wake one up.\<close>

fun awake :: "'a pc \<Rightarrow> bool" where
  "awake (Body c) = pops c"
| "awake (Notify _) = True"
| "awake (Woken _) = True"
| "awake (TimedOut _) = True"
| "awake (LastTest _) = True"
| "awake (Front _) = True"
| "awake (PopFront _ _) = True"
| "awake _ = False"

definition awakes :: "'a machine \<Rightarrow> nat" where
  "awakes m = length (filter awake (threads m))"

definition no_lost :: "'a machine \<Rightarrow> bool" where
  "no_lost m = (list_ex is_waiting (threads m) \<longrightarrow> length (deque m) \<le> awakes m)"

lemma filter_update:
  "t < length xs \<Longrightarrow> length (filter P (xs[t := x])) + of_bool (P (xs ! t)) = length (filter P xs) + of_bool (P x)"
proof (induction xs arbitrary: t)
  case (Cons y xs)
  then show ?case by (cases t) auto
qed simp


lemma awakes_goto:
  "t < length (threads m) \<Longrightarrow> awakes (goto t p m) + of_bool (awake (threads m ! t)) = awakes m + of_bool (awake p)"
  by (simp add: awakes_def filter_update)

lemma waiting_update: "list_ex is_waiting (xs[t := p]) \<Longrightarrow> \<not> is_waiting p \<Longrightarrow> list_ex is_waiting xs"
  using set_update_subset_insert [of xs t p] by (auto simp: list_ex_iff)

lemma no_lost_goto:
  assumes "no_lost m" "t < length (threads m)" "d = [] \<or> \<not> is_waiting p \<and> length d + of_bool (awake (threads m ! t)) \<le> length (deque m) + of_bool (awake p)"
  shows "no_lost (goto t p (m\<lparr>mutex := k, deque := d, history := h\<rparr>))"
proof (cases "d = []")
  case False
  have "awakes (goto t p (m\<lparr>mutex := k, deque := d, history := h\<rparr>)) = awakes (goto t p m)" by (simp add: awakes_def)
  with False assms awakes_goto [OF assms(2), of p] waiting_update [of "threads m" t p] show ?thesis
    by (auto simp: no_lost_def)
qed (simp add: no_lost_def)

lemma machine_same: "m = m\<lparr>mutex := mutex m, deque := deque m, history := history m\<rparr>"
  by simp

lemma notify_no_lost:
  assumes "no_lost m" "t < length (threads m)" "threads m ! t = Notify c" "notify t c ch m = Some m'"
  shows "no_lost m'"
proof (cases "\<exists>u. ch = Wake u")
  case True
  then obtain u d where u: "u < length (threads m)" "threads m ! u = Waiting d"
      "m' = goto t (Release c Sent) (goto u (Woken d) m)"
    using assms(4) by (auto simp: notify_def split: if_splits pc.splits)
  moreover from u assms(3) have "u \<noteq> t" by auto
  ultimately have "awakes m' = awakes m"
    using awakes_goto [of t "goto u (Woken d) m" "Release c Sent"] awakes_goto [OF u(1), of "Woken d"] assms(2,3) by simp
  moreover have "list_ex is_waiting (threads m)" using u(1,2) by (force simp: list_ex_iff in_set_conv_nth)
  ultimately show ?thesis using assms(1) u(3) by (simp add: no_lost_def)
next
  case False
  then have "\<not> list_ex is_waiting (threads m)" "m' = goto t (Release c Sent) m"
    using assms(4) by (auto simp: notify_def split: choice.splits if_splits)
  then show ?thesis using waiting_update [of "threads m" t "Release c Sent"] by (auto simp: no_lost_def)
qed

lemma body_no_lost:
  assumes "no_lost m" "t < length (threads m)" "threads m ! t = Body c"
  shows "no_lost (body t c m)"
proof -
  note push = no_lost_goto [OF assms(1,2), where k = "mutex m" and h = "history m"]
    and go = no_lost_goto [OF assms(1,2), where d = "deque m" and k = "mutex m" and h = "history m", unfolded machine_same [symmetric]]
    and wait = no_lost_goto [OF assms(1,2), where d = "deque m" and k = None and h = "history m", simplified]
  show ?thesis
  proof (cases c)
    case (CallPush v)
    with push [of "deque m @ [v]" "Notify c"] assms(3) show ?thesis by simp
  qed (use assms(3) in \<open>auto intro: go wait\<close>)
qed

lemma thread_step_no_lost:
  assumes inv: "machine_inv n q m" and nl: "no_lost m" and st: "thread_step t ch m = Some m'"
  shows "no_lost m'"
proof -
  have t: "t < length (threads m)" using st by (auto simp: thread_step_def split: if_splits)
  have known: "\<exists>q0. progress (threads m ! t) q0 (deque m)" if "in_critical (threads m ! t)"
    using inv t that by (auto simp: machine_inv_def exclusive_def explained_def split: option.splits)
  have ok: "pc_ok (threads m ! t)" using inv t by (metis machine_inv_def nth_mem)
  note go = no_lost_goto [OF nl t, where d = "deque m" and k = "mutex m" and h = "history m", unfolded machine_same [symmetric]]
  note locks = no_lost_goto [OF nl t, where d = "deque m" and k = "Some t" and h = "history m", simplified]
  show ?thesis
  proof (cases "threads m ! t")
    case (Body c)
    with st t body_no_lost [OF nl t] show ?thesis by (auto simp: thread_step_def)
  next
    case (Notify c)
    with st t notify_no_lost [OF nl t] show ?thesis by (auto simp: thread_step_def)
  next
    case (PopFront c v)
    then obtain d where "deque m = v # d" using known by auto
    with PopFront st t no_lost_goto [OF nl t, where p = "Release c (Got v)" and d = d and k = "mutex m" and h = "history m"] show ?thesis
      by (auto simp: thread_step_def)
  next
    case (Front c)
    then obtain v d where "deque m = v # d" using known by (auto simp: neq_Nil_conv)
    with Front st t go [of "PopFront c v"] show ?thesis by (auto simp: thread_step_def)
  next
    case (Release c r)
    with st t no_lost_goto [OF nl t, where p = Outside and d = "deque m" and k = None and h = "history m @ [(c, r)]"] show ?thesis
      by (auto simp: thread_step_def)
  qed (use st t ok in \<open>auto simp: thread_step_def lock_def split: choice.splits if_splits intro: go locks\<close>)
qed

lemma reached_no_lost: "reached n q m \<Longrightarrow> no_lost m"
proof (induction rule: reached.induct)
  case begins
  show ?case by (auto simp: no_lost_def start_def list_ex_iff)
next
  case (moves m t ch m')
  with thread_step_no_lost reached_inv show ?case by blast
qed

text \<open>C14. However any number of threads interleave the statements of \<open>Push\<close>, \<open>TryPop\<close>, \<open>WaitAndPop\<close>,
  \<open>WaitTimeAndPop\<close> and \<open>Empty\<close> on one \<open>SafeQueue\<close>, with spurious wake-ups and timeouts at any
  moment: no thread reads or removes the front of an empty deque; at most one thread is under
  the lock; whenever the lock is free, the calls that have returned have the results and the
  effect of the whole methods one after the other, and the values the pops returned, followed
  by what is left, are the initial contents followed by the pushed values, so no message is
  lost, duplicated or reordered; and while a thread sleeps in a wait, there are at least as
  many threads awake to take an element (or about to wake another up) as there are elements.\<close>

theorem SafeQueue_linearizable:
  assumes "reached n q m"
  shows "Crashed \<notin> set (threads m) \<and>
    (\<forall>t u. t < n \<and> u < n \<and> in_critical (threads m ! t) \<and> in_critical (threads m ! u) \<longrightarrow> t = u) \<and>
    (mutex m = None \<longrightarrow> replay q (history m) = Some (deque m) \<and>
       got_in (history m) @ deque m = q @ sent_in (history m)) \<and>
    (list_ex is_waiting (threads m) \<longrightarrow> length (deque m) \<le> awakes m)"
proof -
  have inv: "machine_inv n q m" using assms by (rule reached_inv)
  then have "Crashed \<notin> set (threads m)" by (auto simp: machine_inv_def)
  moreover have "\<forall>t u. t < n \<and> u < n \<and> in_critical (threads m ! t) \<and> in_critical (threads m ! u) \<longrightarrow> t = u"
    using inv by (auto simp: machine_inv_def exclusive_def)
  moreover have "mutex m = None \<longrightarrow> replay q (history m) = Some (deque m)"
    using inv by (auto simp: machine_inv_def explained_def)
  ultimately show ?thesis using replay_fifo [of q "history m"] reached_no_lost [OF assms] by (simp add: no_lost_def)
qed

text \<open>Two threads wait on an empty queue, a third pushes twice; one of the pops times out late.\<close>

definition demo_schedule :: "(nat \<times> nat choice) list" where
  "demo_schedule =
     [(0, Invoke CallWaitAndPop), (0, Go), (0, Go), (1, Invoke CallWaitTimeAndPop), (1, Go), (1, Go),
      (2, Invoke (CallPush 7)), (2, Go), (2, Go), (1, Timeout), (2, Wake 0), (2, Go),
      (2, Invoke (CallPush 8)), (0, Go), (0, Go), (0, Go), (0, Go), (0, Go),
      (2, Go), (2, Go), (2, Go), (2, Go), (1, Go), (1, Go), (1, Go), (1, Go), (1, Go)]"

definition demo_end :: "nat machine" where
  "demo_end = \<lparr>mutex = None, deque = [], threads = [Outside, Outside, Outside],
     history = [(CallPush 7, Sent), (CallWaitAndPop, Got 7), (CallPush 8, Sent), (CallWaitTimeAndPop, Got 8)]\<rparr>"

lemma demo_schedule_runs: "run_schedule demo_schedule (start 3 []) = Some demo_end"
  by (simp add: demo_schedule_def demo_end_def start_def thread_step_def lock_def notify_def goto_def numeral_3_eq_3)

theorem SafeQueue_linearizable_witness: "replay [] (history demo_end) = Some (deque demo_end)"
  using SafeQueue_linearizable [OF run_schedule_reached [OF begins demo_schedule_runs]] by (simp add: demo_end_def)

end
