(* ===== verification/Message_Manager.thy ===== *)
theory Message_Manager
  imports Instance_Run_Handler
begin

text \<open>
  The socket side of the server, \<^verbatim>\<open>src/plugin_mgr/message_manager.h\<close> and \<open>message_manager.cpp\<close>:
  connections are accepted and checked, their requests become events for the plugin manager, its
  answers and the data of subscriptions go back over the sockets. The calls of the kernel
  (\<open>accept\<close>, \<open>recv\<close>, \<open>send\<close>, \<open>epoll_ctl\<close>, \<open>lstat\<close>) and the user database are arguments.
\<close>

subsection \<open>State\<close>

definition CMD_CONN :: int where
  "CMD_CONN = 1"

definition SDK_CONN :: int where
  "SDK_CONN = 2"

definition DISCONNECTED :: int where
  "DISCONNECTED = -1"

definition maxNameLength :: nat where
  "maxNameLength = 108"

text \<open>
  \<open>inbox\<close> is what arrives on each socket, \<open>wire\<close> the bytes handed to the kernel, newest last,
  \<open>polled\<close> the descriptors \<open>epoll\<close> watches.
\<close>

record tcp =
  tm_recvMessage :: "Event SafeQueue"
  tm_sendMessage :: "EventResult SafeQueue"
  tm_recvData :: "Event SafeQueue"
  conns :: "(int \<times> int) list"
  shutdown :: bool
  groups :: "(int \<times> nat list) list"
  inbox :: "int \<Rightarrow> arrival list"
  wire :: "(int \<times> string) list"
  polled :: "int list"

record kernel =
  k_send :: "int \<Rightarrow> string \<Rightarrow> int"
  k_epoll_add :: "int \<Rightarrow> bool"
  k_lstat :: "string \<Rightarrow> stat_t option"
  k_mem :: nat
  k_junk :: c_int

subsection \<open>Users and groups\<close>

fun group_users :: "string \<Rightarrow> string list \<Rightarrow> string list" where
  "group_users groupName [] = []"
| "group_users groupName (line # rest) =
     (let parts = SplitString line '':'' in
      if length parts > 3 \<and> parts ! 0 = groupName then SplitString (parts ! 3) '',''
      else group_users groupName rest)"

text \<open>\<open>None\<close>: \<open>/etc/group\<close> cannot be opened.\<close>

definition GetUserFromGroup :: "string list option \<Rightarrow> string \<Rightarrow> string list" where
  "GetUserFromGroup etc_group groupName = (case etc_group of None \<Rightarrow> [] | Some ls \<Rightarrow> group_users groupName ls)"

definition groups_add :: "int \<Rightarrow> nat \<Rightarrow> (int \<times> nat list) list \<Rightarrow> (int \<times> nat list) list" where
  "groups_add gid uid gs = AList.update gid (al_get [] gs gid @ [uid]) gs"

definition add_group ::
  "(string \<Rightarrow> int) \<Rightarrow> (string \<Rightarrow> int) \<Rightarrow> string list option \<Rightarrow> string \<Rightarrow> (int \<times> nat list) list \<Rightarrow> (int \<times> nat list) list" where
  "add_group GetGid GetUid etc_group groupName gs =
     (let gid = GetGid groupName in
      if gid < 0 then gs
      else fold (\<lambda>user gs. let uid = GetUid user in if uid < 0 then gs else groups_add gid (nat uid) gs)
        (GetUserFromGroup etc_group groupName) gs)"

definition InitGroups :: "(string \<Rightarrow> int) \<Rightarrow> (string \<Rightarrow> int) \<Rightarrow> string list option \<Rightarrow> tcp \<Rightarrow> tcp" where
  "InitGroups GetGid GetUid etc_group t =
     t\<lparr>groups := fold (add_group GetGid GetUid etc_group) [''oeaware'', ''root''] (groups_add 0 0 (groups t))\<rparr>"

definition TcpSocket_CheckFileGroups :: "kernel \<Rightarrow> string \<Rightarrow> tcp \<Rightarrow> bool" where
  "TcpSocket_CheckFileGroups k path t =
     (case k_lstat k path of None \<Rightarrow> False
      | Some st \<Rightarrow> list_ex (\<lambda>p. list_ex (\<lambda>uid. uid = st_uid st) (snd p)) (groups t))"

subsection \<open>Requests and answers\<close>

definition blank_protocol :: "c_int \<Rightarrow> MessageProtocol" where
  "blank_protocol junk = \<lparr>header = \<lparr>hd_type = int_type junk\<rparr>, message = \<lparr>opt = int_opt junk, msg_payload = []\<rparr>\<rparr>"

text \<open>\<open>None\<close> is an exception of the deserializer; the inner option is the return value.\<close>

definition GetMessageFromRemote :: "kernel \<Rightarrow> SocketStream \<Rightarrow> (Message option \<times> SocketStream) option" where
  "GetMessageFromRemote k stream = do {
     (good, p, stream1) \<leftarrow> RecvMessage (k_mem k) (k_junk k) stream (blank_protocol (k_junk k));
     Some (if \<not> good then None else Some (message p), stream1)
   }"

definition put_wire :: "int \<Rightarrow> string \<Rightarrow> int \<Rightarrow> tcp \<Rightarrow> tcp" where
  "put_wire fd bytes n t = t\<lparr>wire := wire t @ [(fd, take (nat n) bytes)]\<rparr>"

definition SendMessageToRemote :: "kernel \<Rightarrow> int \<Rightarrow> Message \<Rightarrow> tcp \<Rightarrow> bool \<times> tcp" where
  "SendMessageToRemote k fd msg t =
     (let p = \<lparr>header = \<lparr>hd_type = RESPONSE\<rparr>, message = msg\<rparr>; bytes = GetProtocolStr p in
      (SendMessage (k_send k fd) p, put_wire fd bytes (Write (k_send k fd) bytes) t))"

definition PushEvent :: "Message \<Rightarrow> string list \<Rightarrow> tcp \<Rightarrow> tcp" where
  "PushEvent msg extras t = t\<lparr>tm_recvMessage := Push (tm_recvMessage t)
     \<lparr>ev_opt = opt msg, ev_type = EXTERNAL, ev_payload = msg_payload msg @ extras\<rparr>\<rparr>"

text \<open>\<open>results\<close>: what the plugin manager pushes while the thread waits; \<open>None\<close>: it waits on.\<close>

definition GetEventResult :: "EventResult list \<Rightarrow> tcp \<Rightarrow> (Message \<times> tcp) option" where
  "GetEventResult results t = do {
     (res, q) \<leftarrow> WaitAndPop (tm_sendMessage t) results;
     Some (\<lparr>opt = er_opt res, msg_payload = er_payload res\<rparr>, t\<lparr>tm_sendMessage := q\<rparr>)
   }"

subsection \<open>Connections\<close>

definition AddConn :: "int \<Rightarrow> int \<Rightarrow> tcp \<Rightarrow> tcp" where
  "AddConn conn type t =
     (if al_count (conns t) conn \<and> al_get 0 (conns t) conn > 0 then t
      else t\<lparr>conns := AList.update conn type (conns t)\<rparr>)"

text \<open>\<open>conns[fd]\<close> makes an entry 0 for a descriptor that has none.\<close>

definition touch :: "int \<Rightarrow> tcp \<Rightarrow> tcp" where
  "touch fd t = t\<lparr>conns := AList.update fd (al_get 0 (conns t) fd) (conns t)\<rparr>"

definition IsConn :: "int \<Rightarrow> tcp \<Rightarrow> bool \<times> tcp" where
  "IsConn fd t = (al_get 0 (conns t) fd > 0, touch fd t)"

definition is_sdk_conn :: "int \<Rightarrow> tcp \<Rightarrow> bool" where
  "is_sdk_conn fd t = (al_get 0 (conns t) fd AND SDK_CONN \<noteq> 0)"

definition CloseConn :: "int \<Rightarrow> tcp \<Rightarrow> tcp" where
  "CloseConn fd t =
     (let t1 = (if is_sdk_conn fd t
        then t\<lparr>tm_recvMessage := Push (tm_recvMessage t) \<lparr>ev_opt = OptUNSUBSCRIBE, ev_type = INTERNAL, ev_payload = [to_string fd]\<rparr>\<rparr>
        else t)
      in t1\<lparr>conns := AList.update fd DISCONNECTED (conns t1)\<rparr>)"

text \<open>A fresh stream per message: what it has buffered beyond the message is dropped with it.\<close>

definition TcpMessageHandler_HandleMessage :: "kernel \<Rightarrow> EventResult list \<Rightarrow> int \<Rightarrow> tcp \<Rightarrow> (bool \<times> tcp) option" where
  "TcpMessageHandler_HandleMessage k results fd t = do {
     (clientMsg, stream) \<leftarrow> GetMessageFromRemote k (new_stream (inbox t fd));
     let t1 = t\<lparr>inbox := (inbox t)(fd := sock stream)\<rparr>;
     (case clientMsg of
        None \<Rightarrow> Some (False, t1)
      | Some msg \<Rightarrow> do {
          let t2 = touch fd (PushEvent msg (if is_sdk_conn fd t1 then [to_string fd] else []) t1);
          (internalMsg, t3) \<leftarrow> GetEventResult results t2;
          let t4 = (if opt internalMsg = OptSHUTDOWN
            then t3\<lparr>shutdown := True,
              tm_recvData := Push (tm_recvData t3) \<lparr>ev_opt = OptSHUTDOWN, ev_type = EventTypeUnset, ev_payload = []\<rparr>\<rparr>
            else t3);
          Some (SendMessageToRemote k fd internalMsg t4)
        })
   }"

definition TcpSocket_HandleMessage :: "kernel \<Rightarrow> EventResult list \<Rightarrow> int \<Rightarrow> tcp \<Rightarrow> tcp option" where
  "TcpSocket_HandleMessage k results fd t =
     (case IsConn fd t of (conn, t1) \<Rightarrow>
      if \<not> conn then Some t1
      else do {
        (good, t2) \<leftarrow> TcpMessageHandler_HandleMessage k results fd t1;
        Some (if \<not> good then (CloseConn fd t2)\<lparr>polled := removeAll fd (polled t2)\<rparr> else t2)
      })"

text \<open>
  \<open>SaveConnection\<close> on what \<open>accept\<close> returned: the descriptor and the name the peer has bound its
  socket to. A name of 108 bytes makes the code write one past the end of its buffer.
\<close>

definition SaveConnection :: "kernel \<Rightarrow> int \<times> string \<Rightarrow> tcp \<Rightarrow> tcp option" where
  "SaveConnection k accepted t =
     (case accepted of (conn, sun_path) \<Rightarrow>
      if conn < 0 then Some t
      else if length sun_path \<ge> maxNameLength then None
      else let isSdk = length sun_path > 0 in
        if isSdk \<and> \<not> TcpSocket_CheckFileGroups k (cstr sun_path) t then Some t
        else if \<not> k_epoll_add k conn then Some t
        else Some (AddConn conn (if isSdk then 0 OR SDK_CONN else 0 OR CMD_CONN) (t\<lparr>polled := conn # polled t\<rparr>)))"

text \<open>The events of one wake-up: the listening socket, or a connection with the answer it will get.\<close>

datatype wakeup = Listening "int \<times> string" | Ready int "EventResult list"

fun HandleEvents :: "kernel \<Rightarrow> wakeup list \<Rightarrow> tcp \<Rightarrow> tcp option" where
  "HandleEvents k [] t = Some t"
| "HandleEvents k (Listening a # ws) t = do { t1 \<leftarrow> SaveConnection k a t; HandleEvents k ws t1 }"
| "HandleEvents k (Ready fd results # ws) t = do { t1 \<leftarrow> TcpSocket_HandleMessage k results fd t; HandleEvents k ws t1 }"

subsection \<open>The data thread\<close>

definition GetMessageFromDataEvent :: "Event \<Rightarrow> Message option" where
  "GetMessageFromDataEvent event = do {
     data \<leftarrow> nth_opt (ev_payload event) 1;
     Some \<lparr>opt = OptDATA, msg_payload = [data]\<rparr>
   }"

text \<open>One turn of \<open>Start\<close>: whether to quit, and the state. \<open>None\<close>: it waits, or reads past a payload.\<close>

definition Start_data :: "kernel \<Rightarrow> tcp \<Rightarrow> (bool \<times> tcp) option" where
  "Start_data k t = do {
     (event, q) \<leftarrow> TryPop (tm_recvData t);
     let t1 = t\<lparr>tm_recvData := q\<rparr>;
     if ev_opt event = OptSHUTDOWN then Some (True, t1)
     else if ev_opt event \<noteq> OptDATA then Some (False, t1)
     else do {
       p0 \<leftarrow> nth_opt (ev_payload event) 0;
       let fd = atoi p0;
       if \<not> al_count (conns t1) fd \<or> al_get 0 (conns t1) fd = DISCONNECTED then Some (False, t1)
       else do {
         msg \<leftarrow> GetMessageFromDataEvent event;
         Some (False, snd (SendMessageToRemote k fd msg t1))
       }
     }
   }"

subsection \<open>Lookups in the connection table\<close>

lemma put_wire_simps [simp]:
  "conns (put_wire fd b n t) = conns t" "tm_recvMessage (put_wire fd b n t) = tm_recvMessage t"
  "tm_sendMessage (put_wire fd b n t) = tm_sendMessage t" "wire (put_wire fd b n t) = wire t @ [(fd, take (nat n) b)]"
  by (simp_all add: put_wire_def)

text \<open>A kernel that takes every byte.\<close>

definition sends_all :: "kernel \<Rightarrow> bool" where
  "sends_all k = (\<forall>fd b. k_send k fd b = int (length b))"

definition response_bytes :: "Message \<Rightarrow> string" where
  "response_bytes m = GetProtocolStr \<lparr>header = \<lparr>hd_type = RESPONSE\<rparr>, message = m\<rparr>"

lemma Send_all:
  "sends_all k \<Longrightarrow> SendMessageToRemote k fd m t = (True, t\<lparr>wire := wire t @ [(fd, response_bytes m)]\<rparr>)"
  by (simp add: SendMessageToRemote_def SendMessage_def Write_def sends_all_def put_wire_def response_bytes_def Let_def
      length_protocol_str)

subsection \<open>Properties\<close>

text \<open>An open connection of an SDK client: the entry of \<open>conns\<close> is positive, as \<open>IsConn\<close> tests, and has the
  bit of the SDK. An entry that is closed and may be reused, \<open>DISCONNECTED\<close>, has the bit too.\<close>

definition open_sdk :: "int \<Rightarrow> tcp \<Rightarrow> bool" where
  "open_sdk fd t = (al_get 0 (conns t) fd > 0 \<and> is_sdk_conn fd t)"

text \<open>C19. A descriptor, new or reused after a disconnection, becomes an open SDK connection only when it is the
  one just accepted, its peer has bound a name, and the file of that name is owned by a user of
  one of the permitted groups; accepting a connection opens no other one.\<close>

theorem SaveConnection_permission:
  assumes "SaveConnection k (conn, sun_path) t = Some t'" "open_sdk fd t'" "\<not> open_sdk fd t"
  shows "fd = conn \<and> sun_path \<noteq> [] \<and>
    (\<exists>st gid uids. k_lstat k (cstr sun_path) = Some st \<and> (gid, uids) \<in> set (groups t) \<and> st_uid st \<in> set uids)"
proof -
  have "fd = conn \<and> 0 < length sun_path \<and> TcpSocket_CheckFileGroups k (cstr sun_path) t"
    using assms by (auto simp: SaveConnection_def open_sdk_def is_sdk_conn_def AddConn_def CMD_CONN_def SDK_CONN_def Let_def
        split: if_splits)
  then show ?thesis by (fastforce simp: TcpSocket_CheckFileGroups_def list_ex_iff split: option.splits)
qed

definition demo_kernel :: kernel where
  "demo_kernel = \<lparr>k_send = (\<lambda>fd b. int (length b)), k_epoll_add = (\<lambda>_. True),
     k_lstat = (\<lambda>_. Some \<lparr>st_mode = 0, st_uid = 0, st_gid = 0\<rparr>), k_mem = 100, k_junk = 7\<rparr>"

definition demo_tcp :: "Event list \<Rightarrow> (int \<times> int) list \<Rightarrow> tcp" where
  "demo_tcp rd cs = \<lparr>tm_recvMessage = [], tm_sendMessage = [], tm_recvData = rd, conns = cs, shutdown = False, groups = [(0, [0])],
     inbox = (\<lambda>_. []), wire = [], polled = []\<rparr>"

text \<open>The descriptor 5 was an SDK connection before and is given to the next peer.\<close>

theorem SaveConnection_permission_witness:
  "\<exists>st gid uids. k_lstat demo_kernel (cstr ''/sock'') = Some st \<and> (gid, uids) \<in> set (groups (demo_tcp [] [(5, DISCONNECTED)])) \<and>
     st_uid st \<in> set uids"
proof -
  have "SaveConnection demo_kernel (5, ''/sock'') (demo_tcp [] [(5, DISCONNECTED)]) = Some ((demo_tcp [] [(5, 2)])\<lparr>polled := [5]\<rparr>)"
    by (simp add: SaveConnection_def demo_kernel_def demo_tcp_def maxNameLength_def TcpSocket_CheckFileGroups_def AddConn_def
        al_count_def al_get_def SDK_CONN_def DISCONNECTED_def)
  moreover have "open_sdk 5 ((demo_tcp [] [(5, 2)])\<lparr>polled := [5]\<rparr>)" "\<not> open_sdk 5 (demo_tcp [] [(5, DISCONNECTED)])"
    unfolding open_sdk_def is_sdk_conn_def demo_tcp_def SDK_CONN_def DISCONNECTED_def al_get_def by simp_all
  ultimately show ?thesis using SaveConnection_permission by blast
qed

text \<open>C4. A request that has arrived on an open connection becomes exactly one event, with the operation and
  payload of the client and, for an SDK client, its descriptor; the answer of the plugin manager
  goes back on the same connection as one frame, which the client decodes to that answer.\<close>

theorem request_and_response:
  assumes "al_get 0 (conns t) fd > 0" "arrived (inbox t fd) = GetProtocolStr p @ rest" "lengths_ready (new_stream (inbox t fd))"
    and "proto_ok (k_mem k) p" "tm_sendMessage t = []" "sends_all k"
    and "er_opt r \<noteq> OptSHUTDOWN" "answer = \<lparr>header = \<lparr>hd_type = RESPONSE\<rparr>, message = \<lparr>opt = er_opt r, msg_payload = er_payload r\<rparr>\<rparr>"
    and "proto_ok mem answer"
  shows "\<exists>t' ss. TcpSocket_HandleMessage k [r] fd t = Some t' \<and>
    tm_recvMessage t' = tm_recvMessage t @ [\<lparr>ev_opt = opt (message p), ev_type = EXTERNAL,
      ev_payload = msg_payload (message p) @ (if is_sdk_conn fd t then [to_string fd] else [])\<rparr>] \<and>
    tm_sendMessage t' = [] \<and> wire t' = wire t @ [(fd, GetProtocolStr answer)] \<and>
    RecvMessage mem junk (new_stream [Chunk (GetProtocolStr answer)]) (blank_protocol b) = Some (True, answer, ss)"
proof -
  have blank: "msg_payload (message (blank_protocol b)) = []" for b by (simp add: blank_protocol_def)
  obtain ss where "RecvMessage (k_mem k) (k_junk k) (new_stream (inbox t fd)) (blank_protocol (k_junk k)) = Some (True, p, ss)"
    using frame_received [OF new_stream_simps(1) assms(3) _ assms(4) blank, of rest] assms(2) by (metis new_stream_simps(2))
  then have get: "GetMessageFromRemote k (new_stream (inbox t fd)) = Some (Some (message p), ss)"
    by (simp add: GetMessageFromRemote_def)
  have "lengths_ready (new_stream [Chunk (GetProtocolStr answer)])"
    by (simp add: lengths_ready_def new_stream_def unread_def length_protocol_str)
  then obtain ss' where "RecvMessage mem junk (new_stream [Chunk (GetProtocolStr answer)]) (blank_protocol b) = Some (True, answer, ss')"
    using frame_received [OF new_stream_simps(1) _ _ assms(9) blank, of "[Chunk (GetProtocolStr answer)]" "[]"] by fastforce
  moreover have "\<exists>t'. TcpSocket_HandleMessage k [r] fd t = Some t' \<and>
    tm_recvMessage t' = tm_recvMessage t @ [\<lparr>ev_opt = opt (message p), ev_type = EXTERNAL,
      ev_payload = msg_payload (message p) @ (if is_sdk_conn fd t then [to_string fd] else [])\<rparr>] \<and>
    tm_sendMessage t' = [] \<and> wire t' = wire t @ [(fd, GetProtocolStr answer)]"
    using assms(1,5-8) get
    by (simp add: TcpSocket_HandleMessage_def IsConn_def TcpMessageHandler_HandleMessage_def touch_def GetEventResult_def
        WaitAndPop_def after_wait_def Empty_def PushEvent_def Push_def Send_all is_sdk_conn_def response_bytes_def)
  ultimately show ?thesis by blast
qed

definition demo_answer :: MessageProtocol where
  "demo_answer = \<lparr>header = \<lparr>hd_type = RESPONSE\<rparr>, message = \<lparr>opt = OptRESPONSE_OK, msg_payload = []\<rparr>\<rparr>"

theorem request_and_response_witness:
  "\<exists>t' ss. TcpSocket_HandleMessage demo_kernel [\<lparr>er_opt = OptRESPONSE_OK, er_payload = []\<rparr>] 5
      ((demo_tcp [] [(5, 1)])\<lparr>inbox := \<lambda>_. [Chunk (GetProtocolStr empty_proto)]\<rparr>) = Some t' \<and>
    RecvMessage 1000 0 (new_stream [Chunk (GetProtocolStr demo_answer)]) (blank_protocol 0) = Some (True, demo_answer, ss)"
proof -
  have "proto_ok 1000 demo_answer"
    by (simp add: proto_ok_def demo_answer_def type_wf_def msg_ok_def opt_wf_def length_protocol_str msg_ser Serialize_vector_def ser_rt)
  then show ?thesis
    using request_and_response [of "(demo_tcp [] [(5, 1)])\<lparr>inbox := \<lambda>_. [Chunk (GetProtocolStr empty_proto)]\<rparr>" 5 empty_proto "[]"
        demo_kernel "\<lparr>er_opt = OptRESPONSE_OK, er_payload = []\<rparr>" demo_answer 1000 0 0] empty_proto_wf
    by (auto simp: demo_tcp_def al_get_def demo_kernel_def sends_all_def demo_answer_def lengths_ready_def new_stream_def unread_def
        length_protocol_str)
qed

text \<open>C20. Data meant for a client that has disconnected are dropped as long as its descriptor is free. When the
  next client to connect is given the same descriptor, the data still queued for the old one are
  sent to the new one, which never subscribed to anything.\<close>

theorem stale_data_reaches_new_client:
  assumes "tm_recvData t = \<lparr>ev_opt = OptDATA, ev_type = ty, ev_payload = [to_string fd, d]\<rparr> # q" "0 \<le> fd"
    and "sends_all k" "k_epoll_add k fd"
  shows "Start_data k (CloseConn fd t) = Some (False, (CloseConn fd t)\<lparr>tm_recvData := q\<rparr>) \<and>
    (\<exists>t1 t2. SaveConnection k (fd, []) (CloseConn fd t) = Some t1 \<and> Start_data k t1 = Some (False, t2) \<and>
      wire t2 = wire t @ [(fd, response_bytes \<lparr>opt = OptDATA, msg_payload = [d]\<rparr>)])"
proof
  show "Start_data k (CloseConn fd t) = Some (False, (CloseConn fd t)\<lparr>tm_recvData := q\<rparr>)"
    using assms(1) by (simp add: Start_data_def CloseConn_def Let_def)
  have "SaveConnection k (fd, []) (CloseConn fd t) =
      Some ((CloseConn fd t)\<lparr>polled := fd # polled (CloseConn fd t), conns := AList.update fd 1 (conns (CloseConn fd t))\<rparr>)"
    using assms(2,4) by (simp add: SaveConnection_def maxNameLength_def AddConn_def CloseConn_def DISCONNECTED_def CMD_CONN_def Let_def)
  then show "\<exists>t1 t2. SaveConnection k (fd, []) (CloseConn fd t) = Some t1 \<and> Start_data k t1 = Some (False, t2) \<and>
      wire t2 = wire t @ [(fd, response_bytes \<lparr>opt = OptDATA, msg_payload = [d]\<rparr>)]"
    using assms(1,3) by (simp add: Start_data_def CloseConn_def DISCONNECTED_def GetMessageFromDataEvent_def Send_all Let_def)
qed

theorem stale_data_reaches_new_client_witness:
  "\<exists>t1 t2. SaveConnection demo_kernel (5, []) (CloseConn 5 (demo_tcp [\<lparr>ev_opt = OptDATA, ev_type = EXTERNAL, ev_payload = [to_string 5, ''d'']\<rparr>] [(5, 2)])) = Some t1 \<and>
     Start_data demo_kernel t1 = Some (False, t2) \<and> wire t2 = [(5, response_bytes \<lparr>opt = OptDATA, msg_payload = [''d'']\<rparr>)]"
  using stale_data_reaches_new_client
    [of "demo_tcp [\<lparr>ev_opt = OptDATA, ev_type = EXTERNAL, ev_payload = [to_string 5, ''d'']\<rparr>] [(5, 2)]" EXTERNAL 5 "''d''" "[]" demo_kernel]
  by (simp add: demo_tcp_def demo_kernel_def sends_all_def)

end
