(* ===== verification/Sdk_Client.thy ===== *)
theory Sdk_Client
  imports Message_Manager
begin

text \<open>
  The client library, \<^verbatim>\<open>src/sdk/oe_client.cpp\<close>: requests are sent and their results awaited for a
  limited time; a second thread receives results and data and calls the callbacks of a topic.
  A callback is a value of type \<open>'c\<close>; \<open>calls\<close> records which was called with which data.
\<close>

record 'c sdk =
  socketStream :: "SocketStream option"
  topicHandle :: "(string \<times> 'c list) list"
  resultQueue :: "Result SafeQueue"
  calls :: "('c \<times> DataList) list"
  sdk_wire :: "string list"

definition topic_key :: "CTopic \<Rightarrow> string option" where
  "topic_key topic = do {
     i \<leftarrow> std_string (ct_instance topic);
     t \<leftarrow> std_string (ct_topic topic);
     p \<leftarrow> std_string (ct_params topic);
     Some (Concat [i, t, p] ''::'')
   }"

definition handle_data :: "DataList \<Rightarrow> 'c sdk \<Rightarrow> 'c sdk option" where
  "handle_data dataList s = do {
     key \<leftarrow> topic_key (dl_topic dataList);
     let hs = al_get [] (topicHandle s) key;
     Some (s\<lparr>topicHandle := AList.update key hs (topicHandle s), calls := calls s @ map (\<lambda>h. (h, dataList)) hs\<rparr>)
   }"

text \<open>One turn of \<open>HandleRecv\<close>; the arguments are the register, the memory limit and uninitialized values.\<close>

definition HandleRecv :: "Register \<Rightarrow> nat \<Rightarrow> c_int \<Rightarrow> u64 \<Rightarrow> 'c sdk \<Rightarrow> 'c sdk option" where
  "HandleRecv reg mem junk old s = do {
     stream \<leftarrow> socketStream s;
     (good, protocol, stream1) \<leftarrow> RecvMessage mem junk stream (blank_protocol junk);
     let s1 = s\<lparr>socketStream := Some stream1\<rparr>;
     let op = opt (message protocol);
     if \<not> good then Some s1
     else if op = OptSUBSCRIBE \<or> op = OptUNSUBSCRIBE \<or> op = OptPUBLISH then do {
       p0 \<leftarrow> nth_opt (msg_payload (message protocol)) 0;
       (_, result, _) \<leftarrow> ResultDeserialize junk (mk_in mem p0);
       Some (s1\<lparr>resultQueue := Push (resultQueue s1) result\<rparr>)
     }
     else if op = OptDATA then do {
       p0 \<leftarrow> nth_opt (msg_payload (message protocol)) 0;
       (ret, dataList, _) \<leftarrow> DataListDeserialize reg old (mk_in mem p0);
       if ret < 0 then Some s1 else handle_data dataList s1
     }
     else Some s1
   }"

text \<open>\<open>results\<close>: what the receiving thread pushes before the time is up.\<close>

definition HandleRequest :: "(string \<Rightarrow> int) \<Rightarrow> Result list \<Rightarrow> Opt \<Rightarrow> string list \<Rightarrow> 'c sdk \<Rightarrow> int \<times> 'c sdk" where
  "HandleRequest send results op ps s =
     (if socketStream s = None then (-1, s)
      else
        let bytes = GetProtocolStr \<lparr>header = \<lparr>hd_type = REQUEST\<rparr>, message = \<lparr>opt = op, msg_payload = ps\<rparr>\<rparr>;
            s1 = s\<lparr>sdk_wire := sdk_wire s @ [take (nat (Write send bytes)) bytes]\<rparr>
        in (case WaitTimeAndPop (resultQueue s1) results of
              (None, q) \<Rightarrow> (-1, s1\<lparr>resultQueue := q\<rparr>)
            | (Some result, q) \<Rightarrow> (sint (code result), s1\<lparr>resultQueue := q\<rparr>)))"

definition Impl_Subscribe :: "(string \<Rightarrow> int) \<Rightarrow> Result list \<Rightarrow> CTopic \<Rightarrow> 'c \<Rightarrow> 'c sdk \<Rightarrow> (int \<times> 'c sdk) option" where
  "Impl_Subscribe send results topic callback s = do {
     (_, out) \<leftarrow> TopicSerialize topic [];
     key \<leftarrow> topic_key topic;
     let s1 = s\<lparr>topicHandle := AList.update key (al_get [] (topicHandle s) key @ [callback]) (topicHandle s)\<rparr>;
     Some (case HandleRequest send results OptSUBSCRIBE [out] s1 of (ret, s2) \<Rightarrow>
       if ret < 0 then (-1, s2\<lparr>topicHandle := AList.update key (butlast (al_get [] (topicHandle s2) key)) (topicHandle s2)\<rparr>)
       else (0, s2))
   }"

definition Impl_Unsubscribe :: "(string \<Rightarrow> int) \<Rightarrow> Result list \<Rightarrow> CTopic \<Rightarrow> 'c sdk \<Rightarrow> (int \<times> 'c sdk) option" where
  "Impl_Unsubscribe send results topic s = do {
     (_, out) \<leftarrow> TopicSerialize topic [];
     key \<leftarrow> topic_key topic;
     Some (case HandleRequest send results OptUNSUBSCRIBE [out] s of (ret, s1) \<Rightarrow>
       if ret < 0 then (-1, s1) else (0, s1\<lparr>topicHandle := AList.delete key (topicHandle s1)\<rparr>))
   }"

definition Impl_Publish :: "Register \<Rightarrow> (string \<Rightarrow> int) \<Rightarrow> Result list \<Rightarrow> DataList \<Rightarrow> 'c sdk \<Rightarrow> (int \<times> 'c sdk) option" where
  "Impl_Publish reg send results dataList s = do {
     (_, out) \<leftarrow> DataListSerialize reg dataList [];
     Some (HandleRequest send results OptPUBLISH [out] s)
   }"

definition Impl_Close :: "'c sdk \<Rightarrow> 'c sdk" where
  "Impl_Close s = s\<lparr>socketStream := None, resultQueue := [], topicHandle := []\<rparr>"

lemma HandleRequest_frame:
  "HandleRequest send results op ps s = (ret, s') \<Longrightarrow> topicHandle s' = topicHandle s \<and> calls s' = calls s"
  by (auto simp: HandleRequest_def Let_def split: if_splits prod.splits option.splits)

subsection \<open>Properties\<close>

text \<open>Subscribing adds the callback to its topic exactly when it reports success; a refused or timed-out
  subscription leaves the callbacks of every topic as they were.\<close>

lemma Impl_Subscribe_callbacks:
  assumes "Impl_Subscribe send results topic callback s = Some (ret, s')" "topic_key topic = Some key"
  shows "ret \<in> {0, -1} \<and> al_get [] (topicHandle s') k =
    (if ret = 0 \<and> k = key then al_get [] (topicHandle s) k @ [callback] else al_get [] (topicHandle s) k)"
proof -
  let ?s1 = "s\<lparr>topicHandle := AList.update key (al_get [] (topicHandle s) key @ [callback]) (topicHandle s)\<rparr>"
  obtain a out where out: "TopicSerialize topic [] = Some (a, out)"
    using assms(1) by (cases "TopicSerialize topic []") (auto simp: Impl_Subscribe_def)
  obtain r s2 where r: "HandleRequest send results OptSUBSCRIBE [out] ?s1 = (r, s2)" by fastforce
  from HandleRequest_frame [OF r] assms out r show ?thesis
    by (cases "r < 0") (auto simp: Impl_Subscribe_def)
qed

definition demo_ctopic :: CTopic where
  "demo_ctopic = \<lparr>ct_instance = Some ''demo'', ct_topic = Some ''t'', ct_params = Some []\<rparr>"

definition demo_sdk :: "nat sdk" where
  "demo_sdk = \<lparr>socketStream = Some (new_stream []), topicHandle = [], resultQueue = [], calls = [], sdk_wire = []\<rparr>"

theorem Impl_Subscribe_callbacks_witness:
  "\<exists>s'. Impl_Subscribe (\<lambda>b. int (length b)) [] demo_ctopic 4 demo_sdk = Some (-1, s') \<and> al_get [] (topicHandle s') ''demo::t::'' = []"
proof -
  have key: "topic_key demo_ctopic = Some ''demo::t::''"
    by (simp add: topic_key_def demo_ctopic_def std_string_def NUL_def)
  moreover obtain s' where s': "Impl_Subscribe (\<lambda>b. int (length b)) [] demo_ctopic 4 demo_sdk = Some (-1, s')"
    using key by (auto simp: Impl_Subscribe_def TopicSerialize_def demo_ctopic_def std_string_def HandleRequest_def demo_sdk_def
        WaitTimeAndPop_def after_wait_def Empty_def Let_def)
  ultimately show ?thesis
    using Impl_Subscribe_callbacks [OF s' key, of "''demo::t::''"] s' by (auto simp: demo_sdk_def al_get_def)
qed

text \<open>An answer that comes after its request has timed out is taken for the answer to the next request,
  whatever that request is and whatever its own answer will be.\<close>

lemma late_answer_to_next_request:
  assumes "HandleRequest send [] op ps s = (ret, s1)" "socketStream s \<noteq> None" "resultQueue s = []"
  shows "ret = -1 \<and> HandleRequest send' results op' ps' (s1\<lparr>resultQueue := Push (resultQueue s1) late\<rparr>) =
    (sint (code late), s1\<lparr>resultQueue := [], sdk_wire := sdk_wire s1 @
      [take (nat (send' (GetProtocolStr \<lparr>header = \<lparr>hd_type = REQUEST\<rparr>, message = \<lparr>opt = op', msg_payload = ps'\<rparr>\<rparr>)))
        (GetProtocolStr \<lparr>header = \<lparr>hd_type = REQUEST\<rparr>, message = \<lparr>opt = op', msg_payload = ps'\<rparr>\<rparr>)]\<rparr>)"
  using assms by (auto simp: HandleRequest_def WaitTimeAndPop_def after_wait_def Empty_def Push_def Write_def Let_def)

lemma late_answer_to_next_request_witness:
  "fst (HandleRequest (\<lambda>b. 0) [\<lparr>code = 0, payload = []\<rparr>] OptUNSUBSCRIBE [''x'']
     ((snd (HandleRequest (\<lambda>b. 0) [] OptSUBSCRIBE [''y''] demo_sdk))\<lparr>resultQueue := Push [] \<lparr>code = FAILED, payload = []\<rparr>\<rparr>)) = -1"
proof -
  let ?h = "HandleRequest (\<lambda>b. 0) [] OptSUBSCRIBE [''y''] demo_sdk"
  have h: "?h = (fst ?h, snd ?h)" by simp
  have "resultQueue (snd ?h) = []"
    by (simp add: HandleRequest_def demo_sdk_def WaitTimeAndPop_def after_wait_def Empty_def Let_def)
  then show ?thesis
    using late_answer_to_next_request [OF h, of "\<lambda>b. 0" "[\<lparr>code = 0, payload = []\<rparr>]" OptUNSUBSCRIBE "[''x'']" "\<lparr>code = FAILED, payload = []\<rparr>"]
    by (simp add: FAILED_def demo_sdk_def)
qed

text \<open>C3. From the publisher to the callback: the data list the server puts on the wire for a subscribed client
  is rebuilt by the client exactly, and the callbacks of its topic, and no others, are called with
  it once each, in the order of their registration. Two conditions: the two length fields of the
  frame are available to one read (\<open>lengths_ready\<close>; split lengths are misread, see
  \<open>split_lengths_misread\<close>), and the topic is none of the performance counters \<open>pmu_*\<close>, whose
  structures are not part of the repository (\<open>datalist_ok\<close>).\<close>

theorem data_reaches_callbacks:
  assumes "datalist_ok mem reg dl" "DataListSerialize reg dl [] = Some (r, bytes)" "topic_key (dl_topic dl) = Some key"
    and "proto_ok mem \<lparr>header = \<lparr>hd_type = RESPONSE\<rparr>, message = \<lparr>opt = OptDATA, msg_payload = [bytes]\<rparr>\<rparr>"
    and "socketStream s = Some ss" "stream_inv ss" "lengths_ready ss"
    and "pending ss = response_bytes \<lparr>opt = OptDATA, msg_payload = [bytes]\<rparr> @ rest"
  shows "\<exists>s'. HandleRecv reg mem junk u s = Some s' \<and>
    calls s' = calls s @ map (\<lambda>h. (h, dl)) (al_get [] (topicHandle s) key) \<and> resultQueue s' = resultQueue s"
proof -
  let ?p = "\<lparr>header = \<lparr>hd_type = RESPONSE\<rparr>, message = \<lparr>opt = OptDATA, msg_payload = [bytes]\<rparr>\<rparr>"
  have "msg_payload (message (blank_protocol junk)) = []" by (simp add: blank_protocol_def)
  then obtain ss' where recv: "RecvMessage mem junk ss (blank_protocol junk) = Some (True, ?p, ss')"
    using frame_received [OF assms(6,7) assms(8) [unfolded response_bytes_def] assms(4)] by blast
  obtain bs where bs: "DataListSerialize reg dl [] = Some (0, [] @ bs)"
    "DataListDeserialize reg u (mk_in mem (bs @ [])) = Some (0, dl, mk_in mem [])"
    using datalist_rt [OF assms(1)] by blast
  with assms(2) have "DataListDeserialize reg u (mk_in mem bytes) = Some (0, dl, mk_in mem [])" by simp
  with recv assms(3,5) show ?thesis by (simp add: HandleRecv_def handle_data_def Let_def)
qed

definition demo_dl :: DataList where
  "demo_dl = \<lparr>dl_topic = demo_ctopic, dl_len = 0, dl_data = []\<rparr>"

definition demo_bytes :: string where
  "demo_bytes = put_u64 (Serialize_string (Serialize_string (Serialize_string [] ''demo'') ''t'') []) 0"

lemma demo_bytes: "DataListSerialize reg demo_dl [] = Some (0, demo_bytes)"
  by (simp add: DataListSerialize_def TopicSerialize_def demo_dl_def demo_ctopic_def std_string_def demo_bytes_def NUL_def)

theorem data_reaches_callbacks_witness:
  "\<exists>s'. HandleRecv [] 100 0 0 (demo_sdk\<lparr>topicHandle := [(''demo::t::'', [4, 5])],
      socketStream := Some (new_stream [Chunk (response_bytes \<lparr>opt = OptDATA, msg_payload = [demo_bytes]\<rparr>)])\<rparr>) = Some s' \<and>
    calls s' = [(4, demo_dl), (5, demo_dl)]"
proof -
  let ?m = "\<lparr>opt = OptDATA, msg_payload = [demo_bytes]\<rparr>"
  let ?s = "demo_sdk\<lparr>topicHandle := [(''demo::t::'', [4, 5])], socketStream := Some (new_stream [Chunk (response_bytes ?m)])\<rparr>"
  have "datalist_ok 100 [] demo_dl"
    by (simp add: datalist_ok_def demo_dl_def demo_ctopic_def ctopic_ok_def cptr_ok_def NUL_def)
  moreover have "topic_key (dl_topic demo_dl) = Some ''demo::t::''"
    by (simp add: topic_key_def demo_dl_def demo_ctopic_def std_string_def NUL_def)
  moreover have "length demo_bytes = 37" by (simp add: demo_bytes_def ser_rt str_bytes_def)
  then have "proto_ok 100 \<lparr>header = \<lparr>hd_type = RESPONSE\<rparr>, message = ?m\<rparr>"
    by (simp add: proto_ok_def type_wf_def msg_ok_def opt_wf_def length_protocol_str msg_ser Serialize_vector_def ser_rt str_bytes_def)
  moreover have "stream_inv (new_stream [Chunk (response_bytes ?m)])" by simp
  moreover have "lengths_ready (new_stream [Chunk (response_bytes ?m)])"
    by (simp add: lengths_ready_def new_stream_def unread_def response_bytes_def length_protocol_str)
  moreover have "pending (new_stream [Chunk (response_bytes ?m)]) = response_bytes ?m @ []" by simp
  ultimately have "\<exists>s'. HandleRecv [] 100 0 0 ?s = Some s' \<and>
      calls s' = calls ?s @ map (\<lambda>h. (h, demo_dl)) (al_get [] (topicHandle ?s) ''demo::t::'') \<and> resultQueue s' = resultQueue ?s"
    using data_reaches_callbacks [of 100 "[]" demo_dl 0 demo_bytes "''demo::t::''" ?s] demo_bytes by simp
  then show ?thesis by (auto simp: demo_sdk_def al_get_def)
qed

end
