(* ===== verification/Cpu_Topology.thy ===== *)
theory Cpu_Topology
  imports Utils "HOL-Library.Signed_Division"
begin

text \<open>
  The topology of the machine, \<^verbatim>\<open>src/plugin/tune/docker/cluster_affinity/topology.cpp\<close>. Files of
  sysfs and procfs are a function from a path to its content (\<open>None\<close> when it cannot be opened);
  the number of nodes, which libnuma tells, is an argument.
\<close>

subsection \<open>Topology\<close>

record Topology =
  numaNodeNum :: nat
  clusterNum :: int
  oneClusterCpuNum :: int
  cpuTopology :: "int list list"
  isHyperThreading :: bool
  isSystemOfflineCpu :: bool

type_synonym files = "string \<Rightarrow> string option"

text \<open>\<open>stream >> str\<close>: the next word; when there is none the string is left alone.\<close>

definition read_word :: "string \<Rightarrow> string \<Rightarrow> string" where
  "read_word content old =
     (let w = takeWhile (\<lambda>c. \<not> isspace c) (dropWhile isspace content) in if w = [] then old else w)"

definition cluster_list_path :: string where
  "cluster_list_path = ''/sys/devices/system/cpu/cpu0/topology/cluster_cpus_list''"

definition offline_path :: string where
  "offline_path = ''/sys/devices/system/cpu/offline''"

definition node_path :: "nat \<Rightarrow> string" where
  "node_path i = ''/sys/devices/system/node/node'' @ to_string (int i) @ ''/cpulist''"

definition AddCpuRange :: "nat \<Rightarrow> int \<Rightarrow> int \<Rightarrow> int list list \<Rightarrow> int list list" where
  "AddCpuRange node start end topo = topo[node := topo ! node @ [start..end]]"

text \<open>
  One token of a list of cores. The count is \<open>end - start + 1\<close>, also where the range is empty;
  a range up to \<open>INT_MAX\<close> overflows the counter of \<open>AddCpuRange\<close>.
\<close>

definition topo_token :: "nat \<Rightarrow> string \<Rightarrow> int \<times> int list list \<Rightarrow> (int \<times> int list list) option" where
  "topo_token i tok nt =
     (case str_find tok ''-'' 0 of
        None \<Rightarrow> do {
          v \<leftarrow> stoi tok;
          Some (fst nt + 1, (snd nt)[i := snd nt ! i @ [v]])
        }
      | Some dashPos \<Rightarrow> do {
          start \<leftarrow> stoi (take dashPos tok);
          end \<leftarrow> stoi (drop (dashPos + 1) tok);
          if start \<le> end \<and> end = 2 ^ 31 - 1 then None
          else Some (fst nt + (end - start + 1), AddCpuRange i start end (snd nt))
        })"

fun topo_tokens :: "nat \<Rightarrow> string list \<Rightarrow> int \<times> int list list \<Rightarrow> (int \<times> int list list) option" where
  "topo_tokens i [] nt = Some nt"
| "topo_tokens i (r # rs) nt = topo_token i r nt \<bind> topo_tokens i rs"

text \<open>The loop over the nodes; \<open>cpuListStr\<close> is declared before it and keeps its value.\<close>

fun topo_nodes :: "files \<Rightarrow> nat list \<Rightarrow> string \<Rightarrow> int \<times> int list list \<Rightarrow> (bool \<times> int \<times> int list list) option" where
  "topo_nodes fs [] cpuListStr nt = Some (True, nt)"
| "topo_nodes fs (i # is) cpuListStr nt =
     (case fs (node_path i) of
        None \<Rightarrow> Some (False, nt)
      | Some content \<Rightarrow>
          (let s = read_word content cpuListStr in topo_tokens i (getlines CHR '','' s) nt \<bind> topo_nodes fs is s))"

definition one_cluster :: "files \<Rightarrow> Topology \<Rightarrow> int option" where
  "one_cluster fs t =
     (case fs cluster_list_path of
        None \<Rightarrow> Some (oneClusterCpuNum t)
      | Some content \<Rightarrow>
          (let s = read_word content []; dashPos = str_find s ''-'' 0 in do {
             start \<leftarrow> stoi (case dashPos of None \<Rightarrow> s | Some p \<Rightarrow> take p s);
             end \<leftarrow> stoi (case dashPos of None \<Rightarrow> s | Some p \<Rightarrow> drop (p + 1) s);
             Some (end - start + 1)
           }))"

definition ProcessCpuTopology :: "files \<Rightarrow> Topology \<Rightarrow> (int \<times> Topology) option" where
  "ProcessCpuTopology fs t = do {
     one \<leftarrow> one_cluster fs t;
     let off = (case fs offline_path of None \<Rightarrow> isSystemOfflineCpu t | Some content \<Rightarrow> read_word content [] \<noteq> []);
     let t1 = t\<lparr>oneClusterCpuNum := one, isSystemOfflineCpu := off\<rparr>;
     (opened, cpuNum, topo) \<leftarrow> topo_nodes fs [0..<numaNodeNum t] [] (0, cpuTopology t);
     if \<not> opened then Some (-1, t1\<lparr>cpuTopology := topo\<rparr>)
     else Some (0, t1\<lparr>cpuTopology := topo, clusterNum := (if one \<noteq> 0 then cpuNum sdiv one else 0)\<rparr>)
   }"

definition Topology_init :: "nat \<Rightarrow> Topology" where
  "Topology_init n = \<lparr>numaNodeNum = n, clusterNum = 0, oneClusterCpuNum = 0, cpuTopology = replicate n [],
     isHyperThreading = False, isSystemOfflineCpu = False\<rparr>"

definition Topology_new :: "files \<Rightarrow> nat \<Rightarrow> Topology option" where
  "Topology_new fs n = map_option snd (ProcessCpuTopology fs (Topology_init n))"

definition GetCpuTopology :: "Topology \<Rightarrow> int \<Rightarrow> int list" where
  "GetCpuTopology t node =
     (if node < 0 \<or> int (numaNodeNum t) \<le> node then [] else cpuTopology t ! nat node)"

subsection \<open>Reading the topology\<close>

lemma topo_token_parse:
  assumes "parse_range_token tok = Some ns" "ns \<noteq> []"
  shows "topo_token i tok (n, topo) = Some (n + int (length ns), topo[i := topo ! i @ ns])"
proof (cases "str_find tok ''-'' 0")
  case None
  then show ?thesis using assms by (auto simp: parse_range_token_def topo_token_def)
next
  case (Some d)
  then obtain start stop where "stoi (take d tok) = Some start" "stoi (drop (d + 1) tok) = Some stop"
      "\<not> (start \<le> stop \<and> stop = 2 ^ 31 - 1)" "ns = [start..stop]"
    using assms(1) by (auto simp: parse_range_token_def bind_eq_Some_conv split: if_splits)
  moreover then have "start \<le> stop" using assms(2) by (cases "start \<le> stop") auto
  ultimately show ?thesis using Some by (simp add: topo_token_def AddCpuRange_def)
qed

definition ranges_ok :: "(nat \<times> nat) list \<Rightarrow> bool" where
  "ranges_ok rs = (\<forall>r \<in> set rs. fst r \<le> snd r \<and> snd r < 2 ^ 31 - 1)"

definition cpus_of :: "(nat \<times> nat) list \<Rightarrow> int list" where
  "cpus_of rs = concat (map (\<lambda>r. [int (fst r)..int (snd r)]) rs)"

definition cpulist :: "(nat \<times> nat) list \<Rightarrow> string" where
  "cpulist rs = Concat (map range_render rs) '',''"

lemma topo_tokens_render:
  "ranges_ok rs \<Longrightarrow> i < length topo \<Longrightarrow>
   topo_tokens i (map range_render rs) (n, topo) = Some (n + int (length (cpus_of rs)), topo[i := topo ! i @ cpus_of rs])"
proof (induction rs arbitrary: n topo)
  case (Cons r rs)
  then have "fst r \<le> snd r" "snd r < 2 ^ 31 - 1" by (auto simp: ranges_ok_def)
  then show ?case
    using Cons by (simp add: topo_token_parse [OF parse_range_token_render] ranges_ok_def cpus_of_def)
qed (simp add: cpus_of_def)

lemma isspace_digits10: "c \<in> set (digits10 n) \<Longrightarrow> \<not> isspace c"
  using digits10_isdigit [of c n] by (auto simp: isdigit_def isspace_def)

lemma isspace_range_render: "c \<in> set (range_render r) \<Longrightarrow> \<not> isspace c"
  by (auto simp: range_render_def isspace_digits10 split: if_splits) (simp add: isspace_def)

lemma isspace_Concat: "(\<And>x c. x \<in> set xs \<Longrightarrow> c \<in> set x \<Longrightarrow> \<not> isspace c) \<Longrightarrow> c \<in> set (Concat xs '','') \<Longrightarrow> \<not> isspace c"
  by (induction xs "'','' :: string" rule: Concat.induct) (auto simp: isspace_def)

lemma isspace_cpulist: "c \<in> set (cpulist rs) \<Longrightarrow> \<not> isspace c"
  unfolding cpulist_def by (rule isspace_Concat [of "map range_render rs"]) (auto dest: isspace_range_render)

lemma cpulist_Nil_iff [simp]: "cpulist rs = [] \<longleftrightarrow> rs = []"
proof -
  have "Concat (r # xs) '','' \<noteq> []" if "r \<noteq> []" for r xs
    using that by (cases xs) auto
  moreover have "range_render r \<noteq> []" for r by (simp add: range_render_def)
  ultimately show ?thesis by (cases rs) (simp_all add: cpulist_def)
qed

lemma read_word_line:
  assumes "\<And>c. c \<in> set w \<Longrightarrow> \<not> isspace c" "isspace e"
  shows "read_word (w @ [e]) old = (if w = [] then old else w)"
proof -
  have "dropWhile isspace (w @ [e]) = (if w = [] then [] else w @ [e])" "takeWhile (\<lambda>c. \<not> isspace c) (w @ [e]) = w"
    using assms by (cases w; auto simp: takeWhile_append2)+
  then show ?thesis by (simp add: read_word_def)
qed

lemma sdiv_int_nat: "int x sdiv int y = int x div int y"
  by (cases "x = 0"; cases "y = 0") (simp_all add: signed_divide_int_def)

text \<open>What the loop makes of a node without cores: it gets the list of the node before it.\<close>

fun carried :: "'a list \<Rightarrow> 'a list list \<Rightarrow> 'a list list" where
  "carried prev [] = []"
| "carried prev (rs # rss) = (let cur = (if rs = [] then prev else rs) in cur # carried cur rss)"

lemma carried_full: "[] \<notin> set rss \<Longrightarrow> carried prev rss = rss"
  by (induction rss arbitrary: prev) auto

lemma topo_nodes_render:
  assumes "\<And>j. j < length rss \<Longrightarrow> fs (node_path (length pre + j)) = Some (cpulist (rss ! j) @ [CHR 0x0A])"
    and "ranges_ok prev" "\<And>rs. rs \<in> set rss \<Longrightarrow> ranges_ok rs"
  shows "topo_nodes fs [length pre..<length pre + length rss] (cpulist prev) (n, pre @ replicate (length rss) []) =
    Some (True, n + int (length (concat (map cpus_of (carried prev rss)))), pre @ map cpus_of (carried prev rss))"
  using assms
proof (induction rss arbitrary: pre prev n)
  case (Cons rs rss)
  let ?cur = "if rs = [] then prev else rs"
  have up: "[length pre..<length pre + length (rs # rss)] = length pre # [length (pre @ [cpus_of ?cur])..<length (pre @ [cpus_of ?cur]) + length rss]"
    using upt_conv_Cons [of "length pre" "length pre + length (rs # rss)"] by simp
  have f: "fs (node_path (length pre)) = Some (cpulist rs @ [CHR 0x0A])" using Cons.prems(1) [of 0] by simp
  have w: "read_word (cpulist rs @ [CHR 0x0A]) (cpulist prev) = cpulist ?cur"
    by (subst read_word_line) (auto dest: isspace_cpulist simp: isspace_def)
  have ok: "ranges_ok ?cur" using Cons.prems by auto
  have t: "topo_tokens (length pre) (getlines CHR '','' (cpulist ?cur)) (n, pre @ replicate (length (rs # rss)) []) =
      Some (n + int (length (cpus_of ?cur)), (pre @ [cpus_of ?cur]) @ replicate (length rss) [])"
    unfolding cpulist_def range_render_getlines
    by (subst topo_tokens_render [OF ok]) (simp_all add: nth_append list_update_append)
  have ih: "topo_nodes fs [length (pre @ [cpus_of ?cur])..<length (pre @ [cpus_of ?cur]) + length rss] (cpulist ?cur)
      (n + int (length (cpus_of ?cur)), (pre @ [cpus_of ?cur]) @ replicate (length rss) []) =
    Some (True, n + int (length (cpus_of ?cur)) + int (length (concat (map cpus_of (carried ?cur rss)))),
      (pre @ [cpus_of ?cur]) @ map cpus_of (carried ?cur rss))"
    using Cons.prems(1) [of "Suc _"] Cons.prems(3) ok by (intro Cons.IH) auto
  show ?case
    unfolding up topo_nodes.simps f option.case w Let_def t Option.bind.bind_lunit ih by (simp add: Let_def)
qed simp

text \<open>On a machine whose files list the cores of each node as the kernel prints them, the topology
  holds exactly these cores and counts the clusters; but a node without cores (its file is an empty
  line) gets the cores of the node before it a second time, because the word read last stays in
  place.
\<close>

lemma Topology_lists:
  assumes "fs cluster_list_path = Some (cpulist [(a, b)] @ [CHR 0x0A])" "fs offline_path = None"
    and "\<And>i. i < length rss \<Longrightarrow> fs (node_path i) = Some (cpulist (rss ! i) @ [CHR 0x0A])"
    and "ranges_ok [(a, b)]" "\<And>rs. rs \<in> set rss \<Longrightarrow> ranges_ok rs"
  shows "Topology_new fs (length rss) = Some \<lparr>numaNodeNum = length rss,
      clusterNum = int (length (concat (map cpus_of (carried [] rss)))) div int (b - a + 1),
      oneClusterCpuNum = int (b - a + 1), cpuTopology = map cpus_of (carried [] rss),
      isHyperThreading = False, isSystemOfflineCpu = False\<rparr> \<and>
    ([] \<notin> set rss \<longrightarrow> carried [] rss = rss)"
proof -
  let ?t = "Topology_init (length rss)"
  have ab: "a \<le> b" "b < 2 ^ 31 - 1" using assms(4) by (auto simp: ranges_ok_def)
  have w: "read_word (cpulist [(a, b)] @ [CHR 0x0A]) [] = range_render (a, b)"
    using read_word_line [of "cpulist [(a, b)]" "CHR 0x0A" "[]"] isspace_cpulist [of _ "[(a, b)]"]
    by (simp add: isspace_def) (simp add: cpulist_def)
  have one: "one_cluster fs ?t = Some (int (b - a + 1))"
  proof (cases "a = b")
    case True
    show ?thesis using ab unfolding one_cluster_def assms(1) option.case Let_def w
      by (simp add: True range_render_def str_find_def find_sub_char_None no_dash_digits10 stoi_digits10)
  next
    case False
    have f: "str_find (digits10 a @ CHR ''-'' # digits10 b) ''-'' 0 = Some (length (digits10 a))"
      using find_sub_sep [of "CHR ''-''" "digits10 a" "[]" "digits10 b"] no_dash_digits10 by (simp add: str_find_def)
    show ?thesis using False ab by (simp add: one_cluster_def assms(1) w range_render_def f stoi_digits10 of_nat_diff)
  qed
  have "topo_nodes fs [length ([] :: int list list)..<length ([] :: int list list) + length rss] (cpulist []) (0, [] @ replicate (length rss) []) =
    Some (True, 0 + int (length (concat (map cpus_of (carried [] rss)))), [] @ map cpus_of (carried [] rss))"
    using assms(3,5) by (intro topo_nodes_render) (auto simp: ranges_ok_def)
  then have nodes: "topo_nodes fs [0..<length rss] [] (0, replicate (length rss) []) =
    Some (True, int (length (concat (map cpus_of (carried [] rss)))), map cpus_of (carried [] rss))"
    by (simp add: cpulist_def)
  show ?thesis
    using one nodes sdiv_int_nat [of "length (concat (map cpus_of (carried [] rss)))" "b - a + 1"]
    by (simp add: Topology_new_def ProcessCpuTopology_def Topology_init_def assms(2) Let_def
      carried_full del: length_concat of_nat_add of_nat_Suc)
qed

lemma Topology_lists_witness:
  "cpuTopology (the (Topology_new ((\<lambda>_. None)(cluster_list_path \<mapsto> cpulist [(0, 1)] @ [CHR 0x0A],
      node_path 0 \<mapsto> cpulist [(0, 3)] @ [CHR 0x0A], node_path 1 \<mapsto> cpulist [] @ [CHR 0x0A])) 2)) = [[0, 1, 2, 3], [0, 1, 2, 3]]"
proof -
  let ?fs = "(\<lambda>_. None)(cluster_list_path \<mapsto> cpulist [(0, 1)] @ [CHR 0x0A],
      node_path 0 \<mapsto> cpulist [(0, 3)] @ [CHR 0x0A], node_path 1 \<mapsto> cpulist [] @ [CHR 0x0A])"
  have ne: "cluster_list_path \<noteq> node_path 0" "cluster_list_path \<noteq> node_path 1" "node_path 0 \<noteq> node_path 1"
      "offline_path \<noteq> node_path 0" "offline_path \<noteq> node_path 1" "offline_path \<noteq> cluster_list_path"
    by (simp_all add: cluster_list_path_def offline_path_def node_path_def to_string_def digits10.simps digit_char_def)
  have n: "?fs (node_path i) = Some (cpulist ([[(0, 3)], []] ! i) @ [CHR 0x0A])" if "i < length [[(0 :: nat, 3 :: nat)], []]" for i
    using that ne by (cases i) auto
  have "Topology_new ?fs (length [[(0 :: nat, 3 :: nat)], []]) = Some \<lparr>numaNodeNum = length [[(0 :: nat, 3 :: nat)], []],
      clusterNum = int (length (concat (map cpus_of (carried [] [[(0, 3)], []])))) div int (1 - 0 + 1),
      oneClusterCpuNum = int (1 - 0 + 1), cpuTopology = map cpus_of (carried [] [[(0, 3)], []]),
      isHyperThreading = False, isSystemOfflineCpu = False\<rparr>"
    by (rule Topology_lists [of ?fs 0 1 "[[(0, 3)], []]", OF _ _ n, THEN conjunct1])
      (use ne in \<open>auto simp: ranges_ok_def\<close>)
  then show ?thesis by (simp add: numeral_2_eq_2 Let_def) (simp add: cpus_of_def upto_rec1)
qed

end
