(* ===== verification/Cluster_Selector.thy ===== *)
theory Cluster_Selector
  imports Complex_Main Cpu_Topology "HOL-Library.Char_ord" "HOL-Library.List_Lexorder"
begin

text \<open>
  The choice of idle nodes, clusters and cores,
  \<^verbatim>\<open>src/plugin/tune/docker/cluster_affinity/cluster_selector.cpp\<close>.

  The type of \<open>double\<close> is a parameter \<open>'d\<close> with the operations of \<open>float_ops\<close>, of which
  nothing is assumed: the theorems hold for IEEE arithmetic with its rounding and its NaN.
  \<open>operator[]\<close> on the maps of loads and counters inserts a default value, which is what a later
  read of a missing key gives as well; these reads are \<open>al_get\<close>.
\<close>

subsection \<open>Floating point numbers\<close>

text \<open>
  \<open>fp_lit n d\<close> is the literal of the value \<open>n / d\<close>; \<open>fp_trunc\<close> is the conversion to an integer,
  \<open>None\<close> for what has no integer value; \<open>fp_str\<close> is \<open>std::to_string\<close>.
\<close>

record 'd float_ops =
  fp_of_int :: "int \<Rightarrow> 'd"
  fp_lit :: "int \<Rightarrow> int \<Rightarrow> 'd"
  fp_add :: "'d \<Rightarrow> 'd \<Rightarrow> 'd"
  fp_sub :: "'d \<Rightarrow> 'd \<Rightarrow> 'd"
  fp_mul :: "'d \<Rightarrow> 'd \<Rightarrow> 'd"
  fp_div :: "'d \<Rightarrow> 'd \<Rightarrow> 'd"
  fp_lt :: "'d \<Rightarrow> 'd \<Rightarrow> bool"
  fp_le :: "'d \<Rightarrow> 'd \<Rightarrow> bool"
  fp_ceil :: "'d \<Rightarrow> 'd"
  fp_trunc :: "'d \<Rightarrow> int option"
  fp_max :: 'd
  fp_str :: "'d \<Rightarrow> string"

text \<open>Exact arithmetic is one instance, with six decimals as \<open>std::to_string\<close> prints them.\<close>

definition rat_ops :: "rat float_ops" where
  "rat_ops = \<lparr>fp_of_int = of_int, fp_lit = (\<lambda>n d. of_int n / of_int d), fp_add = (+), fp_sub = (-), fp_mul = (*),
     fp_div = (/), fp_lt = (<), fp_le = (\<le>), fp_ceil = (\<lambda>x. of_int \<lceil>x\<rceil>),
     fp_trunc = (\<lambda>x. Some (if x < 0 then \<lceil>x\<rceil> else \<lfloor>x\<rfloor>)), fp_max = of_int (2 ^ 1024),
     fp_str = (\<lambda>x. to_string \<lfloor>x\<rfloor> @ ''.'' @ to_string \<lfloor>frac x * 1000000\<rfloor>)\<rparr>"

subsection \<open>The selector\<close>

record CpuStats =
  user :: u64
  nice :: u64
  system_time :: u64
  idle :: u64
  iowait :: u64
  irq :: u64
  softirq :: u64

record 'd ClusterSelector =
  clusterTopology :: Topology
  l3cNameList :: "string list"
  clusterToL3c :: "(int \<times> string) list"
  scclL3c :: "(string \<times> u64 list) list"
  scclL3cSum :: "(string \<times> u64) list"
  cpuLoadMap :: "(int \<times> 'd) list"
  prevCpuStatsMap :: "(int \<times> CpuStats) list"

definition L3C_HIT_QUEUE_LENGTH :: nat where
  "L3C_HIT_QUEUE_LENGTH = 10"

text \<open>
  The scan all three choices are made of: the first index with the least value among those that
  are free and below the start value.
\<close>

definition min_scan :: "('v \<Rightarrow> 'v \<Rightarrow> bool) \<Rightarrow> (nat \<Rightarrow> bool) \<Rightarrow> (nat \<Rightarrow> 'v) \<Rightarrow> nat list \<Rightarrow> 'v \<times> nat option \<Rightarrow> 'v \<times> nat option" where
  "min_scan gt free val is mb =
     foldl (\<lambda>(minVal, best) i. if gt minVal (val i) \<and> free i then (val i, Some i) else (minVal, best)) mb is"

definition load_of :: "'d float_ops \<Rightarrow> 'd ClusterSelector \<Rightarrow> int \<Rightarrow> 'd" where
  "load_of fp s cpu = al_get (fp_of_int fp 0) (cpuLoadMap s) cpu"

text \<open>\<open>used[i]\<close> is read for every node: a shorter vector is undefined.\<close>

definition SelectIdleNode :: "'d float_ops \<Rightarrow> 'd ClusterSelector \<Rightarrow> int list \<Rightarrow> int option" where
  "SelectIdleNode fp s used =
     (let nodeNum = numaNodeNum (clusterTopology s);
          dataVec = map (\<lambda>i. if used ! i \<noteq> 0 then fp_of_int fp 0
            else foldl (fp_add fp) (fp_of_int fp 0) (map (load_of fp s) (GetCpuTopology (clusterTopology s) (int i)))) [0..<nodeNum]
      in if length used < nodeNum then None
         else Some (case snd (min_scan (\<lambda>m v. fp_lt fp v m) (\<lambda>i. used ! i = 0) ((!) dataVec) [0..<nodeNum] (fp_max fp, None)) of
             None \<Rightarrow> -1 | Some i \<Rightarrow> int i))"

definition l3c_sum :: "'d ClusterSelector \<Rightarrow> int \<Rightarrow> u64" where
  "l3c_sum s cluster = al_get 0 (scclL3cSum s) (al_get [] (clusterToL3c s) cluster)"

text \<open>The indices are \<open>uint32_t\<close>: without clusters the last index of node 0 wraps to the largest.\<close>

definition cluster_begin :: "Topology \<Rightarrow> int \<Rightarrow> int" where
  "cluster_begin t node = ((clusterNum t sdiv int (numaNodeNum t)) mod 2 ^ 32 * node) mod 2 ^ 32"

definition cluster_end :: "Topology \<Rightarrow> int \<Rightarrow> int" where
  "cluster_end t node = (cluster_begin t node + (clusterNum t sdiv int (numaNodeNum t)) - 1) mod 2 ^ 32"

definition SelectIdleCluster :: "'d ClusterSelector \<Rightarrow> int \<Rightarrow> int list \<Rightarrow> int" where
  "SelectIdleCluster s node used =
     (let t = clusterTopology s; begin = cluster_begin t node in
      if node < 0 \<or> int (numaNodeNum t) \<le> node then -1
      else (case snd (min_scan (\<lambda>m v. v < m) (\<lambda>j. used ! j = 0) (\<lambda>j. l3c_sum s ((begin + int j) mod 2 ^ 32))
              (takeWhile (\<lambda>j. (begin + int j) mod 2 ^ 32 \<le> cluster_end t node) [0..<length used])
              (- 1, None)) of
          None \<Rightarrow> -1 | Some j \<Rightarrow> (begin + int j) mod 2 ^ 32))"

definition SelectIdleCpuFromCluster :: "'d float_ops \<Rightarrow> 'd ClusterSelector \<Rightarrow> int \<Rightarrow> int list \<Rightarrow> int" where
  "SelectIdleCpuFromCluster fp s clusterId used =
     (let start = clusterId * oneClusterCpuNum (clusterTopology s) in
      case snd (min_scan (\<lambda>m v. fp_lt fp v m) (\<lambda>j. used ! j = 0) (\<lambda>j. load_of fp s (start + int j))
             [0..<length used] (fp_lit fp 100 1, None)) of
        None \<Rightarrow> start | Some j \<Rightarrow> start + int j)"

text \<open>The counts of the last ten seconds of a cache and their sum.\<close>

definition SetL3cCount :: "u64 \<Rightarrow> nat \<Rightarrow> 'd ClusterSelector \<Rightarrow> 'd ClusterSelector option" where
  "SetL3cCount count index s = do {
     name \<leftarrow> nth_opt (l3cNameList s) index;
     let q = al_get [] (scclL3c s) name @ [count];
     let sum = al_get 0 (scclL3cSum s) name + count;
     if L3C_HIT_QUEUE_LENGTH < length q
     then Some (s\<lparr>scclL3c := AList.update name (tl q) (scclL3c s), scclL3cSum := AList.update name (sum - hd q) (scclL3cSum s)\<rparr>)
     else Some (s\<lparr>scclL3c := AList.update name q (scclL3c s), scclL3cSum := AList.update name sum (scclL3cSum s)\<rparr>)
   }"

text \<open>
  \<open>Init\<close>: the names of the caches in \<^verbatim>\<open>/sys/devices\<close> (\<open>dir\<close>, \<open>None\<close> when it cannot be opened) and
  the cluster each belongs to. The variable \<open>clusterId\<close> is not initialized and keeps its value when
  a file cannot be read; dividing by a cluster size of zero is undefined.
\<close>

definition read_int :: "string \<Rightarrow> int \<Rightarrow> int" where
  "read_int content old =
     (let r = dropWhile isspace content in
      if r = [] then old
      else (case strtol10 r of None \<Rightarrow> 0 | Some v \<Rightarrow> max (- (2 ^ 31)) (min v (2 ^ 31 - 1))))"

fun map_caches :: "files \<Rightarrow> int \<Rightarrow> string list \<Rightarrow> int \<Rightarrow> (int \<times> string) list \<Rightarrow> (int \<times> string) list option" where
  "map_caches fs one [] clusterId m = Some m"
| "map_caches fs one (name # names) clusterId m =
     (let v = (case fs (''/sys/devices/'' @ name @ ''/cpumask'') of None \<Rightarrow> clusterId | Some content \<Rightarrow> read_int content clusterId)
      in if one = 0 then None else map_caches fs one names (v sdiv one) (AList.update (v sdiv one) name m))"

definition Selector_Init :: "files \<Rightarrow> string list option \<Rightarrow> int \<Rightarrow> 'd ClusterSelector \<Rightarrow> (bool \<times> 'd ClusterSelector) option" where
  "Selector_Init fs dir junk s =
     (let names = l3cNameList s @ (case dir of None \<Rightarrow> [] | Some es \<Rightarrow> filter (\<lambda>e. str_find e ''l3c'' 0 \<noteq> None) es) in
      if names = [] then Some (False, s)
      else do {
        m \<leftarrow> map_caches fs (oneClusterCpuNum (clusterTopology s)) (sort names) junk (clusterToL3c s);
        Some (True, s\<lparr>l3cNameList := sort names, clusterToL3c := m\<rparr>)
      })"

text \<open>\<open>stream >> n\<close> for an \<open>unsigned long\<close>: the value, the rest and the fail bit of the stream.\<close>

definition read_ulong :: "u64 \<Rightarrow> string \<times> bool \<Rightarrow> u64 \<times> string \<times> bool" where
  "read_ulong old st =
     (let r = dropWhile isspace (fst st); (neg, t) = skip_sign r; ds = takeWhile isdigit t; rest = dropWhile isdigit t in
      if snd st \<or> r = [] then (old, r, True)
      else if ds = [] then (0, t, True)
      else if 2 ^ 64 \<le> dec_value ds then (- 1, rest, True)
      else (if neg then - word_of_nat (dec_value ds) else word_of_nat (dec_value ds), rest, False))"

definition read_stats :: "CpuStats \<Rightarrow> string \<Rightarrow> CpuStats" where
  "read_stats junk line =
     (let (v1, st1) = read_ulong (user junk) (line, False);
          (v2, st2) = read_ulong (nice junk) st1;
          (v3, st3) = read_ulong (system_time junk) st2;
          (v4, st4) = read_ulong (idle junk) st3;
          (v5, st5) = read_ulong (iowait junk) st4;
          (v6, st6) = read_ulong (irq junk) st5;
          (v7, st7) = read_ulong (softirq junk) st6
      in \<lparr>user = v1, nice = v2, system_time = v3, idle = v4, iowait = v5, irq = v6, softirq = v7\<rparr>)"

definition stat_line :: "CpuStats \<Rightarrow> (int \<times> CpuStats) list \<Rightarrow> string \<Rightarrow> (int \<times> CpuStats) list" where
  "stat_line junk m line =
     (if take 3 line \<noteq> ''cpu'' then m
      else let label = read_word line [];
               cpuNumber = (if 3 < length label then stoi (drop 3 label) else Some (-1))
           in case cpuNumber of
                None \<Rightarrow> m
              | Some n \<Rightarrow> if 0 \<le> n then AList.update n (read_stats junk (drop (length label) line)) m else m)"

definition ReadCpuStats :: "files \<Rightarrow> CpuStats \<Rightarrow> (int \<times> CpuStats) list \<Rightarrow> bool \<times> (int \<times> CpuStats) list" where
  "ReadCpuStats fs junk m =
     (case fs ''/proc/stat'' of
        None \<Rightarrow> (False, m)
      | Some content \<Rightarrow> (True, foldl (stat_line junk) m (getlines (CHR 0x0A) content)))"

definition total_time :: "CpuStats \<Rightarrow> u64" where
  "total_time c = user c + nice c + system_time c + idle c + iowait c + irq c + softirq c"

definition CalculateCpuLoad :: "'d float_ops \<Rightarrow> CpuStats \<Rightarrow> CpuStats \<Rightarrow> 'd" where
  "CalculateCpuLoad fp prev cur =
     (let totalDelta = fp_of_int fp (uint (total_time cur - total_time prev));
          idleDelta = fp_of_int fp (uint ((idle cur + iowait cur) - (idle prev + iowait prev)))
      in fp_mul fp (fp_sub fp (fp_lit fp 1 1) (fp_div fp idleDelta totalDelta)) (fp_lit fp 100 1))"

definition zero_stats :: CpuStats where
  "zero_stats = \<lparr>user = 0, nice = 0, system_time = 0, idle = 0, iowait = 0, irq = 0, softirq = 0\<rparr>"

definition UpdateCpuLoad :: "'d float_ops \<Rightarrow> files \<Rightarrow> CpuStats \<Rightarrow> 'd ClusterSelector \<Rightarrow> 'd ClusterSelector" where
  "UpdateCpuLoad fp fs junk s =
     (let current = snd (ReadCpuStats fs junk []);
          loads = foldl (\<lambda>m (n, prev). AList.update n (CalculateCpuLoad fp prev (al_get zero_stats current n)) m)
            (cpuLoadMap s) (prevCpuStatsMap s);
          seen = foldl (\<lambda>m (n, prev). al_insert n zero_stats m) current (prevCpuStatsMap s)
      in s\<lparr>cpuLoadMap := loads, prevCpuStatsMap := seen\<rparr>)"

text \<open>The counters arrive in the order of the names; \<open>counts\<close> are the \<open>count\<close> fields of the data.\<close>

fun set_counts :: "nat \<Rightarrow> u64 list \<Rightarrow> 'd ClusterSelector \<Rightarrow> 'd ClusterSelector option" where
  "set_counts i [] s = Some s"
| "set_counts i (c # cs) s = SetL3cCount c i s \<bind> set_counts (i + 1) cs"

definition Selector_Update :: "'d float_ops \<Rightarrow> files \<Rightarrow> CpuStats \<Rightarrow> u64 list \<Rightarrow> 'd ClusterSelector \<Rightarrow> 'd ClusterSelector option" where
  "Selector_Update fp fs junk counts s = map_option (UpdateCpuLoad fp fs junk) (set_counts 0 counts s)"

subsection \<open>The scan\<close>

lemma min_scan_Nil [simp]: "min_scan gt free val [] mb = mb"
  by (simp add: min_scan_def)

lemma min_scan_Cons [simp]: "min_scan gt free val (i # is) mb =
    min_scan gt free val is (if gt (fst mb) (val i) \<and> free i then (val i, Some i) else mb)"
  by (simp add: min_scan_def split: prod.split)

text \<open>What is chosen is one of the free indices, or what was chosen before.\<close>

lemma min_scan_in:
  "snd (min_scan gt free val is mb) = Some i \<Longrightarrow> (i \<in> set is \<and> free i) \<or> snd mb = Some i"
  by (induction "is" arbitrary: mb) (fastforce split: if_splits)+

lemma min_scan_keeps: "snd mb = Some i \<Longrightarrow> \<exists>j. snd (min_scan gt free val is mb) = Some j"
  by (induction "is" arbitrary: mb i) auto

lemma min_scan_value:
  "min_scan gt free val is mb = (m, b) \<Longrightarrow> (\<And>j. snd mb = Some j \<Longrightarrow> fst mb = val j) \<Longrightarrow> b = Some i \<Longrightarrow> m = val i"
proof (induction "is" arbitrary: mb)
  case (Cons j "is")
  show ?case
    using Cons.IH [of "(val j, Some j)"] Cons.IH [of mb] Cons.prems by (auto split: if_splits)
qed auto

text \<open>Something is chosen exactly when a free index lies below the start value.\<close>

lemma min_scan_None_iff:
  "snd (min_scan gt free val is (m, None)) = None \<longleftrightarrow> (\<forall>i \<in> set is. \<not> (gt m (val i) \<and> free i))"
proof (induction "is")
  case (Cons i "is")
  then show ?case
    using min_scan_keeps [of "(val i, Some i)" i gt free val "is"] by auto
qed simp

locale scan_order =
  fixes gt :: "'v \<Rightarrow> 'v \<Rightarrow> bool"
  assumes gt_irrefl: "\<not> gt a a"
    and gt_trans: "gt a b \<Longrightarrow> gt b c \<Longrightarrow> gt a c"
begin

lemma scan_bound:
  "min_scan gt free val is mb = (m', b) \<Longrightarrow> m' = fst mb \<or> gt (fst mb) m'"
proof (induction "is" arbitrary: mb)
  case (Cons i "is")
  show ?case
    using Cons.IH [of "(val i, Some i)"] Cons.IH [of mb] Cons.prems gt_trans [of "fst mb" "val i" m']
    by (auto split: if_splits)
qed simp

lemma scan_least:
  "min_scan gt free val is mb = (m', b) \<Longrightarrow> i \<in> set is \<Longrightarrow> free i \<Longrightarrow> \<not> gt m' (val i)"
proof (induction "is" arbitrary: mb)
  case (Cons j "is")
  show ?case
  proof (cases "i = j")
    case True
    let ?mb = "if gt (fst mb) (val j) \<and> free j then (val j, Some j) else mb"
    have "\<not> gt (fst ?mb) (val j)" using True Cons.prems(3) gt_irrefl by auto
    moreover have "m' = fst ?mb \<or> gt (fst ?mb) m'"
      using scan_bound Cons.prems(1) by (simp only: min_scan_Cons)
    ultimately show ?thesis using True gt_trans by blast
  next
    case False
    then show ?thesis using Cons.IH Cons.prems by (simp only: min_scan_Cons set_ConsD) fastforce
  qed
qed simp

end

interpretation count_order: scan_order "\<lambda>(m :: 'a :: linorder) v. v < m"
  by unfold_locales auto

subsection \<open>The choices\<close>

text \<open>A machine whose nodes have the same number \<open>k\<close> of clusters, few enough for 32 bits.\<close>

definition regular :: "Topology \<Rightarrow> int \<Rightarrow> bool" where
  "regular t k = (0 < k \<and> 0 < numaNodeNum t \<and> clusterNum t = k * int (numaNodeNum t) \<and> clusterNum t < 2 ^ 31)"

lemma regular_index:
  assumes "regular t k" "0 \<le> node" "node < int (numaNodeNum t)" "0 \<le> j" "j < k"
  shows "cluster_begin t node = k * node" "(k * node + j) mod 2 ^ 32 = k * node + j"
    "cluster_end t node = k * node + k - 1"
proof -
  have n: "0 < k" "0 < int (numaNodeNum t)" "k * int (numaNodeNum t) < 2 ^ 31"
    and c: "clusterNum t = k * int (numaNodeNum t)"
    using assms(1) by (auto simp: regular_def)
  have d: "clusterNum t sdiv int (numaNodeNum t) = k"
    using n by (simp add: c signed_divide_int_def abs_mult sgn_mult)
  have k: "k * (node + 1) \<le> k * int (numaNodeNum t)"
    using assms(2,3) n by (intro mult_left_mono) auto
  then have le: "k * node + k < 2 ^ 31" using n by (simp add: algebra_simps)
  have nn: "0 \<le> k * node" using n assms(2) by simp
  have km: "k mod 2 ^ 32 = k" using le nn n by (intro mod_pos_pos_trivial) auto
  show b: "cluster_begin t node = k * node"
    using le nn n by (simp add: cluster_begin_def d km)
  show "(k * node + j) mod 2 ^ 32 = k * node + j" using le nn assms(4,5) by simp
  show "cluster_end t node = k * node + k - 1"
    using le nn n by (simp add: cluster_end_def b d)
qed

lemma SelectIdleCluster_cases:
  assumes "regular (clusterTopology s) k" "0 \<le> node" "node < int (numaNodeNum (clusterTopology s))"
    and "length used \<le> nat k"
  obtains (none) "SelectIdleCluster s node used = -1"
      "\<And>j. j < length used \<Longrightarrow> used ! j = 0 \<Longrightarrow> l3c_sum s (k * node + int j) = - 1"
  | (found) j where "SelectIdleCluster s node used = k * node + int j" "j < length used" "used ! j = 0"
      "l3c_sum s (k * node + int j) \<noteq> - 1" "\<And>i. i < length used \<Longrightarrow> used ! i = 0 \<Longrightarrow> l3c_sum s (k * node + int j) \<le> l3c_sum s (k * node + int i)"
proof -
  let ?t = "clusterTopology s" and ?val = "\<lambda>j. l3c_sum s (k * node + int j)"
  let ?scan = "min_scan (\<lambda>m v. v < m) (\<lambda>j. used ! j = 0) ?val [0..<length used] (- 1, None)"
  have ix: "(k * node + int j) mod 4294967296 = k * node + int j" if "j < length used" for j
    using regular_index(2) [OF assms(1-3), of "int j"] that assms(4) by simp
  have b: "cluster_begin ?t node = k * node" "cluster_end ?t node = k * node + k - 1"
    using regular_index [OF assms(1-3), of 0] assms(1) by (auto simp: regular_def)
  have tw: "takeWhile (\<lambda>j. (k * node + int j) mod 4294967296 < k * node + k) [0..<length used] = [0..<length used]"
    using assms(4) ix by (auto simp: takeWhile_eq_all_conv)
  have scan: "min_scan (\<lambda>m v. v < m) (\<lambda>j. used ! j = 0) (\<lambda>j. l3c_sum s ((k * node + int j) mod 4294967296))
      [0..<length used] mb = min_scan (\<lambda>m v. v < m) (\<lambda>j. used ! j = 0) ?val [0..<length used] mb" for mb
    unfolding min_scan_def by (rule foldl_cong) (auto simp: ix)
  have sel: "SelectIdleCluster s node used = (case snd ?scan of None \<Rightarrow> -1 | Some j \<Rightarrow> (k * node + int j) mod 4294967296)"
    using assms(2,3) by (simp add: SelectIdleCluster_def Let_def b tw scan split: option.split)
  obtain m b where mb: "?scan = (m, b)" by (cases ?scan)
  show thesis
  proof (cases b)
    case None
    then have n: "snd ?scan = None" using mb by simp
    then have u: "\<not> (?val j < - 1 \<and> used ! j = 0)" if "j < length used" for j
      using min_scan_None_iff [of "\<lambda>m v. v < m" "\<lambda>j. used ! j = 0" ?val "[0..<length used]" "- 1"] that by simp
    have "?val j = - 1" if "j < length used" "used ! j = 0" for j
      using u [OF that(1)] that(2) word_order.extremum [of "?val j"] by (simp add: not_less order.antisym)
    then show thesis using none sel n by simp
  next
    case (Some j)
    then have j: "j < length used" "used ! j = 0"
      using min_scan_in [of "\<lambda>m v. v < m" "\<lambda>j. used ! j = 0" ?val "[0..<length used]" "(- 1, None)" j] mb by auto
    have m: "m = ?val j" using min_scan_value [OF mb] Some by simp
    have "?val j \<le> ?val i" if "i < length used" "used ! i = 0" for i
      using count_order.scan_least [OF mb, of i] that m by (simp add: not_less)
    moreover have "?val j \<noteq> - 1"
    proof
      assume top: "?val j = - 1"
      have "\<not> ?val i < - 1" if "i < length used" "used ! i = 0" for i
        using count_order.scan_least [OF mb, of i] that m top by simp
      then have "snd ?scan = None" by (auto simp: min_scan_None_iff)
      then show False using mb Some by simp
    qed
    ultimately show thesis using found [of j] j sel mb Some ix [OF j(1)] by simp
  qed
qed

text \<open>A core is chosen among the free ones as long as one of them is not fully loaded.\<close>

lemma SelectIdleCpu_free:
  assumes "j < length used" "used ! j = 0"
    and "fp_lt fp (load_of fp s (clusterId * oneClusterCpuNum (clusterTopology s) + int j)) (fp_lit fp 100 1)"
  obtains i where "i < length used" "used ! i = 0"
    "SelectIdleCpuFromCluster fp s clusterId used = clusterId * oneClusterCpuNum (clusterTopology s) + int i"
proof -
  let ?start = "clusterId * oneClusterCpuNum (clusterTopology s)"
  let ?scan = "min_scan (\<lambda>m v. fp_lt fp v m) (\<lambda>j. used ! j = 0) (\<lambda>j. load_of fp s (?start + int j))
    [0..<length used] (fp_lit fp 100 1, None)"
  have "snd ?scan \<noteq> None" using assms by (auto simp: min_scan_None_iff)
  then obtain i where i: "snd ?scan = Some i" by blast
  then have "i < length used" "used ! i = 0"
    using min_scan_in [OF i] by auto
  then show thesis using that i by (simp add: SelectIdleCpuFromCluster_def Let_def)
qed

text \<open>When every free core is fully loaded the first core of the cluster is chosen, used or not.\<close>

lemma SelectIdleCpu_busy:
  assumes "\<And>j. j < length used \<Longrightarrow> used ! j = 0 \<Longrightarrow>
    \<not> fp_lt fp (load_of fp s (clusterId * oneClusterCpuNum (clusterTopology s) + int j)) (fp_lit fp 100 1)"
  shows "SelectIdleCpuFromCluster fp s clusterId used = clusterId * oneClusterCpuNum (clusterTopology s)"
proof -
  let ?start = "clusterId * oneClusterCpuNum (clusterTopology s)"
  have "snd (min_scan (\<lambda>m v. fp_lt fp v m) (\<lambda>j. used ! j = 0) (\<lambda>j. load_of fp s (?start + int j))
    [0..<length used] (fp_lit fp 100 1, None)) = None"
    using assms by (auto simp: min_scan_None_iff)
  then show ?thesis by (simp add: SelectIdleCpuFromCluster_def Let_def)
qed

subsection \<open>The window of counts\<close>

definition window_ok :: "'d ClusterSelector \<Rightarrow> bool" where
  "window_ok s = (\<forall>name. al_get 0 (scclL3cSum s) name = sum_list (al_get [] (scclL3c s) name) \<and>
     length (al_get [] (scclL3c s) name) \<le> L3C_HIT_QUEUE_LENGTH)"

lemma SetL3cCount_window:
  assumes "SetL3cCount count i s = Some s'" "window_ok s"
  shows "window_ok s'"
proof -
  obtain name where n: "nth_opt (l3cNameList s) i = Some name"
    using assms(1) by (auto simp: SetL3cCount_def bind_eq_Some_conv)
  let ?q = "al_get [] (scclL3c s) name"
  have w: "al_get 0 (scclL3cSum s) name = sum_list ?q" "length ?q \<le> 10"
    using assms(2) by (auto simp: window_ok_def L3C_HIT_QUEUE_LENGTH_def)
  show ?thesis
  proof (cases "length ?q = 10")
    case True
    then obtain a q where q: "?q = a # q" by (cases ?q) auto
    then have "s' = s\<lparr>scclL3c := AList.update name (q @ [count]) (scclL3c s),
        scclL3cSum := AList.update name (sum_list (q @ [count])) (scclL3cSum s)\<rparr>"
      using assms(1) n w True by (simp add: SetL3cCount_def Let_def L3C_HIT_QUEUE_LENGTH_def algebra_simps)
    then show ?thesis using assms(2) q True by (auto simp: window_ok_def L3C_HIT_QUEUE_LENGTH_def)
  next
    case False
    then have "s' = s\<lparr>scclL3c := AList.update name (?q @ [count]) (scclL3c s),
        scclL3cSum := AList.update name (sum_list (?q @ [count])) (scclL3cSum s)\<rparr>"
      using assms(1) n w by (simp add: SetL3cCount_def Let_def L3C_HIT_QUEUE_LENGTH_def)
    moreover have "length ?q \<le> 9" using w False by linarith
    ultimately show ?thesis using assms(2) by (auto simp: window_ok_def L3C_HIT_QUEUE_LENGTH_def)
  qed
qed

text \<open>The last ten elements of a list.\<close>

definition last_ten :: "'a list \<Rightarrow> 'a list" where
  "last_ten xs = drop (length xs - L3C_HIT_QUEUE_LENGTH) xs"

lemma last_ten_push:
  "length q \<le> L3C_HIT_QUEUE_LENGTH \<Longrightarrow>
   last_ten (q @ [c]) = (if L3C_HIT_QUEUE_LENGTH < length (q @ [c]) then tl (q @ [c]) else q @ [c])"
  by (cases "length q = L3C_HIT_QUEUE_LENGTH") (auto simp: last_ten_def drop_Suc simp del: drop_append)

lemma SetL3cCount_effect:
  assumes "SetL3cCount count i s = Some s'" "window_ok s"
  shows "l3cNameList s' = l3cNameList s \<and> i < length (l3cNameList s) \<and> al_get [] (scclL3c s') name =
    (if name = l3cNameList s ! i then last_ten (al_get [] (scclL3c s) name @ [count]) else al_get [] (scclL3c s) name)"
proof -
  obtain n where n: "nth_opt (l3cNameList s) i = Some n"
    using assms(1) by (auto simp: SetL3cCount_def bind_eq_Some_conv)
  have w: "length (al_get [] (scclL3c s) n) \<le> L3C_HIT_QUEUE_LENGTH"
    using assms(2) by (auto simp: window_ok_def)
  show ?thesis
    using assms(1) n last_ten_push [OF w, of count]
    by (auto simp: SetL3cCount_def Let_def nth_opt_Some_iff split: if_splits)
qed

lemma set_counts_effect:
  assumes "set_counts i cs s = Some s'" "window_ok s" "distinct (l3cNameList s)"
  shows "window_ok s' \<and> l3cNameList s' = l3cNameList s \<and>
    (\<forall>j < length (l3cNameList s). al_get [] (scclL3c s') (l3cNameList s ! j) =
       (if i \<le> j \<and> j < i + length cs then last_ten (al_get [] (scclL3c s) (l3cNameList s ! j) @ [cs ! (j - i)])
        else al_get [] (scclL3c s) (l3cNameList s ! j)))"
  using assms
proof (induction i cs s rule: set_counts.induct)
  case (2 i c cs s)
  then obtain s1 where s1: "SetL3cCount c i s = Some s1" "set_counts (i + 1) cs s1 = Some s'"
    by (auto simp: bind_eq_Some_conv)
  note e = SetL3cCount_effect [OF s1(1) "2.prems"(2)]
  have "window_ok s' \<and> l3cNameList s' = l3cNameList s1 \<and>
    (\<forall>j < length (l3cNameList s1). al_get [] (scclL3c s') (l3cNameList s1 ! j) =
       (if i + 1 \<le> j \<and> j < i + 1 + length cs then last_ten (al_get [] (scclL3c s1) (l3cNameList s1 ! j) @ [cs ! (j - (i + 1))])
        else al_get [] (scclL3c s1) (l3cNameList s1 ! j)))"
    by (rule "2.IH" [OF s1]) (use e SetL3cCount_window [OF s1(1)] "2.prems" in auto)
  moreover have "l3cNameList s ! j = l3cNameList s ! i \<longleftrightarrow> j = i" if "j < length (l3cNameList s)" for j
    using e "2.prems"(3) that by (auto simp: nth_eq_iff_index_eq)
  ultimately show ?case
    using e by (auto simp: nth_Cons')
qed auto

lemma set_counts_defined: "window_ok s \<Longrightarrow> i + length cs \<le> length (l3cNameList s) \<Longrightarrow> \<exists>s'. set_counts i cs s = Some s'"
proof (induction i cs s rule: set_counts.induct)
  case (2 i c cs s)
  then have "i < length (l3cNameList s)" by simp
  then have "SetL3cCount c i s \<noteq> None" by (simp add: SetL3cCount_def Let_def nth_opt_def)
  then obtain s1 where s1: "SetL3cCount c i s = Some s1" by blast
  with 2 SetL3cCount_effect [OF s1] SetL3cCount_window [OF s1] show ?case by simp
qed simp

text \<open>
  The cluster chosen on a node is a free one whose cache had the fewest hits, and no cluster is
  chosen only when every free one has the largest count there is.
\<close>

lemma SelectIdleCluster_least:
  assumes "regular (clusterTopology s) k" "0 \<le> node" "node < int (numaNodeNum (clusterTopology s))" "length used \<le> nat k"
  defines "free \<equiv> \<lambda>j. j < length used \<and> used ! j = 0" and "hits \<equiv> \<lambda>j. l3c_sum s (k * node + int j)"
  shows "if \<forall>j. free j \<longrightarrow> hits j = - 1 then SelectIdleCluster s node used = -1
    else \<exists>j. free j \<and> SelectIdleCluster s node used = k * node + int j \<and> (\<forall>i. free i \<longrightarrow> hits j \<le> hits i)"
  using assms(1-4)
proof (cases rule: SelectIdleCluster_cases)
  case none
  then show ?thesis by (simp add: free_def hits_def)
next
  case (found j)
  then show ?thesis by (auto simp: free_def hits_def)
qed

theorem SelectIdleCluster_least_witness:
  "SelectIdleCluster \<lparr>clusterTopology = \<lparr>numaNodeNum = 2, clusterNum = 4, oneClusterCpuNum = 2,
       cpuTopology = [[0..3], [4..7]], isHyperThreading = False, isSystemOfflineCpu = False\<rparr>,
     l3cNameList = [''a'', ''b'', ''c'', ''d''], clusterToL3c = [(0, ''a''), (1, ''b''), (2, ''c''), (3, ''d'')],
     scclL3c = [], scclL3cSum = [(''c'', 7), (''d'', 5)], cpuLoadMap = ([] :: (int \<times> rat) list), prevCpuStatsMap = []\<rparr> 1 [0, 0] = 3"
proof -
  let ?s = "\<lparr>clusterTopology = \<lparr>numaNodeNum = 2, clusterNum = 4, oneClusterCpuNum = 2,
       cpuTopology = [[0..3], [4..7]], isHyperThreading = False, isSystemOfflineCpu = False\<rparr>,
     l3cNameList = [''a'', ''b'', ''c'', ''d''], clusterToL3c = [(0, ''a''), (1, ''b''), (2, ''c''), (3, ''d'')],
     scclL3c = [], scclL3cSum = [(''c'', 7), (''d'', 5)], cpuLoadMap = ([] :: (int \<times> rat) list), prevCpuStatsMap = []\<rparr>"
  have h: "l3c_sum ?s 2 = 7" "l3c_sum ?s 3 = 5" by (simp_all add: l3c_sum_def al_get_def)
  let ?free = "\<lambda>j. j < length [0 :: int, 0] \<and> [0 :: int, 0] ! j = 0"
  have t: "if \<forall>j. ?free j \<longrightarrow> l3c_sum ?s (2 * 1 + int j) = - 1 then SelectIdleCluster ?s 1 [0, 0] = -1
    else \<exists>j. ?free j \<and> SelectIdleCluster ?s 1 [0, 0] = 2 * 1 + int j \<and>
      (\<forall>i. ?free i \<longrightarrow> l3c_sum ?s (2 * 1 + int j) \<le> l3c_sum ?s (2 * 1 + int i))"
    by (rule SelectIdleCluster_least) (simp_all add: regular_def)
  have f: "?free 1" by simp
  have "\<not> (\<forall>j. ?free j \<longrightarrow> l3c_sum ?s (2 * 1 + int j) = - 1)"
    using h(2) by (intro notI) (drule spec [of _ 1], simp)
  with t obtain j where "?free j" "SelectIdleCluster ?s 1 [0, 0] = 2 * 1 + int j"
      "\<forall>i. ?free i \<longrightarrow> l3c_sum ?s (2 * 1 + int j) \<le> l3c_sum ?s (2 * 1 + int i)"
    by (auto simp only: if_False)
  then have j: "j < 2" "SelectIdleCluster ?s 1 [0, 0] = 2 + int j" "l3c_sum ?s (2 + int j) \<le> l3c_sum ?s 3"
    using f by (auto dest: spec [of _ 1])
  then have "j = 0 \<or> j = 1" by linarith
  with j h show ?thesis by auto
qed

text \<open>C28. After an update with the counters of the caches the window of a cache holds its last ten
  counts, and the sum the choice of clusters uses is their sum in 64-bit arithmetic.
\<close>

theorem Selector_Update_window:
  assumes "window_ok s" "distinct (l3cNameList s)" "length counts \<le> length (l3cNameList s)"
  shows "\<exists>s'. Selector_Update fp fs junk counts s = Some s' \<and>
    (\<forall>i < length counts. let name = l3cNameList s ! i in
       al_get [] (scclL3c s') name = last_ten (al_get [] (scclL3c s) name @ [counts ! i]) \<and>
       al_get 0 (scclL3cSum s') name = sum_list (al_get [] (scclL3c s') name)) \<and> window_ok s'"
proof -
  obtain s1 where s1: "set_counts 0 counts s = Some s1"
    using set_counts_defined [of s 0 counts] assms by auto
  note e = set_counts_effect [OF s1 assms(1,2)]
  have "window_ok (UpdateCpuLoad fp fs junk s1)" using e by (simp add: window_ok_def UpdateCpuLoad_def Let_def)
  then show ?thesis
    using s1 e assms(3) by (simp add: Selector_Update_def) (auto simp: window_ok_def UpdateCpuLoad_def Let_def)
qed

theorem Selector_Update_window_witness:
  "\<exists>s'. Selector_Update rat_ops (\<lambda>_. None) zero_stats [5] \<lparr>clusterTopology = Topology_init 1,
     l3cNameList = [''a''], clusterToL3c = [], scclL3c = [(''a'', [1, 2])], scclL3cSum = [(''a'', 3)],
     cpuLoadMap = [], prevCpuStatsMap = []\<rparr> = Some s' \<and> al_get 0 (scclL3cSum s') ''a'' = 8"
proof -
  let ?s = "\<lparr>clusterTopology = Topology_init 1, l3cNameList = [''a''], clusterToL3c = [], scclL3c = [(''a'', [1, 2])],
     scclL3cSum = [(''a'', 3)], cpuLoadMap = ([] :: (int \<times> rat) list), prevCpuStatsMap = []\<rparr>"
  have "window_ok ?s" by (simp add: window_ok_def al_get_def L3C_HIT_QUEUE_LENGTH_def)
  then show ?thesis
    using Selector_Update_window [of ?s "[5]" rat_ops "\<lambda>_. None" zero_stats]
    by (auto simp: al_get_def last_ten_def L3C_HIT_QUEUE_LENGTH_def Let_def)
qed

end
