(* ===== verification/Cluster_Affinity.thy ===== *)
theory Cluster_Affinity
  imports Cluster_Selector Config Topic_Model
begin

text \<open>
  The plugin that places containers on clusters of cores,
  \<^verbatim>\<open>src/plugin/tune/docker/cluster_affinity/cluster_affinity_adapt.cpp\<close>.

  Its state is the record \<open>affinity\<close>. \<open>affinity_env\<close> holds what lies outside: the arithmetic of
  \<open>double\<close>, the files of sysfs and procfs, which commands \<open>popen\<close> can start, the YAML library.
  \<open>cmds\<close> records the shell commands that were started.

  The maps of clusters and of nodes are never iterated, so the default that \<open>operator[]\<close> inserts
  for a missing key is not visible; the map of containers is only read at its own keys. An index
  outside a vector, \<open>back()\<close> of an empty vector, a cast of a \<open>double\<close> to an integer type that cannot
  hold it and an uncaught exception are \<open>None\<close>. The mutex makes \<open>Update\<close> and \<open>Exit\<close> atomic.
\<close>

subsection \<open>Data\<close>

record Container =
  cn_id :: string
  cfs_period_us :: int
  cfs_quota_us :: int
  cfs_burst_us :: int
  cpu_usage :: int
  sampling_timestamp :: int
  soft_quota :: int
  cpus :: string
  mems :: string
  system_cpu_usage :: u64
  tasks :: "int list"

record 'd DockerResourceInfo =
  inited :: bool
  optimizeBinded :: bool
  dockerLended :: bool
  dockerId :: string
  cpuUsageQueue :: "'d list"
  cpuUsageSum :: 'd
  cpuCores :: nat
  initialCpuSet :: "int list"
  initialMemSet :: "int list"
  currentCpuSet :: "int list"
  currentMemSet :: "int list"
  borrowDockerMap :: "(string \<times> 'd) list"
  initialCpuLimit :: 'd
  lendCpuLimit :: 'd
  currentCpuLimit :: 'd
  bindClusters :: "int list"

record Cluster =
  clusterId :: int
  logicalCpuCores :: "int list"
  freeCpuCores :: "int list"
  occupiedCpuCores :: "int list"

record NumaClusterInfo =
  numaId :: int
  freeInfoVec :: "int list"
  occupiedInfoVec :: "int list"

record 'd affinity =
  ca_clusterTopology :: Topology
  clusterSelector :: "'d ClusterSelector"
  dockerBorrowSwitch :: bool
  isFirstUpdate :: bool
  isSelectorInited :: bool
  systemCpuCount :: nat
  collectorPre :: "(string \<times> Container) list"
  dockerInfos :: "(string \<times> 'd DockerResourceInfo) list"
  systemClusterInfo :: "(int \<times> Cluster) list"
  numaClusterInfo :: "(int \<times> NumaClusterInfo) list"
  ca_cpuTopology :: "int list list"
  cmds :: "string list"

record ('d, 'n) affinity_env =
  fp_env :: "'d float_ops"
  fs_env :: files
  dev_dir :: "string list option"
  popen :: "string \<Rightarrow> bool"
  file_exist :: "string \<Rightarrow> bool"
  yaml_env :: "'n yaml_api"
  yaml_what :: string

definition CPU_USAGE_QUEUE_LENGTH :: nat where
  "CPU_USAGE_QUEUE_LENGTH = 30"

definition CMD_RESULT_BUF_SIZE :: nat where
  "CMD_RESULT_BUF_SIZE = 512"

subsection \<open>Access\<close>

definition nth_int :: "'a list \<Rightarrow> int \<Rightarrow> 'a option" where
  "nth_int xs i = (if 0 \<le> i then nth_opt xs (nat i) else None)"

definition upd_int :: "'a list \<Rightarrow> int \<Rightarrow> 'a \<Rightarrow> 'a list option" where
  "upd_int xs i v = (if 0 \<le> i \<and> nat i < length xs then Some (xs[nat i := v]) else None)"

definition blank_cluster :: Cluster where
  "blank_cluster = \<lparr>clusterId = 0, logicalCpuCores = [], freeCpuCores = [], occupiedCpuCores = []\<rparr>"

definition blank_numa :: NumaClusterInfo where
  "blank_numa = \<lparr>numaId = 0, freeInfoVec = [], occupiedInfoVec = []\<rparr>"

definition blank_docker :: "'d float_ops \<Rightarrow> 'd DockerResourceInfo" where
  "blank_docker fp = \<lparr>inited = False, optimizeBinded = False, dockerLended = False, dockerId = [], cpuUsageQueue = [],
     cpuUsageSum = fp_of_int fp 0, cpuCores = 0, initialCpuSet = [], initialMemSet = [], currentCpuSet = [],
     currentMemSet = [], borrowDockerMap = [], initialCpuLimit = fp_of_int fp 0, lendCpuLimit = fp_of_int fp 0,
     currentCpuLimit = fp_of_int fp 0, bindClusters = []\<rparr>"

abbreviation the_cluster :: "(int \<times> Cluster) list \<Rightarrow> int \<Rightarrow> Cluster" where
  "the_cluster \<equiv> al_get blank_cluster"

abbreviation the_numa :: "(int \<times> NumaClusterInfo) list \<Rightarrow> int \<Rightarrow> NumaClusterInfo" where
  "the_numa \<equiv> al_get blank_numa"

abbreviation the_docker :: "('d, 'n) affinity_env \<Rightarrow> 'd affinity \<Rightarrow> string \<Rightarrow> 'd DockerResourceInfo" where
  "the_docker env st \<equiv> al_get (blank_docker (fp_env env)) (dockerInfos st)"

definition set_docker :: "string \<Rightarrow> 'd DockerResourceInfo \<Rightarrow> 'd affinity \<Rightarrow> 'd affinity" where
  "set_docker i d st = st\<lparr>dockerInfos := AList.update i d (dockerInfos st)\<rparr>"

definition set_numa :: "int \<Rightarrow> NumaClusterInfo \<Rightarrow> 'd affinity \<Rightarrow> 'd affinity" where
  "set_numa i n st = st\<lparr>numaClusterInfo := AList.update i n (numaClusterInfo st)\<rparr>"

text \<open>\<open>static_cast<size_t>\<close> of a \<open>double\<close>.\<close>

definition to_size :: "'d float_ops \<Rightarrow> 'd \<Rightarrow> nat option" where
  "to_size fp x = (case fp_trunc fp x of None \<Rightarrow> None
     | Some v \<Rightarrow> if 0 \<le> v \<and> v < 2 ^ 64 then Some (nat v) else None)"

subsection \<open>Core lists as text, commands\<close>

definition IsSmtEnable :: "files \<Rightarrow> bool" where
  "IsSmtEnable fs = (case fs ''/sys/devices/system/cpu/smt/active'' of None \<Rightarrow> False | Some content \<Rightarrow> read_word content [] = ''1'')"

definition range_text :: "int \<Rightarrow> int \<Rightarrow> string" where
  "range_text start end = (if start = end then to_string start else to_string start @ ''-'' @ to_string end)"

fun cpuset_loop :: "int \<Rightarrow> int \<Rightarrow> int list \<Rightarrow> string" where
  "cpuset_loop start end [] = range_text start end"
| "cpuset_loop start end (n # ns) =
     (if n = end + 1 then cpuset_loop start n ns else range_text start end @ '','' @ cpuset_loop n n ns)"

definition ConvertCpusetToString :: "int list \<Rightarrow> string" where
  "ConvertCpusetToString nums = (case nums of [] \<Rightarrow> [] | n # ns \<Rightarrow> cpuset_loop n n ns)"

definition TransformStrToVec :: "string \<Rightarrow> int list option" where
  "TransformStrToVec resourceListStr = parse_range_tokens (getlines CHR '','' resourceListStr)"

definition ExecuteCMD :: "('d, 'n) affinity_env \<Rightarrow> string \<Rightarrow> 'd affinity \<Rightarrow> int \<times> 'd affinity" where
  "ExecuteCMD env cmd st =
     (if CMD_RESULT_BUF_SIZE < length cmd \<or> cmd = [] then (-1, st)
      else if \<not> popen env cmd then (-1, st)
      else (0, st\<lparr>cmds := cmds st @ [cmd]\<rparr>))"

text \<open>\<open>ExecuteCMD(c1) < 0 || ExecuteCMD(c2) < 0 || ...\<close>, negated: the first failure ends it.\<close>

fun execute_all :: "('d, 'n) affinity_env \<Rightarrow> string list \<Rightarrow> 'd affinity \<Rightarrow> bool \<times> 'd affinity" where
  "execute_all env [] st = (True, st)"
| "execute_all env (c # cs) st =
     (case ExecuteCMD env c st of (r, st1) \<Rightarrow> if r < 0 then (False, st1) else execute_all env cs st1)"

definition update_cpus :: "('d, 'n) affinity_env \<Rightarrow> string \<Rightarrow> 'd \<Rightarrow> string" where
  "update_cpus env i limit = ''docker update --cpus='' @ fp_str (fp_env env) limit @ '' '' @ i"

definition update_cpuset :: "string \<Rightarrow> int list \<Rightarrow> string" where
  "update_cpuset i cs = ''docker update --cpuset-cpus='' @ ConvertCpusetToString cs @ '' '' @ i"

definition update_mems :: "string \<Rightarrow> int list \<Rightarrow> string" where
  "update_mems i ms = ''docker update --cpuset-mems='' @ ConvertCpusetToString ms @ '' '' @ i"

subsection \<open>Clusters of the machine\<close>

text \<open>A \<open>size_t\<close> divided by an \<open>int\<close>: a negative size of clusters becomes huge.\<close>

definition clusters_in :: "int list \<Rightarrow> int \<Rightarrow> nat" where
  "clusters_in nodeCpus one = (if one < 0 then 0 else length nodeCpus div nat one)"

text \<open>With two threads per core every second of them is a core to be given away.\<close>

definition make_cluster :: "bool \<Rightarrow> int list \<Rightarrow> nat \<Rightarrow> nat \<Rightarrow> Cluster" where
  "make_cluster smt nodeCpus one j =
     (let start = j * one; end = (j + 1) * one; sep = (if smt then 2 else 1);
          free = map ((!) nodeCpus) (filter (\<lambda>k. (k - start) mod sep = 0) [start..<end])
      in \<lparr>clusterId = (nodeCpus ! start) sdiv int one,
          logicalCpuCores = filter (\<lambda>c. c \<notin> set free) (map ((!) nodeCpus) [start..<end]),
          freeCpuCores = free, occupiedCpuCores = []\<rparr>)"

definition add_cluster :: "int \<Rightarrow> 'd affinity \<Rightarrow> Cluster \<Rightarrow> 'd affinity" where
  "add_cluster i st c =
     (let n = the_numa (numaClusterInfo st) i in
      set_numa i (n\<lparr>freeInfoVec := freeInfoVec n @ [clusterId c]\<rparr>)
        (st\<lparr>systemClusterInfo := AList.update (clusterId c) c (systemClusterInfo st)\<rparr>))"

definition init_node :: "bool \<Rightarrow> int \<Rightarrow> 'd affinity \<Rightarrow> int \<times> int list \<Rightarrow> 'd affinity" where
  "init_node smt one st p =
     (case p of (i, nodeCpus) \<Rightarrow>
        foldl (add_cluster i) (set_numa i ((the_numa (numaClusterInfo st) i)\<lparr>numaId := i\<rparr>) st)
          (map (make_cluster smt nodeCpus (nat one)) [0..<clusters_in nodeCpus one]))"

definition InitSystemClusters :: "('d, 'n) affinity_env \<Rightarrow> 'd affinity \<Rightarrow> bool \<times> 'd affinity" where
  "InitSystemClusters env st =
     (let one = oneClusterCpuNum (ca_clusterTopology st); topo = ca_cpuTopology st in
      if one = 0 then (False, st)
      else (True, foldl (init_node (IsSmtEnable (fs_env env)) one) st (zip [0..int (length topo) - 1] topo)))"

definition Affinity_Init :: "('d, 'n) affinity_env \<Rightarrow> int \<Rightarrow> 'd affinity \<Rightarrow> (bool \<times> 'd affinity) option" where
  "Affinity_Init env junk st =
     (case InitSystemClusters env st of (good, st1) \<Rightarrow>
        if \<not> good then Some (False, st1)
        else if isSystemOfflineCpu (ca_clusterTopology st1) then Some (False, st1)
        else if isSelectorInited st1 then Some (True, st1)
        else do {
          (started, s) \<leftarrow> Selector_Init (fs_env env) (dev_dir env) junk (clusterSelector st1);
          if started then Some (True, st1\<lparr>clusterSelector := s, isSelectorInited := True\<rparr>)
          else Some (False, st1\<lparr>clusterSelector := s\<rparr>)
        })"

subsection \<open>Taking clusters and cores\<close>

text \<open>
  The pieces \<open>DockerBindClusters\<close> and \<open>DockerAddCpuLimitComm\<close> both consist of. First the flags of the
  clusters of a node that are taken, then the choice of \<open>n\<close> more.
\<close>

fun mark_all :: "int \<Rightarrow> int \<Rightarrow> int list \<Rightarrow> int list \<Rightarrow> int list option" where
  "mark_all base v [] used = Some used"
| "mark_all base v (c # cs) used = upd_int used (c - base) v \<bind> mark_all base v cs"

fun pick_clusters :: "'d ClusterSelector \<Rightarrow> int \<Rightarrow> int \<Rightarrow> nat \<Rightarrow> int list \<Rightarrow> int list option" where
  "pick_clusters s nid base 0 used = Some []"
| "pick_clusters s nid base (Suc n) used = do {
     let c = SelectIdleCluster s nid used;
     used1 \<leftarrow> upd_int used (c - base) 1;
     cs \<leftarrow> pick_clusters s nid base n used1;
     Some (c # cs)
   }"

text \<open>Every free core of a cluster is taken; \<open>needCpuCores\<close> is a \<open>size_t\<close> and wraps.\<close>

definition take_cluster :: "int list \<times> nat \<times> (int \<times> Cluster) list \<Rightarrow> int \<Rightarrow> int list \<times> nat \<times> (int \<times> Cluster) list" where
  "take_cluster acc c =
     (case acc of (cs, need, sys) \<Rightarrow>
        let cl = the_cluster sys c in
        (cs @ freeCpuCores cl, u64_add need (- int (length (freeCpuCores cl))),
         AList.update c (cl\<lparr>occupiedCpuCores := occupiedCpuCores cl @ freeCpuCores cl, freeCpuCores := []\<rparr>) sys))"

fun pick_cpus :: "'d float_ops \<Rightarrow> 'd ClusterSelector \<Rightarrow> int \<Rightarrow> int \<Rightarrow> nat \<Rightarrow> int list \<Rightarrow> int list option" where
  "pick_cpus fp s c start 0 used = Some []"
| "pick_cpus fp s c start (Suc n) used = do {
     let cpu = SelectIdleCpuFromCluster fp s c used;
     used1 \<leftarrow> upd_int used (cpu - start) 1;
     rest \<leftarrow> pick_cpus fp s c start n used1;
     Some (cpu # rest)
   }"

text \<open>\<open>n\<close> cores of one cluster; \<open>cs\<close> are the cores taken so far.\<close>

definition take_cores :: "'d float_ops \<Rightarrow> 'd ClusterSelector \<Rightarrow> int \<Rightarrow> int \<Rightarrow> nat \<Rightarrow> int list \<Rightarrow> (int \<times> Cluster) list \<Rightarrow>
    (int list \<times> (int \<times> Cluster) list) option" where
  "take_cores fp s c one n cs sys =
     (let cl = the_cluster sys c in
      if one < 0 then None
      else do {
        used \<leftarrow> mark_all (c * one) 0 (freeCpuCores cl) (replicate (nat one) 1);
        picked \<leftarrow> pick_cpus fp s c (c * one) n used;
        Some (cs @ picked, AList.update c (cl\<lparr>occupiedCpuCores := occupiedCpuCores cl @ picked,
          freeCpuCores := filter (\<lambda>cpu. cpu \<notin> set (cs @ picked)) (freeCpuCores cl)\<rparr>) sys)
      })"

text \<open>
  \<open>k\<close> clusters of a node and of them \<open>need\<close> cores: all cores of the first clusters, the rest from
  the last one. The result is the clusters, the cores, the node and the clusters of the machine.
  With \<open>k = 0\<close> the index \<open>size() - 1\<close> wraps.
\<close>

definition take_from_node :: "'d float_ops \<Rightarrow> 'd affinity \<Rightarrow> int \<Rightarrow> nat \<Rightarrow> nat \<Rightarrow> int list \<Rightarrow>
    (int list \<times> int list \<times> NumaClusterInfo \<times> (int \<times> Cluster) list) option" where
  "take_from_node fp st nid k need cs = do {
     let one = oneClusterCpuNum (ca_clusterTopology st);
     let numa = the_numa (numaClusterInfo st) nid;
     nodeCpus \<leftarrow> nth_int (ca_cpuTopology st) nid;
     first \<leftarrow> nth_opt nodeCpus 0;
     let clusterBeginIndex = first sdiv one;
     used \<leftarrow> mark_all clusterBeginIndex 1 (occupiedInfoVec numa) (replicate (clusters_in nodeCpus one) 0);
     picked \<leftarrow> pick_clusters (clusterSelector st) nid clusterBeginIndex k used;
     let occupied = occupiedInfoVec numa @ picked;
     let numa1 = numa\<lparr>occupiedInfoVec := occupied, freeInfoVec := filter (\<lambda>c. c \<notin> set occupied) (freeInfoVec numa)\<rparr>;
     if picked = [] then None
     else do {
       let (cs1, need1, sys1) = foldl take_cluster (cs, need, systemClusterInfo st) (butlast picked);
       (cs2, sys2) \<leftarrow> take_cores fp (clusterSelector st) (last picked) one need1 cs1 sys1;
       Some (picked, cs2, numa1, sys2)
     }
   }"

subsection \<open>Binding a container\<close>

definition BindCpusAndMems :: "('d, 'n) affinity_env \<Rightarrow> string \<Rightarrow> int list \<Rightarrow> int list \<Rightarrow> 'd affinity \<Rightarrow> bool \<times> 'd affinity" where
  "BindCpusAndMems env i cSet mSet st =
     (case execute_all env [update_cpuset i cSet, update_mems i mSet] st of (good, st1) \<Rightarrow>
        if \<not> good then (False, st1)
        else (True, set_docker i ((the_docker env st1 i)\<lparr>currentCpuSet := cSet, currentMemSet := mSet\<rparr>) st1))"

definition DockerBindClusters :: "('d, 'n) affinity_env \<Rightarrow> string \<Rightarrow> int \<Rightarrow> nat \<Rightarrow> 'd affinity \<Rightarrow> (bool \<times> 'd affinity) option" where
  "DockerBindClusters env i nid k st =
     (let fp = fp_env env; d = the_docker env st i in
      if oneClusterCpuNum (ca_clusterTopology st) = 0 then Some (False, st)
      else do {
        need \<leftarrow> to_size fp (fp_ceil fp (initialCpuLimit d));
        (picked, bindCpuSet, numa, sys) \<leftarrow> take_from_node fp st nid k need [];
        Some (BindCpusAndMems env i bindCpuSet [nid]
          (set_docker i (d\<lparr>bindClusters := bindClusters d @ picked\<rparr>)
            (set_numa nid numa (st\<lparr>systemClusterInfo := sys\<rparr>))))
      })"

text \<open>\<open>front()\<close> and \<open>back()\<close> of an empty vector are undefined.\<close>

definition vec_front :: "'a list \<Rightarrow> 'a option" where
  "vec_front xs = (case xs of [] \<Rightarrow> None | x # _ \<Rightarrow> Some x)"

definition vec_back :: "'a list \<Rightarrow> 'a option" where
  "vec_back xs = (if xs = [] then None else Some (last xs))"

fun node_around :: "int list \<Rightarrow> int \<Rightarrow> int list list \<Rightarrow> int option option" where
  "node_around cs i [] = Some None"
| "node_around cs i (n # ns) = do {
     a \<leftarrow> vec_front cs;
     b \<leftarrow> vec_front n;
     inside \<leftarrow> (if a < b then Some False else do {c \<leftarrow> vec_back cs; e \<leftarrow> vec_back n; Some (c \<le> e)});
     if inside then Some (Some i) else node_around cs (i + 1) ns
   }"

definition SelectBindingNuma :: "('d, 'n) affinity_env \<Rightarrow> string \<Rightarrow> 'd affinity \<Rightarrow> int option" where
  "SelectBindingNuma env i st =
     (let d = the_docker env st i in
      if length (currentMemSet d) = 1 then Some (hd (currentMemSet d))
      else do {
        node \<leftarrow> node_around (currentCpuSet d) 0 (ca_cpuTopology st);
        (case node of
           Some nid \<Rightarrow> Some nid
         | None \<Rightarrow> SelectIdleNode (fp_env env) (clusterSelector st) (replicate (length (ca_cpuTopology st)) 0))
      })"

text \<open>The loop over the containers; the two early returns leave it.\<close>

fun bind_dockers :: "('d, 'n) affinity_env \<Rightarrow> string list \<Rightarrow> 'd affinity \<Rightarrow> 'd affinity option" where
  "bind_dockers env [] st = Some st"
| "bind_dockers env (i # is) st =
     (let fp = fp_env env; d = the_docker env st i; one = oneClusterCpuNum (ca_clusterTopology st);
          clusterCpuNum = (if IsSmtEnable (fs_env env) then one div 2 else one) in
      if optimizeBinded d then bind_dockers env is st
      else if fp_le fp (initialCpuLimit d) (fp_of_int fp 0) then bind_dockers env is st
      else if one = 0 then Some st
      else do {
        needClusterNum \<leftarrow> to_size fp (fp_ceil fp (fp_div fp (initialCpuLimit d) (fp_of_int fp clusterCpuNum)));
        bindNuma \<leftarrow> SelectBindingNuma env i st;
        if length (freeInfoVec (the_numa (numaClusterInfo st) bindNuma)) < needClusterNum then Some st
        else do {
          (good, st1) \<leftarrow> DockerBindClusters env i bindNuma needClusterNum st;
          bind_dockers env is (set_docker i ((the_docker env st1 i)\<lparr>optimizeBinded := True\<rparr>) st1)
        }
      })"

definition DockerOptimizeBindSchedule :: "('d, 'n) affinity_env \<Rightarrow> 'd affinity \<Rightarrow> 'd affinity option" where
  "DockerOptimizeBindSchedule env st = bind_dockers env (map fst (dockerInfos st)) st"

subsection \<open>Changing the limit of a container\<close>

text \<open>What both directions end with: the new cores and limit are announced to docker.\<close>

definition announce_limit :: "('d, 'n) affinity_env \<Rightarrow> string \<Rightarrow> 'd DockerResourceInfo \<Rightarrow> 'd affinity \<Rightarrow> bool \<times> 'd affinity" where
  "announce_limit env i d st =
     execute_all env [update_cpus env i (currentCpuLimit d), update_cpuset i (currentCpuSet d)] (set_docker i d st)"

text \<open>The cluster used last is filled first; then further clusters of the node are taken.\<close>

definition DockerAddCpuLimitComm :: "('d, 'n) affinity_env \<Rightarrow> string \<Rightarrow> 'd \<Rightarrow> 'd affinity \<Rightarrow> (bool \<times> 'd affinity) option" where
  "DockerAddCpuLimitComm env i limit st = do {
     let fp = fp_env env; let d = the_docker env st i; let sys = systemClusterInfo st;
     let one = oneClusterCpuNum (ca_clusterTopology st);
     nid \<leftarrow> nth_opt (currentMemSet d) 0;
     need \<leftarrow> to_size fp (fp_sub fp (fp_ceil fp (fp_add fp (currentCpuLimit d) limit)) (fp_ceil fp (currentCpuLimit d)));
     c \<leftarrow> vec_back (bindClusters d);
     let free = freeCpuCores (the_cluster sys c);
     if one = 0 then Some (False, st)
     else do {
       (added, addCpuSet, st1) \<leftarrow>
         (if need \<le> length free then do {
            (cs, sys1) \<leftarrow> take_cores fp (clusterSelector st) c one need [] sys;
            Some ([], cs, st\<lparr>systemClusterInfo := sys1\<rparr>)
          }
          else do {
            let (cs, need1, sys1) = take_cluster ([], need, sys) c;
            let sep = (if IsSmtEnable (fs_env env) then 2 else 1);
            k \<leftarrow> to_size fp (fp_ceil fp (fp_div fp (fp_of_int fp (int need1)) (fp_of_int fp (one div sep))));
            (picked, cs2, numa, sys2) \<leftarrow> take_from_node fp (st\<lparr>systemClusterInfo := sys1\<rparr>) nid k need1 cs;
            Some (picked, cs2, set_numa nid numa (st\<lparr>systemClusterInfo := sys2\<rparr>))
          });
       Some (announce_limit env i (d\<lparr>currentCpuSet := currentCpuSet d @ addCpuSet, bindClusters := bindClusters d @ added,
         currentCpuLimit := fp_add fp (currentCpuLimit d) limit\<rparr>) st1)
     }
   }"

text \<open>The core of a cluster taken last is free again; undefined without a taken core.\<close>

definition pop_core :: "int \<Rightarrow> (int \<times> Cluster) list \<Rightarrow> (int \<times> (int \<times> Cluster) list) option" where
  "pop_core c sys =
     (let cl = the_cluster sys c in do {
        cpu \<leftarrow> vec_back (occupiedCpuCores cl);
        Some (cpu, AList.update c (cl\<lparr>freeCpuCores := freeCpuCores cl @ [cpu],
          occupiedCpuCores := butlast (occupiedCpuCores cl)\<rparr>) sys)
      })"

fun pop_cores :: "nat \<Rightarrow> int \<Rightarrow> int list \<Rightarrow> (int \<times> Cluster) list \<Rightarrow> (int list \<times> (int \<times> Cluster) list) option" where
  "pop_cores 0 c gone sys = Some (gone, sys)"
| "pop_cores (Suc n) c gone sys = pop_core c sys \<bind> (\<lambda>(cpu, sys1). pop_cores n c (gone @ [cpu]) sys1)"

text \<open>
  The loop over several clusters: \<open>bc\<close> are the clusters of the container, of which the last is
  released when no core of it is taken.
\<close>

function minus_loop :: "nat \<Rightarrow> int list \<Rightarrow> int list \<Rightarrow> NumaClusterInfo \<Rightarrow> (int \<times> Cluster) list \<Rightarrow>
    (int list \<times> int list \<times> NumaClusterInfo \<times> (int \<times> Cluster) list) option" where
  "minus_loop need bc gone numa sys =
     (if need = 0 then Some (bc, gone, numa, sys)
      else if bc = [] then None
      else if occupiedCpuCores (the_cluster sys (last bc)) = [] then
        minus_loop need (butlast bc) gone (numa\<lparr>freeInfoVec := freeInfoVec numa @ [last bc],
          occupiedInfoVec := filter (\<lambda>c. c \<noteq> last bc) (occupiedInfoVec numa)\<rparr>) sys
      else (case pop_core (last bc) sys of
          None \<Rightarrow> None
        | Some (cpu, sys1) \<Rightarrow> minus_loop (need - 1) bc (gone @ [cpu]) numa sys1))"
  by pat_completeness auto
termination
  by (relation "measure (\<lambda>(need, bc, gone, numa, sys). need + length bc)") auto

declare minus_loop.simps [simp del]

definition DockerMinusCpuLimitComm :: "('d, 'n) affinity_env \<Rightarrow> string \<Rightarrow> 'd \<Rightarrow> 'd affinity \<Rightarrow> (bool \<times> 'd affinity) option" where
  "DockerMinusCpuLimitComm env i limit st = do {
     let fp = fp_env env; let d = the_docker env st i; let sys = systemClusterInfo st;
     nid \<leftarrow> nth_opt (currentMemSet d) 0;
     need \<leftarrow> to_size fp (fp_sub fp (fp_ceil fp (currentCpuLimit d)) (fp_ceil fp (fp_sub fp (currentCpuLimit d) limit)));
     c \<leftarrow> vec_back (bindClusters d);
     (bc, minusCpuSet, st1) \<leftarrow>
       (if need \<le> length (occupiedCpuCores (the_cluster sys c)) then do {
          (gone, sys1) \<leftarrow> pop_cores need c [] sys;
          Some (bindClusters d, gone, st\<lparr>systemClusterInfo := sys1\<rparr>)
        }
        else do {
          (bc, gone, numa, sys1) \<leftarrow> minus_loop need (bindClusters d) [] (the_numa (numaClusterInfo st) nid) sys;
          Some (bc, gone, set_numa nid numa (st\<lparr>systemClusterInfo := sys1\<rparr>))
        });
     Some (announce_limit env i (d\<lparr>currentCpuSet := filter (\<lambda>cpu. cpu \<notin> set minusCpuSet) (currentCpuSet d),
       bindClusters := bc, currentCpuLimit := fp_sub fp (currentCpuLimit d) limit\<rparr>) st1)
   }"

subsection \<open>Giving back what a container has\<close>

definition release_node :: "int list \<Rightarrow> 'd affinity \<Rightarrow> int \<Rightarrow> 'd affinity" where
  "release_node bc st nid =
     (let numa = the_numa (numaClusterInfo st) nid in
      set_numa nid (numa\<lparr>freeInfoVec := freeInfoVec numa @ filter (\<lambda>c. c \<in> set bc) (occupiedInfoVec numa),
        occupiedInfoVec := filter (\<lambda>c. c \<notin> set bc) (occupiedInfoVec numa)\<rparr>) st)"

text \<open>\<open>int\<close> divided by \<open>size_t\<close>.\<close>

definition cluster_of :: "int \<Rightarrow> int \<Rightarrow> int" where
  "cluster_of one cpu = (cpu mod 2 ^ 64) div one"

definition free_core :: "int \<Rightarrow> (int \<times> Cluster) list \<Rightarrow> int \<Rightarrow> (int \<times> Cluster) list" where
  "free_core one sys cpu =
     (let c = cluster_of one cpu; cl = the_cluster sys c in AList.update c (cl\<lparr>freeCpuCores := freeCpuCores cl @ [cpu]\<rparr>) sys)"

text \<open>The test keeps the cores that are found among the freed ones.\<close>

definition keep_found :: "int \<Rightarrow> int list \<Rightarrow> (int \<times> Cluster) list \<Rightarrow> int \<Rightarrow> (int \<times> Cluster) list" where
  "keep_found one cs sys c =
     (let cl = the_cluster sys c in
      AList.update c (cl\<lparr>occupiedCpuCores :=
        filter (\<lambda>cpu. cpu \<in> set (filter (\<lambda>x. cluster_of one x = c) cs)) (occupiedCpuCores cl)\<rparr>) sys)"

fun return_borrowed :: "('d, 'n) affinity_env \<Rightarrow> string \<Rightarrow> string list \<Rightarrow> 'd affinity \<Rightarrow> 'd affinity option" where
  "return_borrowed env i [] st = Some st"
| "return_borrowed env i (j # js) st =
     (case map_of (borrowDockerMap (the_docker env st j)) i of
        None \<Rightarrow> return_borrowed env i js st
      | Some v \<Rightarrow> DockerMinusCpuLimitComm env j v st \<bind> (\<lambda>(good, st1). return_borrowed env i js st1))"

definition RecoverInitialBindStatus :: "('d, 'n) affinity_env \<Rightarrow> string \<Rightarrow> 'd affinity \<Rightarrow> (bool \<times> 'd affinity) option" where
  "RecoverInitialBindStatus env i st =
     (let d = the_docker env st i; one = oneClusterCpuNum (ca_clusterTopology st) in
      if \<not> optimizeBinded d then Some (True, st)
      else case execute_all env [update_cpus env i (initialCpuLimit d), update_cpuset i (initialCpuSet d), update_mems i (initialMemSet d)] st of
        (good, st1) \<Rightarrow>
          if \<not> good then Some (False, st1)
          else let st2 = foldl (release_node (bindClusters d)) st1 (currentMemSet d) in
            if one = 0 then Some (False, st2)
            else let sys1 = foldl (free_core one) (systemClusterInfo st2) (currentCpuSet d);
                     sys2 = foldl (keep_found one (currentCpuSet d)) sys1 (remdups (map (cluster_of one) (currentCpuSet d)))
              in map_option (Pair True) (return_borrowed env i (map fst (dockerInfos st2)) (st2\<lparr>systemClusterInfo := sys2\<rparr>)))"

definition Exit :: "('d, 'n) affinity_env \<Rightarrow> 'd affinity \<Rightarrow> 'd affinity option" where
  "Exit env st = do {
     st1 \<leftarrow> fold (\<lambda>i r. r \<bind> (\<lambda>s. map_option snd (RecoverInitialBindStatus env i s))) (map fst (dockerInfos st)) (Some st);
     Some (st1\<lparr>isFirstUpdate := True, dockerInfos := [], collectorPre := [], systemClusterInfo := [], numaClusterInfo := []\<rparr>)
   }"

subsection \<open>Lending and borrowing\<close>

text \<open>
  A container that used at most half of its limit for thirty seconds lends; \<open>usage\<close> is its mean
  usage. The first loop collects the lenders and what they lend.
\<close>

definition lend_step :: "('d, 'n) affinity_env \<Rightarrow> string list \<times> 'd \<times> 'd affinity \<Rightarrow> string \<Rightarrow> string list \<times> 'd \<times> 'd affinity" where
  "lend_step env acc i =
     (case acc of (lenders, offered, st) \<Rightarrow>
        let fp = fp_env env; d = the_docker env st i; usage = fp_div fp (cpuUsageSum d) (fp_of_int fp (int CPU_USAGE_QUEUE_LENGTH)) in
        if dockerLended d \<or> borrowDockerMap d \<noteq> [] then acc
        else if length (cpuUsageQueue d) = CPU_USAGE_QUEUE_LENGTH \<and>
          fp_le fp usage (fp_mul fp (fp_mul fp (initialCpuLimit d) (fp_of_int fp 100)) (fp_lit fp 1 2)) then
          let lend = fp_sub fp (initialCpuLimit d) (fp_div fp usage (fp_of_int fp 100));
              half = fp_mul fp (initialCpuLimit d) (fp_lit fp 1 2);
              lend1 = (if fp_lt fp half lend then half else lend)
          in (lenders @ [i], fp_add fp offered lend1, set_docker i (d\<lparr>lendCpuLimit := lend1\<rparr>) st)
        else acc)"

definition mean_usage :: "'d float_ops \<Rightarrow> 'd DockerResourceInfo \<Rightarrow> 'd" where
  "mean_usage fp d = fp_div fp (cpuUsageSum d) (fp_of_int fp (int (length (cpuUsageQueue d))))"

definition needs_borrow :: "'d float_ops \<Rightarrow> 'd DockerResourceInfo \<Rightarrow> bool" where
  "needs_borrow fp d =
     fp_le fp (fp_mul fp (fp_mul fp (initialCpuLimit d) (fp_lit fp 100 1)) (fp_lit fp 9 10)) (mean_usage fp d)"

fun borrow_loop :: "('d, 'n) affinity_env \<Rightarrow> string list \<Rightarrow> 'd \<Rightarrow> nat \<Rightarrow> string list \<Rightarrow> 'd affinity \<Rightarrow> 'd affinity option" where
  "borrow_loop env lenders share n [] st = Some st"
| "borrow_loop env lenders share n (i # is) st = do {
     (good, st1) \<leftarrow> DockerAddCpuLimitComm env i share st;
     let fp = fp_env env;
     let st2 = foldl (\<lambda>s j. let d = the_docker env s i in set_docker i (d\<lparr>borrowDockerMap := AList.update j
           (fp_div fp (lendCpuLimit (the_docker env s j)) (fp_of_int fp (int n))) (borrowDockerMap d)\<rparr>) s) st1 lenders;
     borrow_loop env lenders share n is st2
   }"

fun lend_loop :: "('d, 'n) affinity_env \<Rightarrow> string list \<Rightarrow> 'd affinity \<Rightarrow> 'd affinity option" where
  "lend_loop env [] st = Some st"
| "lend_loop env (i # is) st = do {
     (good, st1) \<leftarrow> DockerMinusCpuLimitComm env i (lendCpuLimit (the_docker env st i)) st;
     lend_loop env is (if good then set_docker i ((the_docker env st1 i)\<lparr>dockerLended := True\<rparr>) st1 else st1)
   }"

definition TryBorrowCpuFromIdleDocker :: "('d, 'n) affinity_env \<Rightarrow> 'd affinity \<Rightarrow> 'd affinity option" where
  "TryBorrowCpuFromIdleDocker env st =
     (let fp = fp_env env; keys = map fst (dockerInfos st) in
      case foldl (lend_step env) ([], fp_lit fp 0 1, st) keys of
        (lenders, offered, st1) \<Rightarrow>
          if fp_lt fp offered (fp_lit fp 1 100) then Some st1
          else let needy = filter (\<lambda>i. i \<notin> set lenders \<and> needs_borrow fp (the_docker env st1 i)) keys in
            if needy = [] then Some st1
            else borrow_loop env lenders (fp_div fp offered (fp_of_int fp (int (length needy)))) (length needy) needy st1
                 \<bind> lend_loop env lenders)"

definition needs_return :: "'d float_ops \<Rightarrow> 'd DockerResourceInfo \<Rightarrow> bool" where
  "needs_return fp d = (dockerLended d \<and>
     fp_le fp (fp_mul fp (fp_mul fp (currentCpuLimit d) (fp_lit fp 100 1)) (fp_lit fp 95 100)) (mean_usage fp d))"

text \<open>What the borrower \<open>j\<close> owes the lender \<open>i\<close> is added to its sum and taken off its map.\<close>

definition owe_step :: "('d, 'n) affinity_env \<Rightarrow> string \<Rightarrow> (string \<times> 'd) list \<times> 'd affinity \<Rightarrow> string \<Rightarrow> (string \<times> 'd) list \<times> 'd affinity" where
  "owe_step env i acc j =
     (case acc of (owed, st) \<Rightarrow>
        let fp = fp_env env; d = the_docker env st j in
        case map_of (borrowDockerMap d) i of
          None \<Rightarrow> acc
        | Some v \<Rightarrow> (AList.update j (fp_add fp (al_get (fp_of_int fp 0) owed j) v) owed,
                     set_docker j (d\<lparr>borrowDockerMap := AList.delete i (borrowDockerMap d)\<rparr>) st))"

fun return_loop :: "('d, 'n) affinity_env \<Rightarrow> string list \<Rightarrow> 'd affinity \<Rightarrow> 'd affinity option" where
  "return_loop env [] st = Some st"
| "return_loop env (i # is) st = do {
     (good, st1) \<leftarrow> DockerAddCpuLimitComm env i (lendCpuLimit (the_docker env st i)) st;
     return_loop env is (set_docker i ((the_docker env st1 i)\<lparr>dockerLended := False\<rparr>) st1)
   }"

fun repay_loop :: "('d, 'n) affinity_env \<Rightarrow> (string \<times> 'd) list \<Rightarrow> 'd affinity \<Rightarrow> 'd affinity option" where
  "repay_loop env [] st = Some st"
| "repay_loop env ((j, v) # js) st = DockerMinusCpuLimitComm env j v st \<bind> (\<lambda>(good, st1). repay_loop env js st1)"

definition TryReturnCpuToIdleDocker :: "('d, 'n) affinity_env \<Rightarrow> 'd affinity \<Rightarrow> 'd affinity option" where
  "TryReturnCpuToIdleDocker env st =
     (let fp = fp_env env; keys = map fst (dockerInfos st);
          needy = filter (\<lambda>i. needs_return fp (the_docker env st i)) keys in
      if needy = [] then Some st
      else case foldl (\<lambda>acc i. foldl (owe_step env i) acc keys) ([], st) needy of
        (owed, st1) \<Rightarrow> return_loop env needy st1 \<bind> repay_loop env owed)"

definition Tune :: "('d, 'n) affinity_env \<Rightarrow> 'd affinity \<Rightarrow> 'd affinity option" where
  "Tune env st = do {
     st1 \<leftarrow> DockerOptimizeBindSchedule env st;
     if dockerBorrowSwitch st1 then TryBorrowCpuFromIdleDocker env st1 \<bind> TryReturnCpuToIdleDocker env else Some st1
   }"

subsection \<open>Data from the collectors\<close>

text \<open>A container seen for the first time; quota and period are integers and so is their quotient.\<close>

definition first_seen :: "'d float_ops \<Rightarrow> string \<Rightarrow> Container \<Rightarrow> 'd DockerResourceInfo \<Rightarrow> 'd DockerResourceInfo option" where
  "first_seen fp i c d = do {
     let limit = fp_of_int fp (if 0 < cfs_period_us c then cfs_quota_us c sdiv cfs_period_us c else 0);
     cs \<leftarrow> TransformStrToVec (cpus c);
     ms \<leftarrow> TransformStrToVec (mems c);
     Some (d\<lparr>dockerId := i, initialCpuLimit := limit, currentCpuLimit := limit, lendCpuLimit := fp_of_int fp 0,
       initialCpuSet := cs, initialMemSet := ms, currentCpuSet := cs, currentMemSet := ms, cpuUsageSum := fp_of_int fp 0,
       inited := True, optimizeBinded := False, dockerLended := False\<rparr>)
   }"

definition cpu_utilization :: "'d float_ops \<Rightarrow> nat \<Rightarrow> Container \<Rightarrow> Container \<Rightarrow> 'd" where
  "cpu_utilization fp count pre c =
     (let dockerCpuUsedNs = (cpu_usage c - cpu_usage pre) mod 2 ^ 64;
          systemCpuUsedNs = (system_cpu_usage c - system_cpu_usage pre) * 10000000
      in fp_mul fp (fp_mul fp (fp_div fp (fp_of_int fp dockerCpuUsedNs) (fp_of_int fp (uint systemCpuUsedNs))) (fp_of_int fp (int count)))
           (fp_of_int fp 100))"

definition record_usage :: "'d float_ops \<Rightarrow> 'd \<Rightarrow> 'd DockerResourceInfo \<Rightarrow> 'd DockerResourceInfo option" where
  "record_usage fp u d = do {
     let q = cpuUsageQueue d @ [u];
     let sum = fp_add fp (cpuUsageSum d) u;
     let d1 = (if CPU_USAGE_QUEUE_LENGTH < length q then d\<lparr>cpuUsageQueue := tl q, cpuUsageSum := fp_sub fp sum (hd q)\<rparr>
               else d\<lparr>cpuUsageQueue := q, cpuUsageSum := sum\<rparr>);
     cores \<leftarrow> fp_trunc fp (fp_ceil fp (fp_div fp u (fp_lit fp 100 1)));
     if - (2 ^ 31) \<le> cores \<and> cores < 2 ^ 31 then Some (d1\<lparr>cpuCores := nat (max 1 cores)\<rparr>) else None
   }"

definition update_docker :: "('d, 'n) affinity_env \<Rightarrow> 'd affinity \<Rightarrow> string \<times> Container \<Rightarrow> 'd affinity option" where
  "update_docker env st p =
     (case p of (i, c) \<Rightarrow>
        case map_of (collectorPre st) i of
          None \<Rightarrow> Some st
        | Some pre \<Rightarrow> do {
            let fp = fp_env env; let d = the_docker env st i;
            d1 \<leftarrow> (if inited d then Some d else first_seen fp i c d);
            d2 \<leftarrow> record_usage fp (cpu_utilization fp (systemCpuCount st) pre c) d1;
            Some (set_docker i d2 st)
          })"

fun update_dockers :: "('d, 'n) affinity_env \<Rightarrow> (string \<times> Container) list \<Rightarrow> 'd affinity \<Rightarrow> 'd affinity option" where
  "update_dockers env [] st = Some st"
| "update_dockers env (p # ps) st = update_docker env st p \<bind> update_dockers env ps"

text \<open>A container that is gone gives its cores back and is forgotten.\<close>

fun forget_gone :: "('d, 'n) affinity_env \<Rightarrow> (string \<times> Container) list \<Rightarrow> string list \<Rightarrow> 'd affinity \<Rightarrow> 'd affinity option" where
  "forget_gone env collector [] st = Some st"
| "forget_gone env collector (i # is) st =
     (if al_count collector i then forget_gone env collector is st
      else RecoverInitialBindStatus env i st \<bind>
        (\<lambda>(good, st1). forget_gone env collector is (st1\<lparr>dockerInfos := AList.delete i (dockerInfos st1)\<rparr>)))"

definition Affinity_Update :: "('d, 'n) affinity_env \<Rightarrow> Container list \<Rightarrow> 'd affinity \<Rightarrow> 'd affinity option" where
  "Affinity_Update env cs st =
     (let collector = foldl (\<lambda>m c. AList.update (cn_id c) c m) [] cs in
      if isFirstUpdate st then Some (st\<lparr>collectorPre := collector, isFirstUpdate := False\<rparr>)
      else do {
        st1 \<leftarrow> forget_gone env collector (map fst (dockerInfos st)) st;
        st2 \<leftarrow> update_dockers env collector st1;
        Some (st2\<lparr>collectorPre := collector\<rparr>)
      })"

subsection \<open>The interface of the plugin\<close>

definition affinity_topics :: "Topic list" where
  "affinity_topics = [\<lparr>instanceName = ''pmu_l3c_collector'', topicName = ''l3c'', params = []\<rparr>,
     \<lparr>instanceName = ''docker_collector'', topicName = ''docker_collector'', params = []\<rparr>]"

definition affinity_config :: string where
  "affinity_config = ''/etc/oeAware/plugin/cluster_affinity.yaml''"

definition affinity_new :: "'d ClusterSelector \<Rightarrow> Topology \<Rightarrow> 'd affinity" where
  "affinity_new s t = \<lparr>ca_clusterTopology = t, clusterSelector = s, dockerBorrowSwitch = False, isFirstUpdate = True,
     isSelectorInited = False, systemCpuCount = sum_list (map length (cpuTopology t)), collectorPre = [], dockerInfos = [],
     systemClusterInfo = [], numaClusterInfo = [], ca_cpuTopology = cpuTopology t, cmds = []\<rparr>"

text \<open>An exception of the YAML library leaves the switch as it was.\<close>

definition ReadConfig :: "('d, 'n) affinity_env \<Rightarrow> 'd affinity \<Rightarrow> Result \<times> 'd affinity" where
  "ReadConfig env st =
     (let y = yaml_env env in
      if \<not> file_exist env affinity_config
      then (\<lparr>code = FAILED, payload = ''config file does not exist, {path:'' @ affinity_config @ ''}.''\<rparr>, st)
      else case (do {
          node \<leftarrow> y_LoadFile y affinity_config;
          item \<leftarrow> y_key y node ''docker_borrow_switch'';
          defined \<leftarrow> y_IsDefined y item;
          if defined then map_option (\<lambda>v. v = ''on'') (y_string y item) else Some (dockerBorrowSwitch st)
        }) of
          None \<Rightarrow> (\<lparr>code = FAILED, payload = yaml_what env\<rparr>, st)
        | Some b \<Rightarrow> (\<lparr>code = OK, payload = []\<rparr>, st\<lparr>dockerBorrowSwitch := b\<rparr>))"

text \<open>\<open>Enable\<close> returns the topics it subscribes to, \<open>Disable\<close> those it leaves.\<close>

definition Affinity_Enable :: "('d, 'n) affinity_env \<Rightarrow> int \<Rightarrow> 'd affinity \<Rightarrow> (Result \<times> Topic list \<times> 'd affinity) option" where
  "Affinity_Enable env junk st =
     (case ReadConfig env st of (ret, st1) \<Rightarrow>
        if code ret \<noteq> OK then Some (ret, [], st1)
        else do {
          (good, st2) \<leftarrow> Affinity_Init env junk st1;
          if good then Some (\<lparr>code = OK, payload = []\<rparr>, affinity_topics, st2)
          else Some (\<lparr>code = FAILED, payload = ''the system does not support docker cluster affinity tune.''\<rparr>, [], st2)
        })"

definition Affinity_Disable :: "('d, 'n) affinity_env \<Rightarrow> 'd affinity \<Rightarrow> (Topic list \<times> 'd affinity) option" where
  "Affinity_Disable env st = map_option (Pair affinity_topics) (Exit env st)"

text \<open>The data of a topic: counters of the caches, or containers; anything else is ignored.\<close>

datatype affinity_data = L3cCounts "u64 list" | Containers "Container list"

definition Affinity_UpdateData :: "('d, 'n) affinity_env \<Rightarrow> CpuStats \<Rightarrow> Topic \<Rightarrow> affinity_data \<Rightarrow> 'd affinity \<Rightarrow> 'd affinity option" where
  "Affinity_UpdateData env junk topic data st =
     (if instanceName topic = ''pmu_l3c_collector'' \<and> topicName topic = ''l3c'' then
        (case data of
           L3cCounts counts \<Rightarrow> map_option (\<lambda>s. st\<lparr>clusterSelector := s\<rparr>)
             (Selector_Update (fp_env env) (fs_env env) junk counts (clusterSelector st))
         | Containers _ \<Rightarrow> None)
      else if instanceName topic = ''docker_collector'' \<and> topicName topic = ''docker_collector'' then
        (case data of L3cCounts _ \<Rightarrow> None | Containers cs \<Rightarrow> Affinity_Update env cs st)
      else Some st)"

end
