(* ===== verification/Cluster_Placement.thy ===== *)
theory Cluster_Placement
  imports Cluster_Affinity "HOL-Library.Multiset"
begin

text \<open>
  What the placement of containers guarantees: core lists survive the way through their textual
  form, and the cores and clusters given to a container were free and are given to nobody else.
\<close>

subsection \<open>Core lists as text\<close>

lemma cpulist_Cons: "rs \<noteq> [] \<Longrightarrow> cpulist (r # rs) = range_render r @ '','' @ cpulist rs"
  by (cases rs) (simp_all add: cpulist_def)

lemma range_text_render: "0 \<le> s \<Longrightarrow> s \<le> e \<Longrightarrow> range_text s e = range_render (nat s, nat e)"
  by (auto simp: range_text_def range_render_def to_string_def)

lemma cpuset_loop_ranges:
  assumes "0 \<le> s" "s \<le> e" "e < 2 ^ 31 - 1" "\<forall>n \<in> set ns. 0 \<le> n \<and> n < 2 ^ 31 - 1"
  shows "\<exists>rs. rs \<noteq> [] \<and> cpuset_loop s e ns = cpulist rs \<and> ranges_ok rs \<and> cpus_of rs = [s..e] @ ns"
  using assms
proof (induction ns arbitrary: s e)
  case Nil
  then show ?case
    by (intro exI [of _ "[(nat s, nat e)]"]) (auto simp: range_text_render cpulist_def ranges_ok_def cpus_of_def)
next
  case (Cons n ns)
  show ?case
  proof (cases "n = e + 1")
    case True
    then obtain rs where "rs \<noteq> []" "cpuset_loop s n ns = cpulist rs" "ranges_ok rs" "cpus_of rs = [s..n] @ ns"
      using Cons.IH [of s n] Cons.prems by auto
    moreover have "[s..n] = [s..e] @ [n]" using True Cons.prems(2) upto_rec2 [of s n] by simp
    ultimately show ?thesis using True by (intro exI [of _ rs]) simp
  next
    case False
    obtain rs where "rs \<noteq> []" "cpuset_loop n n ns = cpulist rs" "ranges_ok rs" "cpus_of rs = [n..n] @ ns"
      using Cons.IH [of n n] Cons.prems by auto
    then show ?thesis using False Cons.prems
      by (intro exI [of _ "(nat s, nat e) # rs"])
        (auto simp: cpulist_Cons range_text_render ranges_ok_def cpus_of_def)
  qed
qed

subsection \<open>Choosing several\<close>

lemma upd_int_nth:
  "j < length xs \<Longrightarrow> upd_int xs (base + int j - base) v = Some (xs[j := v])"
  by (simp add: upd_int_def)

lemma mark_all_spec:
  assumes "\<And>c. c \<in> set cs \<Longrightarrow> base \<le> c \<and> c < base + int (length used)"
  shows "\<exists>used'. mark_all base v cs used = Some used' \<and> length used' = length used \<and>
    (\<forall>j < length used. used' ! j = (if base + int j \<in> set cs then v else used ! j))"
  using assms
proof (induction cs arbitrary: used)
  case (Cons c cs)
  define j where "j = nat (c - base)"
  have c: "c = base + int j" "j < length used" using Cons.prems [of c] by (auto simp: j_def)
  obtain used' where "mark_all base v cs (used[j := v]) = Some used'" "length used' = length used"
      "\<forall>i < length used. used' ! i = (if base + int i \<in> set cs then v else used[j := v] ! i)"
    using Cons.IH [of "used[j := v]"] Cons.prems by auto
  then show ?case using c upd_int_nth [of j used base v] by (auto simp: nth_list_update)
qed simp

text \<open>
  The two loops that choose clusters and cores: as long as a free index can be chosen one is
  chosen, so the loop yields as many different ones as are asked for.
\<close>

locale picker =
  fixes sel :: "int list \<Rightarrow> int"
    and pick :: "nat \<Rightarrow> int list \<Rightarrow> int list option"
    and base :: int
    and cap :: nat
    and avail :: "nat \<Rightarrow> bool"
  assumes pick_none: "pick 0 used = Some []"
    and pick_more: "pick (Suc n) used =
      upd_int used (sel used - base) 1 \<bind> (\<lambda>u. pick n u \<bind> (\<lambda>cs. Some (sel used # cs)))"
    and choose_free: "length used = cap \<Longrightarrow> j < cap \<Longrightarrow> used ! j = 0 \<Longrightarrow> avail j \<Longrightarrow>
      \<exists>i < cap. used ! i = 0 \<and> sel used = base + int i"
begin

lemma picks:
  assumes "length used = cap" "n \<le> card {j. j < cap \<and> used ! j = 0}" "\<And>j. j < cap \<Longrightarrow> used ! j = 0 \<Longrightarrow> avail j"
  shows "\<exists>cs. pick n used = Some cs \<and> length cs = n \<and> distinct cs \<and>
    (\<forall>c \<in> set cs. \<exists>j < cap. c = base + int j \<and> used ! j = 0)"
  using assms
proof (induction n arbitrary: used)
  case 0
  then show ?case by (simp add: pick_none)
next
  case (Suc n)
  let ?F = "\<lambda>u :: int list. {j. j < cap \<and> u ! j = 0}"
  have "?F used \<noteq> {}" using Suc.prems(2) by (metis card.empty not_less_eq_eq zero_le)
  then obtain i where i: "i < cap" "used ! i = 0" "sel used = base + int i"
    using choose_free [OF Suc.prems(1)] Suc.prems(3) by blast
  let ?u = "used[i := 1]"
  have F: "?F ?u = ?F used - {i}" using Suc.prems(1) i by (auto simp: nth_list_update split: if_splits)
  have n: "n \<le> card (?F ?u)" unfolding F using Suc.prems(2) i by simp
  have av: "avail j" if "j < cap" "?u ! j = 0" for j
    using that F Suc.prems(3) [of j] by blast
  have "length ?u = cap" using Suc.prems(1) by simp
  then have "\<exists>cs. pick n ?u = Some cs \<and> length cs = n \<and> distinct cs \<and>
      (\<forall>c \<in> set cs. \<exists>j < cap. c = base + int j \<and> ?u ! j = 0)"
    using n by (rule Suc.IH) (rule av)
  then obtain cs where cs: "pick n ?u = Some cs" "length cs = n" "distinct cs"
      "\<forall>c \<in> set cs. \<exists>j < cap. c = base + int j \<and> ?u ! j = 0"
    by blast
  have "\<forall>c \<in> set cs. \<exists>j < cap. c = base + int j \<and> used ! j = 0 \<and> j \<noteq> i"
    using cs(4) F by blast
  then have "base + int i \<notin> set cs" "\<forall>c \<in> set cs. \<exists>j < cap. c = base + int j \<and> used ! j = 0" by auto
  then show ?case
    using cs i upd_int_nth [of i used base 1] Suc.prems(1) by (auto simp: pick_more)
qed

end

interpretation core_pick: picker "SelectIdleCpuFromCluster fp s c"
    "pick_cpus fp s c (c * oneClusterCpuNum (clusterTopology s))" "c * oneClusterCpuNum (clusterTopology s)" cap
    "\<lambda>j. fp_lt fp (load_of fp s (c * oneClusterCpuNum (clusterTopology s) + int j)) (fp_lit fp 100 1)"
  for fp s c cap
proof (unfold_locales, goal_cases)
  case (3 used j)
  then show ?case using SelectIdleCpu_free [of j used fp s c] by metis
qed (simp_all add: Let_def)

definition hits_ok :: "'d ClusterSelector \<Rightarrow> int \<Rightarrow> int \<Rightarrow> nat \<Rightarrow> nat \<Rightarrow> bool" where
  "hits_ok s k node cap j = (regular (clusterTopology s) k \<and> 0 \<le> node \<and> node < int (numaNodeNum (clusterTopology s)) \<and>
     cap \<le> nat k \<and> l3c_sum s (k * node + int j) \<noteq> - 1)"

interpretation cluster_pick: picker "SelectIdleCluster s node" "pick_clusters s node (k * node)" "k * node" cap "hits_ok s k node cap"
  for s node k cap
proof (unfold_locales, goal_cases)
  case (3 used j)
  then have "regular (clusterTopology s) k" "0 \<le> node" "node < int (numaNodeNum (clusterTopology s))" "length used \<le> nat k"
    by (auto simp: hits_ok_def)
  then show ?case
    by (cases rule: SelectIdleCluster_cases) (use 3 in \<open>auto simp: hits_ok_def\<close>)
qed (simp_all add: Let_def)

subsection \<open>Cores of a cluster\<close>

definition cores :: "Cluster \<Rightarrow> int list" where
  "cores cl = freeCpuCores cl @ occupiedCpuCores cl"

text \<open>A cluster has \<open>m\<close> different cores, all with numbers in its range; each is free or taken.\<close>

definition cluster_wf :: "int \<Rightarrow> nat \<Rightarrow> int \<Rightarrow> Cluster \<Rightarrow> bool" where
  "cluster_wf one m c cl = (distinct (cores cl) \<and> set (cores cl) \<subseteq> {c * one..<c * one + one} \<and> length (cores cl) = m)"

lemma cluster_wf_mset: "mset (cores cl) = mset (cores cl') \<Longrightarrow> cluster_wf one m c cl \<Longrightarrow> cluster_wf one m c cl'"
  unfolding cluster_wf_def by (metis mset_eq_imp_distinct_iff mset_eq_length set_mset_mset)

lemma cluster_range_disjoint:
  assumes "x \<in> {c * one..<c * one + one}" "x \<in> {d * one..<d * one + one}"
  shows "c = (d :: int)"
proof -
  have "c * one < (d + 1) * one" "d * one < (c + 1) * one" using assms by (auto simp: algebra_simps)
  moreover have "0 < one" using assms(1) by auto
  ultimately show ?thesis by (simp add: mult_less_cancel_right)
qed

text \<open>What giving the cores \<open>new\<close> away makes of a cluster.\<close>

definition given :: "int list \<Rightarrow> Cluster \<Rightarrow> Cluster \<Rightarrow> bool" where
  "given new cl cl' = (freeCpuCores cl' = filter (\<lambda>x. x \<notin> set new) (freeCpuCores cl) \<and>
     mset (occupiedCpuCores cl') = mset (occupiedCpuCores cl) + mset (filter (\<lambda>x. x \<in> set new) (freeCpuCores cl)))"

lemma given_cores: "given new cl cl' \<Longrightarrow> mset (cores cl') = mset (cores cl)"
  using multiset_partition [of "mset (freeCpuCores cl)" "\<lambda>x. x \<in> set new"]
  by (simp add: given_def cores_def mset_filter ac_simps)

lemma given_wf: "given new cl cl' \<Longrightarrow> cluster_wf one m c cl \<Longrightarrow> cluster_wf one m c cl'"
  using cluster_wf_mset given_cores by metis

lemma given_more:
  assumes "set xs \<inter> set (freeCpuCores cl) = {}" "given new cl cl'"
  shows "given (xs @ new) cl cl'"
proof -
  have "filter (\<lambda>x. x \<in> set (xs @ new)) (freeCpuCores cl) = filter (\<lambda>x. x \<in> set new) (freeCpuCores cl)"
    "filter (\<lambda>x. x \<notin> set (xs @ new)) (freeCpuCores cl) = filter (\<lambda>x. x \<notin> set new) (freeCpuCores cl)"
    using assms(1) by (auto intro!: filter_cong)
  with assms(2) show ?thesis by (simp only: given_def)
qed

lemma given_all:
  assumes "set (freeCpuCores cl) \<subseteq> set new"
    and "cl' = cl\<lparr>occupiedCpuCores := occupiedCpuCores cl @ freeCpuCores cl, freeCpuCores := []\<rparr>"
  shows "given new cl cl'"
proof -
  have "filter (\<lambda>x. x \<in> set new) (freeCpuCores cl) = freeCpuCores cl" "filter (\<lambda>x. x \<notin> set new) (freeCpuCores cl) = []"
    using assms(1) by (auto simp: filter_id_conv filter_empty_conv)
  then show ?thesis by (simp add: given_def assms(2))
qed

lemma distinct_concat_map:
  "distinct xs \<Longrightarrow> (\<And>x. x \<in> set xs \<Longrightarrow> distinct (f x)) \<Longrightarrow>
   (\<And>x y. x \<in> set xs \<Longrightarrow> y \<in> set xs \<Longrightarrow> x \<noteq> y \<Longrightarrow> set (f x) \<inter> set (f y) = {}) \<Longrightarrow> distinct (concat (map f xs))"
  by (induction xs) fastforce+

lemma card_offsets:
  assumes "distinct F" "set F \<subseteq> {base..<base + int n}"
  shows "card {j. j < n \<and> base + int j \<in> set F} = length F"
proof -
  have "(\<lambda>j. base + int j) ` {j. j < n \<and> base + int j \<in> set F} = set F"
  proof
    show "set F \<subseteq> (\<lambda>j. base + int j) ` {j. j < n \<and> base + int j \<in> set F}"
    proof
      fix x assume x: "x \<in> set F"
      then have "base \<le> x" "x < base + int n" using assms(2) by auto
      then have "x = base + int (nat (x - base))" "nat (x - base) < n" by auto
      then show "x \<in> (\<lambda>j. base + int j) ` {j. j < n \<and> base + int j \<in> set F}"
        using x by (intro image_eqI [of _ _ "nat (x - base)"]) auto
    qed
  qed auto
  then show ?thesis
    using card_image [of "\<lambda>j. base + int j" "{j. j < n \<and> base + int j \<in> set F}"] distinct_card [OF assms(1)]
    by (auto simp: inj_on_def)
qed

lemma take_cores_spec:
  assumes one: "oneClusterCpuNum (clusterTopology s) = one" "0 < one"
    and free: "distinct (freeCpuCores (the_cluster sys c))" "set (freeCpuCores (the_cluster sys c)) \<subseteq> {c * one..<c * one + one}"
      "set cs \<inter> set (freeCpuCores (the_cluster sys c)) = {}"
    and n: "n \<le> length (freeCpuCores (the_cluster sys c))"
    and cool: "\<And>cpu. cpu \<in> set (freeCpuCores (the_cluster sys c)) \<Longrightarrow> fp_lt fp (load_of fp s cpu) (fp_lit fp 100 1)"
  shows "\<exists>new cl'. take_cores fp s c one n cs sys = Some (cs @ new, AList.update c cl' sys) \<and> length new = n \<and> distinct new \<and>
    set new \<subseteq> set (freeCpuCores (the_cluster sys c)) \<and> given new (the_cluster sys c) cl'"
proof -
  let ?cl = "the_cluster sys c" and ?F = "freeCpuCores (the_cluster sys c)"
  obtain used where used: "mark_all (c * one) 0 ?F (replicate (nat one) 1) = Some used" "length used = nat one"
      "\<forall>j < nat one. used ! j = (if c * one + int j \<in> set ?F then 0 else 1)"
    using mark_all_spec [of ?F "c * one" "replicate (nat one) 1" 0] free(2) one(2) by (auto simp: subset_iff)
  have J: "{j. j < nat one \<and> used ! j = 0} = {j. j < nat one \<and> c * one + int j \<in> set ?F}"
    using used(3) by (auto split: if_splits)
  then have card: "card {j. j < nat one \<and> used ! j = 0} = length ?F"
    using card_offsets [OF free(1), of "c * one" "nat one"] free(2) one(2) by simp
  have cool': "fp_lt fp (load_of fp s (c * one + int j)) (fp_lit fp 100 1)" if "j < nat one" "used ! j = 0" for j
    using used(3) that cool by (auto split: if_splits)
  obtain new where new: "pick_cpus fp s c (c * one) n used = Some new" "length new = n" "distinct new"
      "\<forall>x \<in> set new. \<exists>j < nat one. x = c * one + int j \<and> used ! j = 0"
    using core_pick.picks [OF used(2), of n fp s c, unfolded one(1) card, OF n cool'] by blast
  have "c * one + int j \<in> set ?F" if "j < nat one" "used ! j = 0" for j
    using J that unfolding set_eq_iff mem_Collect_eq by metis
  with new(4) have sub: "set new \<subseteq> set ?F" by (metis subsetI)
  let ?cl' = "?cl\<lparr>occupiedCpuCores := occupiedCpuCores ?cl @ new, freeCpuCores := filter (\<lambda>x. x \<notin> set (cs @ new)) ?F\<rparr>"
  have "mset (filter (\<lambda>x. x \<in> set new) ?F) = mset new"
    using sub new(3) free(1) by (intro set_eq_iff_mset_eq_distinct [THEN iffD1]) auto
  moreover have "filter (\<lambda>x. x \<notin> set (cs @ new)) ?F = filter (\<lambda>x. x \<notin> set new) ?F"
    using free(3) by (intro filter_cong) auto
  ultimately have "given new ?cl ?cl'" by (simp add: given_def)
  then show ?thesis
    using used(1) new sub one(2) by (intro exI [of _ new] exI [of _ ?cl']) (simp add: take_cores_def Let_def)
qed

lemma take_clusters_spec:
  assumes "distinct xs" "sum_list (map (\<lambda>c. length (freeCpuCores (the_cluster sys c))) xs) \<le> need" "need < 2 ^ 64"
  shows "\<exists>sys'. foldl take_cluster (cs, need, sys) xs =
      (cs @ concat (map (\<lambda>c. freeCpuCores (the_cluster sys c)) xs),
       need - sum_list (map (\<lambda>c. length (freeCpuCores (the_cluster sys c))) xs), sys') \<and>
    (\<forall>c. the_cluster sys' c = (let cl = the_cluster sys c in
       if c \<in> set xs then cl\<lparr>occupiedCpuCores := occupiedCpuCores cl @ freeCpuCores cl, freeCpuCores := []\<rparr> else cl))"
  using assms
proof (induction xs arbitrary: cs need sys)
  case (Cons x xs)
  let ?cl = "the_cluster sys x"
  let ?sys = "AList.update x (?cl\<lparr>occupiedCpuCores := occupiedCpuCores ?cl @ freeCpuCores ?cl, freeCpuCores := []\<rparr>) sys"
  have u: "u64_add need (- int (length (freeCpuCores ?cl))) = need - length (freeCpuCores ?cl)"
    using Cons.prems by (simp add: u64_add_def nat_diff_distrib' of_nat_diff [symmetric] del: of_nat_diff)
  have same: "map (\<lambda>c. freeCpuCores (the_cluster ?sys c)) xs = map (\<lambda>c. freeCpuCores (the_cluster sys c)) xs"
    "map (\<lambda>c. length (freeCpuCores (the_cluster ?sys c))) xs = map (\<lambda>c. length (freeCpuCores (the_cluster sys c))) xs"
    using Cons.prems(1) by (auto intro!: map_cong)
  have d: "distinct xs" "sum_list (map (\<lambda>c. length (freeCpuCores (the_cluster sys c))) xs) \<le> need - length (freeCpuCores ?cl)"
      "need - length (freeCpuCores ?cl) < 2 ^ 64"
    using Cons.prems by auto
  have tc: "take_cluster (cs, need, sys) x = (cs @ freeCpuCores ?cl, need - length (freeCpuCores ?cl), ?sys)"
    by (simp add: take_cluster_def u Let_def)
  obtain sys' where sys': "foldl take_cluster (cs @ freeCpuCores ?cl, need - length (freeCpuCores ?cl), ?sys) xs =
      ((cs @ freeCpuCores ?cl) @ concat (map (\<lambda>c. freeCpuCores (the_cluster sys c)) xs),
       need - length (freeCpuCores ?cl) - sum_list (map (\<lambda>c. length (freeCpuCores (the_cluster sys c))) xs), sys')"
      "\<forall>c. the_cluster sys' c = (let cl = the_cluster ?sys c in
       if c \<in> set xs then cl\<lparr>occupiedCpuCores := occupiedCpuCores cl @ freeCpuCores cl, freeCpuCores := []\<rparr> else cl)"
    using Cons.IH [of ?sys "need - length (freeCpuCores ?cl)" "cs @ freeCpuCores ?cl", unfolded same, OF d] by blast
  have "the_cluster sys' c = (let cl = the_cluster sys c in if c \<in> set (x # xs)
      then cl\<lparr>occupiedCpuCores := occupiedCpuCores cl @ freeCpuCores cl, freeCpuCores := []\<rparr> else cl)" for c
    using sys'(2) Cons.prems(1) by (cases "c = x") (auto simp: Let_def)
  then show ?case using sys'(1) unfolding foldl.simps tc by (intro exI [of _ sys']) simp
qed (simp add: Let_def)

subsection \<open>The placement as a whole\<close>

text \<open>
  The clusters of a node are numbered from \<open>k * nid\<close>; each is free or taken, and a free one has no
  taken core.
\<close>

definition node_topo :: "int \<Rightarrow> int \<Rightarrow> int list list \<Rightarrow> int \<Rightarrow> bool" where
  "node_topo k one topo nid =
     (case nth_int topo nid of Some (a # xs) \<Rightarrow> a sdiv one = k * nid \<and> clusters_in (a # xs) one = nat k | _ \<Rightarrow> False)"

definition numa_wf :: "int \<Rightarrow> int \<Rightarrow> NumaClusterInfo \<Rightarrow> (int \<times> Cluster) list \<Rightarrow> bool" where
  "numa_wf k nid n sys =
     (distinct (freeInfoVec n @ occupiedInfoVec n) \<and> set (freeInfoVec n @ occupiedInfoVec n) = {k * nid..<k * nid + k} \<and>
      (\<forall>c \<in> set (freeInfoVec n). occupiedCpuCores (the_cluster sys c) = []))"

definition node_wf :: "int \<Rightarrow> 'd affinity \<Rightarrow> int \<Rightarrow> bool" where
  "node_wf k st nid = (node_topo k (oneClusterCpuNum (ca_clusterTopology st)) (ca_cpuTopology st) nid \<and>
     numa_wf k nid (the_numa (numaClusterInfo st) nid) (systemClusterInfo st))"

definition placement_inv :: "int \<Rightarrow> nat \<Rightarrow> 'd affinity \<Rightarrow> bool" where
  "placement_inv k m st =
     (let t = ca_clusterTopology st; nodes = int (numaNodeNum t) in
      0 < oneClusterCpuNum t \<and> regular t k \<and> clusterTopology (clusterSelector st) = t \<and>
      (\<forall>nid. 0 \<le> nid \<and> nid < nodes \<longrightarrow> node_wf k st nid) \<and>
      (\<forall>c. 0 \<le> c \<and> c < k * nodes \<longrightarrow> cluster_wf (oneClusterCpuNum t) m c (the_cluster (systemClusterInfo st) c)))"

text \<open>The counters of the clusters of a node are below their maximum and its free cores are not fully loaded.\<close>

definition node_cool :: "'d float_ops \<Rightarrow> int \<Rightarrow> 'd affinity \<Rightarrow> int \<Rightarrow> bool" where
  "node_cool fp k st nid =
     (\<forall>c \<in> {k * nid..<k * nid + k}. l3c_sum (clusterSelector st) c \<noteq> - 1 \<and>
        (\<forall>cpu \<in> set (freeCpuCores (the_cluster (systemClusterInfo st) c)).
           fp_lt fp (load_of fp (clusterSelector st) cpu) (fp_lit fp 100 1)))"

lemma pick_clusters_spec:
  assumes inv: "placement_inv k m st" "0 \<le> nid" "nid < int (numaNodeNum (ca_clusterTopology st))" "node_cool fp k st nid"
    and n: "kk \<le> length (freeInfoVec (the_numa (numaClusterInfo st) nid))"
  shows "\<exists>used picked. mark_all (k * nid) 1 (occupiedInfoVec (the_numa (numaClusterInfo st) nid)) (replicate (nat k) 0) = Some used \<and>
    pick_clusters (clusterSelector st) nid (k * nid) kk used = Some picked \<and> length picked = kk \<and> distinct picked \<and>
    set picked \<subseteq> set (freeInfoVec (the_numa (numaClusterInfo st) nid))"
proof -
  let ?n = "the_numa (numaClusterInfo st) nid" and ?s = "clusterSelector st"
  have reg: "regular (clusterTopology ?s) k" "nid < int (numaNodeNum (clusterTopology ?s))" "0 < k"
    using inv(1,3) by (auto simp: placement_inv_def Let_def regular_def)
  have w: "distinct (freeInfoVec ?n @ occupiedInfoVec ?n)" "set (freeInfoVec ?n @ occupiedInfoVec ?n) = {k * nid..<k * nid + k}"
    using inv(1-3) by (auto simp: placement_inv_def node_wf_def numa_wf_def Let_def)
  have occ: "k * nid \<le> c \<and> c < k * nid + int (length (replicate (nat k) (0 :: int)))" if "c \<in> set (occupiedInfoVec ?n)" for c
    using w(2) that reg(3) by auto
  obtain used where used: "mark_all (k * nid) 1 (occupiedInfoVec ?n) (replicate (nat k) 0) = Some used" "length used = nat k"
      "\<forall>j < nat k. used ! j = (if k * nid + int j \<in> set (occupiedInfoVec ?n) then 1 else 0)"
    using mark_all_spec [of "occupiedInfoVec ?n" "k * nid" "replicate (nat k) 0" 1, OF occ] by auto
  have J: "{j. j < nat k \<and> used ! j = 0} = {j. j < nat k \<and> k * nid + int j \<in> set (freeInfoVec ?n)}"
  proof -
    have "used ! j = 0 \<longleftrightarrow> k * nid + int j \<in> set (freeInfoVec ?n)" if "j < nat k" for j
    proof -
      have "k * nid + int j \<in> set (freeInfoVec ?n @ occupiedInfoVec ?n)" unfolding w(2) using that by auto
      then show ?thesis using used(3) that w(1) by auto
    qed
    then show ?thesis by auto
  qed
  have card: "card {j. j < nat k \<and> used ! j = 0} = length (freeInfoVec ?n)"
    unfolding J using w reg(3) by (intro card_offsets) auto
  have hit: "hits_ok ?s k nid (nat k) j" if "j < nat k" for j
    using reg inv(2,4) that by (auto simp: hits_ok_def node_cool_def)
  obtain picked where p: "pick_clusters ?s nid (k * nid) kk used = Some picked" "length picked = kk" "distinct picked"
      "\<forall>c \<in> set picked. \<exists>j < nat k. c = k * nid + int j \<and> used ! j = 0"
    using cluster_pick.picks [OF used(2) _ hit] n unfolding card by blast
  have "k * nid + int j \<in> set (freeInfoVec ?n)" if "j < nat k" "used ! j = 0" for j
    using J that unfolding set_eq_iff mem_Collect_eq by metis
  with p(4) have "set picked \<subseteq> set (freeInfoVec ?n)" by (metis subsetI)
  then show ?thesis using used(1) p by blast
qed

lemma node_cluster_range:
  assumes "regular t k" "0 \<le> nid" "nid < int (numaNodeNum t)" "c \<in> {k * nid..<k * nid + k}"
  shows "0 \<le> c \<and> c < k * int (numaNodeNum t)"
proof -
  have "k * (nid + 1) \<le> k * int (numaNodeNum t)" "0 \<le> k * nid"
    using assms(1-3) by (auto simp: regular_def intro!: mult_left_mono)
  then show ?thesis using assms(4) by (simp add: algebra_simps)
qed

lemma free_cluster:
  assumes inv: "placement_inv k m st" "0 \<le> nid" "nid < int (numaNodeNum (ca_clusterTopology st))"
    and c: "c \<in> set (freeInfoVec (the_numa (numaClusterInfo st) nid))"
  defines "cl \<equiv> the_cluster (systemClusterInfo st) c" and "one \<equiv> oneClusterCpuNum (ca_clusterTopology st)"
  shows "occupiedCpuCores cl = []" "distinct (freeCpuCores cl)" "set (freeCpuCores cl) \<subseteq> {c * one..<c * one + one}"
    "length (freeCpuCores cl) = m" "c \<in> {k * nid..<k * nid + k}"
proof -
  have w: "node_wf k st nid" using inv by (simp add: placement_inv_def Let_def)
  then show n: "c \<in> {k * nid..<k * nid + k}" using c by (auto simp: node_wf_def numa_wf_def)
  show o: "occupiedCpuCores cl = []" using w c by (auto simp: node_wf_def numa_wf_def cl_def)
  have "cluster_wf one m c cl"
    using inv n node_cluster_range [of _ k nid c] by (auto simp: placement_inv_def Let_def cl_def one_def)
  then show "distinct (freeCpuCores cl)" "set (freeCpuCores cl) \<subseteq> {c * one..<c * one + one}" "length (freeCpuCores cl) = m"
    using o by (auto simp: cluster_wf_def cores_def)
qed

text \<open>All cores of the first clusters and the missing ones of the last.\<close>

lemma take_picked_spec:
  fixes sys :: "(int \<times> Cluster) list"
  defines "F \<equiv> \<lambda>c. freeCpuCores (the_cluster sys c)"
  assumes one: "oneClusterCpuNum (clusterTopology s) = one" "0 < one"
    and picked: "distinct (init @ [l])"
    and wf: "\<And>c. c \<in> set (init @ [l]) \<Longrightarrow> distinct (F c) \<and> set (F c) \<subseteq> {c * one..<c * one + one} \<and> length (F c) = m \<and> set cs \<inter> set (F c) = {}"
    and cool: "\<And>cpu. cpu \<in> set (F l) \<Longrightarrow> fp_lt fp (load_of fp s cpu) (fp_lit fp 100 1)"
    and need: "length init * m \<le> need" "need \<le> length init * m + m" "need < 2 ^ 64"
  shows "\<exists>new cs1 need1 sys1 sys'. foldl take_cluster (cs, need, sys) init = (cs1, need1, sys1) \<and>
    take_cores fp s l one need1 cs1 sys1 = Some (cs @ new, sys') \<and> length new = need \<and> distinct new \<and>
    set new \<subseteq> (\<Union>c \<in> set (init @ [l]). set (F c)) \<and>
    (\<forall>c. if c \<in> set (init @ [l]) then given new (the_cluster sys c) (the_cluster sys' c) else the_cluster sys' c = the_cluster sys c)"
proof -
  let ?I = "concat (map F init)"
  have disj: "set (F c) \<inter> set (F d) = {}" if "c \<in> set (init @ [l])" "d \<in> set (init @ [l])" "c \<noteq> d" for c d
    using wf [OF that(1)] wf [OF that(2)] cluster_range_disjoint [of _ c one d] that(3) by blast
  have sum: "sum_list (map (\<lambda>c. length (freeCpuCores (the_cluster sys c))) init) = length init * m"
    using wf by (simp add: F_def sum_list_triv cong: map_cong)
  obtain sys1 where sys1: "foldl take_cluster (cs, need, sys) init = (cs @ ?I, need - length init * m, sys1)"
      "\<forall>c. the_cluster sys1 c = (let cl = the_cluster sys c in
       if c \<in> set init then cl\<lparr>occupiedCpuCores := occupiedCpuCores cl @ freeCpuCores cl, freeCpuCores := []\<rparr> else cl)"
    using take_clusters_spec [of init sys need cs, unfolded sum] picked need by (auto simp: F_def)
  have l: "the_cluster sys1 l = the_cluster sys l" using sys1(2) picked by (simp add: Let_def)
  have il: "set ?I \<inter> set (F l) = {}" using disj picked by fastforce
  have dI: "distinct ?I"
    by (rule distinct_concat_map) (use wf disj picked in auto)
  have Fc: "freeCpuCores (the_cluster sys c) = F c" for c by (simp add: F_def)
  have wl: "distinct (F l)" "set (F l) \<subseteq> {l * one..<l * one + one}" "set (cs @ ?I) \<inter> set (F l) = {}"
      "need - length init * m \<le> length (F l)"
    using wf [of l] il need(2) by (auto simp: Int_Un_distrib2)
  obtain new cl' where t: "take_cores fp s l one (need - length init * m) (cs @ ?I) sys1 =
      Some ((cs @ ?I) @ new, AList.update l cl' sys1)" "length new = need - length init * m" "distinct new"
      "set new \<subseteq> set (F l)" "given new (the_cluster sys l) cl'"
    using take_cores_spec [OF one, of sys1 l "cs @ ?I" "need - length init * m" fp, unfolded l Fc, OF wl(1-4) cool]
    by blast
  have giv: "given (?I @ new) (the_cluster sys c) (the_cluster (AList.update l cl' sys1) c)" if "c \<in> set (init @ [l])" for c
  proof (cases "c = l")
    case True
    then show ?thesis using given_more [OF _ t(5)] il by (simp add: F_def)
  next
    case False
    then have "c \<in> set init" using that by simp
    then show ?thesis using sys1(2) False by (intro given_all) (auto simp: Let_def F_def)
  qed
  have other: "the_cluster (AList.update l cl' sys1) c = the_cluster sys c" if "c \<notin> set (init @ [l])" for c
    using that sys1(2) by (simp add: Let_def)
  have I: "length ?I = length init * m" using sum by (simp add: length_concat F_def comp_def)
  have "distinct (?I @ new)" "length (?I @ new) = need" "set (?I @ new) \<subseteq> (\<Union>c \<in> set (init @ [l]). set (F c))"
    using dI t(2-4) il I need(1) by auto
  with sys1(1) t(1) giv other show ?thesis
    by (intro exI [of _ "?I @ new"] exI [of _ "cs @ ?I"] exI [of _ "need - length init * m"] exI [of _ sys1]
        exI [of _ "AList.update l cl' sys1"]) simp
qed

end
