(* ===== verification/Cluster_Claims.thy ===== *)
theory Cluster_Claims
  imports Cluster_Placement
begin

text \<open>
  Theorems on the placement of containers: binding keeps the invariant and gives cores nobody has,
  the textual form of core lists, and what goes wrong: a container that is recovered keeps its cores
  marked as taken, and one without a limit stops the plugin.
\<close>

subsection \<open>Taking clusters of a node\<close>

lemma take_from_node_spec:
  fixes nid k :: int and st :: "'d affinity"
  defines "numa \<equiv> the_numa (numaClusterInfo st) nid" and "sys \<equiv> systemClusterInfo st"
  assumes inv: "placement_inv k m st" "0 \<le> nid" "nid < int (numaNodeNum (ca_clusterTopology st))" "node_cool fp k st nid"
    and n: "0 < kk" "kk \<le> length (freeInfoVec numa)"
    and need: "(kk - 1) * m \<le> need" "need \<le> kk * m" "need < 2 ^ 64"
    and cs: "\<And>c. c \<in> set (freeInfoVec numa) \<Longrightarrow> set cs \<inter> set (freeCpuCores (the_cluster sys c)) = {}"
  shows "\<exists>picked new sys'. take_from_node fp st nid kk need cs = Some (picked, cs @ new,
      numa\<lparr>occupiedInfoVec := occupiedInfoVec numa @ picked, freeInfoVec := filter (\<lambda>c. c \<notin> set picked) (freeInfoVec numa)\<rparr>, sys') \<and>
    distinct picked \<and> set picked \<subseteq> set (freeInfoVec numa) \<and> length new = need \<and> distinct new \<and>
    set new \<subseteq> (\<Union>c \<in> set picked. set (freeCpuCores (the_cluster sys c))) \<and>
    (\<forall>c. if c \<in> set picked then given new (the_cluster sys c) (the_cluster sys' c) else the_cluster sys' c = the_cluster sys c)"
proof -
  let ?s = "clusterSelector st" and ?one = "oneClusterCpuNum (ca_clusterTopology st)"
  have one: "oneClusterCpuNum (clusterTopology ?s) = ?one" "0 < ?one" using inv(1) by (auto simp: placement_inv_def Let_def)
  have w: "node_wf k st nid" using inv by (simp add: placement_inv_def Let_def)
  then obtain a xs where node: "nth_int (ca_cpuTopology st) nid = Some (a # xs)" "a sdiv ?one = k * nid" "clusters_in (a # xs) ?one = nat k"
    by (auto simp: node_wf_def node_topo_def split: option.splits list.splits)
  obtain used picked where p: "mark_all (k * nid) 1 (occupiedInfoVec numa) (replicate (nat k) 0) = Some used"
      "pick_clusters ?s nid (k * nid) kk used = Some picked" "length picked = kk" "distinct picked" "set picked \<subseteq> set (freeInfoVec numa)"
    using pick_clusters_spec [OF inv n(2) [unfolded numa_def]] by (auto simp: numa_def)
  note fc = free_cluster [OF inv(1-3), folded numa_def sys_def]
  obtain init l where pl: "picked = init @ [l]" using p(3) n(1) by (cases picked rule: rev_cases) auto
  have in_free: "c \<in> set (freeInfoVec numa)" if "c \<in> set (init @ [l])" for c using p(5) pl that by blast
  have cool: "fp_lt fp (load_of fp ?s cpu) (fp_lit fp 100 1)" if "cpu \<in> set (freeCpuCores (the_cluster sys l))" for cpu
    using inv(4) fc(5) [of l] in_free [of l] that by (auto simp: node_cool_def sys_def)
  have len: "length init * m \<le> need" "need \<le> length init * m + m" using need p(3) pl by auto
  have dl: "distinct (init @ [l])" using p(4) pl by simp
  obtain new cs1 need1 sys1 sys' where t: "foldl take_cluster (cs, need, sys) init = (cs1, need1, sys1)"
      "take_cores fp ?s l ?one need1 cs1 sys1 = Some (cs @ new, sys')" "length new = need" "distinct new"
      "set new \<subseteq> (\<Union>c \<in> set (init @ [l]). set (freeCpuCores (the_cluster sys c)))"
      "\<forall>c. if c \<in> set (init @ [l]) then given new (the_cluster sys c) (the_cluster sys' c) else the_cluster sys' c = the_cluster sys c"
    using take_picked_spec [where sys = sys and cs = cs, OF one dl _ cool len need(3)] fc(2-4) cs in_free by metis
  have "filter (\<lambda>c. c \<notin> set (occupiedInfoVec numa @ picked)) (freeInfoVec numa) = filter (\<lambda>c. c \<notin> set picked) (freeInfoVec numa)"
    using w by (intro filter_cong) (auto simp: node_wf_def numa_wf_def numa_def)
  then have "take_from_node fp st nid kk need cs = Some (picked, cs @ new, numa\<lparr>occupiedInfoVec := occupiedInfoVec numa @ picked,
      freeInfoVec := filter (\<lambda>c. c \<notin> set picked) (freeInfoVec numa)\<rparr>, sys')"
    using node p(1,2) pl t(1,2)
    by (simp add: take_from_node_def Let_def numa_def [symmetric] sys_def [symmetric])
  then show ?thesis using p(4,5) t(3-6) pl by blast
qed

text \<open>Clusters that were free are taken and their cores given away: the invariant stays.\<close>

lemma numa_wf_cong:
  assumes "numa_wf k i n sys" "\<And>c. c \<in> {k * i..<k * i + k} \<Longrightarrow> the_cluster sys' c = the_cluster sys c"
  shows "numa_wf k i n sys'"
proof -
  have "c \<in> {k * i..<k * i + k}" if "c \<in> set (freeInfoVec n)" for c
    using assms(1) that by (metis UnI1 numa_wf_def set_append)
  then show ?thesis using assms by (simp add: numa_wf_def)
qed

lemma placement_inv_take:
  assumes inv: "placement_inv k m st" "0 \<le> nid" "nid < int (numaNodeNum (ca_clusterTopology st))"
    and picked: "distinct picked" "set picked \<subseteq> set (freeInfoVec (the_numa (numaClusterInfo st) nid))"
    and sys: "\<forall>c. if c \<in> set picked then given new (the_cluster (systemClusterInfo st) c) (the_cluster sys' c)
      else the_cluster sys' c = the_cluster (systemClusterInfo st) c"
    and numa: "numa' = (let n = the_numa (numaClusterInfo st) nid in
      n\<lparr>occupiedInfoVec := occupiedInfoVec n @ picked, freeInfoVec := filter (\<lambda>c. c \<notin> set picked) (freeInfoVec n)\<rparr>)"
  shows "placement_inv k m (set_numa nid numa' (st\<lparr>systemClusterInfo := sys'\<rparr>))"
proof -
  let ?st = "set_numa nid numa' (st\<lparr>systemClusterInfo := sys'\<rparr>)" and ?t = "ca_clusterTopology st"
  have k: "0 < k" using inv(1) by (auto simp: placement_inv_def regular_def Let_def)
  have reg: "regular ?t k" using inv(1) by (simp add: placement_inv_def Let_def)
  have wf: "node_wf k st i" if "0 \<le> i" "i < int (numaNodeNum ?t)" for i
    using inv(1) that by (simp add: placement_inv_def Let_def)
  have pn: "set picked \<subseteq> {k * nid..<k * nid + k}" using wf [OF inv(2,3)] picked(2) by (auto simp: node_wf_def numa_wf_def)
  have node: "node_wf k ?st i" if i: "0 \<le> i" "i < int (numaNodeNum ?t)" for i
  proof (cases "i = nid")
    case True
    moreover have "numa_wf k nid numa' sys'"
      using wf [OF inv(2,3)] picked sys by (auto simp: node_wf_def numa_wf_def numa Let_def)
    ultimately show ?thesis using wf [OF i] by (simp add: node_wf_def set_numa_def)
  next
    case False
    then have np: "c \<notin> set picked" if "c \<in> {k * i..<k * i + k}" for c
      using that pn cluster_range_disjoint [of c i k nid] by (auto simp: mult.commute)
    have "the_cluster sys' c = the_cluster (systemClusterInfo st) c" if "c \<in> {k * i..<k * i + k}" for c
      using np [OF that] sys by metis
    then have "numa_wf k i (the_numa (numaClusterInfo st) i) sys'"
      using wf [OF i] numa_wf_cong unfolding node_wf_def by blast
    then show ?thesis using wf [OF i] False by (simp add: node_wf_def set_numa_def)
  qed
  have "cluster_wf (oneClusterCpuNum ?t) m c (the_cluster sys' c)" if "0 \<le> c" "c < k * int (numaNodeNum ?t)" for c
  proof -
    have "cluster_wf (oneClusterCpuNum ?t) m c (the_cluster (systemClusterInfo st) c)"
      using inv(1) that by (simp add: placement_inv_def Let_def)
    then show ?thesis using sys given_wf by metis
  qed
  then show ?thesis using inv(1) node by (simp add: placement_inv_def set_numa_def Let_def)
qed

subsection \<open>Binding\<close>

lemma placement_inv_frame [simp]:
  "placement_inv k m (set_docker i d st) = placement_inv k m st"
  "placement_inv k m (st\<lparr>cmds := l\<rparr>) = placement_inv k m st"
  by (simp_all add: placement_inv_def node_wf_def set_docker_def Let_def)

lemma cmds_same [simp]: "st\<lparr>cmds := cmds st\<rparr> = st"
  by (cases st) simp

lemma ExecuteCMD_cmds: obtains r l where "ExecuteCMD env c st = (r, st\<lparr>cmds := l\<rparr>)"
proof (cases "CMD_RESULT_BUF_SIZE < length c \<or> c = [] \<or> \<not> popen env c")
  case True
  then show thesis using that [of "- 1" "cmds st"] by (auto simp: ExecuteCMD_def)
next
  case False
  then show thesis using that [of 0 "cmds st @ [c]"] by (simp add: ExecuteCMD_def)
qed

lemma execute_all_cmds: "\<exists>good l. execute_all env cs st = (good, st\<lparr>cmds := l\<rparr>)"
proof (induction cs arbitrary: st)
  case Nil
  show ?case by (intro exI [of _ True] exI [of _ "cmds st"]) simp
next
  case (Cons c cs)
  obtain r l where e: "ExecuteCMD env c st = (r, st\<lparr>cmds := l\<rparr>)" by (rule ExecuteCMD_cmds)
  then show ?case using Cons.IH [of "st\<lparr>cmds := l\<rparr>"] by auto
qed

lemma BindCpusAndMems_effect:
  "\<exists>good l. BindCpusAndMems env i cSet mSet st = (good, if good
      then set_docker i ((the_docker env st i)\<lparr>currentCpuSet := cSet, currentMemSet := mSet\<rparr>) (st\<lparr>cmds := l\<rparr>)
      else st\<lparr>cmds := l\<rparr>)"
proof -
  obtain good l where e: "execute_all env [update_cpuset i cSet, update_mems i mSet] st = (good, st\<lparr>cmds := l\<rparr>)"
    using execute_all_cmds by blast
  show ?thesis unfolding BindCpusAndMems_def e by (intro exI [of _ good] exI [of _ l]) simp
qed

text \<open>Cores of free clusters are taken nowhere.\<close>

lemma free_not_taken:
  assumes inv: "placement_inv k m st" "0 \<le> c" "c < k * int (numaNodeNum (ca_clusterTopology st))"
    "0 \<le> d" "d < k * int (numaNodeNum (ca_clusterTopology st))"
    and cpu: "cpu \<in> set (freeCpuCores (the_cluster (systemClusterInfo st) c))"
  shows "cpu \<notin> set (occupiedCpuCores (the_cluster (systemClusterInfo st) d))"
proof
  assume occ: "cpu \<in> set (occupiedCpuCores (the_cluster (systemClusterInfo st) d))"
  have "cluster_wf (oneClusterCpuNum (ca_clusterTopology st)) m x (the_cluster (systemClusterInfo st) x)" if "x = c \<or> x = d" for x
    using inv that by (auto simp: placement_inv_def Let_def)
  then have w: "cluster_wf (oneClusterCpuNum (ca_clusterTopology st)) m c (the_cluster (systemClusterInfo st) c)"
    "cluster_wf (oneClusterCpuNum (ca_clusterTopology st)) m d (the_cluster (systemClusterInfo st) d)" by blast+
  have "cpu \<in> set (cores (the_cluster (systemClusterInfo st) c))" "cpu \<in> set (cores (the_cluster (systemClusterInfo st) d))"
    using cpu occ by (simp_all add: cores_def)
  then have "c = d" using w cluster_range_disjoint unfolding cluster_wf_def by (meson subsetD)
  then show False using w(1) cpu occ by (auto simp: cluster_wf_def cores_def)
qed

lemma free_node_cluster:
  assumes "placement_inv k m st" "0 \<le> a" "a < int (numaNodeNum (ca_clusterTopology st))"
    "0 \<le> b" "b < int (numaNodeNum (ca_clusterTopology st))" "c \<in> set (freeInfoVec (the_numa (numaClusterInfo st) a))"
  shows "c \<notin> set (occupiedInfoVec (the_numa (numaClusterInfo st) b))"
proof
  assume c: "c \<in> set (occupiedInfoVec (the_numa (numaClusterInfo st) b))"
  have w: "numa_wf k a (the_numa (numaClusterInfo st) a) (systemClusterInfo st)" "numa_wf k b (the_numa (numaClusterInfo st) b) (systemClusterInfo st)"
    using assms(1-5) by (auto simp: placement_inv_def node_wf_def Let_def)
  have "c \<in> set (freeInfoVec (the_numa (numaClusterInfo st) a) @ occupiedInfoVec (the_numa (numaClusterInfo st) a))"
    "c \<in> set (freeInfoVec (the_numa (numaClusterInfo st) b) @ occupiedInfoVec (the_numa (numaClusterInfo st) b))"
    using c assms(6) by simp_all
  then have "c \<in> {a * k..<a * k + k}" "c \<in> {b * k..<b * k + k}"
    using w unfolding numa_wf_def by (simp_all only: mult.commute)
  then have "a = b" by (rule cluster_range_disjoint)
  then show False using w(1) c assms(6) by (auto simp: numa_wf_def)
qed

text \<open>The state after a container was placed.\<close>

definition bound_state :: "('d, 'n) affinity_env \<Rightarrow> string \<Rightarrow> int \<Rightarrow> bool \<Rightarrow> int list \<Rightarrow> int list \<Rightarrow> (int \<times> Cluster) list \<Rightarrow>
    string list \<Rightarrow> 'd affinity \<Rightarrow> 'd affinity" where
  "bound_state env i nid good picked new sys' l st =
     (let d = the_docker env st i; n = the_numa (numaClusterInfo st) nid in
      set_docker i (d\<lparr>bindClusters := bindClusters d @ picked, currentCpuSet := if good then new else currentCpuSet d,
        currentMemSet := if good then [nid] else currentMemSet d\<rparr>)
        ((set_numa nid (n\<lparr>occupiedInfoVec := occupiedInfoVec n @ picked, freeInfoVec := filter (\<lambda>c. c \<notin> set picked) (freeInfoVec n)\<rparr>)
          (st\<lparr>systemClusterInfo := sys'\<rparr>))\<lparr>cmds := l\<rparr>))"

lemma bind_effect:
  assumes inv: "placement_inv k m st" "0 \<le> nid" "nid < int (numaNodeNum (ca_clusterTopology st))" "node_cool (fp_env env) k st nid"
    and n: "0 < kk" "kk \<le> length (freeInfoVec (the_numa (numaClusterInfo st) nid))"
    and need: "to_size (fp_env env) (fp_ceil (fp_env env) (initialCpuLimit (the_docker env st i))) = Some need"
      "(kk - 1) * m \<le> need" "need \<le> kk * m"
  shows "\<exists>good picked new sys' l. DockerBindClusters env i nid kk st = Some (good, bound_state env i nid good picked new sys' l st) \<and>
    placement_inv k m (bound_state env i nid good picked new sys' l st) \<and> distinct picked \<and>
    set picked \<subseteq> set (freeInfoVec (the_numa (numaClusterInfo st) nid)) \<and> length new = need \<and> distinct new \<and>
    set new \<subseteq> (\<Union>c \<in> set picked. set (freeCpuCores (the_cluster (systemClusterInfo st) c))) \<and>
    (\<forall>c. if c \<in> set picked then given new (the_cluster (systemClusterInfo st) c) (the_cluster sys' c)
      else the_cluster sys' c = the_cluster (systemClusterInfo st) c)"
proof -
  let ?numa = "the_numa (numaClusterInfo st) nid" and ?sys = "systemClusterInfo st" and ?d = "the_docker env st i"
  have need64: "need < 2 ^ 64" using need(1) by (auto simp: to_size_def split: option.splits if_splits)
  obtain picked new sys' where t: "take_from_node (fp_env env) st nid kk need [] = Some (picked, [] @ new,
      ?numa\<lparr>occupiedInfoVec := occupiedInfoVec ?numa @ picked, freeInfoVec := filter (\<lambda>c. c \<notin> set picked) (freeInfoVec ?numa)\<rparr>, sys')"
    and p: "distinct picked" "set picked \<subseteq> set (freeInfoVec ?numa)" and new: "length new = need" "distinct new"
      "set new \<subseteq> (\<Union>c \<in> set picked. set (freeCpuCores (the_cluster ?sys c)))"
    and sys: "\<forall>c. if c \<in> set picked then given new (the_cluster ?sys c) (the_cluster sys' c) else the_cluster sys' c = the_cluster ?sys c"
    using take_from_node_spec [OF inv n need(2,3) need64, of "[]"] by auto
  define st1 where "st1 = set_numa nid (?numa\<lparr>occupiedInfoVec := occupiedInfoVec ?numa @ picked,
      freeInfoVec := filter (\<lambda>c. c \<notin> set picked) (freeInfoVec ?numa)\<rparr>) (st\<lparr>systemClusterInfo := sys'\<rparr>)"
  have inv1: "placement_inv k m st1"
    unfolding st1_def by (rule placement_inv_take [OF inv(1-3) p sys]) (simp add: Let_def)
  let ?st2 = "set_docker i (?d\<lparr>bindClusters := bindClusters ?d @ picked\<rparr>) st1"
  obtain good l where b: "BindCpusAndMems env i new [nid] ?st2 = (good, if good
      then set_docker i ((the_docker env ?st2 i)\<lparr>currentCpuSet := new, currentMemSet := [nid]\<rparr>) (?st2\<lparr>cmds := l\<rparr>)
      else ?st2\<lparr>cmds := l\<rparr>)" (is "_ = (_, ?X)")
    using BindCpusAndMems_effect by blast
  have eq: "?X = bound_state env i nid good picked new sys' l st"
    unfolding bound_state_def st1_def by (cases good) (simp_all add: set_docker_def set_numa_def Let_def update_last)
  have one: "oneClusterCpuNum (ca_clusterTopology st) \<noteq> 0" using inv(1) by (auto simp: placement_inv_def Let_def)
  have "DockerBindClusters env i nid kk st = Some (BindCpusAndMems env i new [nid] ?st2)"
    using t need(1) one by (simp add: DockerBindClusters_def Let_def st1_def)
  also have "\<dots> = Some (good, bound_state env i nid good picked new sys' l st)"
    unfolding b eq ..
  finally have run: "DockerBindClusters env i nid kk st = Some (good, bound_state env i nid good picked new sys' l st)" .
  have "placement_inv k m (bound_state env i nid good picked new sys' l st)"
    using inv1 by (simp add: bound_state_def st1_def Let_def)
  then show ?thesis using run p new sys by blast
qed

text \<open>C25. Placing a container on the clusters of a node succeeds when the node has enough free
  clusters, none of its free cores is fully loaded and no counter has reached its maximum: the
  container gets as many different cores as its limit asks for, each of them was free and belonged
  to nobody, and the lists of free and taken clusters and cores stay exact.
\<close>

theorem DockerBindClusters_places:
  assumes inv: "placement_inv k m st" "0 \<le> nid" "nid < int (numaNodeNum (ca_clusterTopology st))" "node_cool (fp_env env) k st nid"
    and n: "0 < kk" "kk \<le> length (freeInfoVec (the_numa (numaClusterInfo st) nid))"
    and need: "to_size (fp_env env) (fp_ceil (fp_env env) (initialCpuLimit (the_docker env st i))) = Some need"
      "(kk - 1) * m \<le> need" "need \<le> kk * m"
  shows "\<exists>good st' cs. DockerBindClusters env i nid kk st = Some (good, st') \<and> placement_inv k m st' \<and>
    length cs = need \<and> distinct cs \<and> (good \<longrightarrow> currentCpuSet (the_docker env st' i) = cs \<and> currentMemSet (the_docker env st' i) = [nid]) \<and>
    (\<forall>cpu \<in> set cs. (\<forall>c. 0 \<le> c \<and> c < k * int (numaNodeNum (ca_clusterTopology st)) \<longrightarrow>
        cpu \<notin> set (occupiedCpuCores (the_cluster (systemClusterInfo st) c))) \<and>
      (\<exists>c \<in> {k * nid..<k * nid + k}. cpu \<in> set (freeCpuCores (the_cluster (systemClusterInfo st) c)) \<and>
        cpu \<in> set (occupiedCpuCores (the_cluster (systemClusterInfo st') c))))"
proof -
  let ?sys = "systemClusterInfo st"
  obtain good picked new sys' l where run: "DockerBindClusters env i nid kk st = Some (good, bound_state env i nid good picked new sys' l st)"
      "placement_inv k m (bound_state env i nid good picked new sys' l st)"
    and p: "set picked \<subseteq> set (freeInfoVec (the_numa (numaClusterInfo st) nid))" and new: "length new = need" "distinct new"
      "set new \<subseteq> (\<Union>c \<in> set picked. set (freeCpuCores (the_cluster ?sys c)))"
    and sys: "\<forall>c. if c \<in> set picked then given new (the_cluster ?sys c) (the_cluster sys' c) else the_cluster sys' c = the_cluster ?sys c"
    using bind_effect [OF assms] by blast
  let ?st = "bound_state env i nid good picked new sys' l st"
  have st: "systemClusterInfo ?st = sys'" "good \<longrightarrow> currentCpuSet (the_docker env ?st i) = new \<and> currentMemSet (the_docker env ?st i) = [nid]"
    by (simp_all add: bound_state_def set_docker_def set_numa_def Let_def)
  have reg: "regular (ca_clusterTopology st) k" using inv(1) by (simp add: placement_inv_def Let_def)
  have cores: "(\<forall>c. 0 \<le> c \<and> c < k * int (numaNodeNum (ca_clusterTopology st)) \<longrightarrow> cpu \<notin> set (occupiedCpuCores (the_cluster ?sys c))) \<and>
      (\<exists>c \<in> {k * nid..<k * nid + k}. cpu \<in> set (freeCpuCores (the_cluster ?sys c)) \<and> cpu \<in> set (occupiedCpuCores (the_cluster sys' c)))"
    if cpu: "cpu \<in> set new" for cpu
  proof -
    obtain c where c: "c \<in> set picked" "cpu \<in> set (freeCpuCores (the_cluster ?sys c))" using new(3) cpu by blast
    then have r: "c \<in> {k * nid..<k * nid + k}" using free_cluster(5) [OF inv(1-3)] p by blast
    have "given new (the_cluster ?sys c) (the_cluster sys' c)" using sys c(1) by metis
    then have "cpu \<in># mset (occupiedCpuCores (the_cluster sys' c))" using c(2) cpu by (simp add: given_def)
    then show ?thesis using c r free_not_taken [OF inv(1) _ _ _ _ c(2)] node_cluster_range [OF reg inv(2,3) r] by auto
  qed
  show ?thesis using run new(1,2) st(2) cores by (intro exI [of _ good] exI [of _ ?st] exI [of _ new]) (simp add: st(1))
qed

end
