(* ===== verification/Cluster_Schedule.thy ===== *)
theory Cluster_Schedule
  imports Cluster_Claims
begin

text \<open>
  The loop that places all containers, \<open>DockerOptimizeBindSchedule\<close>. What the code relies on of
  \<open>double\<close> is the contract \<open>int_exact\<close>: integers that fit an \<open>int\<close> are exact, so are their comparison
  and the rounded-up quotient of two of them. IEEE 754 double precision has these properties.
\<close>

lemma ceil_div:
  assumes "0 < (b :: int)"
  shows "((a + b - 1) div b - 1) * b < a" "a \<le> (a + b - 1) div b * b"
proof -
  have "b * ((a + b - 1) div b) + (a + b - 1) mod b = a + b - 1" by (rule mult_div_mod_eq)
  moreover have "0 \<le> (a + b - 1) mod b" "(a + b - 1) mod b < b" using assms by simp_all
  moreover have "((a + b - 1) div b - 1) * b = b * ((a + b - 1) div b) - b" "(a + b - 1) div b * b = b * ((a + b - 1) div b)"
    by (simp_all add: algebra_simps)
  ultimately show "((a + b - 1) div b - 1) * b < a" "a \<le> (a + b - 1) div b * b" by linarith+
qed

locale int_exact =
  fixes fp :: "'d float_ops"
  assumes ceil_int: "0 \<le> a \<Longrightarrow> a < 2 ^ 31 \<Longrightarrow> to_size fp (fp_ceil fp (fp_of_int fp a)) = Some (nat a)"
    and ceil_quotient: "0 \<le> a \<Longrightarrow> a < 2 ^ 31 \<Longrightarrow> 0 < b \<Longrightarrow> b < 2 ^ 31 \<Longrightarrow>
      to_size fp (fp_ceil fp (fp_div fp (fp_of_int fp a) (fp_of_int fp b))) = Some (nat ((a + b - 1) div b))"
    and le_int: "\<bar>a\<bar> < 2 ^ 31 \<Longrightarrow> \<bar>b\<bar> < 2 ^ 31 \<Longrightarrow> fp_le fp (fp_of_int fp a) (fp_of_int fp b) = (a \<le> b)"
begin

text \<open>The clusters asked for hold the cores of the limit, and one fewer would not be enough.\<close>

lemma clusters_for_limit:
  assumes "0 < a" "a < 2 ^ 31" "0 < m" "m < 2 ^ 31"
  obtains kk where "to_size fp (fp_ceil fp (fp_div fp (fp_of_int fp a) (fp_of_int fp (int m)))) = Some kk"
    "0 < kk" "(kk - 1) * m \<le> nat a" "nat a \<le> kk * m"
proof -
  let ?q = "(a + int m - 1) div int m"
  have q: "(?q - 1) * int m < a" "a \<le> ?q * int m" using ceil_div [of "int m" a] assms(3) by simp_all
  have "0 < ?q" using assms by (simp add: pos_imp_zdiv_pos_iff)
  then have i: "int (nat ?q) = ?q" "int ((nat ?q - 1) * m) = (?q - 1) * int m" by (simp_all add: of_nat_diff)
  show thesis
  proof (rule that [of "nat ?q"])
    show "to_size fp (fp_ceil fp (fp_div fp (fp_of_int fp a) (fp_of_int fp (int m)))) = Some (nat ?q)"
      using ceil_quotient [of a "int m"] assms by simp
    have "int ((nat ?q - 1) * m) \<le> a" unfolding i using q(1) by simp
    then show "(nat ?q - 1) * m \<le> nat a" by linarith
    have "a \<le> int (nat ?q * m)" using q(2) i(1) by simp
    then show "nat a \<le> nat ?q * m" by linarith
  qed (use \<open>0 < ?q\<close> in simp)
qed

end

lemma rat_ceil_quotient:
  assumes "0 < (b :: int)"
  shows "\<lceil>(of_int a / of_int b :: rat)\<rceil> = (a + b - 1) div b"
proof (rule ceiling_unique)
  let ?q = "(a + b - 1) div b"
  have "(?q - 1) * b < a" using ceil_div(1) [OF assms] .
  then have "(of_int ((?q - 1) * b) :: rat) < of_int a" by (simp only: of_int_less_iff)
  then show "(of_int ?q - 1 :: rat) < of_int a / of_int b" using assms by (simp add: field_simps)
  have "a \<le> ?q * b" using ceil_div(2) [OF assms] .
  then have "(of_int a :: rat) \<le> of_int (?q * b)" by (simp only: of_int_le_iff)
  then show "(of_int a / of_int b :: rat) \<le> of_int ?q" using assms by (simp add: field_simps)
qed

interpretation exact_rat: int_exact rat_ops
proof (unfold_locales, goal_cases)
  case (2 a b)
  then have "0 \<le> (a + b - 1) div b" by (simp add: pos_imp_zdiv_nonneg_iff)
  moreover have "(a + b - 1) div b \<le> (a + b - 1) div 1" using 2 by (intro zdiv_mono2) auto
  ultimately have q: "0 \<le> (a + b - 1) div b" "(a + b - 1) div b < 2 ^ 64" using 2 by auto
  then show ?case using 2 rat_ceil_quotient [of b a] by (simp add: to_size_def rat_ops_def)
qed (auto simp: to_size_def rat_ops_def)

subsection \<open>The node of a container\<close>

lemma node_around_defined:
  "cs \<noteq> [] \<Longrightarrow> [] \<notin> set ns \<Longrightarrow> \<exists>r. node_around cs i ns = Some r"
proof (induction ns arbitrary: i)
  case (Cons n ns)
  then show ?case by (cases cs; cases n) (auto simp: vec_front_def vec_back_def)
qed simp

lemma SelectBindingNuma_defined:
  assumes "currentCpuSet (the_docker env st i) \<noteq> []" "[] \<notin> set (ca_cpuTopology st)"
    and "numaNodeNum (clusterTopology (clusterSelector st)) \<le> length (ca_cpuTopology st)"
  shows "\<exists>nid. SelectBindingNuma env i st = Some nid"
proof -
  obtain r where "node_around (currentCpuSet (the_docker env st i)) 0 (ca_cpuTopology st) = Some r"
    using node_around_defined [OF assms(1,2)] by blast
  then show ?thesis
    using assms(3) by (auto simp: SelectBindingNuma_def SelectIdleNode_def Let_def split: option.split)
qed

subsection \<open>The invariant of the loop\<close>

text \<open>No cluster belongs to two containers, and the clusters of containers are taken.\<close>

definition exclusive :: "('d, 'n) affinity_env \<Rightarrow> 'd affinity \<Rightarrow> bool" where
  "exclusive env st =
     ((\<forall>i \<in> fst ` set (dockerInfos st). distinct (bindClusters (the_docker env st i)) \<and>
        (\<forall>c \<in> set (bindClusters (the_docker env st i)). \<exists>nid. 0 \<le> nid \<and> nid < int (numaNodeNum (ca_clusterTopology st)) \<and>
           c \<in> set (occupiedInfoVec (the_numa (numaClusterInfo st) nid)))) \<and>
      (\<forall>i \<in> fst ` set (dockerInfos st). \<forall>j \<in> fst ` set (dockerInfos st). i \<noteq> j \<longrightarrow>
         set (bindClusters (the_docker env st i)) \<inter> set (bindClusters (the_docker env st j)) = {}))"

text \<open>
  The limits are integers, as \<open>Update\<close> makes them, every container may run somewhere, a node that
  does not exist has no clusters, and a cluster has as many cores to give as the loop counts.
\<close>

definition dockers_ok :: "('d, 'n) affinity_env \<Rightarrow> 'd affinity \<Rightarrow> bool" where
  "dockers_ok env st = (\<forall>i \<in> fst ` set (dockerInfos st). currentCpuSet (the_docker env st i) \<noteq> [] \<and>
     (\<exists>a. \<bar>a\<bar> < 2 ^ 31 \<and> initialCpuLimit (the_docker env st i) = fp_of_int (fp_env env) a))"

definition machine_ok :: "('d, 'n) affinity_env \<Rightarrow> int \<Rightarrow> nat \<Rightarrow> 'd affinity \<Rightarrow> bool" where
  "machine_ok env k m st =
     (let t = ca_clusterTopology st in
      0 < m \<and> m < 2 ^ 31 \<and> int m = (if IsSmtEnable (fs_env env) then oneClusterCpuNum t div 2 else oneClusterCpuNum t) \<and>
      [] \<notin> set (ca_cpuTopology st) \<and> numaNodeNum t \<le> length (ca_cpuTopology st) \<and>
      (\<forall>nid. (0 \<le> nid \<and> nid < int (numaNodeNum t) \<longrightarrow> node_cool (fp_env env) k st nid) \<and>
         (\<not> (0 \<le> nid \<and> nid < int (numaNodeNum t)) \<longrightarrow> freeInfoVec (the_numa (numaClusterInfo st) nid) = [])))"

definition schedule_inv :: "('d, 'n) affinity_env \<Rightarrow> int \<Rightarrow> nat \<Rightarrow> 'd affinity \<Rightarrow> bool" where
  "schedule_inv env k m st = (placement_inv k m st \<and> exclusive env st \<and> dockers_ok env st \<and> machine_ok env k m st)"

lemma bound_state_fields [simp]:
  "ca_clusterTopology (bound_state env i nid good picked new sys' l st) = ca_clusterTopology st"
  "ca_cpuTopology (bound_state env i nid good picked new sys' l st) = ca_cpuTopology st"
  "clusterSelector (bound_state env i nid good picked new sys' l st) = clusterSelector st"
  "systemClusterInfo (bound_state env i nid good picked new sys' l st) = sys'"
  "the_numa (numaClusterInfo (bound_state env i nid good picked new sys' l st)) a =
    (let n = the_numa (numaClusterInfo st) a in if a = nid then n\<lparr>occupiedInfoVec := occupiedInfoVec n @ picked,
       freeInfoVec := filter (\<lambda>c. c \<notin> set picked) (freeInfoVec n)\<rparr> else n)"
  "the_docker env (bound_state env i nid good picked new sys' l st) j =
    (let d = the_docker env st j in if j = i then d\<lparr>bindClusters := bindClusters d @ picked,
       currentCpuSet := if good then new else currentCpuSet d, currentMemSet := if good then [nid] else currentMemSet d\<rparr> else d)"
  "fst ` set (dockerInfos (bound_state env i nid good picked new sys' l st)) = insert i (fst ` set (dockerInfos st))"
  by (auto simp: bound_state_def set_docker_def set_numa_def Let_def dom_update)

lemma exclusive_bound:
  assumes ex: "exclusive env st" and inv: "placement_inv k m st" "0 \<le> nid" "nid < int (numaNodeNum (ca_clusterTopology st))"
    and i: "i \<in> fst ` set (dockerInfos st)"
    and p: "distinct picked" "set picked \<subseteq> set (freeInfoVec (the_numa (numaClusterInfo st) nid))"
  shows "exclusive env (bound_state env i nid good picked new sys' l st)"
proof -
  let ?st = "bound_state env i nid good picked new sys' l st"
  have fresh: "set (bindClusters (the_docker env st j)) \<inter> set picked = {}" if "j \<in> fst ` set (dockerInfos st)" for j
    using ex that free_node_cluster [OF inv] p(2) unfolding exclusive_def by blast
  have own: "\<exists>a. 0 \<le> a \<and> a < int (numaNodeNum (ca_clusterTopology st)) \<and> c \<in> set (occupiedInfoVec (the_numa (numaClusterInfo ?st) a))"
    if "j \<in> fst ` set (dockerInfos st)" "c \<in> set (bindClusters (the_docker env ?st j))" for j c
  proof (cases "c \<in> set picked")
    case True
    then show ?thesis using inv(2,3) by (intro exI [of _ nid]) (simp add: Let_def)
  next
    case False
    then have "c \<in> set (bindClusters (the_docker env st j))" using that(2) by (auto simp: Let_def split: if_splits)
    then show ?thesis using ex that(1) unfolding exclusive_def by (fastforce simp: Let_def)
  qed
  have keys: "fst ` set (dockerInfos ?st) = fst ` set (dockerInfos st)" using i by auto
  show ?thesis
    unfolding exclusive_def keys using own fresh ex p(1) i
    by (simp add: exclusive_def Let_def) blast
qed

lemma dockers_ok_bound:
  "dockers_ok env st \<Longrightarrow> i \<in> fst ` set (dockerInfos st) \<Longrightarrow> new \<noteq> [] \<Longrightarrow>
   dockers_ok env (bound_state env i nid good picked new sys' l st)"
  by (auto simp: dockers_ok_def Let_def)

lemma machine_ok_bound:
  assumes "machine_ok env k m st" and inv: "0 \<le> nid" "nid < int (numaNodeNum (ca_clusterTopology st))"
    and sys: "\<forall>c. if c \<in> set picked then given new (the_cluster (systemClusterInfo st) c) (the_cluster sys' c)
      else the_cluster sys' c = the_cluster (systemClusterInfo st) c"
  shows "machine_ok env k m (bound_state env i nid good picked new sys' l st)"
proof -
  have "set (freeCpuCores (the_cluster sys' c)) \<subseteq> set (freeCpuCores (the_cluster (systemClusterInfo st) c))" for c
  proof (cases "c \<in> set picked")
    case True
    then have "given new (the_cluster (systemClusterInfo st) c) (the_cluster sys' c)" using sys by metis
    then show ?thesis by (simp add: given_def)
  next
    case False
    then show ?thesis using sys by (metis order_refl)
  qed
  then have "node_cool (fp_env env) k (bound_state env i nid good picked new sys' l st) a" if "node_cool (fp_env env) k st a" for a
    using that unfolding node_cool_def by (auto dest: subsetD)
  then show ?thesis using assms(1-3) unfolding machine_ok_def by (simp add: Let_def)
qed

lemma schedule_inv_mark:
  assumes "i \<in> fst ` set (dockerInfos st)"
  shows "schedule_inv env k m (set_docker i ((the_docker env st i)\<lparr>optimizeBinded := b\<rparr>) st) = schedule_inv env k m st"
proof -
  have keys: "fst ` set (dockerInfos (set_docker i d st)) = fst ` set (dockerInfos st)" for d
    using assms by (auto simp: set_docker_def dom_update)
  have sel: "bindClusters (the_docker env (set_docker i ((the_docker env st i)\<lparr>optimizeBinded := b\<rparr>) st) j) = bindClusters (the_docker env st j)"
    "currentCpuSet (the_docker env (set_docker i ((the_docker env st i)\<lparr>optimizeBinded := b\<rparr>) st) j) = currentCpuSet (the_docker env st j)"
    "initialCpuLimit (the_docker env (set_docker i ((the_docker env st i)\<lparr>optimizeBinded := b\<rparr>) st) j) = initialCpuLimit (the_docker env st j)" for j
    by (simp_all add: set_docker_def)
  show ?thesis
    unfolding schedule_inv_def exclusive_def dockers_ok_def keys sel
    by (simp add: machine_ok_def node_cool_def Let_def) (simp add: set_docker_def)
qed

text \<open>One container: it is placed, or the loop ends or goes on without it.\<close>

lemma bind_one:
  assumes "int_exact (fp_env env)" and inv: "schedule_inv env k m st" and i: "i \<in> fst ` set (dockerInfos st)"
    and go: "\<not> fp_le (fp_env env) (initialCpuLimit (the_docker env st i)) (fp_of_int (fp_env env) 0)"
  defines "one \<equiv> oneClusterCpuNum (ca_clusterTopology st)"
  shows "\<exists>kk nid. to_size (fp_env env) (fp_ceil (fp_env env) (fp_div (fp_env env) (initialCpuLimit (the_docker env st i))
      (fp_of_int (fp_env env) (if IsSmtEnable (fs_env env) then one div 2 else one)))) = Some kk \<and>
    SelectBindingNuma env i st = Some nid \<and>
    (kk \<le> length (freeInfoVec (the_numa (numaClusterInfo st) nid)) \<longrightarrow>
      (\<exists>good st'. DockerBindClusters env i nid kk st = Some (good, st') \<and> schedule_inv env k m st' \<and>
         fst ` set (dockerInfos st') = fst ` set (dockerInfos st)))"
proof -
  have fp: "int_exact (fp_env env)" by fact
  have parts: "placement_inv k m st" "exclusive env st" "dockers_ok env st" "machine_ok env k m st"
    using inv by (auto simp: schedule_inv_def)
  obtain a where a: "\<bar>a\<bar> < 2 ^ 31" "initialCpuLimit (the_docker env st i) = fp_of_int (fp_env env) a"
    using parts(3) i by (auto simp: dockers_ok_def)
  then have pos: "0 < a" using go int_exact.le_int [OF fp a(1), of 0] by simp
  have mm: "0 < m" "m < 2 ^ 31" "int m = (if IsSmtEnable (fs_env env) then one div 2 else one)"
    using parts(4) by (auto simp: machine_ok_def Let_def one_def)
  obtain kk where kk: "to_size (fp_env env) (fp_ceil (fp_env env) (fp_div (fp_env env) (fp_of_int (fp_env env) a) (fp_of_int (fp_env env) (int m)))) = Some kk"
      "0 < kk" "(kk - 1) * m \<le> nat a" "nat a \<le> kk * m"
    using int_exact.clusters_for_limit [OF fp pos _ mm(1,2)] a(1) pos by auto
  have need: "to_size (fp_env env) (fp_ceil (fp_env env) (initialCpuLimit (the_docker env st i))) = Some (nat a)"
    using int_exact.ceil_int [OF fp, of a] a pos by simp
  have topo: "clusterTopology (clusterSelector st) = ca_clusterTopology st" using parts(1) by (simp add: placement_inv_def Let_def)
  obtain nid where nid: "SelectBindingNuma env i st = Some nid"
    using SelectBindingNuma_defined [of env st i] parts(3,4) i topo by (auto simp: dockers_ok_def machine_ok_def Let_def)
  have "\<exists>good st'. DockerBindClusters env i nid kk st = Some (good, st') \<and> schedule_inv env k m st' \<and>
      fst ` set (dockerInfos st') = fst ` set (dockerInfos st)"
    if len: "kk \<le> length (freeInfoVec (the_numa (numaClusterInfo st) nid))"
  proof -
    have r: "0 \<le> nid \<and> nid < int (numaNodeNum (ca_clusterTopology st))"
    proof (rule ccontr)
      assume "\<not> ?thesis"
      then have "freeInfoVec (the_numa (numaClusterInfo st) nid) = []" using parts(4) by (simp add: machine_ok_def Let_def)
      then show False using len kk(2) by simp
    qed
    have cool: "node_cool (fp_env env) k st nid" using parts(4) r by (simp add: machine_ok_def Let_def)
    obtain good picked new sys' l where b: "DockerBindClusters env i nid kk st = Some (good, bound_state env i nid good picked new sys' l st)"
        "placement_inv k m (bound_state env i nid good picked new sys' l st)" "distinct picked"
        "set picked \<subseteq> set (freeInfoVec (the_numa (numaClusterInfo st) nid))" "length new = nat a"
        "\<forall>c. if c \<in> set picked then given new (the_cluster (systemClusterInfo st) c) (the_cluster sys' c)
          else the_cluster sys' c = the_cluster (systemClusterInfo st) c"
      using bind_effect [OF parts(1) _ _ cool kk(2) len need kk(3,4)] r by blast
    have "new \<noteq> []" using b(5) pos by auto
    then have "schedule_inv env k m (bound_state env i nid good picked new sys' l st)"
      unfolding schedule_inv_def using b(2) exclusive_bound [OF parts(2,1) _ _ i b(3,4)] r dockers_ok_bound [OF parts(3) i]
        machine_ok_bound [OF parts(4) _ _ b(6)] by blast
    moreover have "fst ` set (dockerInfos (bound_state env i nid good picked new sys' l st)) = fst ` set (dockerInfos st)"
      using i by (simp add: insert_absorb)
    ultimately show ?thesis using b(1) by blast
  qed
  then show ?thesis using kk(1) nid a(2) mm(3) by auto
qed

lemma bind_dockers_inv:
  assumes fp: "int_exact (fp_env env)"
  shows "schedule_inv env k m st \<Longrightarrow> set is \<subseteq> fst ` set (dockerInfos st) \<Longrightarrow>
    \<exists>st'. bind_dockers env is st = Some st' \<and> schedule_inv env k m st'"
proof (induction "is" arbitrary: st)
  case (Cons i "is")
  let ?d = "the_docker env st i" and ?fp = "fp_env env"
  have i: "i \<in> fst ` set (dockerInfos st)" "set is \<subseteq> fst ` set (dockerInfos st)" using Cons.prems by auto
  have one: "oneClusterCpuNum (ca_clusterTopology st) \<noteq> 0"
    using Cons.prems(1) by (auto simp: schedule_inv_def placement_inv_def Let_def)
  show ?case
  proof (cases "optimizeBinded ?d \<or> fp_le ?fp (initialCpuLimit ?d) (fp_of_int ?fp 0)")
    case True
    then show ?thesis using Cons.IH [OF Cons.prems(1) i(2)] by (auto simp: Let_def)
  next
    case False
    then have go: "\<not> optimizeBinded ?d" "\<not> fp_le ?fp (initialCpuLimit ?d) (fp_of_int ?fp 0)" by auto
    obtain kk nid where b: "to_size ?fp (fp_ceil ?fp (fp_div ?fp (initialCpuLimit ?d) (fp_of_int ?fp
          (if IsSmtEnable (fs_env env) then oneClusterCpuNum (ca_clusterTopology st) div 2 else oneClusterCpuNum (ca_clusterTopology st))))) = Some kk"
        "SelectBindingNuma env i st = Some nid"
        "kk \<le> length (freeInfoVec (the_numa (numaClusterInfo st) nid)) \<longrightarrow>
          (\<exists>good st'. DockerBindClusters env i nid kk st = Some (good, st') \<and> schedule_inv env k m st' \<and>
            fst ` set (dockerInfos st') = fst ` set (dockerInfos st))"
      using bind_one [OF fp Cons.prems(1) i(1) go(2)] by blast
    show ?thesis
    proof (cases "kk \<le> length (freeInfoVec (the_numa (numaClusterInfo st) nid))")
      case True
      then obtain good st' where st': "DockerBindClusters env i nid kk st = Some (good, st')" "schedule_inv env k m st'"
          "fst ` set (dockerInfos st') = fst ` set (dockerInfos st)"
        using b(3) by blast
      let ?st = "set_docker i ((the_docker env st' i)\<lparr>optimizeBinded := True\<rparr>) st'"
      have "schedule_inv env k m ?st" using st' i(1) schedule_inv_mark by blast
      moreover have "set is \<subseteq> fst ` set (dockerInfos ?st)" using i st'(3) by (auto simp: set_docker_def dom_update)
      ultimately obtain st2 where "bind_dockers env is ?st = Some st2" "schedule_inv env k m st2" using Cons.IH by blast
      then show ?thesis using go one b(1,2) True st'(1) by (simp add: Let_def)
    next
      case False
      then show ?thesis using go one b(1,2) Cons.prems(1) by (simp add: Let_def)
    qed
  qed
qed simp

text \<open>C24. Placing all containers that are not placed yet never crashes and gives no cluster to two
  containers: the invariant of the placement and the exclusive ownership of clusters are kept, for
  any number of containers with integral limits and any outcome of the docker commands.
\<close>

theorem DockerOptimizeBindSchedule_exclusive:
  assumes "int_exact (fp_env env)" "schedule_inv env k m st"
  shows "\<exists>st'. DockerOptimizeBindSchedule env st = Some st' \<and> placement_inv k m st' \<and> exclusive env st'"
  using bind_dockers_inv [OF assms, of "map fst (dockerInfos st)"]
  by (auto simp: DockerOptimizeBindSchedule_def schedule_inv_def)

end
