(* ===== verification/Cluster_Init.thy ===== *)
theory Cluster_Init
  imports Cluster_Schedule
begin

text \<open>
  \<open>InitSystemClusters\<close> on a machine whose nodes have consecutive cores: the clusters it makes, and
  that they satisfy the invariant of the placement.
\<close>

subsection \<open>Clusters of one node\<close>

lemma freeInfoVec_same [simp]: "n\<lparr>freeInfoVec := freeInfoVec n\<rparr> = n"
  by (cases n) simp

lemma add_clusters:
  assumes "distinct (map clusterId cls)"
  shows "(\<forall>cl \<in> set cls. the_cluster (systemClusterInfo (foldl (add_cluster i) st cls)) (clusterId cl) = cl) \<and>
    (\<forall>c. c \<notin> clusterId ` set cls \<longrightarrow>
       the_cluster (systemClusterInfo (foldl (add_cluster i) st cls)) c = the_cluster (systemClusterInfo st) c) \<and>
    (\<forall>a. the_numa (numaClusterInfo (foldl (add_cluster i) st cls)) a = (let n = the_numa (numaClusterInfo st) a in
       if a = i then n\<lparr>freeInfoVec := freeInfoVec n @ map clusterId cls\<rparr> else n)) \<and>
    ca_clusterTopology (foldl (add_cluster i) st cls) = ca_clusterTopology st \<and>
    ca_cpuTopology (foldl (add_cluster i) st cls) = ca_cpuTopology st \<and>
    clusterSelector (foldl (add_cluster i) st cls) = clusterSelector st \<and> dockerInfos (foldl (add_cluster i) st cls) = dockerInfos st"
  using assms
proof (induction cls arbitrary: st)
  case (Cons cl cls)
  have ne: "clusterId cl \<notin> clusterId ` set cls" using Cons.prems by auto
  let ?st = "add_cluster i st cl"
  have "distinct (map clusterId cls)" using Cons.prems by simp
  note ih = Cons.IH [OF this, of ?st]
  have a: "the_cluster (systemClusterInfo ?st) c = (if c = clusterId cl then cl else the_cluster (systemClusterInfo st) c)"
    "the_numa (numaClusterInfo ?st) x = (let n = the_numa (numaClusterInfo st) x in
       if x = i then n\<lparr>freeInfoVec := freeInfoVec n @ [clusterId cl]\<rparr> else n)"
    "ca_clusterTopology ?st = ca_clusterTopology st" "ca_cpuTopology ?st = ca_cpuTopology st"
    "clusterSelector ?st = clusterSelector st" "dockerInfos ?st = dockerInfos st" for c x
    by (simp_all add: add_cluster_def set_numa_def Let_def)
  show ?case using ih ne by (auto simp: a Let_def)
qed (simp add: Let_def)

text \<open>The number of cores a cluster has to give: with two threads per core every second one.\<close>

definition cores_per_cluster :: "bool \<Rightarrow> nat \<Rightarrow> nat" where
  "cores_per_cluster smt one = (if smt then (one + 1) div 2 else one)"

lemma length_even: "length (filter (\<lambda>t. t mod 2 = 0) [0..<n]) = (n + 1) div (2 :: nat)"
  by (induction n) (simp, simp, presburger)

lemma filter_stride: "filter (\<lambda>k. (k - s) mod p = 0) [s..<s + n] = map ((+) s) (filter (\<lambda>t. t mod p = (0 :: nat)) [0..<n])"
proof -
  have "[s..<s + n] = map ((+) s) [0..<n]" by (rule nth_equalityI) auto
  then show ?thesis by (simp add: filter_map comp_def)
qed

text \<open>Cores \<open>b\<close>, \<open>b + 1\<close>, ... of a node whose first core is the first of a cluster.\<close>

definition consecutive :: "nat \<Rightarrow> nat \<Rightarrow> int list" where
  "consecutive b n = map (\<lambda>t. int (b + t)) [0..<n]"

lemma make_cluster_consecutive:
  fixes smt :: bool and q one j kk :: nat
  assumes "0 < one" "j < kk"
  defines "cl \<equiv> make_cluster smt (consecutive (q * one) (kk * one)) one j"
  shows "clusterId cl = int (q + j)" "occupiedCpuCores cl = []"
    "cluster_wf (int one) (cores_per_cluster smt one) (int (q + j)) cl"
proof -
  let ?sep = "if smt then 2 else (1 :: nat)"
  have jk: "j * one + one \<le> kk * one" using assms(2) by (metis Suc_leI add.commute mult_Suc mult_le_mono1)
  have nth: "consecutive (q * one) (kk * one) ! (j * one + t) = int (q + j) * int one + int t" if "t < one" for t
    using that jk by (simp add: consecutive_def algebra_simps)
  have s: "consecutive (q * one) (kk * one) ! (j * one) = int (q + j) * int one" using nth [of 0] assms(1) by simp
  show "clusterId cl = int (q + j)"
    using assms(1) by (simp add: cl_def make_cluster_def Let_def s) (metis of_nat_add of_nat_mult nonzero_mult_div_cancel_right of_nat_eq_0_iff less_irrefl sdiv_int_nat)
  show occ: "occupiedCpuCores cl = []" by (simp add: cl_def make_cluster_def Let_def)
  have free: "freeCpuCores cl = map (\<lambda>t. int (q + j) * int one + int t) (filter (\<lambda>t. t mod ?sep = 0) [0..<one])"
    using filter_stride [of "j * one" ?sep one] nth by (auto simp: cl_def make_cluster_def Let_def add.commute)
  have "length (filter (\<lambda>t. t mod ?sep = 0) [0..<one]) = cores_per_cluster smt one"
    using length_even [of one] by (simp add: cores_per_cluster_def)
  then show "cluster_wf (int one) (cores_per_cluster smt one) (int (q + j)) cl"
    using occ free by (auto simp: cluster_wf_def cores_def distinct_map inj_on_def)
qed

subsection \<open>All nodes\<close>

definition node_cpus :: "nat \<Rightarrow> nat \<Rightarrow> nat \<Rightarrow> int list" where
  "node_cpus kk one i = consecutive (i * kk * one) (kk * one)"

lemma zip_upto_map: "zip [0..int n - 1] (map f [0..<n]) = map (\<lambda>i. (int i, f i)) [0..<n]"
proof -
  have "[0..int n - 1] = map int [0..<n]"
    by (rule nth_equalityI) (simp_all add: nth_upto)
  then show ?thesis by (simp add: zip_map_map zip_same_conv_map)
qed

lemma clusters_in_node: "0 < one \<Longrightarrow> clusters_in (node_cpus kk one i) (int one) = kk"
  by (simp add: clusters_in_def node_cpus_def consecutive_def)

definition fresh_numa :: "nat \<Rightarrow> int \<Rightarrow> NumaClusterInfo" where
  "fresh_numa kk nid = \<lparr>numaId = nid, freeInfoVec = map (\<lambda>j. int (nat nid * kk + j)) [0..<kk], occupiedInfoVec = []\<rparr>"

lemma offsets_image: "(\<lambda>j. int (q + j)) ` {0..<n} = {int q..<int (q + n)}"
proof
  show "{int q..<int (q + n)} \<subseteq> (\<lambda>j. int (q + j)) ` {0..<n}"
  proof
    fix x assume x: "x \<in> {int q..<int (q + n)}"
    then show "x \<in> (\<lambda>j. int (q + j)) ` {0..<n}" by (intro image_eqI [of _ _ "nat (x - int q)"]) auto
  qed
qed auto

lemma init_node_effect:
  assumes "0 < one" and st'_def: "st' = init_node smt (int one) st (int i, node_cpus kk one i)"
  shows "\<And>j. j < kk \<Longrightarrow> the_cluster (systemClusterInfo st') (int (i * kk + j)) = make_cluster smt (node_cpus kk one i) one j"
    "\<And>c. c \<notin> {int (i * kk)..<int (i * kk + kk)} \<Longrightarrow> the_cluster (systemClusterInfo st') c = the_cluster (systemClusterInfo st) c"
    "the_numa (numaClusterInfo st) (int i) = blank_numa \<Longrightarrow> the_numa (numaClusterInfo st') (int i) = fresh_numa kk (int i)"
    "\<And>a. a \<noteq> int i \<Longrightarrow> the_numa (numaClusterInfo st') a = the_numa (numaClusterInfo st) a"
    "ca_clusterTopology st' = ca_clusterTopology st \<and> ca_cpuTopology st' = ca_cpuTopology st \<and>
     clusterSelector st' = clusterSelector st \<and> dockerInfos st' = dockerInfos st"
proof -
  let ?mk = "make_cluster smt (node_cpus kk one i) one"
  have id: "clusterId (?mk j) = int (i * kk + j)" if "j < kk" for j
    unfolding node_cpus_def using make_cluster_consecutive(1) [OF assms(1) that] by simp
  have ids: "map clusterId (map ?mk [0..<kk]) = map (\<lambda>j. int (i * kk + j)) [0..<kk]" using id by simp
  have d: "distinct (map clusterId (map ?mk [0..<kk]))" unfolding ids by (simp add: distinct_map inj_on_def)
  have img: "clusterId ` set (map ?mk [0..<kk]) = {int (i * kk)..<int (i * kk + kk)}"
    using ids offsets_image [of "i * kk" kk] by (metis list.set_map set_upt)
  let ?st = "set_numa (int i) ((the_numa (numaClusterInfo st) (int i))\<lparr>numaId := int i\<rparr>) st"
  have st': "st' = foldl (add_cluster (int i)) ?st (map ?mk [0..<kk])"
    using clusters_in_node [OF assms(1), of kk i] by (simp add: st'_def init_node_def)
  note e = add_clusters [OF d, of "int i" ?st, folded st', unfolded img ids]
  show "the_cluster (systemClusterInfo st') (int (i * kk + j)) = ?mk j" if "j < kk" for j
  proof -
    have "?mk j \<in> set (map ?mk [0..<kk])" using that by simp
    then show ?thesis using e [THEN conjunct1] id [OF that] by metis
  qed
  show "the_cluster (systemClusterInfo st') c = the_cluster (systemClusterInfo st) c" if "c \<notin> {int (i * kk)..<int (i * kk + kk)}" for c
    using e that by (simp add: set_numa_def)
  show "the_numa (numaClusterInfo st') (int i) = fresh_numa kk (int i)" if "the_numa (numaClusterInfo st) (int i) = blank_numa"
    using e that by (simp add: set_numa_def fresh_numa_def blank_numa_def Let_def)
  show "the_numa (numaClusterInfo st') a = the_numa (numaClusterInfo st) a" if "a \<noteq> int i" for a
    using e that by (simp add: set_numa_def Let_def)
  show "ca_clusterTopology st' = ca_clusterTopology st \<and> ca_cpuTopology st' = ca_cpuTopology st \<and>
     clusterSelector st' = clusterSelector st \<and> dockerInfos st' = dockerInfos st"
    using e by (simp add: set_numa_def)
qed

text \<open>
  The state after \<open>n\<close> nodes: the clusters of the first \<open>n\<close> nodes are there and free.
\<close>

lemma init_nodes_effect:
  assumes "0 < one" "systemClusterInfo st = []" "numaClusterInfo st = []"
    and "st' = foldl (init_node smt (int one)) st (map (\<lambda>i. (int i, node_cpus kk one i)) [0..<n])"
  shows "(\<forall>i < n. \<forall>j < kk. the_cluster (systemClusterInfo st') (int (i * kk + j)) = make_cluster smt (node_cpus kk one i) one j) \<and>
    (\<forall>a. the_numa (numaClusterInfo st') a = (if 0 \<le> a \<and> a < int n then fresh_numa kk a else blank_numa)) \<and>
    ca_clusterTopology st' = ca_clusterTopology st \<and> ca_cpuTopology st' = ca_cpuTopology st \<and>
    clusterSelector st' = clusterSelector st \<and> dockerInfos st' = dockerInfos st"
  using assms(4)
proof (induction n arbitrary: st')
  case 0
  then show ?case using assms(2,3) by (auto simp: al_get_def)
next
  case (Suc n)
  define st1 where "st1 = foldl (init_node smt (int one)) st (map (\<lambda>i. (int i, node_cpus kk one i)) [0..<n])"
  have st': "st' = init_node smt (int one) st1 (int n, node_cpus kk one n)" using Suc.prems by (simp add: st1_def)
  note ih = Suc.IH [OF st1_def]
  note e = init_node_effect [OF assms(1) st']
  have old: "the_cluster (systemClusterInfo st') (int (i * kk + j)) = make_cluster smt (node_cpus kk one i) one j"
    if "i < n" "j < kk" for i j
  proof -
    have "i * kk + kk \<le> n * kk" using that(1) by (metis Suc_leI add.commute mult_Suc mult_le_mono1)
    then have "i * kk + j < n * kk" using that(2) by linarith
    then have "int (i * kk + j) \<notin> {int (n * kk)..<int (n * kk + kk)}" unfolding atLeastLessThan_iff of_nat_le_iff by linarith
    then show ?thesis using e(2) ih that by metis
  qed
  have "the_cluster (systemClusterInfo st') (int (i * kk + j)) = make_cluster smt (node_cpus kk one i) one j"
    if "i < Suc n" "j < kk" for i j
    using old e(1) that by (cases "i = n") auto
  moreover have "the_numa (numaClusterInfo st') a = (if 0 \<le> a \<and> a < int (Suc n) then fresh_numa kk a else blank_numa)" for a
  proof (cases "a = int n")
    case True
    then show ?thesis using e(3) ih by simp
  next
    case False
    then have "the_numa (numaClusterInfo st') a = (if 0 \<le> a \<and> a < int n then fresh_numa kk a else blank_numa)"
      using e(4) ih by metis
    moreover have "a < int (Suc n) \<longleftrightarrow> a < int n" using False by auto
    ultimately show ?thesis by simp
  qed
  ultimately show ?case using e(5) ih by auto
qed

lemma init_placement:
  assumes "0 < one" "0 < kk" "0 < n" "kk * n < 2 ^ 31" "systemClusterInfo st = []" "numaClusterInfo st = []"
    and "numaNodeNum (ca_clusterTopology st) = n" "clusterNum (ca_clusterTopology st) = int (kk * n)"
      "oneClusterCpuNum (ca_clusterTopology st) = int one" "clusterTopology (clusterSelector st) = ca_clusterTopology st"
      "ca_cpuTopology st = map (node_cpus kk one) [0..<n]"
  shows "\<exists>st'. InitSystemClusters env st = (True, st') \<and>
    placement_inv (int kk) (cores_per_cluster (IsSmtEnable (fs_env env)) one) st' \<and>
    (\<forall>a. the_numa (numaClusterInfo st') a = (if 0 \<le> a \<and> a < int n then fresh_numa kk a else blank_numa)) \<and>
    ca_clusterTopology st' = ca_clusterTopology st \<and> ca_cpuTopology st' = ca_cpuTopology st \<and>
    clusterSelector st' = clusterSelector st \<and> dockerInfos st' = dockerInfos st"
proof -
  let ?smt = "IsSmtEnable (fs_env env)"
  define st' where "st' = foldl (init_node ?smt (int one)) st (map (\<lambda>i. (int i, node_cpus kk one i)) [0..<n])"
  have run: "InitSystemClusters env st = (True, st')"
    using assms(1,9,11) zip_upto_map [of n "node_cpus kk one"] by (simp add: InitSystemClusters_def st'_def Let_def)
  note e = init_nodes_effect [OF assms(1,5,6) st'_def]
  have reg: "regular (ca_clusterTopology st) (int kk)"
    using assms(2-4,7,8) of_nat_less_iff [of "kk * n" "2 ^ 31", where 'a = int] by (simp add: regular_def)
  have cl: "cluster_wf (int one) (cores_per_cluster ?smt one) c (the_cluster (systemClusterInfo st') c) \<and>
      occupiedCpuCores (the_cluster (systemClusterInfo st') c) = []" if "0 \<le> c" "c < int kk * int n" for c
  proof -
    define i j where "i = nat c div kk" and "j = nat c mod kk"
    have "nat c < n * kk" using that by (simp add: nat_less_iff mult.commute)
    then have ij: "c = int (i * kk + j)" "i < n" "j < kk"
      using that(1) assms(2) by (auto simp: i_def j_def less_mult_imp_div_less)
    then have "the_cluster (systemClusterInfo st') c = make_cluster ?smt (node_cpus kk one i) one j" using e by blast
    then show ?thesis using make_cluster_consecutive(2,3) [where q = "i * kk" and smt = ?smt, OF assms(1) ij(3)] ij(1) by (simp add: node_cpus_def)
  qed
  have node: "node_wf (int kk) st' nid" if nid: "0 \<le> nid" "nid < int n" for nid
  proof -
    obtain i where i: "nid = int i" "i < n" using nid by (metis nonneg_int_cases of_nat_less_iff)
    have nth: "nth_int (map (node_cpus kk one) [0..<n]) nid = Some (node_cpus kk one i)" using i by (simp add: nth_int_def nth_opt_def)
    obtain a xs where hd: "node_cpus kk one i = a # xs" "a = int (i * kk * one)"
      using assms(1,2) by (simp add: node_cpus_def consecutive_def upt_conv_Cons del: upt_Suc)
    have sd: "int (i * kk * one) sdiv int one = int kk * nid"
      using assms(1) i sdiv_int_nat [of "i * kk * one" one] by simp
    have "node_topo (int kk) (int one) (map (node_cpus kk one) [0..<n]) nid"
      unfolding node_topo_def nth option.case using clusters_in_node [OF assms(1), of kk i] sd hd by (simp add: hd(1))
    moreover have "numa_wf (int kk) nid (fresh_numa kk nid) (systemClusterInfo st')"
    proof -
      have s: "set (map (\<lambda>j. int (nat nid * kk + j)) [0..<kk]) = {int kk * nid..<int kk * nid + int kk}"
        using offsets_image [of "i * kk" kk] i by (simp add: mult.commute)
      have "0 \<le> c \<and> c < int kk * int n" if "c \<in> {int kk * nid..<int kk * nid + int kk}" for c
        using node_cluster_range [OF reg, of nid c] assms(7) nid that by simp
      then have "occupiedCpuCores (the_cluster (systemClusterInfo st') c) = []" if "c \<in> {int kk * nid..<int kk * nid + int kk}" for c
        using cl that by blast
      then show ?thesis unfolding numa_wf_def fresh_numa_def using s by (simp add: distinct_map inj_on_def)
    qed
    ultimately show ?thesis using e nid assms(9,11) by (simp add: node_wf_def)
  qed
  have "placement_inv (int kk) (cores_per_cluster ?smt one) st'"
    using reg e cl node assms(1,7,9,10) by (simp add: placement_inv_def Let_def)
  then show ?thesis using run e by blast
qed


text \<open>C26. On a machine with \<open>n\<close> nodes of \<open>kk\<close> clusters of \<open>one\<close> consecutive cores, the first
  initialization makes all clusters, free, with all their cores (every second one with two threads
  per core), and establishes the invariant of the placement.
\<close>

theorem InitSystemClusters_establishes:
  assumes "0 < one" "0 < kk" "0 < n" "kk * n < 2 ^ 31" "systemClusterInfo st = []" "numaClusterInfo st = []"
    and "numaNodeNum (ca_clusterTopology st) = n" "clusterNum (ca_clusterTopology st) = int (kk * n)"
      "oneClusterCpuNum (ca_clusterTopology st) = int one" "clusterTopology (clusterSelector st) = ca_clusterTopology st"
      "ca_cpuTopology st = map (node_cpus kk one) [0..<n]"
  shows "\<exists>st'. InitSystemClusters env st = (True, st') \<and>
    placement_inv (int kk) (cores_per_cluster (IsSmtEnable (fs_env env)) one) st' \<and>
    (\<forall>nid. 0 \<le> nid \<and> nid < int n \<longrightarrow> length (freeInfoVec (the_numa (numaClusterInfo st') nid)) = kk)"
proof -
  obtain st' where st': "InitSystemClusters env st = (True, st')"
      "placement_inv (int kk) (cores_per_cluster (IsSmtEnable (fs_env env)) one) st'"
      "\<forall>a. the_numa (numaClusterInfo st') a = (if 0 \<le> a \<and> a < int n then fresh_numa kk a else blank_numa)"
    using init_placement [OF assms, of env] by blast
  then show ?thesis by (intro exI [of _ st']) (simp add: fresh_numa_def)
qed

end
