(* ===== verification/Cluster_Faults.thy ===== *)
theory Cluster_Faults
  imports Cluster_Init
begin

text \<open>
  Core lists survive their textual form; and where the placement goes wrong: recovering a container
  leaves its cores both free and taken, a container that is not placed stops the plugin when it
  asks for more, and a fully loaded cluster gives its first core away again.
\<close>

subsection \<open>Recovering a container\<close>

lemma free_cores_effect:
  "the_cluster (foldl (free_core one) sys cs) c =
    (the_cluster sys c)\<lparr>freeCpuCores := freeCpuCores (the_cluster sys c) @ filter (\<lambda>x. cluster_of one x = c) cs\<rparr>"
proof (induction cs arbitrary: sys)
  case Nil
  then show ?case by (cases "the_cluster sys c") simp
next
  case (Cons x cs)
  then show ?case by (simp add: free_core_def Let_def)
qed

lemma keep_found_effect:
  "distinct ds \<Longrightarrow> the_cluster (foldl (keep_found one cs) sys ds) c =
    (let cl = the_cluster sys c in if c \<in> set ds then cl\<lparr>occupiedCpuCores :=
       filter (\<lambda>cpu. cpu \<in> set cs \<and> cluster_of one cpu = c) (occupiedCpuCores cl)\<rparr> else cl)"
proof (induction ds arbitrary: sys)
  case (Cons d ds)
  then show ?case by (auto simp: keep_found_def Let_def)
qed (simp add: Let_def)

lemma release_nodes_system:
  "systemClusterInfo (foldl (release_node bc) st ns) = systemClusterInfo st"
  "dockerInfos (foldl (release_node bc) st ns) = dockerInfos st"
  by (induction ns arbitrary: st) (simp_all add: release_node_def set_numa_def Let_def)

lemma return_borrowed_none:
  "(\<And>j. j \<in> set js \<Longrightarrow> map_of (borrowDockerMap (the_docker env st j)) i = None) \<Longrightarrow> return_borrowed env i js st = Some st"
  by (induction js) auto

text \<open>When a container that was placed is recovered (it is gone, or the plugin is disabled) and
  nobody has borrowed from it, each of its cores is put back into the free list of its cluster and
  nevertheless stays in the list of taken cores, while the taken cores of the other containers in
  these clusters are dropped: the test on the freed cores is inverted.
\<close>

lemma Recover_keeps_cores_taken:
  assumes "optimizeBinded (the_docker env st i)" "oneClusterCpuNum (ca_clusterTopology st) = one" "one \<noteq> 0"
    and "fst (execute_all env [update_cpus env i (initialCpuLimit (the_docker env st i)), update_cpuset i (initialCpuSet (the_docker env st i)),
      update_mems i (initialMemSet (the_docker env st i))] st)"
    and "\<And>j. j \<in> fst ` set (dockerInfos st) \<Longrightarrow> map_of (borrowDockerMap (the_docker env st j)) i = None"
  shows "\<exists>st'. RecoverInitialBindStatus env i st = Some (True, st') \<and>
    (\<forall>cpu \<in> set (currentCpuSet (the_docker env st i)). let c = cluster_of one cpu in
       cpu \<in> set (freeCpuCores (the_cluster (systemClusterInfo st') c)) \<and>
       set (occupiedCpuCores (the_cluster (systemClusterInfo st') c)) =
         set (occupiedCpuCores (the_cluster (systemClusterInfo st) c)) \<inter> {x \<in> set (currentCpuSet (the_docker env st i)). cluster_of one x = c})"
proof -
  let ?d = "the_docker env st i"
  let ?cs = "currentCpuSet ?d" and ?ds = "remdups (map (cluster_of one) (currentCpuSet ?d))"
  obtain l where e: "execute_all env [update_cpus env i (initialCpuLimit ?d), update_cpuset i (initialCpuSet ?d), update_mems i (initialMemSet ?d)] st =
      (True, st\<lparr>cmds := l\<rparr>)"
    using execute_all_cmds [of env "[update_cpus env i (initialCpuLimit ?d), update_cpuset i (initialCpuSet ?d), update_mems i (initialMemSet ?d)]" st] assms(4)
    by (auto simp del: execute_all.simps)
  define st2 where "st2 = foldl (release_node (bindClusters ?d)) (st\<lparr>cmds := l\<rparr>) (currentMemSet ?d)"
  define sys where "sys = foldl (keep_found one ?cs) (foldl (free_core one) (systemClusterInfo st) ?cs) ?ds"
  have s2: "systemClusterInfo st2 = systemClusterInfo st" "dockerInfos st2 = dockerInfos st"
    by (simp_all add: st2_def release_nodes_system)
  have "RecoverInitialBindStatus env i st = map_option (Pair True) (return_borrowed env i (map fst (dockerInfos st2)) (st2\<lparr>systemClusterInfo := sys\<rparr>))"
    using assms(1-3) unfolding RecoverInitialBindStatus_def Let_def e
    by (simp add: st2_def [symmetric] s2(1) sys_def)
  also have "return_borrowed env i (map fst (dockerInfos st2)) (st2\<lparr>systemClusterInfo := sys\<rparr>) = Some (st2\<lparr>systemClusterInfo := sys\<rparr>)"
    using assms(5) s2(2) by (intro return_borrowed_none) simp
  finally have "RecoverInitialBindStatus env i st = Some (True, st2\<lparr>systemClusterInfo := sys\<rparr>)" by simp
  moreover have "the_cluster sys c = (let cl = the_cluster (systemClusterInfo st) c in if c \<in> set ?ds
      then cl\<lparr>freeCpuCores := freeCpuCores cl @ filter (\<lambda>x. cluster_of one x = c) ?cs,
        occupiedCpuCores := filter (\<lambda>cpu. cpu \<in> set ?cs \<and> cluster_of one cpu = c) (occupiedCpuCores cl)\<rparr>
      else cl\<lparr>freeCpuCores := freeCpuCores cl @ filter (\<lambda>x. cluster_of one x = c) ?cs\<rparr>)" for c
    unfolding sys_def by (simp add: keep_found_effect free_cores_effect Let_def)
  ultimately show ?thesis by (auto simp: Let_def)
qed

subsection \<open>Borrowing\<close>

lemma Add_unplaced: "bindClusters (the_docker env st i) = [] \<Longrightarrow> DockerAddCpuLimitComm env i limit st = None"
  by (simp add: DockerAddCpuLimitComm_def vec_back_def Let_def split: option.split)

lemma announce_limit_other:
  assumes "announce_limit env i d st = (good, st')" "j \<noteq> i"
  shows "the_docker env st' j = the_docker env st j"
proof -
  obtain good' l where "announce_limit env i d st = (good', (set_docker i d st)\<lparr>cmds := l\<rparr>)"
    using execute_all_cmds unfolding announce_limit_def by blast
  then show ?thesis using assms by (auto simp: set_docker_def)
qed

lemma Add_other:
  "DockerAddCpuLimitComm env i limit st = Some (good, st') \<Longrightarrow> j \<noteq> i \<Longrightarrow> the_docker env st' j = the_docker env st j"
  by (auto simp: DockerAddCpuLimitComm_def Let_def bind_eq_Some_conv set_numa_def split: if_splits prod.splits
      dest!: announce_limit_other)

lemma borrow_map_other:
  "j \<noteq> i \<Longrightarrow> the_docker env (foldl (\<lambda>s x. set_docker i ((the_docker env s i)\<lparr>borrowDockerMap := f s x\<rparr>) s) st xs) j =
   the_docker env st j"
  by (induction xs arbitrary: st) (simp_all add: set_docker_def)

lemma borrow_loop_unplaced:
  "u \<in> set is \<Longrightarrow> bindClusters (the_docker env st u) = [] \<Longrightarrow> borrow_loop env lenders share n is st = None"
proof (induction "is" arbitrary: st)
  case (Cons i "is")
  show ?case
  proof (cases "DockerAddCpuLimitComm env i share st")
    case None
    then show ?thesis by simp
  next
    case (Some r)
    then have "i \<noteq> u" using Add_unplaced Cons.prems(2) by fastforce
    then show ?thesis
      using Some Cons by (cases r) (simp add: borrow_map_other Add_other Let_def)
  qed
qed simp

text \<open>Containers without a limit are never placed, but they always count as busy. As soon as some
  container has cores to lend and one that is not placed asks for them, the clusters of the latter
  are read at the back of an empty vector: the plugin crashes.
\<close>

lemma TryBorrow_crashes_on_unplaced:
  assumes "foldl (lend_step env) ([], fp_lit (fp_env env) 0 1, st) (map fst (dockerInfos st)) = (lenders, offered, st1)"
    and "\<not> fp_lt (fp_env env) offered (fp_lit (fp_env env) 1 100)"
    and "u \<in> fst ` set (dockerInfos st)" "u \<notin> set lenders" "needs_borrow (fp_env env) (the_docker env st1 u)"
    and "bindClusters (the_docker env st1 u) = []"
  shows "TryBorrowCpuFromIdleDocker env st = None"
proof -
  let ?needy = "filter (\<lambda>i. i \<notin> set lenders \<and> needs_borrow (fp_env env) (the_docker env st1 i)) (map fst (dockerInfos st))"
  have u: "u \<in> set ?needy" using assms(3-5) by simp
  then have "?needy \<noteq> []" by (metis empty_iff list.set(1))
  then show ?thesis
    using assms(1,2) borrow_loop_unplaced [OF u assms(6)] by (simp add: TryBorrowCpuFromIdleDocker_def Let_def)
qed

text \<open>C27. A list of core numbers, written as ranges for docker, is read back unchanged; the empty list
  and lists that are not sorted included.
\<close>

theorem cpuset_roundtrip:
  assumes "\<forall>n \<in> set nums. 0 \<le> n \<and> n < 2 ^ 31 - 1"
  shows "TransformStrToVec (ConvertCpusetToString nums) = Some nums"
proof (cases nums)
  case Nil
  then show ?thesis by (simp add: ConvertCpusetToString_def TransformStrToVec_def)
next
  case (Cons n ns)
  obtain rs where rs: "cpuset_loop n n ns = cpulist rs" "ranges_ok rs" "cpus_of rs = [n..n] @ ns"
    using cpuset_loop_ranges [of n n ns] assms Cons by auto
  have "TransformStrToVec (ConvertCpusetToString nums) = Some (cpus_of rs)"
    using rs(1,2) parse_range_tokens_render [of rs] Cons
    by (simp add: ConvertCpusetToString_def TransformStrToVec_def cpulist_def range_render_getlines cpus_of_def ranges_ok_def)
  then show ?thesis using rs(3) Cons by simp
qed

theorem cpuset_roundtrip_witness:
  "TransformStrToVec (ConvertCpusetToString [4, 5, 6, 0, 9]) = Some [4, 5, 6, 0, 9]"
  using cpuset_roundtrip [of "[4, 5, 6, 0, 9]"] by simp

end
