(* ===== verification/Cluster_Examples.thy ===== *)
theory Cluster_Examples
  imports Cluster_Faults
begin

text \<open>
  A machine with one node of two clusters of two cores, and the theorems on the placement at work
  on it, with exact arithmetic.
\<close>

definition demo_topology :: Topology where
  "demo_topology = \<lparr>numaNodeNum = 1, clusterNum = 2, oneClusterCpuNum = 2, cpuTopology = [[0, 1, 2, 3]],
     isHyperThreading = False, isSystemOfflineCpu = False\<rparr>"

definition demo_selector :: "rat ClusterSelector" where
  "demo_selector = \<lparr>clusterTopology = demo_topology, l3cNameList = [], clusterToL3c = [], scclL3c = [], scclL3cSum = [],
     cpuLoadMap = [], prevCpuStatsMap = []\<rparr>"

definition demo_env :: "(rat, unit) affinity_env" where
  "demo_env = \<lparr>fp_env = rat_ops, fs_env = (\<lambda>_. None), dev_dir = None, popen = (\<lambda>_. True), file_exist = (\<lambda>_. False),
     yaml_env = \<lparr>y_LoadFile = (\<lambda>_. None), y_IsMap = (\<lambda>_. None), y_IsNull = (\<lambda>_. None), y_IsDefined = (\<lambda>_. None),
       y_IsSequence = (\<lambda>_. None), y_size = (\<lambda>_. None), y_index = (\<lambda>_ _. None), y_key = (\<lambda>_ _. None),
       y_string = (\<lambda>_. None), y_int = (\<lambda>_. None)\<rparr>, yaml_what = []\<rparr>"

definition demo_docker :: "rat \<Rightarrow> rat DockerResourceInfo" where
  "demo_docker limit = (blank_docker rat_ops)\<lparr>inited := True, initialCpuLimit := limit, currentCpuLimit := limit,
     initialCpuSet := [0, 1, 2, 3], currentCpuSet := [0, 1, 2, 3], initialMemSet := [0], currentMemSet := [0]\<rparr>"

definition demo_state :: "rat affinity" where
  "demo_state = (affinity_new demo_selector demo_topology)\<lparr>dockerInfos := [(''a'', demo_docker 2), (''b'', demo_docker 1)]\<rparr>"

lemma demo_smt [simp]: "IsSmtEnable (fs_env demo_env) = False" "fp_env demo_env = rat_ops"
  by (simp_all add: demo_env_def IsSmtEnable_def)

lemma demo_cpus: "map (node_cpus 2 2) [0..<1] = [[0, 1, 2, 3]]"
  by (simp add: node_cpus_def consecutive_def upt_rec numeral_eq_Suc)

lemma demo_initialized:
  obtains st where "InitSystemClusters demo_env demo_state = (True, st)" "placement_inv 2 2 st"
    "\<forall>a. the_numa (numaClusterInfo st) a = (if a = 0 then fresh_numa 2 0 else blank_numa)"
    "ca_clusterTopology st = demo_topology" "ca_cpuTopology st = [[0, 1, 2, 3]]" "clusterSelector st = demo_selector"
    "dockerInfos st = [(''a'', demo_docker 2), (''b'', demo_docker 1)]"
proof -
  have "\<exists>st. InitSystemClusters demo_env demo_state = (True, st) \<and>
    placement_inv (int 2) (cores_per_cluster (IsSmtEnable (fs_env demo_env)) 2) st \<and>
    (\<forall>a. the_numa (numaClusterInfo st) a = (if 0 \<le> a \<and> a < int 1 then fresh_numa 2 a else blank_numa)) \<and>
    ca_clusterTopology st = ca_clusterTopology demo_state \<and> ca_cpuTopology st = ca_cpuTopology demo_state \<and>
    clusterSelector st = clusterSelector demo_state \<and> dockerInfos st = dockerInfos demo_state"
    using demo_cpus by (intro init_placement) (simp_all add: demo_state_def affinity_new_def demo_topology_def demo_selector_def)
  then obtain st where st: "InitSystemClusters demo_env demo_state = (True, st)"
    "placement_inv (int 2) (cores_per_cluster (IsSmtEnable (fs_env demo_env)) 2) st"
    "\<forall>a. the_numa (numaClusterInfo st) a = (if 0 \<le> a \<and> a < int 1 then fresh_numa 2 a else blank_numa)"
    "ca_clusterTopology st = ca_clusterTopology demo_state" "ca_cpuTopology st = ca_cpuTopology demo_state"
    "clusterSelector st = clusterSelector demo_state" "dockerInfos st = dockerInfos demo_state" by blast
  show thesis
  proof (rule that [OF st(1)])
    show "\<forall>a. the_numa (numaClusterInfo st) a = (if a = 0 then fresh_numa 2 0 else blank_numa)"
      using st(3) by auto
  qed (use st in \<open>auto simp: cores_per_cluster_def demo_state_def affinity_new_def demo_topology_def\<close>)
qed

lemma demo_cool: "clusterSelector st = demo_selector \<Longrightarrow> node_cool rat_ops k st nid"
  by (simp add: node_cool_def l3c_sum_def load_of_def demo_selector_def al_get_def rat_ops_def)

lemma demo_nodes: "ca_clusterTopology st = demo_topology \<Longrightarrow> numaNodeNum (ca_clusterTopology st) = 1"
  by (simp add: demo_topology_def)

theorem InitSystemClusters_establishes_witness:
  "\<exists>st. InitSystemClusters demo_env demo_state = (True, st) \<and> placement_inv 2 2 st \<and>
    length (freeInfoVec (the_numa (numaClusterInfo st) 0)) = 2"
proof -
  have "\<exists>st. InitSystemClusters demo_env demo_state = (True, st) \<and>
    placement_inv (int 2) (cores_per_cluster (IsSmtEnable (fs_env demo_env)) 2) st \<and>
    (\<forall>nid. 0 \<le> nid \<and> nid < int 1 \<longrightarrow> length (freeInfoVec (the_numa (numaClusterInfo st) nid)) = 2)"
    using demo_cpus by (intro InitSystemClusters_establishes) (simp_all add: demo_state_def affinity_new_def demo_topology_def demo_selector_def)
  then show ?thesis by (auto simp: cores_per_cluster_def)
qed

theorem DockerBindClusters_places_witness:
  "\<exists>st good st' cs. InitSystemClusters demo_env demo_state = (True, st) \<and> DockerBindClusters demo_env ''a'' 0 1 st = Some (good, st') \<and>
    placement_inv 2 2 st' \<and> length cs = 2 \<and> distinct cs \<and> (good \<longrightarrow> currentCpuSet (the_docker demo_env st' ''a'') = cs)"
proof -
  obtain st where st: "InitSystemClusters demo_env demo_state = (True, st)" "placement_inv 2 2 st"
    "\<forall>a. the_numa (numaClusterInfo st) a = (if a = 0 then fresh_numa 2 0 else blank_numa)"
    "ca_clusterTopology st = demo_topology" "ca_cpuTopology st = [[0, 1, 2, 3]]" "clusterSelector st = demo_selector"
    "dockerInfos st = [(''a'', demo_docker 2), (''b'', demo_docker 1)]"
    by (rule demo_initialized)
  have need: "to_size (fp_env demo_env) (fp_ceil (fp_env demo_env) (initialCpuLimit (the_docker demo_env st ''a''))) = Some 2"
    by (simp add: st(7) demo_docker_def al_get_def to_size_def rat_ops_def)
  have len: "length (freeInfoVec (the_numa (numaClusterInfo st) 0)) = 2" by (simp add: st(3) fresh_numa_def)
  show ?thesis
    using DockerBindClusters_places [where kk = 1 and env = demo_env and i = "''a''" and nid = 0, OF st(2) _ _ _ _ _ need]
      demo_cool [OF st(6)] demo_nodes [OF st(4)] len st(1) by fastforce
qed

theorem DockerOptimizeBindSchedule_exclusive_witness:
  "\<exists>st st'. InitSystemClusters demo_env demo_state = (True, st) \<and> DockerOptimizeBindSchedule demo_env st = Some st' \<and>
    placement_inv 2 2 st' \<and> exclusive demo_env st'"
proof -
  obtain st where st: "InitSystemClusters demo_env demo_state = (True, st)" "placement_inv 2 2 st"
    "\<forall>a. the_numa (numaClusterInfo st) a = (if a = 0 then fresh_numa 2 0 else blank_numa)"
    "ca_clusterTopology st = demo_topology" "ca_cpuTopology st = [[0, 1, 2, 3]]" "clusterSelector st = demo_selector"
    "dockerInfos st = [(''a'', demo_docker 2), (''b'', demo_docker 1)]"
    by (rule demo_initialized)
  have ex: "exclusive demo_env st" by (simp add: exclusive_def st(7) al_get_def demo_docker_def blank_docker_def)
  have "initialCpuLimit (demo_docker 2) = fp_of_int rat_ops 2" "initialCpuLimit (demo_docker 1) = fp_of_int rat_ops 1"
    by (simp_all add: demo_docker_def rat_ops_def)
  then have dk: "dockers_ok demo_env st"
    by (auto simp: dockers_ok_def st(7) al_get_def demo_docker_def intro: exI [of _ 2] exI [of _ 1])
  have "freeInfoVec blank_numa = []" by (simp add: blank_numa_def)
  then have mc: "machine_ok demo_env 2 2 st"
    using demo_cool [OF st(6)] by (auto simp: machine_ok_def Let_def st(3-5) demo_topology_def)
  have "schedule_inv demo_env 2 2 st" using st(2) ex dk mc by (simp add: schedule_inv_def)
  then show ?thesis
    using DockerOptimizeBindSchedule_exclusive [of demo_env 2 2 st] exact_rat.int_exact_axioms st(1) by auto
qed

text \<open>A container on the first cluster that is taken off again.\<close>

definition demo_bound :: "rat affinity" where
  "demo_bound = (affinity_new demo_selector demo_topology)\<lparr>
     dockerInfos := [(''a'', (demo_docker 2)\<lparr>optimizeBinded := True, currentCpuSet := [0, 1], bindClusters := [0]\<rparr>)],
     systemClusterInfo := [(0, \<lparr>clusterId = 0, logicalCpuCores = [], freeCpuCores = [], occupiedCpuCores = [0, 1]\<rparr>)],
     numaClusterInfo := [(0, \<lparr>numaId = 0, freeInfoVec = [1], occupiedInfoVec = [0]\<rparr>)]\<rparr>"

lemma demo_text: "length (fp_str rat_ops 2) = 3"
  by (simp add: rat_ops_def to_string_def digits10.simps frac_def)

lemma Recover_keeps_cores_taken_witness:
  "\<exists>st'. RecoverInitialBindStatus demo_env ''a'' demo_bound = Some (True, st') \<and>
    0 \<in> set (freeCpuCores (the_cluster (systemClusterInfo st') 0)) \<and> 0 \<in> set (occupiedCpuCores (the_cluster (systemClusterInfo st') 0))"
proof -
  let ?d = "(demo_docker 2)\<lparr>optimizeBinded := True, currentCpuSet := [0, 1], bindClusters := [0]\<rparr>"
  have d: "the_docker demo_env demo_bound ''a'' = ?d" by (simp add: demo_bound_def al_get_def)
  have t: "length (ConvertCpusetToString [0, 1, 2, 3]) = 3" "length (ConvertCpusetToString [0]) = 1"
    by (simp_all add: ConvertCpusetToString_def range_text_def to_string_def digits10.simps)
  have l: "initialCpuLimit ?d = 2" "initialCpuSet ?d = [0, 1, 2, 3]" "initialMemSet ?d = [0]" "currentCpuSet ?d = [0, 1]"
    by (simp_all add: demo_docker_def)
  have h4: "fst (execute_all demo_env [update_cpus demo_env ''a'' (initialCpuLimit (the_docker demo_env demo_bound ''a'')),
      update_cpuset ''a'' (initialCpuSet (the_docker demo_env demo_bound ''a'')),
      update_mems ''a'' (initialMemSet (the_docker demo_env demo_bound ''a''))] demo_bound)"
    unfolding d l
    by (simp add: ExecuteCMD_def update_cpus_def update_cpuset_def update_mems_def t demo_text CMD_RESULT_BUF_SIZE_def) (simp add: demo_env_def)
  have h1: "optimizeBinded (the_docker demo_env demo_bound ''a'')" unfolding d by simp
  have h2: "oneClusterCpuNum (ca_clusterTopology demo_bound) = 2" by (simp add: demo_bound_def affinity_new_def demo_topology_def)
  have h5: "map_of (borrowDockerMap (the_docker demo_env demo_bound j)) ''a'' = None" if "j \<in> fst ` set (dockerInfos demo_bound)" for j
    using that by (simp add: demo_bound_def al_get_def demo_docker_def blank_docker_def)
  note Recover_keeps_cores_taken [OF h1 h2 _ h4 h5]
  then obtain st' where "RecoverInitialBindStatus demo_env ''a'' demo_bound = Some (True, st')"
      "\<forall>cpu \<in> set [0, 1]. let c = cluster_of 2 cpu in cpu \<in> set (freeCpuCores (the_cluster (systemClusterInfo st') c)) \<and>
       set (occupiedCpuCores (the_cluster (systemClusterInfo st') c)) =
         set (occupiedCpuCores (the_cluster (systemClusterInfo demo_bound) c)) \<inter> {x \<in> set [0, 1]. cluster_of 2 x = c}"
    unfolding d l(4) by auto
  then show ?thesis by (auto simp: cluster_of_def Let_def demo_bound_def al_get_def)
qed

text \<open>An idle container with a limit of four cores and one without a limit.\<close>

definition demo_idle :: "rat affinity" where
  "demo_idle = (affinity_new demo_selector demo_topology)\<lparr>
     dockerInfos := [(''a'', (demo_docker 4)\<lparr>cpuUsageQueue := replicate 30 0\<rparr>),
       (''u'', (demo_docker 0)\<lparr>cpuUsageQueue := [5], cpuUsageSum := 5\<rparr>)]\<rparr>"

lemma TryBorrow_crashes_on_unplaced_witness:
  "TryBorrowCpuFromIdleDocker demo_env demo_idle = None"
proof -
  let ?a = "(demo_docker 4)\<lparr>cpuUsageQueue := replicate 30 0, lendCpuLimit := 2\<rparr>"
  let ?st = "set_docker ''a'' ?a demo_idle"
  have f: "foldl (lend_step demo_env) ([], fp_lit (fp_env demo_env) 0 1, demo_idle) (map fst (dockerInfos demo_idle)) = ([''a''], 2, ?st)"
    by (simp add: demo_idle_def lend_step_def al_get_def set_docker_def demo_docker_def blank_docker_def rat_ops_def
        CPU_USAGE_QUEUE_LENGTH_def Let_def)
  have u: "the_docker demo_env ?st ''u'' = (demo_docker 0)\<lparr>cpuUsageQueue := [5], cpuUsageSum := 5\<rparr>"
    by (simp add: demo_idle_def al_get_def set_docker_def)
  have nb: "needs_borrow (fp_env demo_env) (the_docker demo_env ?st ''u'')" "bindClusters (the_docker demo_env ?st ''u'') = []"
    unfolding u by (simp_all add: needs_borrow_def mean_usage_def rat_ops_def demo_docker_def blank_docker_def)
  have o: "\<not> fp_lt (fp_env demo_env) 2 (fp_lit (fp_env demo_env) 1 100)" "''u'' \<in> fst ` set (dockerInfos demo_idle)"
    by (simp_all add: rat_ops_def demo_idle_def)
  show ?thesis by (rule TryBorrow_crashes_on_unplaced [OF f o _ nb]) simp
qed

end
