(* ===== verification/Control_Files.thy ===== *)
theory Control_Files
  imports Cluster_Affinity
begin

text \<open>
  The control files of the kernel the container plugins write, in sysfs, procfs and the control
  groups, and the functions of \<^verbatim>\<open>src/common/utils.cpp\<close> that list the containers.

  The files are a store from paths to contents, \<open>files\<close>. What the kernel decides is an argument:
  which files can be opened for writing and which texts a file accepts. A file that is not there
  is not created, a text that is not accepted leaves the file as it was.

  The plugins save a setting before they change it and write it back later. \<open>saved_setting\<close> is the
  contract of such a setting: reading what was written, and nothing else changes. That writing
  back a list of saved values restores them is proved once, from the contract.
\<close>

subsection \<open>Writing a control file\<close>

record kernel_env =
  k_opens :: "string \<Rightarrow> bool"
  k_accepts :: "string \<Rightarrow> string \<Rightarrow> bool"

datatype write_result = NotOpen | NotFlushed | Written

definition write_file :: "kernel_env \<Rightarrow> string \<Rightarrow> string \<Rightarrow> files \<Rightarrow> write_result \<times> files" where
  "write_file k path content fs =
     (if fs path = None \<or> \<not> k_opens k path then (NotOpen, fs)
      else if k_accepts k path content then (Written, fs(path \<mapsto> content))
      else (NotFlushed, fs))"

lemma write_file_other [simp]: "q \<noteq> path \<Longrightarrow> snd (write_file k path content fs) q = fs q"
  by (simp add: write_file_def)

lemma write_file_exists [simp]: "snd (write_file k path content fs) q = None \<longleftrightarrow> fs q = None"
  by (auto simp: write_file_def)

lemma write_file_Written:
  "fst (write_file k path content fs) = Written \<longleftrightarrow> fs path \<noteq> None \<and> k_opens k path \<and> k_accepts k path content"
  by (simp add: write_file_def)

lemma write_file_good: "fst (write_file k path content fs) = Written \<Longrightarrow> snd (write_file k path content fs) = fs(path \<mapsto> content)"
  by (simp add: write_file_def split: if_splits)

lemma write_file_bad: "fst (write_file k path content fs) \<noteq> Written \<Longrightarrow> snd (write_file k path content fs) = fs"
  by (auto simp: write_file_def split: if_splits)

lemma write_file_locked: "fs path = None \<or> \<not> k_opens k path \<Longrightarrow> snd (write_file k path content fs) = fs"
  by (auto simp: write_file_def)

subsection \<open>Numbers in files\<close>

lemma to_string_head:
  obtains c cs where "to_string v = c # cs" "\<not> isspace c"
proof (cases "v < 0")
  case True
  then show ?thesis by (intro that [of "CHR ''-''"]) (simp_all add: to_string_def isspace_def)
next
  case False
  obtain c cs where "digits10 (nat v) = c # cs" "isdigit c" by (rule digits10_head)
  with False show ?thesis using isdigit_not_special [of c] by (intro that [of c cs]) (simp_all add: to_string_def)
qed

lemma dropWhile_to_string [simp]: "dropWhile isspace (to_string v @ s) = to_string v @ s"
  by (rule to_string_head [of v]) simp

lemma to_string_not_Nil [simp]: "to_string v \<noteq> []"
  by (simp add: to_string_def)

text \<open>A number is read up to the first character that is not a digit.\<close>

lemma takeWhile_digits10_then: "\<not> isdigit c \<Longrightarrow> takeWhile isdigit (digits10 n @ c # s) = digits10 n"
  by (subst takeWhile_append2) (auto dest: digits10_isdigit)

lemma strtol10_to_string_then:
  assumes "\<not> isdigit c"
  shows "strtol10 (to_string v @ c # s) = Some v"
proof (cases "v < 0")
  case True
  then have "skip_sign (to_string v @ c # s) = (True, digits10 (nat (- v)) @ c # s)"
    by (simp add: to_string_def skip_sign_def)
  with True assms show ?thesis by (simp add: strtol10_def takeWhile_digits10_then)
next
  case False
  obtain d ds where d: "digits10 (nat v) = d # ds" "isdigit d" by (rule digits10_head)
  with False have "skip_sign (to_string v @ c # s) = (False, digits10 (nat v) @ c # s)"
    using isdigit_not_special [of d] by (simp add: to_string_def skip_sign_def)
  with False assms show ?thesis by (simp add: strtol10_def takeWhile_digits10_then)
qed

lemma read_int_to_string:
  assumes "- (2 ^ 31) \<le> v" "v < 2 ^ 31"
  shows "read_int (to_string v) old = v"
  using assms dropWhile_to_string [of v "[]"] by (simp add: read_int_def min_def max_def)

lemma read_int_range: "- (2 ^ 31) \<le> old \<Longrightarrow> old < 2 ^ 31 \<Longrightarrow> - (2 ^ 31) \<le> read_int content old \<and> read_int content old < 2 ^ 31"
  by (auto simp: read_int_def Let_def split: option.splits)

text \<open>Conversions of larger integers to \<open>int\<close> and to \<open>int64_t\<close>.\<close>

definition to_int32 :: "int \<Rightarrow> int" where
  "to_int32 v = (v + 2 ^ 31) mod 2 ^ 32 - 2 ^ 31"

definition to_int64 :: "int \<Rightarrow> int" where
  "to_int64 v = (v + 2 ^ 63) mod 2 ^ 64 - 2 ^ 63"

subsection \<open>The containers of docker\<close>

text \<open>\<open>fgets\<close> into a buffer of \<open>n\<close> bytes: a line with its newline, or the first \<open>n - 1\<close> bytes of it.\<close>

definition NL :: char where
  "NL = CHR 0x0A"

definition fgets_len :: "nat \<Rightarrow> string \<Rightarrow> nat" where
  "fgets_len n s = max 1 (min (n - 1) (length (takeWhile (\<lambda>c. c \<noteq> NL) s) + 1))"

function fgets_all :: "nat \<Rightarrow> string \<Rightarrow> string list" where
  "fgets_all n s = (if s = [] then [] else take (fgets_len n s) s # fgets_all n (drop (fgets_len n s) s))"
  by pat_completeness auto
termination
  by (relation "measure (length \<circ> snd)") (auto simp: fgets_len_def)

declare fgets_all.simps [simp del]

definition EXEC_COMMAND_BUFLEN :: nat where
  "EXEC_COMMAND_BUFLEN = 512"

text \<open>The argument is what \<open>docker ps -aq --no-trunc\<close> prints, \<open>None\<close> when it cannot be started.\<close>

definition strip_newline :: "string \<Rightarrow> string" where
  "strip_newline s = (if s \<noteq> [] \<and> last s = NL then butlast s else s)"

definition GetAllDockerIDs :: "string option \<Rightarrow> string list" where
  "GetAllDockerIDs output =
     (case output of None \<Rightarrow> [] | Some s \<Rightarrow> map (strip_newline \<circ> cstr) (fgets_all EXEC_COMMAND_BUFLEN s))"

lemma GetAllDockerIDs_lines:
  assumes "\<forall>i \<in> set ids. NL \<notin> set i \<and> NUL \<notin> set i \<and> length i < 511"
  shows "GetAllDockerIDs (Some (concat (map (\<lambda>i. i @ [NL]) ids))) = ids"
  using assms
proof (induction ids)
  case Nil
  then show ?case by (simp add: GetAllDockerIDs_def fgets_all.simps)
next
  case (Cons i ids)
  let ?rest = "concat (map (\<lambda>i. i @ [NL]) ids)"
  have "takeWhile (\<lambda>c. c \<noteq> NL) (i @ NL # ?rest) = i"
    using Cons.prems by (subst takeWhile_append2) auto
  then have l: "fgets_len EXEC_COMMAND_BUFLEN (i @ NL # ?rest) = length i + 1"
    using Cons.prems by (simp add: fgets_len_def EXEC_COMMAND_BUFLEN_def)
  have "cstr (i @ [NL]) = i @ [NL]"
    using Cons.prems by (intro cstr_id) (auto simp: NL_def NUL_def)
  then have "strip_newline (cstr (i @ [NL])) = i"
    by (simp add: strip_newline_def)
  with Cons l show ?case
    by (simp add: GetAllDockerIDs_def fgets_all.simps [of _ "i @ NL # _"])
qed

subsection \<open>Settings that are saved and written back\<close>

locale saved_setting =
  fixes node :: "'i \<Rightarrow> string"
    and get :: "files \<Rightarrow> 'i \<Rightarrow> 'v"
    and put :: "'v \<Rightarrow> 'i \<Rightarrow> files \<Rightarrow> files"
    and writable :: "'i \<Rightarrow> files \<Rightarrow> bool"
    and good :: "'v \<Rightarrow> 'i \<Rightarrow> bool"
  assumes node_inj: "node p = node p' \<Longrightarrow> p = p'"
    and put_other: "q \<noteq> node p \<Longrightarrow> put v p fs q = fs q"
    and put_exists: "put v p fs q = None \<longleftrightarrow> fs q = None"
    and put_locked: "\<not> writable p fs \<Longrightarrow> put v p fs = fs"
    and get_local: "fs (node p) = fs' (node p) \<Longrightarrow> get fs p = get fs' p"
    and get_put: "writable p fs \<Longrightarrow> good v p \<Longrightarrow> get (put v p fs) p = v"
    and writable_exists: "(\<And>q. fs q = None \<longleftrightarrow> fs' q = None) \<Longrightarrow> writable p fs \<longleftrightarrow> writable p fs'"
begin

primrec put_all :: "('i \<times> 'v) list \<Rightarrow> files \<Rightarrow> files" where
  "put_all [] fs = fs"
| "put_all (pv # pvs) fs = put_all pvs (put (snd pv) (fst pv) fs)"

lemma put_all_fold: "put_all pvs = fold (\<lambda>pv. put (snd pv) (fst pv)) pvs"
  by (induction pvs) (auto simp: fun_eq_iff)

lemma put_all_other: "q \<notin> node ` fst ` set pvs \<Longrightarrow> put_all pvs fs q = fs q"
  by (induction pvs arbitrary: fs) (auto simp: put_other)

lemma put_all_exists: "put_all pvs fs q = None \<longleftrightarrow> fs q = None"
  by (induction pvs arbitrary: fs) (simp_all add: put_exists)

lemma get_put_other: "p \<noteq> q \<Longrightarrow> get (put v q fs) p = get fs p"
  by (intro get_local put_other) (auto dest: node_inj)

text \<open>A setting that is not written keeps its value; one that is written has the value written to it.\<close>

lemma get_put_all_skip: "p \<notin> fst ` set pvs \<Longrightarrow> get (put_all pvs fs) p = get fs p"
  by (intro get_local put_all_other) (auto dest!: node_inj)

lemma get_put_all:
  assumes "(p, v) \<in> set pvs" "\<forall>w. (p, w) \<in> set pvs \<longrightarrow> w = v" "writable p fs \<and> good v p \<or> \<not> writable p fs \<and> get fs p = v"
  shows "get (put_all pvs fs) p = v"
  using assms
proof (induction pvs arbitrary: fs)
  case Nil
  then show ?case by simp
next
  case (Cons qw pvs)
  obtain q w where qw: "qw = (q, w)" by fastforce
  have wr: "writable p (put w q fs) \<longleftrightarrow> writable p fs"
    by (rule writable_exists) (simp add: put_exists)
  have now: "get (put v p fs) p = v"
    using Cons.prems(3) by (auto simp: get_put put_locked)
  show ?case
  proof (cases "(p, v) \<in> set pvs")
    case True
    have "get (put w q fs) p = get fs p" if "\<not> writable p fs"
      using that by (cases "q = p") (simp_all add: put_locked get_put_other)
    then have "get (put_all pvs (put w q fs)) p = v"
      using Cons.prems(2,3) wr by (intro Cons.IH [OF True]) (auto simp: qw)
    then show ?thesis by (simp add: qw)
  next
    case False
    with Cons.prems qw have "q = p" "w = v" "p \<notin> fst ` set pvs" by auto
    with qw now show ?thesis by (simp add: get_put_all_skip)
  qed
qed

text \<open>Writing back what was read from \<open>fs0\<close> restores every setting of the list.\<close>

lemma restore_all:
  assumes "\<forall>p \<in> set ps. if writable p fs then good (get fs0 p) p else get fs p = get fs0 p"
    and "\<forall>p. p \<notin> set ps \<longrightarrow> get fs p = get fs0 p"
  shows "get (put_all (map (\<lambda>p. (p, get fs0 p)) ps) fs) p = get fs0 p"
proof (cases "p \<in> set ps")
  case True
  with assms(1) show ?thesis by (intro get_put_all) (auto split: if_splits)
next
  case False
  with assms(2) show ?thesis
    by (subst get_put_all_skip) (auto simp: image_image)
qed

end

end
