(* ===== verification/Coordination_Burst.thy ===== *)
theory Coordination_Burst
  imports Control_Files
begin

text \<open>
  The plugin that lets containers exceed their quota together,
  \<^verbatim>\<open>src/plugin/tune/docker/coordination_burst\<close>: the parsing of its parameters and of its
  configuration file, and the change of the kernel's ratio and of the soft quota of each container,
  undone when one of the changes fails and when the plugin is disabled.

  The state of the plugin is the record \<open>burst\<close>, the control files are its last component. The YAML
  library is a parameter, \<open>None\<close> where it throws; \<open>e.what()\<close> is the text \<open>be_what\<close>.
\<close>

subsection \<open>State and environment\<close>

record 'n yaml_flow = "'n yaml_api" +
  y_Load :: "string \<Rightarrow> 'n option"
  y_keys :: "'n \<Rightarrow> 'n list option"
  y_items :: "'n \<Rightarrow> 'n list option"

record 'n burst_env =
  be_kernel :: kernel_env
  be_docker_ps :: "string option"
  be_tree :: dir_tree
  be_mounts :: "string list"
  be_is_open :: "string \<Rightarrow> bool"
  be_yaml :: "'n yaml_flow"
  be_what :: string

record burst =
  ratio :: int
  originRatio :: int
  isDockerListSet :: bool
  isRatioSet :: bool
  cb_containers :: "(string \<times> string) list"
  allContainers :: "(string \<times> string) list"
  allContainerOriginSoftQuota :: "(string \<times> int) list"
  cb_files :: files

definition DEFAULT_RATIO :: int where
  "DEFAULT_RATIO = 20"

definition MAX_RATIO :: int where
  "MAX_RATIO = 20"

definition MIN_RATIO :: int where
  "MIN_RATIO = 1"

definition SCHED_SOFT_RUNTIME_RATIO_PATH :: string where
  "SCHED_SOFT_RUNTIME_RATIO_PATH = ''/proc/sys/kernel/sched_soft_runtime_ratio''"

definition DOCKER_COORDINATION_BURST_CONFIG_PATH :: string where
  "DOCKER_COORDINATION_BURST_CONFIG_PATH = ''/etc/oeAware/plugin/docker_burst.yaml''"

definition burst_new :: "files \<Rightarrow> burst" where
  "burst_new fs = \<lparr>ratio = DEFAULT_RATIO, originRatio = MIN_RATIO - 1, isDockerListSet = False, isRatioSet = False,
     cb_containers = [], allContainers = [], allContainerOriginSoftQuota = [], cb_files = fs\<rparr>"

subsection \<open>Parameters\<close>

text \<open>An identifier is given in full or by its first twelve characters; anything else is ignored.\<close>

definition LONG_DOCKER_ID_LENGTH :: nat where
  "LONG_DOCKER_ID_LENGTH = 64"

definition SHORT_DOCKER_ID_LENGTH :: nat where
  "SHORT_DOCKER_ID_LENGTH = 12"

definition UpdateDockerInfo :: "string \<Rightarrow> burst \<Rightarrow> burst" where
  "UpdateDockerInfo i st =
     (if length i = LONG_DOCKER_ID_LENGTH then
        (case map_of (allContainers st) i of
           None \<Rightarrow> st
         | Some path \<Rightarrow> st\<lparr>cb_containers := AList.update i path (cb_containers st)\<rparr>)
      else if length i = SHORT_DOCKER_ID_LENGTH then
        (case find (\<lambda>it. take SHORT_DOCKER_ID_LENGTH (fst it) = i) (allContainers st) of
           None \<Rightarrow> st
         | Some it \<Rightarrow> st\<lparr>cb_containers := AList.update (fst it) (snd it) (cb_containers st)\<rparr>)
      else st)"

text \<open>\<open>std::regex_replace\<close> of each \<open>:\<close> and of each \<open>,\<close> with the blanks after it.\<close>

definition space_colons :: "string \<Rightarrow> string" where
  "space_colons raw = concat (map (\<lambda>c. if c = CHR '':'' then '': '' else [c]) raw)"

function space_commas :: "string \<Rightarrow> string" where
  "space_commas [] = []"
| "space_commas (c # cs) = (if c = CHR '','' then '', '' @ space_commas (dropWhile isspace cs) else c # space_commas cs)"
  by pat_completeness auto
termination
  by (relation "measure length") (auto simp: length_dropWhile_le le_imp_less_Suc)

definition FixYaml :: "string \<Rightarrow> string" where
  "FixYaml raw = space_commas (space_colons raw)"

definition HasSpecialChar :: "string \<Rightarrow> bool" where
  "HasSpecialChar str = list_ex (\<lambda>c. c \<notin> set ''abcdefjhijklmnopqrstuvwxyz0123456789:_[],. {}'') str"

text \<open>
  The functions that parse return a message, empty when all is well, or \<open>None\<close> for an exception,
  with the state reached until then. \<open>and_then\<close> goes on while there is no message.
\<close>

definition and_then :: "string option \<times> 's \<Rightarrow> ('s \<Rightarrow> string option \<times> 's) \<Rightarrow> string option \<times> 's" where
  "and_then r f = (if fst r = Some [] then f (snd r) else r)"

definition CheckYamlParam :: "'n yaml_flow \<Rightarrow> 'n \<Rightarrow> string option" where
  "CheckYamlParam y parsedConfig = do {
     isMap \<leftarrow> y_IsMap y parsedConfig;
     if \<not> isMap then Some ''CoordinationBurstAdapt ParseParam config format is invalid.''
     else do {
       keys \<leftarrow> y_keys y parsedConfig;
       names \<leftarrow> those (map (y_string y) keys);
       let invalidKeys = concat (map (\<lambda>k. k @ '' '') (filter (\<lambda>k. k \<noteq> ''ratio'' \<and> k \<noteq> ''docker_id'') names));
       if invalidKeys = [] then Some []
       else Some (''CoordinationBurstAdapt ParseParam '' @ invalidKeys @ ''is invalid.'' @
         '' Please use cli param '' @ [CHR 39] @ ''-docker_id [id1,id2] -ratio 20'' @ [CHR 39] @ '' or set'' @
         '' docker_id and ratio in '' @ DOCKER_COORDINATION_BURST_CONFIG_PATH)
     }
   }"

definition has_key :: "'n yaml_flow \<Rightarrow> 'n \<Rightarrow> string \<Rightarrow> bool option" where
  "has_key y node key = y_key y node key \<bind> y_IsDefined y"

definition ParseYamlRatio :: "'n yaml_flow \<Rightarrow> 'n \<Rightarrow> burst \<Rightarrow> string option \<times> burst" where
  "ParseYamlRatio y parsedConfig st =
     (case y_key y parsedConfig ''ratio'' \<bind> y_string y of
        None \<Rightarrow> (None, st)
      | Some ratioString \<Rightarrow>
          if \<not> IsInteger ratioString then (Some ''CoordinationBurstAdapt Param ratio should be integer.'', st)
          else (case y_key y parsedConfig ''ratio'' \<bind> y_int y of
                  None \<Rightarrow> (None, st)
                | Some v \<Rightarrow> (Some [], st\<lparr>ratio := v, isRatioSet := True\<rparr>)))"

definition when_key :: "'n yaml_flow \<Rightarrow> 'n \<Rightarrow> string \<Rightarrow> (burst \<Rightarrow> string option \<times> burst) \<Rightarrow> burst \<Rightarrow> string option \<times> burst" where
  "when_key y node key f st =
     (case has_key y node key of None \<Rightarrow> (None, st) | Some False \<Rightarrow> (Some [], st) | Some True \<Rightarrow> f st)"

fun update_each :: "'n yaml_flow \<Rightarrow> 'n list \<Rightarrow> burst \<Rightarrow> string option \<times> burst" where
  "update_each y [] st = (Some [], st)"
| "update_each y (n # ns) st =
     (case y_string y n of None \<Rightarrow> (None, st) | Some i \<Rightarrow> update_each y ns (UpdateDockerInfo i st))"

definition parse_docker_id :: "'n yaml_flow \<Rightarrow> 'n \<Rightarrow> burst \<Rightarrow> string option \<times> burst" where
  "parse_docker_id y parsedConfig st =
     and_then
       (case do {
            node \<leftarrow> y_key y parsedConfig ''docker_id'';
            isSeq \<leftarrow> y_IsSequence y node;
            if isSeq then y_items y node else Some [node]
          } of
          None \<Rightarrow> (None, st)
        | Some nodes \<Rightarrow> update_each y nodes st)
       (\<lambda>st. (Some [], st\<lparr>isDockerListSet := True\<rparr>))"

definition ParseParam :: "'n burst_env \<Rightarrow> string \<Rightarrow> burst \<Rightarrow> string \<times> burst" where
  "ParseParam env param st =
     (let y = be_yaml env; paramStr = FixYaml (''{'' @ param @ ''}'') in
      if HasSpecialChar paramStr then (''Input param has invalid character.'', st)
      else
        (case (case y_Load y paramStr of
                 None \<Rightarrow> (None, st)
               | Some parsedConfig \<Rightarrow>
                   and_then (CheckYamlParam y parsedConfig, st) (\<lambda>st.
                   and_then (when_key y parsedConfig ''ratio'' (ParseYamlRatio y parsedConfig) st)
                     (when_key y parsedConfig ''docker_id'' (parse_docker_id y parsedConfig)))) of
           (None, st1) \<Rightarrow> (''CoordinationBurstAdapt ParseParam format parse failed: '' @ be_what env, st1)
         | (Some retMsg, st1) \<Rightarrow> (retMsg, st1)))"

definition config_docker_id :: "'n yaml_flow \<Rightarrow> 'n \<Rightarrow> burst \<Rightarrow> string option \<times> burst" where
  "config_docker_id y config st =
     (case do {
          node \<leftarrow> y_key y config ''docker_id'';
          isSeq \<leftarrow> y_IsSequence y node;
          if isSeq then do { items \<leftarrow> y_items y node; dockerList \<leftarrow> those (map (y_string y) items); Some (Some dockerList) }
          else Some None
        } of
        None \<Rightarrow> (None, st)
      | Some None \<Rightarrow> (Some [], st)
      | Some (Some dockerList) \<Rightarrow>
          (Some [], (fold UpdateDockerInfo dockerList st)\<lparr>isDockerListSet := dockerList \<noteq> []\<rparr>))"

definition Burst_ReadConfig :: "'n burst_env \<Rightarrow> string \<Rightarrow> burst \<Rightarrow> string \<times> burst" where
  "Burst_ReadConfig env path st =
     (let y = be_yaml env in
      if \<not> be_is_open env path then (DOCKER_COORDINATION_BURST_CONFIG_PATH @ '' config open failed.'', st)
      else
        (case (case y_LoadFile y path of
                 None \<Rightarrow> (None, st)
               | Some config \<Rightarrow>
                   and_then (CheckYamlParam y config, st) (\<lambda>st.
                   and_then (if isRatioSet st then (Some [], st)
                             else when_key y config ''ratio'' (ParseYamlRatio y config) st) (\<lambda>st.
                     if isDockerListSet st then (Some [], st)
                     else when_key y config ''docker_id'' (config_docker_id y config) st))) of
           (None, st1) \<Rightarrow> (''CoordinationBurstAdapt read config from '' @ DOCKER_COORDINATION_BURST_CONFIG_PATH @
             '' YAML parse failed: '' @ be_what env, st1)
         | (Some retMsg, st1) \<Rightarrow> (retMsg, st1)))"

subsection \<open>The control files\<close>

definition CheckEnv :: "burst \<Rightarrow> bool" where
  "CheckEnv st = (cb_files st SCHED_SOFT_RUNTIME_RATIO_PATH \<noteq> None)"

text \<open>The stream is opened for writing too, though it is only read.\<close>

definition GetRatio :: "kernel_env \<Rightarrow> files \<Rightarrow> int" where
  "GetRatio k fs =
     (case fs SCHED_SOFT_RUNTIME_RATIO_PATH of
        None \<Rightarrow> MIN_RATIO - 1
      | Some content \<Rightarrow> if k_opens k SCHED_SOFT_RUNTIME_RATIO_PATH then read_int content (MIN_RATIO - 1) else MIN_RATIO - 1)"

definition SetRatio :: "kernel_env \<Rightarrow> int \<Rightarrow> files \<Rightarrow> string \<times> files" where
  "SetRatio k ratioValue fs =
     (if ratioValue < MIN_RATIO \<or> ratioValue > MAX_RATIO
      then (''ratio is invalid. The ratio must be in ['' @ to_string MIN_RATIO @ '', '' @ to_string MAX_RATIO @ ''].'', fs)
      else
        (case write_file k SCHED_SOFT_RUNTIME_RATIO_PATH (to_string ratioValue) fs of
           (NotOpen, fs1) \<Rightarrow> (''Failed to open file: '' @ SCHED_SOFT_RUNTIME_RATIO_PATH @ ''.'', fs1)
         | (NotFlushed, fs1) \<Rightarrow> (''Failed to flush '' @ to_string ratioValue @ '' to file: '' @ SCHED_SOFT_RUNTIME_RATIO_PATH @ ''.'', fs1)
         | (Written, fs1) \<Rightarrow> ([], fs1)))"

definition soft_quota_file :: "string \<Rightarrow> string" where
  "soft_quota_file cgroupPath = cgroupPath @ ''/cpu.soft_quota''"

definition GetSoftQuota :: "files \<Rightarrow> string \<Rightarrow> int" where
  "GetSoftQuota fs cgroupPath =
     (case fs (soft_quota_file cgroupPath) of None \<Rightarrow> -1 | Some content \<Rightarrow> read_int content (-1))"

definition SetSoftQuota :: "kernel_env \<Rightarrow> int \<Rightarrow> string \<Rightarrow> files \<Rightarrow> bool \<times> files" where
  "SetSoftQuota k softQuota cgroupPath fs =
     (case write_file k (soft_quota_file cgroupPath) (to_string softQuota) fs of (r, fs1) \<Rightarrow> (r = Written, fs1))"

text \<open>\<open>GetAllDockers\<close> saves the soft quota of every container whose control group is found.\<close>

definition add_docker :: "'n burst_env \<Rightarrow> string \<Rightarrow> burst \<Rightarrow> burst" where
  "add_docker env i st =
     (let path = FindDockerSubsystemCgroupPath (be_tree env) (be_mounts env) i ''cpu,cpuacct'' in
      if path \<noteq> [] then
        st\<lparr>allContainers := AList.update i path (allContainers st),
           allContainerOriginSoftQuota := AList.update i (GetSoftQuota (cb_files st) path) (allContainerOriginSoftQuota st)\<rparr>
      else st)"

definition GetAllDockers :: "'n burst_env \<Rightarrow> burst \<Rightarrow> burst" where
  "GetAllDockers env st =
     fold (add_docker env) (GetAllDockerIDs (be_docker_ps env)) (st\<lparr>allContainers := [], allContainerOriginSoftQuota := []\<rparr>)"

definition Burst_Init :: "'n burst_env \<Rightarrow> burst \<Rightarrow> bool \<times> burst" where
  "Burst_Init env st =
     (if \<not> CheckEnv st then (False, st)
      else (let st1 = GetAllDockers env st in
            (True, st1\<lparr>originRatio := GetRatio (be_kernel env) (cb_files st1), isDockerListSet := False, isRatioSet := False,
                       cb_containers := [], ratio := DEFAULT_RATIO\<rparr>)))"

subsection \<open>Enabling and disabling\<close>

text \<open>The saved value of a container goes back to its file.\<close>

definition write_back :: "kernel_env \<Rightarrow> burst \<Rightarrow> string \<Rightarrow> files \<Rightarrow> files" where
  "write_back k st i = snd \<circ> SetSoftQuota k (al_get 0 (allContainerOriginSoftQuota st) i) (al_get [] (allContainers st) i)"

definition RollBack :: "'n burst_env \<Rightarrow> string list \<Rightarrow> burst \<Rightarrow> burst" where
  "RollBack env succeedContainers st =
     st\<lparr>cb_files := fold (write_back (be_kernel env) st) (sort succeedContainers)
                     (snd (SetRatio (be_kernel env) (originRatio st) (cb_files st)))\<rparr>"

fun set_quotas :: "'n burst_env \<Rightarrow> (string \<times> string) list \<Rightarrow> string list \<Rightarrow> burst \<Rightarrow> Result \<times> burst" where
  "set_quotas env [] succeedContainers st = (\<lparr>code = OK, payload = []\<rparr>, st)"
| "set_quotas env (container # rest) succeedContainers st =
     (case SetSoftQuota (be_kernel env) 1 (snd container) (cb_files st) of
        (True, fs) \<Rightarrow> set_quotas env rest (List.insert (fst container) succeedContainers) (st\<lparr>cb_files := fs\<rparr>)
      | (False, fs) \<Rightarrow> (\<lparr>code = FAILED, payload = ''Set soft quota to '' @ fst container @ '' failed.''\<rparr>,
                       RollBack env succeedContainers (st\<lparr>cb_files := fs\<rparr>)))"

definition choose_containers :: "burst \<Rightarrow> bool \<times> burst" where
  "choose_containers st =
     (if cb_containers st = [] then
        (if \<not> isDockerListSet st then (True, st\<lparr>cb_containers := allContainers st\<rparr>) else (False, st))
      else (True, st))"

definition apply_burst :: "'n burst_env \<Rightarrow> burst \<Rightarrow> Result \<times> burst" where
  "apply_burst env st =
     (case choose_containers st of
        (False, st1) \<Rightarrow>
          (\<lparr>code = FAILED, payload = ''All config docker_id is invalid.Cannot found cgroup path or docker not exist.''\<rparr>, st1)
      | (True, st1) \<Rightarrow>
          (case SetRatio (be_kernel env) (ratio st1) (cb_files st1) of (retMsg, fs) \<Rightarrow>
             if retMsg \<noteq> [] then (\<lparr>code = FAILED, payload = retMsg\<rparr>, st1\<lparr>cb_files := fs\<rparr>)
             else set_quotas env (cb_containers st1) [] (st1\<lparr>cb_files := fs\<rparr>)))"

definition Burst_Enable :: "'n burst_env \<Rightarrow> string \<Rightarrow> burst \<Rightarrow> Result \<times> burst" where
  "Burst_Enable env param st =
     (case Burst_Init env st of
        (False, st1) \<Rightarrow> (\<lparr>code = FAILED, payload = ''Docker coordination burst init failed. may not support.''\<rparr>, st1)
      | (True, st1) \<Rightarrow>
          (case ParseParam env param st1 of (retMsg, st2) \<Rightarrow>
             if retMsg \<noteq> [] then (\<lparr>code = FAILED, payload = retMsg\<rparr>, st2)
             else
               (case (if \<not> isDockerListSet st2 \<or> \<not> isRatioSet st2
                      then Burst_ReadConfig env DOCKER_COORDINATION_BURST_CONFIG_PATH st2 else ([], st2)) of
                  (retMsg, st3) \<Rightarrow>
                    if retMsg \<noteq> [] then (\<lparr>code = FAILED, payload = retMsg\<rparr>, st3) else apply_burst env st3)))"

definition Burst_Disable :: "'n burst_env \<Rightarrow> burst \<Rightarrow> burst" where
  "Burst_Disable env st =
     (if \<not> CheckEnv st then st
      else st\<lparr>cb_files := fold (write_back (be_kernel env) st) (map fst (allContainers st))
                (snd (SetRatio (be_kernel env) (originRatio st) (cb_files st)))\<rparr>)"

end
