(* ===== verification/Burst_Claims.thy ===== *)
theory Burst_Claims
  imports Coordination_Burst
begin

text \<open>
  What enabling and disabling the coordination of bursts does to the control files: enabling is all
  or nothing, and disabling restores what enabling changed. Both rest on \<open>written_back\<close>, an instance of the
  contract \<open>saved_setting\<close> for the soft quota.
\<close>

subsection \<open>The ratio and the soft quotas\<close>

lemma soft_quota_file_inj [simp]: "soft_quota_file p = soft_quota_file q \<longleftrightarrow> p = q"
  by (simp add: soft_quota_file_def)

lemma soft_quota_file_not_ratio [simp]: "soft_quota_file p \<noteq> SCHED_SOFT_RUNTIME_RATIO_PATH"
proof
  assume "soft_quota_file p = SCHED_SOFT_RUNTIME_RATIO_PATH"
  then have "last (soft_quota_file p) = last SCHED_SOFT_RUNTIME_RATIO_PATH" by simp
  then show False by (simp add: soft_quota_file_def SCHED_SOFT_RUNTIME_RATIO_PATH_def)
qed

lemma ratio_not_soft_quota_file [simp]: "SCHED_SOFT_RUNTIME_RATIO_PATH \<noteq> soft_quota_file p"
  using soft_quota_file_not_ratio [of p] by metis

lemma SetSoftQuota_snd: "snd (SetSoftQuota k v p fs) = snd (write_file k (soft_quota_file p) (to_string v) fs)"
  by (simp add: SetSoftQuota_def split: prod.splits)

lemma SetSoftQuota_fst: "fst (SetSoftQuota k v p fs) \<longleftrightarrow> fst (write_file k (soft_quota_file p) (to_string v) fs) = Written"
  by (simp add: SetSoftQuota_def split: prod.splits)

lemma GetSoftQuota_range: "- (2 ^ 31) \<le> GetSoftQuota fs p \<and> GetSoftQuota fs p < 2 ^ 31"
  using read_int_range [of "-1"] by (auto simp: GetSoftQuota_def split: option.splits)

interpretation sq: saved_setting soft_quota_file GetSoftQuota "\<lambda>v p fs. snd (SetSoftQuota k v p fs)"
  "\<lambda>p fs. fs (soft_quota_file p) \<noteq> None \<and> k_opens k (soft_quota_file p)"
  "\<lambda>v p. - (2 ^ 31) \<le> v \<and> v < 2 ^ 31 \<and> k_accepts k (soft_quota_file p) (to_string v)" for k
proof
  fix p v and fs :: files
  assume "fs (soft_quota_file p) \<noteq> None \<and> k_opens k (soft_quota_file p)"
    and "- (2 ^ 31) \<le> v \<and> v < 2 ^ 31 \<and> k_accepts k (soft_quota_file p) (to_string v)"
  then show "GetSoftQuota (snd (SetSoftQuota k v p fs)) p = v"
    by (auto simp: SetSoftQuota_snd GetSoftQuota_def write_file_def read_int_to_string)
qed (auto simp: SetSoftQuota_snd GetSoftQuota_def write_file_locked simp flip: not_None_eq)

lemma SetRatio_files:
  "snd (SetRatio k v fs) = (if MIN_RATIO \<le> v \<and> v \<le> MAX_RATIO
     then snd (write_file k SCHED_SOFT_RUNTIME_RATIO_PATH (to_string v) fs) else fs)"
  by (auto simp: SetRatio_def split: prod.splits write_result.splits)

lemma SetRatio_good: "fst (SetRatio k v fs) = [] \<longleftrightarrow>
     MIN_RATIO \<le> v \<and> v \<le> MAX_RATIO \<and> fst (write_file k SCHED_SOFT_RUNTIME_RATIO_PATH (to_string v) fs) = Written"
  by (auto simp: SetRatio_def split: prod.splits write_result.splits)

lemma SetRatio_bad: "fst (SetRatio k v fs) \<noteq> [] \<Longrightarrow> snd (SetRatio k v fs) = fs"
  by (auto simp: SetRatio_good SetRatio_files write_file_bad)

lemma SetRatio_other [simp]: "q \<noteq> SCHED_SOFT_RUNTIME_RATIO_PATH \<Longrightarrow> snd (SetRatio k v fs) q = fs q"
  by (simp add: SetRatio_files)

lemma SetRatio_exists [simp]: "snd (SetRatio k v fs) q = None \<longleftrightarrow> fs q = None"
  by (simp add: SetRatio_files)

lemma GetRatio_local: "fs SCHED_SOFT_RUNTIME_RATIO_PATH = fs' SCHED_SOFT_RUNTIME_RATIO_PATH \<Longrightarrow> GetRatio k fs = GetRatio k fs'"
  by (simp add: GetRatio_def)

lemma GetRatio_write:
  assumes "fs SCHED_SOFT_RUNTIME_RATIO_PATH \<noteq> None" "k_opens k SCHED_SOFT_RUNTIME_RATIO_PATH"
    "k_accepts k SCHED_SOFT_RUNTIME_RATIO_PATH (to_string v)" "MIN_RATIO \<le> v" "v \<le> MAX_RATIO"
  shows "GetRatio k (snd (SetRatio k v fs)) = v"
  using assms by (auto simp: SetRatio_files GetRatio_def write_file_def MIN_RATIO_def MAX_RATIO_def read_int_to_string)

lemma GetSoftQuota_SetRatio [simp]: "GetSoftQuota (snd (SetRatio k v fs)) p = GetSoftQuota fs p"
  by (rule sq.get_local) simp

subsection \<open>What the plugin has saved\<close>

definition saved :: "kernel_env \<Rightarrow> files \<Rightarrow> burst \<Rightarrow> bool" where
  "saved k fs0 st = (originRatio st = GetRatio k fs0 \<and> distinct (map fst (allContainers st)) \<and>
     (\<forall>(i, p) \<in> set (allContainers st). map_of (allContainerOriginSoftQuota st) i = Some (GetSoftQuota fs0 p)) \<and>
     set (cb_containers st) \<subseteq> set (allContainers st) \<and> distinct (map fst (cb_containers st)))"

text \<open>The kernel accepts, for each of these control files, the value the file shows.\<close>

definition own_values :: "kernel_env \<Rightarrow> files \<Rightarrow> bool" where
  "own_values k fs = (k_accepts k SCHED_SOFT_RUNTIME_RATIO_PATH (to_string (GetRatio k fs)) \<and>
     (\<forall>p. fs (soft_quota_file p) \<noteq> None \<longrightarrow> k_accepts k (soft_quota_file p) (to_string (GetSoftQuota fs p))))"

definition tuned :: "kernel_env \<Rightarrow> files \<Rightarrow> int \<Rightarrow> string set \<Rightarrow> files \<Rightarrow> bool" where
  "tuned k fs0 v ps fs = (GetRatio k fs = v \<and> (\<forall>p \<in> ps. GetSoftQuota fs p = 1 \<and> k_opens k (soft_quota_file p)) \<and>
     (\<forall>q. fs q = None \<longleftrightarrow> fs0 q = None) \<and>
     (\<forall>q. q \<noteq> SCHED_SOFT_RUNTIME_RATIO_PATH \<longrightarrow> q \<notin> soft_quota_file ` ps \<longrightarrow> fs q = fs0 q))"

text \<open>A ratio the plugin may not write, one outside 1 to 20, cannot be restored by it.\<close>

definition restored :: "kernel_env \<Rightarrow> files \<Rightarrow> string set \<Rightarrow> files \<Rightarrow> bool" where
  "restored k fs0 ps fs = ((MIN_RATIO \<le> GetRatio k fs0 \<and> GetRatio k fs0 \<le> MAX_RATIO \<longrightarrow> GetRatio k fs = GetRatio k fs0) \<and>
     (\<forall>p. GetSoftQuota fs p = GetSoftQuota fs0 p) \<and>
     (\<forall>q. q \<noteq> SCHED_SOFT_RUNTIME_RATIO_PATH \<longrightarrow> q \<notin> soft_quota_file ` ps \<longrightarrow> fs q = fs0 q))"

lemma restored_refl: "restored k fs0 ps fs0"
  by (simp add: restored_def)

lemma restored_mono: "restored k fs0 ps fs \<Longrightarrow> ps \<subseteq> qs \<Longrightarrow> restored k fs0 qs fs"
  unfolding restored_def by (meson image_mono subsetD)

lemma saved_path: "saved k fs0 st \<Longrightarrow> (i, p) \<in> set (allContainers st) \<Longrightarrow> al_get [] (allContainers st) i = p"
  by (simp add: saved_def al_get_def)

lemma saved_quota: "saved k fs0 st \<Longrightarrow> (i, p) \<in> set (allContainers st) \<Longrightarrow>
    al_get 0 (allContainerOriginSoftQuota st) i = GetSoftQuota fs0 p"
  by (auto simp: saved_def al_get_def)

lemma write_back_put_all:
  assumes "saved k fs0 st" "set ids \<subseteq> fst ` set (allContainers st)"
  shows "fold (write_back k st) ids =
    sq.put_all k (map (\<lambda>p. (p, GetSoftQuota fs0 p)) (map (al_get [] (allContainers st)) ids))"
proof -
  have "map (\<lambda>i. (al_get [] (allContainers st) i, al_get 0 (allContainerOriginSoftQuota st) i)) ids =
      map (\<lambda>p. (p, GetSoftQuota fs0 p)) (map (al_get [] (allContainers st)) ids)"
    using assms saved_path [OF assms(1)] saved_quota [OF assms(1)] by fastforce
  then have "sq.put_all k (map (\<lambda>p. (p, GetSoftQuota fs0 p)) (map (al_get [] (allContainers st)) ids)) =
      sq.put_all k (map (\<lambda>i. (al_get [] (allContainers st) i, al_get 0 (allContainerOriginSoftQuota st) i)) ids)"
    by metis
  then show ?thesis
    by (simp add: sq.put_all_fold fold_map write_back_def [abs_def] comp_def)
qed

text \<open>Writing back the saved values of at least the changed containers restores all of them.\<close>

lemma written_back:
  assumes saved: "saved k fs0 st" and own: "own_values k fs0" and tuned: "tuned k fs0 v ps fs"
    and ids: "set ids \<subseteq> fst ` set (allContainers st)" "ps \<subseteq> al_get [] (allContainers st) ` set ids"
  shows "restored k fs0 (al_get [] (allContainers st) ` set ids)
    (fold (write_back k st) ids (snd (SetRatio k (originRatio st) fs)))"
proof -
  let ?qs = "map (al_get [] (allContainers st)) ids"
  let ?fs1 = "snd (SetRatio k (originRatio st) fs)"
  let ?fs2 = "sq.put_all k (map (\<lambda>p. (p, GetSoftQuota fs0 p)) ?qs) ?fs1"
  have f: "fold (write_back k st) ids ?fs1 = ?fs2"
    using write_back_put_all [OF saved ids(1)] by simp
  have r: "originRatio st = GetRatio k fs0" using saved by (simp add: saved_def)
  have other: "?fs2 q = ?fs1 q" if "q \<notin> soft_quota_file ` set ?qs" for q
    using that by (intro sq.put_all_other) auto
  have ratio: "GetRatio k ?fs2 = GetRatio k fs0" if "MIN_RATIO \<le> GetRatio k fs0" "GetRatio k fs0 \<le> MAX_RATIO"
  proof -
    have "fs0 SCHED_SOFT_RUNTIME_RATIO_PATH \<noteq> None" "k_opens k SCHED_SOFT_RUNTIME_RATIO_PATH"
      using that(1) by (auto simp: GetRatio_def split: option.splits if_splits)
    then have "GetRatio k ?fs1 = GetRatio k fs0"
      unfolding r using that own tuned by (intro GetRatio_write) (auto simp: own_values_def tuned_def)
    moreover have "GetRatio k ?fs2 = GetRatio k ?fs1" by (rule GetRatio_local, rule other) auto
    ultimately show ?thesis by simp
  qed
  have same: "GetSoftQuota fs p = GetSoftQuota fs0 p" if "p \<notin> ps" for p
  proof -
    have "soft_quota_file p \<notin> soft_quota_file ` ps" using that by auto
    with tuned show ?thesis by (intro sq.get_local) (simp add: tuned_def)
  qed
  have gone: "GetSoftQuota fs p = GetSoftQuota fs0 p" if "fs0 (soft_quota_file p) = None" for p
  proof -
    have "fs (soft_quota_file p) = None" using that tuned by (simp add: tuned_def)
    with that show ?thesis by (simp add: GetSoftQuota_def)
  qed
  have "GetSoftQuota ?fs2 p = GetSoftQuota fs0 p" for p
    using own tuned same gone ids(2) GetSoftQuota_range
    by (intro sq.restore_all) (auto simp: own_values_def tuned_def simp flip: not_None_eq)
  moreover have "?fs2 q = fs0 q" if "q \<noteq> SCHED_SOFT_RUNTIME_RATIO_PATH" "q \<notin> soft_quota_file ` set ?qs" for q
  proof -
    have "q \<notin> soft_quota_file ` ps" using that(2) ids(2) by auto
    with that other [of q] tuned show ?thesis by (simp add: tuned_def)
  qed
  ultimately show ?thesis
    using ratio by (simp add: f restored_def)
qed

subsection \<open>What the parsers keep\<close>

text \<open>Nothing but \<open>Init\<close> touches what was saved, and no parser touches a file.\<close>

definition ready :: "kernel_env \<Rightarrow> files \<Rightarrow> burst \<Rightarrow> bool" where
  "ready k fs0 st = (saved k fs0 st \<and> cb_files st = fs0)"

lemma ready_flags [simp]:
  "ready k fs0 (st\<lparr>ratio := v, isRatioSet := b\<rparr>) = ready k fs0 st"
  "ready k fs0 (st\<lparr>isDockerListSet := b\<rparr>) = ready k fs0 st"
  by (simp_all add: ready_def saved_def)

lemma ready_UpdateDockerInfo [simp]:
  assumes "ready k fs0 st"
  shows "ready k fs0 (UpdateDockerInfo i st)"
proof -
  have "ready k fs0 (st\<lparr>cb_containers := AList.update j p (cb_containers st)\<rparr>)" if "(j, p) \<in> set (allContainers st)" for j p
    using assms that set_update_subset [of j p "cb_containers st"] by (auto simp: ready_def saved_def distinct_update)
  with assms show ?thesis
    by (auto simp: UpdateDockerInfo_def dest!: map_of_SomeD find_Some_iff [THEN iffD1] split: option.splits)
qed

lemma ready_fold [simp]: "ready k fs0 st \<Longrightarrow> ready k fs0 (fold UpdateDockerInfo ids st)"
  by (induction ids arbitrary: st) simp_all

lemma ready_and_then: "ready k fs0 (snd r) \<Longrightarrow> (\<And>s. ready k fs0 s \<Longrightarrow> ready k fs0 (snd (f s))) \<Longrightarrow> ready k fs0 (snd (and_then r f))"
  by (simp add: and_then_def)

lemma ready_when_key: "ready k fs0 st \<Longrightarrow> (\<And>s. ready k fs0 s \<Longrightarrow> ready k fs0 (snd (f s))) \<Longrightarrow> ready k fs0 (snd (when_key y n key f st))"
  by (simp add: when_key_def split: option.splits bool.splits)

lemma ready_update_each: "ready k fs0 st \<Longrightarrow> ready k fs0 (snd (update_each y ns st))"
  by (induction ns arbitrary: st) (simp_all split: option.splits)

lemma ready_ParseYamlRatio: "ready k fs0 st \<Longrightarrow> ready k fs0 (snd (ParseYamlRatio y n st))"
  by (simp add: ParseYamlRatio_def split: option.splits)

lemma ready_parse_docker_id: "ready k fs0 st \<Longrightarrow> ready k fs0 (snd (parse_docker_id y n st))"
  unfolding parse_docker_id_def by (intro ready_and_then) (simp_all add: ready_update_each split: option.splits)

lemma ready_config_docker_id: "ready k fs0 st \<Longrightarrow> ready k fs0 (snd (config_docker_id y n st))"
  by (simp add: config_docker_id_def split: option.splits)

lemmas ready_parsers = ready_and_then ready_when_key ready_ParseYamlRatio ready_parse_docker_id ready_config_docker_id

lemma snd_message [simp]: "snd (case r of (None, s) \<Rightarrow> (m, s) | (Some e, s) \<Rightarrow> (e, s)) = snd r"
  by (simp split: prod.splits option.splits)

lemma ready_ParseParam:
  assumes "ready k fs0 st"
  shows "ready k fs0 (snd (ParseParam env param st))"
proof -
  have "ready k fs0 (snd (and_then (CheckYamlParam (be_yaml env) n, st) (\<lambda>st.
      and_then (when_key (be_yaml env) n ''ratio'' (ParseYamlRatio (be_yaml env) n) st) (when_key (be_yaml env) n ''docker_id'' (parse_docker_id (be_yaml env) n)))))" for n
    using assms by (intro ready_parsers) (auto intro: ready_parsers)
  with assms show ?thesis
    by (simp add: ParseParam_def Let_def split: option.split)
qed

lemma ready_ReadConfig:
  assumes "ready k fs0 st"
  shows "ready k fs0 (snd (Burst_ReadConfig env path st))"
proof -
  have "ready k fs0 (snd (and_then (CheckYamlParam (be_yaml env) n, st) (\<lambda>st.
      and_then (if isRatioSet st then (Some [], st) else when_key (be_yaml env) n ''ratio'' (ParseYamlRatio (be_yaml env) n) st) (\<lambda>st.
        if isDockerListSet st then (Some [], st) else when_key (be_yaml env) n ''docker_id'' (config_docker_id (be_yaml env) n) st))))" for n
    using assms by (intro ready_parsers) (auto intro: ready_parsers)
  with assms show ?thesis
    by (simp add: Burst_ReadConfig_def Let_def split: option.split)
qed

lemma saved_add_docker:
  assumes "\<forall>(i, p) \<in> set (allContainers st). map_of (allContainerOriginSoftQuota st) i = Some (GetSoftQuota (cb_files st) p)"
    and "distinct (map fst (allContainers st))"
  shows "(\<forall>(i, p) \<in> set (allContainers (add_docker env j st)).
      map_of (allContainerOriginSoftQuota (add_docker env j st)) i = Some (GetSoftQuota (cb_files (add_docker env j st)) p)) \<and>
    distinct (map fst (allContainers (add_docker env j st))) \<and> cb_files (add_docker env j st) = cb_files st"
proof -
  have "\<forall>(i, q) \<in> set (AList.update j p (allContainers st)).
      ((map_of (allContainerOriginSoftQuota st))(j \<mapsto> GetSoftQuota (cb_files st) p)) i = Some (GetSoftQuota (cb_files st) q)" for p
  proof (clarify)
    fix i q assume "(i, q) \<in> set (AList.update j p (allContainers st))"
    moreover have "distinct (map fst (AList.update j p (allContainers st)))"
      using assms(2) by (simp add: distinct_update)
    ultimately have "((map_of (allContainers st))(j \<mapsto> p)) i = Some q"
      by (metis map_of_al_update map_of_eq_Some_iff)
    then show "((map_of (allContainerOriginSoftQuota st))(j \<mapsto> GetSoftQuota (cb_files st) p)) i = Some (GetSoftQuota (cb_files st) q)"
      using assms(1) by (auto dest!: map_of_SomeD split: if_splits)
  qed
  with assms show ?thesis
    by (simp add: add_docker_def Let_def distinct_update store_simps)
qed

lemma ready_Init:
  assumes "Burst_Init env st = (True, st1)"
  shows "ready (be_kernel env) (cb_files st) st1"
proof -
  define inv where "inv s = ((\<forall>(i, p) \<in> set (allContainers s).
      map_of (allContainerOriginSoftQuota s) i = Some (GetSoftQuota (cb_files s) p)) \<and>
    distinct (map fst (allContainers s)) \<and> cb_files s = cb_files st)" for s :: burst
  have step: "inv (add_docker env j s)" if "inv s" for j s
    using that saved_add_docker [of s env j] unfolding inv_def by metis
  have "inv (fold (add_docker env) ids s)" if "inv s" for ids s
    using that step by (induction ids arbitrary: s) simp_all
  moreover have "inv (st\<lparr>allContainers := [], allContainerOriginSoftQuota := []\<rparr>)"
    by (simp add: inv_def)
  ultimately have "inv (GetAllDockers env st)"
    by (simp add: GetAllDockers_def)
  with assms show ?thesis
    by (auto simp: Burst_Init_def Let_def inv_def ready_def saved_def split: if_splits)
qed

subsection \<open>All or nothing\<close>

text \<open>After a part of the containers is tuned, the loop either tunes the rest or restores everything.\<close>

lemma tuned_one:
  assumes "tuned k fs0 v ps fs" "SetSoftQuota k 1 p fs = (True, fs1)"
  shows "tuned k fs0 v (insert p ps) fs1"
proof -
  have w: "fs (soft_quota_file p) \<noteq> None" "k_opens k (soft_quota_file p)" "k_accepts k (soft_quota_file p) (to_string 1)"
    and fs1: "fs1 = snd (SetSoftQuota k 1 p fs)" "fs1 = fs(soft_quota_file p \<mapsto> to_string 1)"
    using assms(2) SetSoftQuota_fst [of k 1 p fs] SetSoftQuota_snd [of k 1 p fs]
    by (simp_all add: write_file_Written write_file_good)
  have "GetRatio k fs1 = v" "\<forall>q. fs1 q = None \<longleftrightarrow> fs0 q = None"
    using assms(1) w(1) by (auto simp: tuned_def fs1(2) intro: trans [OF GetRatio_local])
  moreover have "GetSoftQuota fs1 p = 1"
    using w unfolding fs1(1) by (intro sq.get_put) auto
  moreover have "GetSoftQuota fs1 r = GetSoftQuota fs r" if "r \<noteq> p" for r
    using that unfolding fs1(1) by (rule sq.get_put_other)
  moreover have "\<forall>q. q \<noteq> SCHED_SOFT_RUNTIME_RATIO_PATH \<longrightarrow> q \<notin> soft_quota_file ` insert p ps \<longrightarrow> fs1 q = fs0 q"
    using assms(1) by (auto simp: tuned_def fs1(2))
  ultimately show ?thesis
    using assms(1) w(2) unfolding tuned_def by (metis insert_iff)
qed

lemma set_quotas_spec:
  assumes "set_quotas env cs ids st = (r, st1)" "saved k fs0 st" "own_values k fs0" "k = be_kernel env"
    and "tuned k fs0 v (al_get [] (allContainers st) ` set ids) (cb_files st)"
    and "set cs \<subseteq> set (allContainers st)" "set ids \<subseteq> fst ` set (allContainers st)" "distinct ids"
  shows "if code r = OK
      then \<exists>fs1. st1 = st\<lparr>cb_files := fs1\<rparr> \<and> tuned k fs0 v (al_get [] (allContainers st) ` set ids \<union> snd ` set cs) fs1
      else restored k fs0 (snd ` set (allContainers st)) (cb_files st1)"
  using assms
proof (induction cs arbitrary: ids st)
  case Nil
  then have "st1 = st\<lparr>cb_files := cb_files st\<rparr>" "code r = OK" by auto
  with Nil show ?case by (simp add: exI [of _ "cb_files st"])
next
  case (Cons c cs)
  obtain b fs1 where q: "SetSoftQuota k 1 (snd c) (cb_files st) = (b, fs1)" by fastforce
  have c: "(fst c, snd c) \<in> set (allContainers st)" using Cons.prems(6) by simp
  have path: "al_get [] (allContainers st) (fst c) = snd c"
    using saved_path [OF Cons.prems(2) c] .
  have paths: "al_get [] (allContainers st) ` set ids \<subseteq> snd ` set (allContainers st)"
  proof (clarify)
    fix i assume "i \<in> set ids"
    then obtain p where "(i, p) \<in> set (allContainers st)" using Cons.prems(7) by fastforce
    then show "al_get [] (allContainers st) i \<in> snd ` set (allContainers st)"
      using saved_path [OF Cons.prems(2)] by force
  qed
  show ?case
  proof (cases b)
    case True
    let ?st = "st\<lparr>cb_files := fs1\<rparr>"
    have "saved k fs0 ?st" using Cons.prems(2) by (simp add: saved_def)
    moreover have "tuned k fs0 v (al_get [] (allContainers ?st) ` set (List.insert (fst c) ids)) (cb_files ?st)"
      using tuned_one [OF Cons.prems(5)] q True by (simp add: path)
    moreover have "set_quotas env cs (List.insert (fst c) ids) ?st = (r, st1)"
      using Cons.prems(1,4) q True by simp
    ultimately show ?thesis
      using Cons.IH [of "List.insert (fst c) ids" ?st] Cons.prems(3,4,6,7,8) c
      by (auto simp: path rev_image_eqI split: if_splits)
  next
    case False
    have "fs1 = cb_files st"
      using q False SetSoftQuota_fst [of k 1 "snd c" "cb_files st"] SetSoftQuota_snd [of k 1 "snd c" "cb_files st"]
      by (simp add: write_file_bad)
    then have st1: "cb_files st1 = fold (write_back k st) (sort ids) (snd (SetRatio k (originRatio st) (cb_files st)))"
      and r: "code r = FAILED"
      using Cons.prems(1,4) q False by (auto simp: RollBack_def)
    have "restored k fs0 (al_get [] (allContainers st) ` set (sort ids)) (cb_files st1)"
      unfolding st1 using Cons.prems(2,3,5,7) by (intro written_back) auto
    then have "restored k fs0 (snd ` set (allContainers st)) (cb_files st1)"
      using paths by (auto intro: restored_mono)
    with r show ?thesis by (simp add: OK_def FAILED_def)
  qed
qed

lemma tuned_ratio:
  assumes "own_values k fs0" "SetRatio k v fs0 = ([], fs1)"
  shows "tuned k fs0 v {} fs1 \<and> MIN_RATIO \<le> v \<and> v \<le> MAX_RATIO"
proof -
  have "fst (SetRatio k v fs0) = []" and fs1: "fs1 = snd (SetRatio k v fs0)" using assms(2) by simp_all
  then have v: "MIN_RATIO \<le> v" "v \<le> MAX_RATIO" "fs0 SCHED_SOFT_RUNTIME_RATIO_PATH \<noteq> None"
      "k_opens k SCHED_SOFT_RUNTIME_RATIO_PATH" "k_accepts k SCHED_SOFT_RUNTIME_RATIO_PATH (to_string v)"
    by (auto simp: SetRatio_good write_file_Written)
  then have "GetRatio k fs1 = v" unfolding fs1 by (intro GetRatio_write)
  with v fs1 show ?thesis by (simp add: tuned_def)
qed

lemma apply_burst_spec:
  assumes "apply_burst env st = (r, st1)" "ready k fs0 st" "own_values k fs0" "k = be_kernel env"
  shows "if code r = OK
      then tuned k fs0 (ratio st1) (snd ` set (cb_containers st1)) (cb_files st1) \<and> saved k fs0 st1 \<and>
        MIN_RATIO \<le> ratio st1 \<and> ratio st1 \<le> MAX_RATIO
      else restored k fs0 (snd ` set (allContainers st)) (cb_files st1)"
proof -
  obtain ok st2 where ch: "choose_containers st = (ok, st2)" by fastforce
  have st2: "ready k fs0 st2" "allContainers st2 = allContainers st"
    using ch assms(2) by (auto simp: choose_containers_def ready_def saved_def split: if_splits)
  obtain msg fs2 where sr: "SetRatio k (ratio st2) (cb_files st2) = (msg, fs2)" by fastforce
  consider "\<not> ok" | "ok" "msg \<noteq> []" | "ok" "msg = []" by blast
  then show ?thesis
  proof cases
    case 1
    with assms(1) ch st2 show ?thesis
      by (auto simp: apply_burst_def OK_def FAILED_def ready_def restored_refl)
  next
    case 2
    then have "fs2 = fs0" using SetRatio_bad [of k "ratio st2" "cb_files st2"] sr st2(1) by (simp add: ready_def)
    with 2 assms(1,4) ch sr show ?thesis
      by (auto simp: apply_burst_def OK_def FAILED_def restored_refl)
  next
    case 3
    let ?st = "st2\<lparr>cb_files := fs2\<rparr>"
    have sq: "set_quotas env (cb_containers st2) [] ?st = (r, st1)"
      using assms(1,4) ch sr 3 by (simp add: apply_burst_def)
    have sv: "saved k fs0 ?st" "set (cb_containers st2) \<subseteq> set (allContainers st2)"
      using st2(1) by (simp_all add: ready_def saved_def)
    have tr: "tuned k fs0 (ratio st2) {} fs2 \<and> MIN_RATIO \<le> ratio st2 \<and> ratio st2 \<le> MAX_RATIO"
      using tuned_ratio [OF assms(3)] sr 3(2) st2(1) by (simp add: ready_def)
    have spec: "if code r = OK
        then \<exists>fs1. st1 = ?st\<lparr>cb_files := fs1\<rparr> \<and>
          tuned k fs0 (ratio st2) (al_get [] (allContainers ?st) ` set [] \<union> snd ` set (cb_containers st2)) fs1
        else restored k fs0 (snd ` set (allContainers ?st)) (cb_files st1)"
      by (rule set_quotas_spec [OF sq sv(1) assms(3,4)]) (use sv tr in simp_all)
    show ?thesis
    proof (cases "code r = OK")
      case True
      with spec obtain fs1 where "st1 = ?st\<lparr>cb_files := fs1\<rparr>" "tuned k fs0 (ratio st2) (snd ` set (cb_containers st2)) fs1"
        by auto
      with tr True sv(1) show ?thesis by (simp add: saved_def)
    next
      case False
      with spec st2(2) show ?thesis by simp
    qed
  qed
qed

lemma set_quotas_allContainers: "allContainers (snd (set_quotas env cs ids st)) = allContainers st"
  by (induction cs arbitrary: ids st) (auto simp: RollBack_def split: prod.splits bool.splits)

lemma apply_burst_allContainers: "allContainers (snd (apply_burst env st)) = allContainers st"
  by (auto simp: apply_burst_def choose_containers_def set_quotas_allContainers split: prod.splits bool.splits if_splits)

text \<open>Enabling ends before any file is written, or in \<open>apply_burst\<close> from a state that has all values saved.\<close>

lemma Burst_Enable_stages:
  assumes "Burst_Enable env param st = (r, st1)"
  shows "code r = FAILED \<and> cb_files st1 = cb_files st \<or>
    (\<exists>st2. ready (be_kernel env) (cb_files st) st2 \<and> apply_burst env st2 = (r, st1))"
proof -
  let ?k = "be_kernel env" and ?fs = "cb_files st"
  obtain ok i where init: "Burst_Init env st = (ok, i)" by fastforce
  obtain m2 s2 where pp: "ParseParam env param i = (m2, s2)" by fastforce
  obtain m3 s3 where rc: "Burst_ReadConfig env DOCKER_COORDINATION_BURST_CONFIG_PATH s2 = (m3, s3)" by fastforce
  show ?thesis
  proof (cases ok)
    case False
    with init assms show ?thesis by (auto simp: Burst_Enable_def Burst_Init_def Let_def split: if_splits)
  next
    case True
    have "ready ?k ?fs i" using ready_Init [of env st i] init True by simp
    then have s2: "ready ?k ?fs s2" using ready_ParseParam [of ?k ?fs i env param] pp by simp
    then have s3: "ready ?k ?fs s3"
      using ready_ReadConfig [of ?k ?fs s2 env DOCKER_COORDINATION_BURST_CONFIG_PATH] rc by simp
    with s2 assms True init pp rc show ?thesis
      by (auto simp: Burst_Enable_def ready_def split: if_splits)
  qed
qed

subsection \<open>Properties\<close>

text \<open>C29. Enabling the coordination of bursts is all or nothing, on a kernel that accepts the values its
  control files show: when it succeeds the kernel has a ratio between 1 and 20, every chosen
  container has soft quota 1 and no other file is changed; when it fails, at any step, the soft
  quota of every container reads as before, the ratio too if it was between 1 and 20 (the plugin
  refuses to write back any other), and no other file is changed.\<close>

theorem Burst_Enable_atomic:
  assumes "Burst_Enable env param st = (r, st1)" "own_values (be_kernel env) (cb_files st)"
  shows "if code r = OK
    then tuned (be_kernel env) (cb_files st) (ratio st1) (snd ` set (cb_containers st1)) (cb_files st1) \<and>
      MIN_RATIO \<le> ratio st1 \<and> ratio st1 \<le> MAX_RATIO
    else (\<forall>p. GetSoftQuota (cb_files st1) p = GetSoftQuota (cb_files st) p) \<and>
      (GetRatio (be_kernel env) (cb_files st) \<in> {1..20} \<longrightarrow>
         GetRatio (be_kernel env) (cb_files st1) = GetRatio (be_kernel env) (cb_files st)) \<and>
      (\<forall>q. q \<noteq> SCHED_SOFT_RUNTIME_RATIO_PATH \<longrightarrow> q \<notin> soft_quota_file ` snd ` set (allContainers st1) \<longrightarrow>
         cb_files st1 q = cb_files st q)"
  using Burst_Enable_stages [OF assms(1)]
proof (elim disjE exE conjE)
  assume "code r = FAILED" "cb_files st1 = cb_files st"
  then show ?thesis by (simp add: OK_def FAILED_def)
next
  fix st2
  assume a: "ready (be_kernel env) (cb_files st) st2" "apply_burst env st2 = (r, st1)"
  moreover have "allContainers st1 = allContainers st2"
    using apply_burst_allContainers [of env st2] a(2) by simp
  ultimately show ?thesis
    using apply_burst_spec [OF a(2,1) assms(2)] by (simp add: restored_def MIN_RATIO_def MAX_RATIO_def split: if_splits)
qed

text \<open>A ratio outside 1 to 20 that was there before is not restored.\<close>

lemma Burst_Disable_keeps_ratio:
  assumes "originRatio st < MIN_RATIO \<or> MAX_RATIO < originRatio st"
  shows "GetRatio (be_kernel env) (cb_files (Burst_Disable env st)) = GetRatio (be_kernel env) (cb_files st)"
proof -
  have "fold (write_back k st) ids fs SCHED_SOFT_RUNTIME_RATIO_PATH = fs SCHED_SOFT_RUNTIME_RATIO_PATH" for k ids fs
    by (induction ids arbitrary: fs) (simp_all add: write_back_def SetSoftQuota_snd)
  with assms show ?thesis
    by (auto simp: Burst_Disable_def SetRatio_files intro: GetRatio_local)
qed

text \<open>C32. Disabling after a successful enabling, on a kernel that accepts the values its control files show,
  restores the soft quota of every container, the tuned ones and the others, and changes no other
  file. The ratio is restored if it was between 1 and 20; any other ratio is lost, since
  \<open>SetRatio\<close> refuses it, and the ratio of the plugin stays.\<close>

theorem Burst_Disable_restores:
  assumes "Burst_Enable env param st = (r, st1)" "code r = OK" "own_values (be_kernel env) (cb_files st)"
  shows "(\<forall>p. GetSoftQuota (cb_files (Burst_Disable env st1)) p = GetSoftQuota (cb_files st) p) \<and>
    GetRatio (be_kernel env) (cb_files (Burst_Disable env st1)) =
      (if GetRatio (be_kernel env) (cb_files st) \<in> {1..20} then GetRatio (be_kernel env) (cb_files st) else ratio st1) \<and>
    (\<forall>q. q \<noteq> SCHED_SOFT_RUNTIME_RATIO_PATH \<longrightarrow> q \<notin> soft_quota_file ` snd ` set (allContainers st1) \<longrightarrow>
       cb_files (Burst_Disable env st1) q = cb_files st q)"
proof -
  let ?k = "be_kernel env" and ?fs = "cb_files st"
  obtain st2 where "ready ?k ?fs st2" "apply_burst env st2 = (r, st1)"
    using Burst_Enable_stages [OF assms(1)] assms(2) by (auto simp: OK_def FAILED_def)
  then have t: "tuned ?k ?fs (ratio st1) (snd ` set (cb_containers st1)) (cb_files st1)" and sv: "saved ?k ?fs st1"
      and v: "MIN_RATIO \<le> ratio st1"
    using apply_burst_spec [of env st2 r st1 ?k ?fs] assms(2,3) by simp_all
  have paths: "al_get [] (allContainers st1) ` set (map fst (allContainers st1)) = snd ` set (allContainers st1)"
    using saved_path [OF sv] by (force simp: image_iff)
  have "GetRatio ?k (cb_files st1) = ratio st1" using t by (simp add: tuned_def)
  with v have "CheckEnv st1" by (auto simp: CheckEnv_def GetRatio_def split: option.splits)
  moreover have "snd ` set (cb_containers st1) \<subseteq> snd ` set (allContainers st1)"
    using sv by (auto simp: saved_def)
  ultimately have "restored ?k ?fs (snd ` set (allContainers st1)) (cb_files (Burst_Disable env st1))"
    using written_back [OF sv assms(3) t, of "map fst (allContainers st1)"] unfolding paths
    by (simp add: Burst_Disable_def)
  moreover have "GetRatio ?k (cb_files (Burst_Disable env st1)) = ratio st1" if "GetRatio ?k ?fs \<notin> {1..20}"
    using Burst_Disable_keeps_ratio [of st1 env] that sv t by (auto simp: saved_def tuned_def MIN_RATIO_def MAX_RATIO_def)
  ultimately show ?thesis by (auto simp: restored_def MIN_RATIO_def MAX_RATIO_def)
qed

text \<open>The letter \<open>g\<close> is missing from the characters a parameter may have.\<close>

lemma space_commas_keeps: "c \<in> set s \<Longrightarrow> \<not> isspace c \<Longrightarrow> c \<noteq> CHR '','' \<Longrightarrow> c \<in> set (space_commas s)"
proof (induction s rule: space_commas.induct)
  case (2 d s)
  then have "c \<in> set (dropWhile isspace s)" if "c \<in> set s"
    using that by (metis Un_iff set_append set_takeWhileD takeWhile_dropWhile_id)
  with 2 show ?case by auto
qed simp

lemma ParseParam_rejects_g: "CHR ''g'' \<in> set param \<Longrightarrow> ParseParam env param st = (''Input param has invalid character.'', st)"
proof -
  assume "CHR ''g'' \<in> set param"
  then have "CHR ''g'' \<in> set (space_colons (''{'' @ param @ ''}''))"
    by (auto simp: space_colons_def intro!: bexI [of _ "CHR ''g''"])
  then have "CHR ''g'' \<in> set (FixYaml (''{'' @ param @ ''}''))"
    unfolding FixYaml_def by (rule space_commas_keeps) (simp_all add: isspace_def)
  moreover have "CHR ''g'' \<notin> set ''abcdefjhijklmnopqrstuvwxyz0123456789:_[],. {}''"
    by simp
  ultimately have "HasSpecialChar (FixYaml (''{'' @ param @ ''}''))"
    unfolding HasSpecialChar_def list_ex_iff by blast
  then show ?thesis
    by (simp add: ParseParam_def)
qed

subsection \<open>A container on a machine\<close>

definition demo_docker_id :: string where
  "demo_docker_id = replicate 64 CHR ''a''"

definition demo_cgroup :: string where
  "demo_cgroup = ''/sys/fs/cgroup/docker/'' @ demo_docker_id"

definition demo_burst_env :: "unit burst_env" where
  "demo_burst_env = \<lparr>be_kernel = \<lparr>k_opens = (\<lambda>_. True), k_accepts = (\<lambda>_ _. True)\<rparr>,
     be_docker_ps = Some (demo_docker_id @ [NL]),
     be_tree = \<lparr>dt_readdir = (\<lambda>p. if p = ''/sys/fs/cgroup/docker'' then Some [demo_docker_id] else None),
       dt_isdir = (\<lambda>p. p = ''/sys/fs/cgroup/docker''), dt_islink = (\<lambda>_. False), dt_readlink = (\<lambda>_. None)\<rparr>,
     be_mounts = [], be_is_open = (\<lambda>_. True),
     be_yaml = \<lparr>y_LoadFile = Some \<circ> (\<lambda>_. ()), y_IsMap = (\<lambda>_. Some True), y_IsNull = (\<lambda>_. Some False), y_IsDefined = (\<lambda>_. Some False),
       y_IsSequence = (\<lambda>_. Some False), y_size = (\<lambda>_. Some 0), y_index = (\<lambda>_ _. None), y_key = (\<lambda>_ _. Some ()),
       y_string = (\<lambda>_. None), y_int = (\<lambda>_. None), y_Load = Some \<circ> (\<lambda>_. ()), y_keys = (\<lambda>_. Some []), y_items = (\<lambda>_. Some [])\<rparr>,
     be_what = []\<rparr>"

definition demo_burst :: burst where
  "demo_burst = burst_new (\<lambda>p. if p = SCHED_SOFT_RUNTIME_RATIO_PATH then Some ''5''
     else if p = soft_quota_file demo_cgroup then Some ''0'' else None)"

lemma demo_burst_own: "own_values (be_kernel demo_burst_env) (cb_files demo_burst)"
proof -
  have "read_int ''5'' 0 = 5" by (simp add: read_int_def strtol10_def skip_sign_def isspace_def isdigit_def dec_value_def)
  then show ?thesis
    by (simp add: own_values_def demo_burst_env_def demo_burst_def burst_new_def GetRatio_def MIN_RATIO_def MAX_RATIO_def)
qed

lemma demo_burst_enabled:
  "code (fst (Burst_Enable demo_burst_env [] demo_burst)) = OK"
  "ratio (snd (Burst_Enable demo_burst_env [] demo_burst)) = 20"
  "cb_containers (snd (Burst_Enable demo_burst_env [] demo_burst)) = [(demo_docker_id, demo_cgroup)]"
  "allContainers (snd (Burst_Enable demo_burst_env [] demo_burst)) = [(demo_docker_id, demo_cgroup)]"
  by code_simp+

theorem Burst_Enable_atomic_witness:
  "tuned (be_kernel demo_burst_env) (cb_files demo_burst) 20 {demo_cgroup} (cb_files (snd (Burst_Enable demo_burst_env [] demo_burst)))"
  using Burst_Enable_atomic [of demo_burst_env "[]" demo_burst, OF prod.collapse [symmetric] demo_burst_own] demo_burst_enabled by (simp split: if_splits)

theorem Burst_Disable_restores_witness:
  "GetSoftQuota (cb_files (Burst_Disable demo_burst_env (snd (Burst_Enable demo_burst_env [] demo_burst)))) demo_cgroup =
     GetSoftQuota (cb_files demo_burst) demo_cgroup"
  using Burst_Disable_restores [OF prod.collapse [symmetric] demo_burst_enabled(1) demo_burst_own] by simp

end
