(* ===== verification/Docker_Collector.thy ===== *)
theory Docker_Collector
  imports Control_Files
begin

text \<open>
  The collector of container data, \<^verbatim>\<open>src/plugin/collect/docker/docker_adapt.cpp\<close>, and the two functions of
  \<^verbatim>\<open>src/common/utils.cpp\<close> that find the speed of a core. The files are an argument; a value the code
  leaves uninitialized is an argument \<open>junk\<close>, so is the clock.
\<close>

subsection \<open>Values of control groups\<close>

text \<open>\<open>stream >> val\<close> for an \<open>int64_t\<close>: whether it succeeds, and the value \<open>val\<close> has then.\<close>

definition read_long :: "string \<Rightarrow> int \<Rightarrow> bool \<times> int" where
  "read_long content old =
     (let r = dropWhile isspace content in
      if r = [] then (False, old)
      else (case strtol10 r of
              None \<Rightarrow> (False, 0)
            | Some v \<Rightarrow> if v < - (2 ^ 63) then (False, - (2 ^ 63))
                        else if 2 ^ 63 \<le> v then (False, 2 ^ 63 - 1) else (True, v)))"

definition cpu_file :: "string \<Rightarrow> string \<Rightarrow> string" where
  "cpu_file containerId element = ''/sys/fs/cgroup/cpu/docker/'' @ containerId @ ''/'' @ element"

definition cpuset_file :: "string \<Rightarrow> string \<Rightarrow> string" where
  "cpuset_file containerId element = ''/sys/fs/cgroup/cpuset/docker/'' @ containerId @ ''/'' @ element"

text \<open>A line of \<open>tasks\<close> that is not a number throws and nobody catches it.\<close>

definition GetContainerTasks :: "files \<Rightarrow> string \<Rightarrow> (bool \<times> int list) option" where
  "GetContainerTasks fs containerId =
     (case fs (cpu_file containerId ''tasks'') of
        None \<Rightarrow> Some (False, [])
      | Some content \<Rightarrow> map_option (Pair True) (those (map stoi (filter (\<lambda>line. line \<noteq> []) (getlines NL content)))))"

definition GetContainersCpuInfo :: "files \<Rightarrow> int \<Rightarrow> string \<Rightarrow> string \<Rightarrow> bool \<times> int" where
  "GetContainersCpuInfo fs val containerId element =
     (case fs (cpu_file containerId element) of None \<Rightarrow> (False, val) | Some content \<Rightarrow> read_long content val)"

definition GetContainersCpusetInfo :: "files \<Rightarrow> string \<Rightarrow> string \<Rightarrow> bool \<times> string" where
  "GetContainersCpusetInfo fs containerId element =
     (case fs (cpuset_file containerId element) of
        None \<Rightarrow> (False, [])
      | Some content \<Rightarrow> (read_word content [] \<noteq> [], read_word content []))"

definition stat_sum :: "u64 list \<Rightarrow> string \<Rightarrow> u64" where
  "stat_sum junk content =
     fst (foldl (\<lambda>(acc, st) old. case read_ulong old st of (v, st1) \<Rightarrow> (acc + v, st1))
       (0, drop (length (takeWhile isspace content) + length (read_word content [])) content, read_word content [] = []) (take 8 junk))"

definition GetSystemCpuStatInfo :: "files \<Rightarrow> u64 list \<Rightarrow> u64 \<Rightarrow> u64" where
  "GetSystemCpuStatInfo fs junk totalCpuStat =
     (case fs ''/proc/stat'' of None \<Rightarrow> totalCpuStat | Some content \<Rightarrow> stat_sum junk content)"

subsection \<open>The collector\<close>

record docker_adapt =
  openStatus :: bool
  da_containers :: "(string \<times> Container) list"

text \<open>The argument \<open>clock\<close> is the steady clock, the eight numbers and \<open>usage\<close> are uninitialized variables.\<close>

record collector_env =
  ce_clock :: int
  ce_junk :: "u64 list"
  ce_usage :: u64
  ce_dir :: "(string \<times> bool) list option"

definition collect_container :: "files \<Rightarrow> collector_env \<Rightarrow> u64 \<Rightarrow> string \<Rightarrow> (bool \<times> Container) option" where
  "collect_container fs env usage dir = do {
     let (ok1, period) = GetContainersCpuInfo fs 0 dir ''cpu.cfs_period_us'';
     let (ok2, quota) = GetContainersCpuInfo fs 0 dir ''cpu.cfs_quota_us'';
     let (ok3, burst) = GetContainersCpuInfo fs 0 dir ''cpu.cfs_burst_us'';
     let (ok4, cpuset) = GetContainersCpusetInfo fs dir ''cpuset.cpus'';
     let (ok5, memset) = GetContainersCpusetInfo fs dir ''cpuset.mems'';
     (ok6, tids) \<leftarrow> GetContainerTasks fs dir;
     let (ok7, cpuacct) = GetContainersCpuInfo fs 0 dir ''cpuacct.usage'';
     let soft = snd (GetContainersCpuInfo fs (-1) dir ''cpu.soft_quota'');
     Some (ok1 \<and> ok2 \<and> ok3 \<and> ok4 \<and> ok5 \<and> ok6 \<and> ok7,
       \<lparr>cn_id = dir, cfs_period_us = period, cfs_quota_us = quota, cfs_burst_us = burst, cpu_usage = cpuacct,
        sampling_timestamp = ce_clock env, soft_quota = soft, cpus = cpuset, mems = memset, system_cpu_usage = usage, tasks = tids\<rparr>)
   }"

fun collect_all :: "files \<Rightarrow> collector_env \<Rightarrow> u64 \<Rightarrow> string list \<Rightarrow> (string \<times> Container) list \<Rightarrow> (string \<times> Container) list option" where
  "collect_all fs env usage [] m = Some m"
| "collect_all fs env usage (dir # dirs) m = do {
     (ret, container) \<leftarrow> collect_container fs env usage dir;
     collect_all fs env usage dirs (if ret then AList.update dir container m else m)
   }"

definition DockerUpdate :: "files \<Rightarrow> collector_env \<Rightarrow> string list \<Rightarrow> docker_adapt \<Rightarrow> docker_adapt option" where
  "DockerUpdate fs env directories st = do {
     m \<leftarrow> collect_all fs env (GetSystemCpuStatInfo fs (ce_junk env) (ce_usage env)) directories
       (filter (\<lambda>it. fst it \<in> set directories) (da_containers st));
     Some (st\<lparr>da_containers := m\<rparr>)
   }"

text \<open>The entries of the directory, each with whether it is itself a directory; \<open>None\<close> when it cannot be opened.\<close>

definition sub_dirs :: "collector_env \<Rightarrow> string list" where
  "sub_dirs env =
     (case ce_dir env of
        None \<Rightarrow> []
      | Some entries \<Rightarrow> remdups (map fst (filter (\<lambda>(name, is_dir). is_dir \<and> name \<noteq> ''.'' \<and> name \<noteq> ''..'') entries)))"

definition DockerCollect :: "files \<Rightarrow> collector_env \<Rightarrow> docker_adapt \<Rightarrow> docker_adapt option" where
  "DockerCollect fs env st = DockerUpdate fs env (sub_dirs env) st"

text \<open>\<open>Run\<close> publishes the containers in the order of the map.\<close>

definition Docker_Run :: "files \<Rightarrow> collector_env \<Rightarrow> docker_adapt \<Rightarrow> (Container list option \<times> docker_adapt) option" where
  "Docker_Run fs env st =
     (if \<not> openStatus st then Some (None, st)
      else do { st1 \<leftarrow> DockerCollect fs env st; Some (Some (map snd (da_containers st1)), st1) })"

definition Docker_OpenTopic :: "docker_adapt \<Rightarrow> Result \<times> docker_adapt" where
  "Docker_OpenTopic st = (\<lparr>code = OK, payload = []\<rparr>, st\<lparr>openStatus := True\<rparr>)"

definition Docker_CloseTopic :: "docker_adapt \<Rightarrow> docker_adapt" where
  "Docker_CloseTopic st = st\<lparr>openStatus := False\<rparr>"

subsection \<open>The speed of the cores\<close>

definition GetCpuCycles :: "files \<Rightarrow> int \<Rightarrow> u64" where
  "GetCpuCycles fs cpu =
     (case fs (''/sys/devices/system/cpu/cpu'' @ to_string cpu @ ''/cpufreq/scaling_cur_freq'') of
        None \<Rightarrow> 0
      | Some content \<Rightarrow> (case read_ulong 0 (content, False) of (freq, _, failed) \<Rightarrow> if failed then 0 else freq * 1000))"

text \<open>
  The first line of \<open>dmidecode\<close>: blanks at its end are dropped and anything but digits is refused.
  \<open>std::stoull\<close> throws when there is no digit left and when the number is too large.
\<close>

definition dmi_blank :: "char \<Rightarrow> bool" where
  "dmi_blank c = (c \<in> {CHR '' '', CHR 0x09, CHR 0x0A, CHR 0x0D})"

definition GetCpuFreqByDmi :: "string option \<Rightarrow> u64 option" where
  "GetCpuFreqByDmi output =
     (case output of
        None \<Rightarrow> Some 0
      | Some s \<Rightarrow>
          if s = [] then Some 0
          else (let buffer = cstr (take (fgets_len 128 s) s);
                    str = rev (dropWhile dmi_blank (rev buffer)) in
                if \<not> list_all isdigit str then Some 0
                else if str = [] \<or> 2 ^ 64 \<le> dec_value str then None
                else Some (word_of_nat (dec_value str) * 1000000)))"

subsection \<open>What the collector holds\<close>

lemma read_long_to_string:
  "- (2 ^ 63) \<le> v \<Longrightarrow> v < 2 ^ 63 \<Longrightarrow> read_long (to_string v @ [NL]) old = (True, v)"
  by (simp add: read_long_def strtol10_to_string_then isdigit_def NL_def)

lemma collect_container_fields:
  "collect_container fs env usage dir = Some (True, c) \<Longrightarrow>
     cn_id c = dir \<and> cfs_burst_us c = snd (GetContainersCpuInfo fs 0 dir ''cpu.cfs_burst_us'')"
  by (auto simp: collect_container_def split: prod.splits bind_splits)

text \<open>Every entry is one the map had, or one just read from the files; all are in the directories.\<close>

lemma collect_all_entries:
  assumes "collect_all fs env usage dirs m = Some m'" "map_of m' i = Some c"
  shows "map_of m i = Some c \<or> (i \<in> set dirs \<and> collect_container fs env usage i = Some (True, c))"
  using assms
proof (induction dirs arbitrary: m)
  case Nil
  then show ?case by simp
next
  case (Cons dir dirs)
  then obtain ret d where d: "collect_container fs env usage dir = Some (ret, d)"
    and r: "collect_all fs env usage dirs (if ret then AList.update dir d m else m) = Some m'"
    by (auto split: bind_splits)
  with Cons.IH [OF r Cons.prems(2)] show ?case
    by (auto simp: store_simps split: if_splits)
qed

lemma collect_all_keys:
  "collect_all fs env usage dirs m = Some m' \<Longrightarrow> distinct (map fst m) \<Longrightarrow>
     distinct (map fst m') \<and> fst ` set m' \<subseteq> fst ` set m \<union> set dirs"
proof (induction dirs arbitrary: m)
  case (Cons dir dirs)
  then obtain ret d where d: "collect_container fs env usage dir = Some (ret, d)"
    and r: "collect_all fs env usage dirs (if ret then AList.update dir d m else m) = Some m'"
    by (auto split: bind_splits)
  have "fst ` set (AList.update dir d m) = insert dir (fst ` set m)"
    by (simp add: update_keys flip: set_map) (auto simp: dom_map_of_conv_image_fst)
  moreover have "distinct (map fst (AList.update dir d m))"
    using Cons.prems(2) by (rule distinct_update)
  ultimately show ?case
    using Cons.IH [OF r] Cons.prems(2) by (cases ret) auto
qed simp

end
