(* ===== verification/Cpu_Burst.thy ===== *)
theory Cpu_Burst
  imports Docker_Collector
begin

text \<open>
  The plugin that raises the burst of containers while the machine is not busy,
  \<^verbatim>\<open>src/plugin/tune/docker/cpu_burst\<close>, together with the collector that feeds it.

  \<open>cpu_burst\<close> is the singleton \<open>CpuBurst\<close> with the control files. The cycles of the cores are kept
  as 64-bit words. The properties are about runs of the two plugins, steps of \<open>burst_step\<close>.
\<close>

subsection \<open>State\<close>

record ContainerTune =
  ct_id :: string
  ct_period_us :: int
  ct_quota_us :: int
  ct_burst_us :: int
  cfs_burst_us_ori :: int

record cpu_burst =
  cpuNum :: "32 word"
  maxSysCycles :: u64
  curSysCycles :: u64
  maxCpuFreqByDmi :: u64
  bu_containers :: "(string \<times> ContainerTune) list"
  bu_files :: files

record 'd cpu_burst_env =
  bv_fp :: "'d float_ops"
  bv_kernel :: kernel_env
  bv_dmidecode :: "string option"
  bv_nproc :: int

definition blank_tune :: ContainerTune where
  "blank_tune = \<lparr>ct_id = ''null'', ct_period_us = 0, ct_quota_us = 0, ct_burst_us = 0, cfs_burst_us_ori = 0\<rparr>"

definition cpu_burst_new :: "u64 \<Rightarrow> files \<Rightarrow> cpu_burst" where
  "cpu_burst_new junk fs = \<lparr>cpuNum = 0, maxSysCycles = 0, curSysCycles = 0, maxCpuFreqByDmi = junk, bu_containers = [], bu_files = fs\<rparr>"

subsection \<open>Operations\<close>

text \<open>The parameter of the function is an \<open>int\<close>, the settings of containers have 64 bits.\<close>

definition SetCfsBurstUs :: "kernel_env \<Rightarrow> string \<Rightarrow> int \<Rightarrow> files \<Rightarrow> files" where
  "SetCfsBurstUs k i cfsBurstUs fs =
     (if i = ''null'' then fs
      else snd (write_file k (cpu_file i ''cpu.cfs_burst_us'') (to_string (to_int32 cfsBurstUs) @ [NL]) fs))"

definition ContainerTune_Exit :: "kernel_env \<Rightarrow> ContainerTune \<Rightarrow> files \<Rightarrow> files" where
  "ContainerTune_Exit k c = SetCfsBurstUs k (ct_id c) (cfs_burst_us_ori c)"

definition CpuBurst_Init :: "'d cpu_burst_env \<Rightarrow> cpu_burst \<Rightarrow> (bool \<times> cpu_burst) option" where
  "CpuBurst_Init env st = do {
     freq \<leftarrow> GetCpuFreqByDmi (bv_dmidecode env);
     let n = (word_of_int (bv_nproc env) :: 32 word);
     let st1 = st\<lparr>curSysCycles := 0, maxCpuFreqByDmi := freq, cpuNum := n\<rparr>;
     if n = 0 then Some (False, st1)
     else do {
       let sum = foldl (\<lambda>acc i. acc + GetCpuCycles (bu_files st) (int i)) (maxSysCycles st) [0..<unat n];
       let total = (if sum = 0 then freq * ucast n else sum);
       Some (total \<noteq> 0, st1\<lparr>maxSysCycles := total\<rparr>)
     }
   }"

definition UpdatePmu :: "(int \<times> u64) list list \<Rightarrow> cpu_burst \<Rightarrow> cpu_burst option" where
  "UpdatePmu dataList st =
     (case dataList of
        [] \<Rightarrow> None
      | pmuData # _ \<Rightarrow>
          Some (st\<lparr>curSysCycles := foldl (\<lambda>acc (cpu, count). if (word_of_int cpu :: 32 word) < cpuNum st then acc + count else acc)
                    (curSysCycles st) pmuData\<rparr>))"

definition track :: "string \<times> Container \<Rightarrow> (string \<times> ContainerTune) list \<Rightarrow> (string \<times> ContainerTune) list" where
  "track entry m =
     (case entry of (i, info) \<Rightarrow>
        let c = (if al_count m i then al_get blank_tune m i
                 else blank_tune\<lparr>ct_id := i, cfs_burst_us_ori := cfs_burst_us info\<rparr>)
        in AList.update i (c\<lparr>ct_period_us := cfs_period_us info, ct_quota_us := cfs_quota_us info, ct_burst_us := cfs_burst_us info\<rparr>) m)"

definition UpdateDocker :: "kernel_env \<Rightarrow> Container list \<Rightarrow> cpu_burst \<Rightarrow> cpu_burst" where
  "UpdateDocker k dataList st =
     (let collector = fold (\<lambda>c. AList.update (cn_id c) c) dataList [];
          m = fold track collector (bu_containers st);
          gone = filter (\<lambda>it. \<not> al_count collector (fst it)) m
      in st\<lparr>bu_containers := filter (\<lambda>it. al_count collector (fst it)) m,
            bu_files := fold (\<lambda>it. ContainerTune_Exit k (snd it)) gone (bu_files st)\<rparr>)"

datatype cpu_burst_data = PmuCycles "(int \<times> u64) list list" | DockerData "Container list"

definition CpuBurst_Update :: "'d cpu_burst_env \<Rightarrow> Topic \<Rightarrow> cpu_burst_data \<Rightarrow> cpu_burst \<Rightarrow> cpu_burst option" where
  "CpuBurst_Update env topic data st =
     (if instanceName topic = ''pmu_counting_collector'' \<and> topicName topic = ''cycles'' then
        (case data of PmuCycles d \<Rightarrow> UpdatePmu d st | DockerData _ \<Rightarrow> None)
      else if instanceName topic = ''docker_collector'' \<and> topicName topic = ''docker_collector'' then
        (case data of PmuCycles _ \<Rightarrow> None | DockerData d \<Rightarrow> Some (UpdateDocker (bv_kernel env) d st))
      else Some st)"

definition CpuBurst_Exit :: "'d cpu_burst_env \<Rightarrow> cpu_burst \<Rightarrow> cpu_burst" where
  "CpuBurst_Exit env st = st\<lparr>curSysCycles := 0,
     bu_files := fold (\<lambda>it. ContainerTune_Exit (bv_kernel env) (snd it)) (bu_containers st) (bu_files st)\<rparr>"

definition busy :: "'d cpu_burst_env \<Rightarrow> int \<Rightarrow> cpu_burst \<Rightarrow> bool" where
  "busy env periodMs st =
     (let fp = bv_fp env; limit = uint (maxSysCycles st * word_of_int periodMs) div 1000
      in fp_lt fp (fp_mul fp (fp_of_int fp limit) (fp_lit fp 9 10)) (fp_of_int fp (uint (curSysCycles st))))"

definition CpuBurst_Tune :: "'d cpu_burst_env \<Rightarrow> int \<Rightarrow> cpu_burst \<Rightarrow> cpu_burst" where
  "CpuBurst_Tune env periodMs st =
     (if busy env periodMs st then CpuBurst_Exit env st
      else st\<lparr>curSysCycles := 0, bu_files := fold
         (\<lambda>(i, c) fs. if ct_burst_us c < ct_quota_us c then SetCfsBurstUs (bv_kernel env) i (ct_quota_us c) fs else fs)
         (bu_containers st) (bu_files st)\<rparr>)"

text \<open>The instance around it; \<open>Enable\<close> and \<open>Disable\<close> return the topics they subscribe to and leave.\<close>

definition cpu_burst_topics :: "Topic list" where
  "cpu_burst_topics = [\<lparr>instanceName = ''pmu_counting_collector'', topicName = ''cycles'', params = []\<rparr>,
     \<lparr>instanceName = ''docker_collector'', topicName = ''docker_collector'', params = []\<rparr>]"

definition CpuBurst_Enable :: "'d cpu_burst_env \<Rightarrow> cpu_burst \<Rightarrow> (Result \<times> Topic list \<times> cpu_burst) option" where
  "CpuBurst_Enable env st = do {
     (good, st1) \<leftarrow> CpuBurst_Init env st;
     if good then Some (\<lparr>code = OK, payload = []\<rparr>, cpu_burst_topics, st1)
     else Some (\<lparr>code = FAILED, payload = ''CpuBurst init failed!''\<rparr>, [], st1)
   }"

definition CpuBurst_Disable :: "'d cpu_burst_env \<Rightarrow> cpu_burst \<Rightarrow> Topic list \<times> cpu_burst" where
  "CpuBurst_Disable env st = (cpu_burst_topics, CpuBurst_Exit env st)"

subsection \<open>Runs of the collector and the plugin\<close>

text \<open>
  The collector runs and what it publishes is delivered, cycles arrive, the plugin tunes, is enabled or
  disabled, in any order. The entries of the directory of containers change freely; the files are only written
  by the plugin.
\<close>

inductive burst_step :: "'d cpu_burst_env \<Rightarrow> docker_adapt \<times> cpu_burst \<Rightarrow> docker_adapt \<times> cpu_burst \<Rightarrow> bool" for env where
  collect: "Docker_Run (bu_files st) ce a = Some (Some d, a1) \<Longrightarrow> burst_step env (a, st) (a1, UpdateDocker (bv_kernel env) d st)"
| cycles: "UpdatePmu d st = Some st1 \<Longrightarrow> burst_step env (a, st) (a, st1)"
| tune: "burst_step env (a, st) (a, CpuBurst_Tune env periodMs st)"
| enable: "CpuBurst_Init env st = Some (good, st1) \<Longrightarrow> burst_step env (a, st) (a, st1)"
| disable: "burst_step env (a, st) (a, CpuBurst_Exit env st)"
| topic: "a1 = snd (Docker_OpenTopic a) \<or> a1 = Docker_CloseTopic a \<Longrightarrow> burst_step env (a, st) (a1, st)"

end
