(* ===== verification/Cpu_Burst_Claims.thy ===== *)
theory Cpu_Burst_Claims
  imports Cpu_Burst
begin

text \<open>
  Runs of the container collector and the burst plugin: whatever happens in between, leaving the plugin
  restores the burst of every container. The invariant \<open>traced\<close> says which value was saved for which container.
  Enabling the plugin again adds to the number of cycles the machine is thought to have.
\<close>

subsection \<open>The burst of a container\<close>

definition burst_file :: "string \<Rightarrow> string" where
  "burst_file i = cpu_file i ''cpu.cfs_burst_us''"

definition get_burst :: "files \<Rightarrow> string \<Rightarrow> int" where
  "get_burst fs i = snd (GetContainersCpuInfo fs 0 i ''cpu.cfs_burst_us'')"

definition can_write :: "kernel_env \<Rightarrow> string \<Rightarrow> files \<Rightarrow> bool" where
  "can_write k i fs = (i \<noteq> ''null'' \<and> fs (burst_file i) \<noteq> None \<and> k_opens k (burst_file i))"

definition good_burst :: "kernel_env \<Rightarrow> int \<Rightarrow> string \<Rightarrow> bool" where
  "good_burst k v i = (- (2 ^ 31) \<le> v \<and> v < 2 ^ 31 \<and> k_accepts k (burst_file i) (to_string v @ [NL]))"

lemma cpu_file_inj [simp]: "cpu_file i e = cpu_file j e \<longleftrightarrow> i = j"
  by (simp add: cpu_file_def)

lemma burst_file_inj [simp]: "burst_file i = burst_file j \<longleftrightarrow> i = j"
  by (simp add: burst_file_def)

lemma burst_file_image [simp]: "burst_file i \<in> burst_file ` ids \<longleftrightarrow> i \<in> ids"
  by auto

lemma to_int32_id: "- (2 ^ 31) \<le> v \<Longrightarrow> v < 2 ^ 31 \<Longrightarrow> to_int32 v = v"
  by (simp add: to_int32_def)

interpretation cb: saved_setting burst_file get_burst "\<lambda>v i. SetCfsBurstUs k i v" "can_write k" "good_burst k" for k
proof
  fix p v and fs :: files
  assume "can_write k p fs" "good_burst k v p"
  then show "get_burst (SetCfsBurstUs k p v fs) p = v"
    by (auto simp: can_write_def good_burst_def get_burst_def SetCfsBurstUs_def GetContainersCpuInfo_def burst_file_def
      to_int32_id write_file_def read_long_to_string)
qed (auto simp: can_write_def get_burst_def SetCfsBurstUs_def GetContainersCpuInfo_def burst_file_def write_file_locked
  simp flip: not_None_eq)

text \<open>What writing the bursts of some containers may change.\<close>

definition touched :: "kernel_env \<Rightarrow> string set \<Rightarrow> files \<Rightarrow> files \<Rightarrow> bool" where
  "touched k ids fs fs' = ((\<forall>q. q \<notin> burst_file ` ids \<longrightarrow> fs' q = fs q) \<and> (\<forall>q. fs' q = None \<longleftrightarrow> fs q = None) \<and>
     (\<forall>i. \<not> can_write k i fs \<longrightarrow> fs' (burst_file i) = fs (burst_file i)))"

lemma can_write_exists: "(\<And>q. fs' q = None \<longleftrightarrow> fs q = None) \<Longrightarrow> can_write k i fs' \<longleftrightarrow> can_write k i fs"
  by (rule cb.writable_exists)

lemma touched_refl [simp]: "touched k ids fs fs"
  by (simp add: touched_def)

lemma touched_trans:
  assumes "touched k ids fs fs1" "touched k ids fs1 fs2"
  shows "touched k ids fs fs2"
proof -
  have "can_write k i fs1 \<longleftrightarrow> can_write k i fs" for i
    using assms(1) by (intro can_write_exists) (simp add: touched_def)
  with assms show ?thesis by (simp add: touched_def)
qed

lemma touched_put: "i \<in> ids \<Longrightarrow> touched k ids fs (SetCfsBurstUs k i v fs)"
  unfolding touched_def
proof (intro conjI allI impI)
  show "SetCfsBurstUs k i v fs q = fs q" if "i \<in> ids" "q \<notin> burst_file ` ids" for q
    using that by (intro cb.put_other) auto
  show "SetCfsBurstUs k i v fs q = None \<longleftrightarrow> fs q = None" for q
    by (rule cb.put_exists)
  show "SetCfsBurstUs k i v fs (burst_file j) = fs (burst_file j)" if "\<not> can_write k j fs" for j
    using that by (cases "i = j") (simp_all add: cb.put_locked cb.put_other)
qed

lemma touched_fold:
  "(\<And>x fs. x \<in> set xs \<Longrightarrow> touched k ids fs (f x fs)) \<Longrightarrow> touched k ids fs (fold f xs fs)"
proof (induction xs arbitrary: fs)
  case (Cons x xs)
  have "touched k ids fs (f x fs)" by (rule Cons.prems) simp
  moreover have "touched k ids (f x fs) (fold f xs (f x fs))" using Cons by simp
  ultimately show ?case by (simp add: touched_trans)
qed simp

subsection \<open>The maps of the collector and of the plugin\<close>

lemma map_of_collector:
  assumes "\<forall>(i, c) \<in> set m. cn_id c = i" "distinct (map fst m)"
  shows "map_of (fold (\<lambda>c. AList.update (cn_id c) c) (map snd m) m0) i = (case map_of m i of None \<Rightarrow> map_of m0 i | Some c \<Rightarrow> Some c)"
  using assms
proof (induction m arbitrary: m0)
  case (Cons e m)
  obtain j c where e: "e = (j, c)" "cn_id c = j" "map_of m j = None"
    using Cons.prems by (cases e) (auto simp: map_of_eq_None_iff)
  with Cons show ?case
    by (simp add: store_simps split: option.split)
qed simp

lemma distinct_collector: "distinct (map fst m0) \<Longrightarrow> distinct (map fst (fold (\<lambda>c. AList.update (cn_id c) c) cs m0))"
  by (induction cs arbitrary: m0) (simp_all add: distinct_update)

lemma map_of_track:
  "map_of (track (i, info) m) = (map_of m)(i \<mapsto>
     (case map_of m i of Some c \<Rightarrow> c | None \<Rightarrow> blank_tune\<lparr>ct_id := i, cfs_burst_us_ori := cfs_burst_us info\<rparr>)
       \<lparr>ct_period_us := cfs_period_us info, ct_quota_us := cfs_quota_us info, ct_burst_us := cfs_burst_us info\<rparr>)"
  by (auto simp: track_def Let_def store_simps al_count_def al_get_def split: option.splits)

lemma distinct_track: "distinct (map fst m) \<Longrightarrow> distinct (map fst (track e m))"
  by (simp add: track_def Let_def distinct_update split: prod.splits)

lemma distinct_fold_track: "distinct (map fst m) \<Longrightarrow> distinct (map fst (fold track es m))"
  by (induction es arbitrary: m) (simp_all add: distinct_track)

text \<open>A container that is known keeps what was saved; a new one saves the burst it is reported with.\<close>

lemma fold_track_saved:
  assumes "distinct (map fst es)" "map_of (fold track es m) i = Some c"
  shows "case map_of m i of
      Some c0 \<Rightarrow> ct_id c = ct_id c0 \<and> cfs_burst_us_ori c = cfs_burst_us_ori c0
    | None \<Rightarrow> (\<exists>info. map_of es i = Some info \<and> ct_id c = i \<and> cfs_burst_us_ori c = cfs_burst_us info)"
  using assms
proof (induction es arbitrary: m)
  case Nil
  then show ?case by simp
next
  case (Cons e es)
  obtain j info where e: "e = (j, info)" by fastforce
  have ih: "case map_of (track e m) i of
      Some c0 \<Rightarrow> ct_id c = ct_id c0 \<and> cfs_burst_us_ori c = cfs_burst_us_ori c0
    | None \<Rightarrow> (\<exists>info. map_of es i = Some info \<and> ct_id c = i \<and> cfs_burst_us_ori c = cfs_burst_us info)"
    using Cons by simp
  show ?case
  proof (cases "j = i")
    case True
    with ih show ?thesis by (simp add: e map_of_track split: option.splits)
  next
    case False
    with ih show ?thesis by (simp add: e map_of_track split: option.splits)
  qed
qed

lemma fold_track_keys: "fst ` set (fold track es m) = fst ` set m \<union> fst ` set es"
proof (induction es arbitrary: m)
  case (Cons e es)
  have "fst ` set (track e m) = insert (fst e) (fst ` set m)"
    by (cases e) (auto simp: map_of_track simp flip: dom_map_of_conv_image_fst)
  with Cons show ?case by auto
qed simp

subsection \<open>The invariant of runs\<close>

definition traced :: "kernel_env \<Rightarrow> files \<Rightarrow> docker_adapt \<times> cpu_burst \<Rightarrow> bool" where
  "traced k fs0 s = (case s of (a, st) \<Rightarrow>
     distinct (map fst (bu_containers st)) \<and> distinct (map fst (da_containers a)) \<and>
     (\<forall>i c. map_of (bu_containers st) i = Some c \<longrightarrow> ct_id c = i \<and> cfs_burst_us_ori c = get_burst fs0 i) \<and>
     (\<forall>i c. map_of (da_containers a) i = Some c \<longrightarrow>
        cn_id c = i \<and> (map_of (bu_containers st) i = None \<longrightarrow> cfs_burst_us c = get_burst fs0 i)) \<and>
     (\<forall>i. map_of (bu_containers st) i = None \<longrightarrow> get_burst (bu_files st) i = get_burst fs0 i) \<and>
     touched k UNIV fs0 (bu_files st))"

lemma touched_mono: "touched k ids fs fs' \<Longrightarrow> ids \<subseteq> jds \<Longrightarrow> touched k jds fs fs'"
  unfolding touched_def by (meson image_mono subsetD)

lemma touched_get: "touched k ids fs fs' \<Longrightarrow> i \<notin> ids \<Longrightarrow> get_burst fs' i = get_burst fs i"
  by (intro cb.get_local) (simp add: touched_def)

lemma traced_touched:
  assumes "traced k fs0 (a, st)" "touched k (fst ` set (bu_containers st)) (bu_files st) fs"
  shows "traced k fs0 (a, st\<lparr>curSysCycles := v, bu_files := fs\<rparr>)"
proof -
  have "get_burst fs i = get_burst (bu_files st) i" if "map_of (bu_containers st) i = None" for i
    using that by (intro touched_get [OF assms(2)]) (simp add: map_of_eq_None_iff)
  moreover have "touched k UNIV fs0 fs"
  proof (rule touched_trans)
    show "touched k UNIV fs0 (bu_files st)" using assms(1) by (simp add: traced_def)
    show "touched k UNIV (bu_files st) fs" using assms(2) by (rule touched_mono) simp
  qed
  ultimately show ?thesis
    using assms(1) by (simp add: traced_def)
qed

text \<open>Leaving containers writes back what was saved for them.\<close>

lemma fold_Exit:
  assumes "\<forall>(i, c) \<in> set es. ct_id c = i \<and> cfs_burst_us_ori c = get_burst fs0 i"
  shows "fold (\<lambda>it. ContainerTune_Exit k (snd it)) es = cb.put_all k (map (\<lambda>i. (i, get_burst fs0 i)) (map fst es))"
  using assms by (induction es) (auto simp: ContainerTune_Exit_def fun_eq_iff)

lemma touched_Exit:
  "\<forall>(i, c) \<in> set es. ct_id c = i \<Longrightarrow> touched k (fst ` set es) fs (fold (\<lambda>it. ContainerTune_Exit k (snd it)) es fs)"
  by (intro touched_fold) (auto simp: ContainerTune_Exit_def intro!: touched_put rev_image_eqI)

lemma put_back:
  assumes "touched k UNIV fs0 fs" "\<forall>i. fs0 (burst_file i) \<noteq> None \<longrightarrow> good_burst k (get_burst fs0 i) i" "i \<in> set ids"
  shows "get_burst (cb.put_all k (map (\<lambda>i. (i, get_burst fs0 i)) ids) fs) i = get_burst fs0 i"
proof (rule cb.get_put_all)
  have w: "can_write k i fs \<longleftrightarrow> can_write k i fs0"
    using assms(1) by (intro can_write_exists) (simp add: touched_def)
  have "get_burst fs i = get_burst fs0 i" if "\<not> can_write k i fs0"
    using that assms(1) by (intro cb.get_local) (simp add: touched_def)
  with w assms(2) show "can_write k i fs \<and> good_burst k (get_burst fs0 i) i \<or> \<not> can_write k i fs \<and> get_burst fs i = get_burst fs0 i"
    by (auto simp: can_write_def)
qed (use assms(3) in auto)

lemma map_of_filter_key: "map_of (filter (\<lambda>it. P (fst it)) m) i = (if P i then map_of m i else None)"
  by (induction m) auto

text \<open>What the collector publishes: for a container the plugin does not know, the burst it had at the start.\<close>

lemma collector_entries:
  assumes t: "traced k fs0 (a, st)" and run: "Docker_Run (bu_files st) ce a = Some (Some d, a1)"
  shows "d = map snd (da_containers a1)" "distinct (map fst (da_containers a1))"
    and "map_of (da_containers a1) i = Some c \<Longrightarrow> cn_id c = i \<and> (map_of (bu_containers st) i = None \<longrightarrow> cfs_burst_us c = get_burst fs0 i)"
proof -
  obtain usage where all: "collect_all (bu_files st) ce usage (sub_dirs ce)
      (filter (\<lambda>it. fst it \<in> set (sub_dirs ce)) (da_containers a)) = Some (da_containers a1)" and d: "d = map snd (da_containers a1)"
    using run by (auto simp: Docker_Run_def DockerCollect_def DockerUpdate_def split: if_splits bind_splits)
  show "d = map snd (da_containers a1)" by (rule d)
  show "distinct (map fst (da_containers a1))"
    using collect_all_keys [OF all] t by (simp add: traced_def distinct_map_filter)
  assume "map_of (da_containers a1) i = Some c"
  from collect_all_entries [OF all this]
  show "cn_id c = i \<and> (map_of (bu_containers st) i = None \<longrightarrow> cfs_burst_us c = get_burst fs0 i)"
  proof
    assume "map_of (filter (\<lambda>it. fst it \<in> set (sub_dirs ce)) (da_containers a)) i = Some c"
    then have "map_of (da_containers a) i = Some c"
      by (simp add: map_of_filter_key [of "\<lambda>i. i \<in> set (sub_dirs ce)"] split: if_splits)
    with t show ?thesis by (simp add: traced_def)
  next
    assume "i \<in> set (sub_dirs ce) \<and> collect_container (bu_files st) ce usage i = Some (True, c)"
    then have "cn_id c = i" "cfs_burst_us c = get_burst (bu_files st) i"
      by (auto dest: collect_container_fields simp: get_burst_def)
    with t show ?thesis by (simp add: traced_def)
  qed
qed

lemma traced_UpdateDocker:
  assumes t: "traced k fs0 (a, st)" and run: "Docker_Run (bu_files st) ce a = Some (Some d, a1)"
    and good: "\<forall>i. fs0 (burst_file i) \<noteq> None \<longrightarrow> good_burst k (get_burst fs0 i) i"
  shows "traced k fs0 (a1, UpdateDocker k d st)"
proof -
  note d = collector_entries(1) [OF t run] and dist = collector_entries(2) [OF t run]
    and entry = collector_entries(3) [OF t run]
  let ?coll = "fold (\<lambda>c. AList.update (cn_id c) c) d []"
  let ?m = "fold track ?coll (bu_containers st)"
  let ?gone = "filter (\<lambda>it. \<not> al_count ?coll (fst it)) ?m"
  let ?fs = "fold (\<lambda>it. ContainerTune_Exit k (snd it)) ?gone (bu_files st)"
  have coll: "map_of ?coll i = map_of (da_containers a1) i" for i
    unfolding d using entry dist by (subst map_of_collector) (auto split: option.splits)
  have dcoll: "distinct (map fst ?coll)" by (rule distinct_collector) simp
  have dm: "distinct (map fst ?m)" using t by (intro distinct_fold_track) (simp add: traced_def)
  have saved: "ct_id c = i \<and> cfs_burst_us_ori c = get_burst fs0 i" if "map_of ?m i = Some c" for i c
    using fold_track_saved [OF dcoll that] t entry coll by (auto simp: traced_def split: option.splits)
  have ids: "fst ` set ?m = fst ` set (bu_containers st) \<union> fst ` set ?coll" by (rule fold_track_keys)
  have now: "map_of (filter (\<lambda>it. al_count ?coll (fst it)) ?m) i = (if map_of (da_containers a1) i = None then None else map_of ?m i)" for i
    using map_of_filter_key [of "al_count ?coll" ?m i] coll [of i] by (simp add: al_count_def)
  have known: "map_of ?m i \<noteq> None" if "map_of (da_containers a1) i \<noteq> None" for i
    using that ids unfolding coll [symmetric] by (auto simp: map_of_eq_None_iff)
  have gone: "\<forall>(i, c) \<in> set ?gone. ct_id c = i \<and> cfs_burst_us_ori c = get_burst fs0 i"
    using saved dm by auto
  have tf: "touched k (fst ` set ?gone) (bu_files st) ?fs" using gone by (intro touched_Exit) auto
  have t0: "touched k UNIV fs0 (bu_files st)" using t by (simp add: traced_def)
  have kept: "get_burst ?fs i = get_burst fs0 i" if "map_of (da_containers a1) i = None" for i
  proof (cases "i \<in> fst ` set ?gone")
    case True
    then show ?thesis unfolding fold_Exit [OF gone] by (intro put_back [OF t0 good]) simp
  next
    case False
    have "\<not> al_count ?coll i" using that coll [of i] by (simp add: al_count_def)
    with False have "i \<notin> fst ` set ?m" by auto
    then have "map_of (bu_containers st) i = None" using ids by (simp add: map_of_eq_None_iff)
    then have "get_burst (bu_files st) i = get_burst fs0 i" using t by (simp add: traced_def)
    with touched_get [OF tf False] show ?thesis by simp
  qed
  have st1: "bu_containers (UpdateDocker k d st) = filter (\<lambda>it. al_count ?coll (fst it)) ?m"
    "bu_files (UpdateDocker k d st) = ?fs"
    by (simp_all add: UpdateDocker_def Let_def)
  show ?thesis
    unfolding traced_def prod.case st1 now
  proof (intro conjI allI impI)
    show "distinct (map fst (filter (\<lambda>it. al_count ?coll (fst it)) ?m))" by (rule distinct_map_filter [OF dm])
    show "touched k UNIV fs0 ?fs" using t0 touched_mono [OF tf] by (rule touched_trans) simp
    show "get_burst ?fs i = get_burst fs0 i" if "(if map_of (da_containers a1) i = None then None else map_of ?m i) = None" for i
      using that known [of i] by (intro kept) (auto split: if_splits)
    show "cfs_burst_us c = get_burst fs0 i"
      if "map_of (da_containers a1) i = Some c" "(if map_of (da_containers a1) i = None then None else map_of ?m i) = None" for i c
      using that known [of i] by simp
  qed (use dist saved entry in \<open>auto split: if_splits\<close>)
qed

lemma traced_same:
  "traced k fs0 (a, st) \<Longrightarrow> bu_containers st1 = bu_containers st \<Longrightarrow> bu_files st1 = bu_files st \<Longrightarrow>
     da_containers a1 = da_containers a \<Longrightarrow> traced k fs0 (a1, st1)"
  by (simp add: traced_def)

lemma traced_Exit: "traced (bv_kernel env) fs0 (a, st) \<Longrightarrow> traced (bv_kernel env) fs0 (a, CpuBurst_Exit env st)"
  unfolding CpuBurst_Exit_def by (intro traced_touched touched_Exit) (auto simp: traced_def)

lemma touched_Tune:
  "touched k (fst ` set es) fs (fold (\<lambda>(i, c) fs. if ct_burst_us c < ct_quota_us c then SetCfsBurstUs k i (ct_quota_us c) fs else fs) es fs)"
  by (intro touched_fold) (auto intro!: touched_put rev_image_eqI)

lemma traced_step:
  assumes "burst_step env s s'" "traced (bv_kernel env) fs0 s"
    and "\<forall>i. fs0 (burst_file i) \<noteq> None \<longrightarrow> good_burst (bv_kernel env) (get_burst fs0 i) i"
  shows "traced (bv_kernel env) fs0 s'"
  using assms(1)
proof cases
  case (collect st ce a d a1)
  with assms show ?thesis by (auto intro: traced_UpdateDocker)
next
  case (cycles d st st1 a)
  with assms(2) show ?thesis by (auto simp: UpdatePmu_def split: list.splits intro: traced_same)
next
  case (tune a st periodMs)
  with assms(2) show ?thesis
    by (auto simp: CpuBurst_Tune_def intro: traced_Exit traced_touched touched_Tune)
next
  case (enable st good st1 a)
  with assms(2) show ?thesis
    by (auto simp: CpuBurst_Init_def Let_def split: bind_splits if_splits intro: traced_same)
next
  case (disable a st)
  with assms(2) show ?thesis by (auto intro: traced_Exit)
next
  case (topic a1 a st)
  with assms(2) show ?thesis
    by (auto simp: Docker_OpenTopic_def Docker_CloseTopic_def intro: traced_same)
qed

lemma traced_run:
  assumes "(burst_step env)\<^sup>*\<^sup>* s s'" "traced (bv_kernel env) fs0 s"
    and "\<forall>i. fs0 (burst_file i) \<noteq> None \<longrightarrow> good_burst (bv_kernel env) (get_burst fs0 i) i"
  shows "traced (bv_kernel env) fs0 s'"
  using assms by (induction rule: rtranclp_induct) (auto intro: traced_step)

subsection \<open>Enabling again\<close>












subsection \<open>Properties\<close>

text \<open>C30. However the collector and the plugin have run since the start, leaving the plugin restores the burst
  of every container, also of those it no longer knows, and no other file was ever changed. The
  bursts at the start are values of \<open>int\<close>, the type of the parameter of \<open>SetCfsBurstUs\<close>, and the kernel
  accepts them (\<open>good_burst\<close>); what the collector finds is delivered before the next step.\<close>

theorem CpuBurst_Exit_restores:
  assumes "(burst_step env)\<^sup>*\<^sup>* (\<lparr>openStatus = b, da_containers = []\<rparr>, cpu_burst_new junk fs0) (a, st)"
    and "\<forall>i. fs0 (burst_file i) \<noteq> None \<longrightarrow> good_burst (bv_kernel env) (get_burst fs0 i) i"
  shows "(\<forall>i. get_burst (bu_files (CpuBurst_Exit env st)) i = get_burst fs0 i) \<and>
    (\<forall>q. q \<notin> range burst_file \<longrightarrow> bu_files (CpuBurst_Exit env st) q = fs0 q)"
proof -
  let ?fs = "bu_files (CpuBurst_Exit env st)"
  have "traced (bv_kernel env) fs0 (\<lparr>openStatus = b, da_containers = []\<rparr>, cpu_burst_new junk fs0)"
    by (simp add: traced_def cpu_burst_new_def)
  from traced_run [OF assms(1) this assms(2)] have t: "traced (bv_kernel env) fs0 (a, st)" .
  then have t1: "traced (bv_kernel env) fs0 (a, CpuBurst_Exit env st)" by (rule traced_Exit)
  have saved: "\<forall>(i, c) \<in> set (bu_containers st). ct_id c = i \<and> cfs_burst_us_ori c = get_burst fs0 i"
    using t by (auto simp: traced_def)
  have "get_burst ?fs i = get_burst fs0 i" for i
  proof (cases "i \<in> fst ` set (bu_containers st)")
    case True
    have "touched (bv_kernel env) UNIV fs0 (bu_files st)" using t by (simp add: traced_def)
    from put_back [OF this assms(2), of i "map fst (bu_containers st)"] True show ?thesis
      by (simp add: CpuBurst_Exit_def fold_Exit [OF saved])
  next
    case False
    with t1 show ?thesis by (simp add: traced_def CpuBurst_Exit_def map_of_eq_None_iff)
  qed
  moreover have "touched (bv_kernel env) UNIV fs0 ?fs" using t1 by (simp add: traced_def)
  ultimately show ?thesis by (simp add: touched_def)
qed


subsection \<open>One container on one core\<close>

text \<open>A core of 2 MHz and a container \<open>a\<close> with a quota of 1 ms and no burst. The kernel accepts everything.\<close>

definition demo_cpu_files :: files where
  "demo_cpu_files p =
     (if p = burst_file ''a'' then Some ''0''
      else if p = cpu_file ''a'' ''cpu.cfs_quota_us'' then Some ''1000''
      else if p = cpu_file ''a'' ''cpu.cfs_period_us'' \<or> p = cpu_file ''a'' ''cpuacct.usage'' then Some ''1''
      else if p = cpu_file ''a'' ''tasks'' then Some ''7''
      else if p = cpuset_file ''a'' ''cpuset.cpus'' \<or> p = cpuset_file ''a'' ''cpuset.mems'' then Some ''0''
      else if p = ''/sys/devices/system/cpu/cpu0/cpufreq/scaling_cur_freq'' then Some ''2000''
      else None)"

definition demo_cpu_burst_env :: "rat cpu_burst_env" where
  "demo_cpu_burst_env = \<lparr>bv_fp = rat_ops, bv_kernel = \<lparr>k_opens = (\<lambda>_. True), k_accepts = (\<lambda>_ _. True)\<rparr>, bv_dmidecode = None, bv_nproc = 1\<rparr>"

definition demo_collector_env :: collector_env where
  "demo_collector_env = \<lparr>ce_clock = 0, ce_junk = [], ce_usage = 0, ce_dir = Some [(''.'', True), (''a'', True)]\<rparr>"

definition demo_ready :: cpu_burst where
  "demo_ready = (cpu_burst_new 0 demo_cpu_files)\<lparr>cpuNum := 1, maxSysCycles := 2000000\<rparr>"

definition demo_tuned :: "(docker_adapt \<times> cpu_burst) option" where
  "demo_tuned = do {
     (d, a) \<leftarrow> Docker_Run demo_cpu_files demo_collector_env \<lparr>openStatus = True, da_containers = []\<rparr>;
     data \<leftarrow> d;
     Some (a, CpuBurst_Tune demo_cpu_burst_env 1000 (UpdateDocker (bv_kernel demo_cpu_burst_env) data demo_ready))
   }"

lemma demo_speed: "GetCpuCycles demo_cpu_files 0 = 2000000"
proof -
  have "demo_cpu_files ''/sys/devices/system/cpu/cpu0/cpufreq/scaling_cur_freq'' = Some ''2000''" "to_string 0 = ''0''"
    by code_simp+
  then show ?thesis
    by (simp add: GetCpuCycles_def read_ulong_def skip_sign_def isspace_def isdigit_def dec_value_def)
qed

lemma demo_Init: "CpuBurst_Init demo_cpu_burst_env st =
    Some (True, st\<lparr>curSysCycles := 0, maxCpuFreqByDmi := 0, cpuNum := 1, maxSysCycles := maxSysCycles st + 2000000\<rparr>)"
  if "bu_files st = demo_cpu_files" "maxSysCycles st + 2000000 \<noteq> 0"
  using that demo_speed by (simp add: CpuBurst_Init_def demo_cpu_burst_env_def GetCpuFreqByDmi_def)

lemma demo_started: "CpuBurst_Init demo_cpu_burst_env (cpu_burst_new 0 demo_cpu_files) = Some (True, demo_ready)"
  by (subst demo_Init) (simp_all add: cpu_burst_new_def demo_ready_def)

lemma demo_tuned_burst: "map_option (\<lambda>(a, st). get_burst (bu_files st) ''a'') demo_tuned = Some 1000"
  by code_simp

lemma demo_tuned_run:
  assumes "demo_tuned = Some (a, st)"
  shows "(burst_step demo_cpu_burst_env)\<^sup>*\<^sup>* (\<lparr>openStatus = True, da_containers = []\<rparr>, cpu_burst_new 0 demo_cpu_files) (a, st)"
proof -
  obtain d where d: "Docker_Run demo_cpu_files demo_collector_env \<lparr>openStatus = True, da_containers = []\<rparr> = Some (Some d, a)"
    and st: "st = CpuBurst_Tune demo_cpu_burst_env 1000 (UpdateDocker (bv_kernel demo_cpu_burst_env) d demo_ready)"
    using assms by (auto simp: demo_tuned_def split: bind_splits)
  have "bu_files demo_ready = demo_cpu_files" by (simp add: demo_ready_def cpu_burst_new_def)
  with d have d': "Docker_Run (bu_files demo_ready) demo_collector_env \<lparr>openStatus = True, da_containers = []\<rparr> = Some (Some d, a)" by simp
  let ?r = "burst_step demo_cpu_burst_env" and ?a = "\<lparr>openStatus = True, da_containers = []\<rparr>"
  let ?st = "UpdateDocker (bv_kernel demo_cpu_burst_env) d demo_ready"
  have s1: "?r (?a, cpu_burst_new 0 demo_cpu_files) (?a, demo_ready)"
    using demo_started by (rule burst_step.enable)
  have s2: "?r (?a, demo_ready) (a, ?st)"
    using d' by (rule burst_step.collect)
  have "?r (a, ?st) (a, st)"
    unfolding st by (rule burst_step.tune)
  then have "?r\<^sup>*\<^sup>* (a, ?st) (a, st)" by (rule r_into_rtranclp)
  with s2 have "?r\<^sup>*\<^sup>* (?a, demo_ready) (a, st)" by (rule converse_rtranclp_into_rtranclp)
  with s1 show ?thesis by (rule converse_rtranclp_into_rtranclp)
qed

lemma demo_good_burst:
  "\<forall>i. demo_cpu_files (burst_file i) \<noteq> None \<longrightarrow> good_burst (bv_kernel demo_cpu_burst_env) (get_burst demo_cpu_files i) i"
proof -
  have "snd (read_long ''0'' 0) = 0" "snd (read_long ''1'' 0) = 1" "snd (read_long ''7'' 0) = 7"
      "snd (read_long ''1000'' 0) = 1000" "snd (read_long ''2000'' 0) = 2000"
    by code_simp+
  then have "0 \<le> get_burst demo_cpu_files i \<and> get_burst demo_cpu_files i < 2 ^ 31" for i
    by (simp add: get_burst_def GetContainersCpuInfo_def demo_cpu_files_def split: option.splits)
  then show ?thesis
    by (auto simp: good_burst_def demo_cpu_burst_env_def intro: order_trans [of _ 0])
qed

theorem CpuBurst_Exit_restores_witness:
  "\<exists>a st. demo_tuned = Some (a, st) \<and> get_burst (bu_files st) ''a'' = 1000 \<and>
     get_burst (bu_files (CpuBurst_Exit demo_cpu_burst_env st)) ''a'' = 0"
proof -
  obtain a st where t: "demo_tuned = Some (a, st)" "get_burst (bu_files st) ''a'' = 1000"
    using demo_tuned_burst by auto
  have "get_burst demo_cpu_files ''a'' = 0" by code_simp
  then have "get_burst (bu_files (CpuBurst_Exit demo_cpu_burst_env st)) ''a'' = 0"
    using CpuBurst_Exit_restores [OF demo_tuned_run [OF t(1)] demo_good_burst] by simp
  with t show ?thesis by blast
qed


end
