(* ===== verification/Load_Based_Scheduling.thy ===== *)
theory Load_Based_Scheduling
  imports Docker_Collector Data_Codecs
begin

text \<open>
  The plugin that gives containers under high load preferred cores of their node,
  \<^verbatim>\<open>src/plugin/tune/docker/load_based_scheduling/load_based_scheduling.cpp\<close>.

  The state is the record \<open>load_based\<close> with the control files; maps are association lists and
  \<open>operator[]\<close> inserts what is missing, where the code uses it. Arguments are the arithmetic of
  \<open>double\<close>, the kernel, the YAML library, the shell and the answers to subscriptions.
\<close>

subsection \<open>State\<close>

record ContainerInfo =
  containerNum :: int
  ci_cpus :: "int list"
  usedIndex :: int

record 'd ContainerCpuInfo =
  cc_id :: string
  cc_cycles :: int
  totLoad :: int
  cpuLoad :: 'd
  cc_cpus :: string
  originPreferredCpu :: string
  cc_tasks :: "int list"

record 'd load_based =
  maxCycles :: "int list"
  tuneContainers :: "string list"
  pids :: "(int \<times> string) list"
  usedCpus :: "int list"
  lb_containers :: "(string \<times> 'd ContainerCpuInfo) list"
  containerNuma :: "(string \<times> int) list"
  cpuNuma :: "(int \<times> int) list"
  numaContainers :: "(int \<times> ContainerInfo) list"
  highLoadThreshold :: 'd
  lb_files :: files

record ('d, 'n) load_env =
  le_fp :: "'d float_ops"
  le_kernel :: kernel_env
  le_yaml :: "'n yaml_api"
  le_double :: "'n \<Rightarrow> 'd option"
  le_what :: string
  le_file_exist :: "string \<Rightarrow> bool"
  le_subscribe :: "Topic \<Rightarrow> Result"
  le_nproc :: int
  le_dmidecode :: "string option"
  le_shell :: "string \<Rightarrow> files \<Rightarrow> files"

definition unlimit :: int where
  "unlimit = -1"

definition blank_info :: ContainerInfo where
  "blank_info = \<lparr>containerNum = 0, ci_cpus = [], usedIndex = 0\<rparr>"

definition blank_cpu_info :: "'d float_ops \<Rightarrow> 'd ContainerCpuInfo" where
  "blank_cpu_info fp = \<lparr>cc_id = [], cc_cycles = 0, totLoad = 0, cpuLoad = fp_of_int fp 0, cc_cpus = [], originPreferredCpu = [], cc_tasks = []\<rparr>"

definition load_based_new :: "'d float_ops \<Rightarrow> files \<Rightarrow> 'd load_based" where
  "load_based_new fp fs = \<lparr>maxCycles = [], tuneContainers = [], pids = [], usedCpus = [], lb_containers = [], containerNuma = [],
     cpuNuma = [], numaContainers = [], highLoadThreshold = fp_lit fp 5 10, lb_files = fs\<rparr>"

definition load_config :: string where
  "load_config = ''/etc/oeAware/plugin/load_based_scheduling.yaml''"

definition load_topics :: "Topic list" where
  "load_topics = [\<lparr>instanceName = ''docker_collector'', topicName = ''docker_collector'', params = []\<rparr>,
     \<lparr>instanceName = ''env_info_collector'', topicName = ''static'', params = []\<rparr>,
     \<lparr>instanceName = ''pmu_sampling_collector'', topicName = ''cycles'', params = []\<rparr>]"

subsection \<open>Data\<close>

definition preferred_file :: "string \<Rightarrow> string" where
  "preferred_file i = cpuset_file i ''cpuset.preferred_cpus''"

definition ReadSysParam :: "files \<Rightarrow> string \<Rightarrow> string \<Rightarrow> int \<times> string" where
  "ReadSysParam fs path value = (case fs path of None \<Rightarrow> (-1, value) | Some content \<Rightarrow> (0, read_word content value))"

definition add_task :: "string \<Rightarrow> int \<Rightarrow> 'd float_ops \<Rightarrow> 'd load_based \<Rightarrow> 'd load_based" where
  "add_task i pid fp st =
     (let c = al_get (blank_cpu_info fp) (lb_containers st) i in
      st\<lparr>pids := AList.update pid i (pids st),
         lb_containers := AList.update i (c\<lparr>cc_tasks := List.insert pid (cc_tasks c)\<rparr>) (lb_containers st)\<rparr>)"

definition quota_cores :: "Container \<Rightarrow> int option" where
  "quota_cores c =
     (if cfs_quota_us c = unlimit then Some unlimit
      else if cfs_period_us c = 0 then None
      else Some (to_int32 (cfs_quota_us c sdiv cfs_period_us c)))"

definition see_container :: "('d, 'n) load_env \<Rightarrow> Container \<Rightarrow> 'd load_based \<Rightarrow> 'd load_based option" where
  "see_container env container st = do {
     tot \<leftarrow> quota_cores container;
     let fp = le_fp env;
     let i = cn_id container;
     let c = (if al_count (lb_containers st) i then al_get (blank_cpu_info fp) (lb_containers st) i
              else (blank_cpu_info fp)\<lparr>originPreferredCpu := snd (ReadSysParam (lb_files st) (preferred_file i) [])\<rparr>);
     let st1 = st\<lparr>lb_containers := AList.update i (c\<lparr>cc_id := i, cc_cpus := cpus container, totLoad := tot\<rparr>) (lb_containers st)\<rparr>;
     Some (fold (\<lambda>pid. add_task i pid fp) (tasks container) st1)
   }"

fun see_containers :: "('d, 'n) load_env \<Rightarrow> Container list \<Rightarrow> 'd load_based \<Rightarrow> 'd load_based option" where
  "see_containers env [] st = Some st"
| "see_containers env (c # cs) st = do { st1 \<leftarrow> see_container env c st; see_containers env cs st1 }"

definition UpdateDockerData :: "('d, 'n) load_env \<Rightarrow> Container list \<Rightarrow> 'd load_based \<Rightarrow> 'd load_based option" where
  "UpdateDockerData env dataList st = do {
     st1 \<leftarrow> see_containers env dataList st;
     let containerIds = map cn_id dataList;
     let gone = filter (\<lambda>it. fst it \<notin> set containerIds) (lb_containers st1);
     Some (st1\<lparr>pids := fold (\<lambda>it. fold AList.delete (cc_tasks (snd it))) gone (pids st1),
               lb_containers := filter (\<lambda>it. fst it \<in> set containerIds) (lb_containers st1)\<rparr>)
   }"

definition add_cpu :: "EnvStaticInfo \<Rightarrow> nat \<Rightarrow> 'd load_based \<Rightarrow> 'd load_based option" where
  "add_cpu info cpu st = do {
     w \<leftarrow> nth_opt (cpu2Node info) cpu;
     let node = sint w;
     let n = al_get blank_info (numaContainers st) node;
     Some (st\<lparr>cpuNuma := AList.update (int cpu) node (cpuNuma st),
              numaContainers := AList.update node (n\<lparr>ci_cpus := ci_cpus n @ [int cpu]\<rparr>) (numaContainers st)\<rparr>)
   }"

fun add_cpus :: "EnvStaticInfo \<Rightarrow> nat list \<Rightarrow> 'd load_based \<Rightarrow> 'd load_based option" where
  "add_cpus info [] st = Some st"
| "add_cpus info (cpu # rest) st = do { st1 \<leftarrow> add_cpu info cpu st; add_cpus info rest st1 }"

fun add_infos :: "EnvStaticInfo list \<Rightarrow> 'd load_based \<Rightarrow> 'd load_based option" where
  "add_infos [] st = Some st"
| "add_infos (info # infos) st = do { st1 \<leftarrow> add_cpus info [0..<nat (sint (es_cpuNumConfig info))] st; add_infos infos st1 }"

definition UpdateNumaInfo :: "EnvStaticInfo list \<Rightarrow> 'd load_based \<Rightarrow> 'd load_based option" where
  "UpdateNumaInfo dataList st = (if cpuNuma st \<noteq> [] then Some st else add_infos dataList st)"

fun cycles_of_cpus :: "('d, 'n) load_env \<Rightarrow> files \<Rightarrow> nat list \<Rightarrow> int list option" where
  "cycles_of_cpus env fs [] = Some []"
| "cycles_of_cpus env fs (cpu # rest) = do {
     let c = GetCpuCycles fs (int cpu);
     v \<leftarrow> (if c = 0 then GetCpuFreqByDmi (le_dmidecode env) else Some c);
     vs \<leftarrow> cycles_of_cpus env fs rest;
     Some (sint v # vs)
   }"

definition InitCpuCycles :: "('d, 'n) load_env \<Rightarrow> int \<Rightarrow> 'd load_based \<Rightarrow> 'd load_based option" where
  "InitCpuCycles env cpuNum st =
     (if cpuNum < 0 then None
      else do { vs \<leftarrow> cycles_of_cpus env (lb_files st) [0..<nat cpuNum]; Some (st\<lparr>maxCycles := vs\<rparr>) })"

text \<open>The samples of the counters: their interval, and a process and a number of cycles each.\<close>

record sampling =
  sd_interval :: u64
  sd_samples :: "(int \<times> u64) list"

definition count_sample :: "'d float_ops \<Rightarrow> int \<times> u64 \<Rightarrow> 'd load_based \<Rightarrow> 'd load_based" where
  "count_sample fp sample st =
     (case map_of (pids st) (fst sample) of
        None \<Rightarrow> st
      | Some i \<Rightarrow>
          (let c = al_get (blank_cpu_info fp) (lb_containers st) i in
           st\<lparr>lb_containers := AList.update i (c\<lparr>cc_cycles := to_int64 (cc_cycles c + uint (snd sample))\<rparr>) (lb_containers st)\<rparr>))"

definition UpdatePmuData :: "'d float_ops \<Rightarrow> sampling list \<Rightarrow> 'd load_based \<Rightarrow> 'd load_based option" where
  "UpdatePmuData fp dataList st =
     (case dataList of
        [] \<Rightarrow> None
      | d # _ \<Rightarrow>
          (let st1 = fold (count_sample fp) (sd_samples d) st in
           if lb_containers st1 \<noteq> [] \<and> maxCycles st1 = [] then None
           else Some (st1\<lparr>lb_containers := map (\<lambda>(i, c). (i, c\<lparr>cpuLoad := fp_mul fp (fp_div fp (fp_div fp
                   (fp_mul fp (fp_of_int fp (cc_cycles c)) (fp_lit fp 1 1)) (fp_of_int fp (uint (sd_interval d))))
                   (fp_of_int fp (hd (maxCycles st1)))) (fp_of_int fp 1000), cc_cycles := 0\<rparr>)) (lb_containers st1)\<rparr>)))"

datatype load_data = LoadContainers "Container list" | LoadEnv "EnvStaticInfo list" | LoadSamples "sampling list"

definition Load_UpdateData :: "('d, 'n) load_env \<Rightarrow> Topic \<Rightarrow> load_data \<Rightarrow> 'd load_based \<Rightarrow> 'd load_based option" where
  "Load_UpdateData env topic data st =
     (if instanceName topic = ''docker_collector'' \<and> topicName topic = ''docker_collector'' then
        (case data of LoadContainers cs \<Rightarrow> UpdateDockerData env cs st | _ \<Rightarrow> None)
      else if instanceName topic = ''env_info_collector'' \<and> topicName topic = ''static'' then
        (case data of LoadEnv infos \<Rightarrow> UpdateNumaInfo infos st | _ \<Rightarrow> None)
      else if instanceName topic = ''pmu_sampling_collector'' \<and> topicName topic = ''cycles'' then
        (case data of LoadSamples ds \<Rightarrow> UpdatePmuData (le_fp env) ds st | _ \<Rightarrow> None)
      else Some st)"

subsection \<open>Enabling and disabling\<close>

text \<open>The threshold keeps a value from the file even when it is refused.\<close>

definition Load_ReadConfig :: "('d, 'n) load_env \<Rightarrow> string \<Rightarrow> 'd load_based \<Rightarrow> Result \<times> 'd load_based" where
  "Load_ReadConfig env path st =
     (let y = le_yaml env; fp = le_fp env in
      if \<not> le_file_exist env path then (\<lparr>code = FAILED, payload = ''config file does not exist, {path:'' @ path @ ''}.''\<rparr>, st)
      else case (do {
          node \<leftarrow> y_LoadFile y path;
          item \<leftarrow> y_key y node ''high_load'';
          defined \<leftarrow> y_IsDefined y item;
          if defined then le_double env item else Some (highLoadThreshold st)
        }) of
          None \<Rightarrow> (\<lparr>code = FAILED, payload = le_what env\<rparr>, st)
        | Some v \<Rightarrow>
            if fp_lt fp v (fp_of_int fp 0) \<or> fp_lt fp (fp_of_int fp 1) v
            then (\<lparr>code = FAILED, payload = ''config error, high_load must be in [0,1].''\<rparr>, st\<lparr>highLoadThreshold := v\<rparr>)
            else (\<lparr>code = OK, payload = []\<rparr>, st\<lparr>highLoadThreshold := v\<rparr>))"

text \<open>The topics subscribed to so far, and the answer of the first one that is refused.\<close>

fun subscribe_all :: "(Topic \<Rightarrow> Result) \<Rightarrow> Topic list \<Rightarrow> Topic list \<times> Result option" where
  "subscribe_all sub [] = ([], None)"
| "subscribe_all sub (t # ts) =
     (if code (sub t) \<noteq> OK then ([], Some (sub t))
      else (case subscribe_all sub ts of (good, r) \<Rightarrow> (t # good, r)))"

definition Load_Enable :: "('d, 'n) load_env \<Rightarrow> 'd load_based \<Rightarrow> (Result \<times> Topic list \<times> 'd load_based) option" where
  "Load_Enable env st =
     (case Load_ReadConfig env load_config st of (ret, st1) \<Rightarrow>
        if code ret \<noteq> OK then Some (ret, [], st1)
        else (case subscribe_all (le_subscribe env) load_topics of
                (good, Some ret) \<Rightarrow> Some (ret, good, st1)
              | (good, None) \<Rightarrow> do { st2 \<leftarrow> InitCpuCycles env (to_int32 (le_nproc env)) st1; Some (\<lparr>code = OK, payload = []\<rparr>, good, st2) }))"

definition WriteSysParam :: "kernel_env \<Rightarrow> string \<Rightarrow> string \<Rightarrow> files \<Rightarrow> int \<times> files" where
  "WriteSysParam k path value fs =
     (if value = [] then (if fs path = None \<or> \<not> k_opens k path then -1 else 0, fs)
      else (case write_file k path value fs of (r, fs1) \<Rightarrow> (if r = Written then 0 else -1, fs1)))"

definition restore_command :: "string \<times> 'd ContainerCpuInfo \<Rightarrow> string" where
  "restore_command item = ''echo '' @ originPreferredCpu (snd item) @ '' > '' @ preferred_file (fst item)"

definition Load_Disable :: "('d, 'n) load_env \<Rightarrow> 'd load_based \<Rightarrow> Topic list \<times> 'd load_based" where
  "Load_Disable env st = (load_topics, st\<lparr>tuneContainers := [], lb_files := fold (\<lambda>item. le_shell env (restore_command item)) (lb_containers st) (lb_files st),
     lb_containers := [], usedCpus := [], cpuNuma := [], containerNuma := [], numaContainers := [], pids := []\<rparr>)"

subsection \<open>Run\<close>

definition IsHighLoad :: "'d float_ops \<Rightarrow> 'd load_based \<Rightarrow> 'd ContainerCpuInfo \<Rightarrow> int \<Rightarrow> bool" where
  "IsHighLoad fp st container cpuNum =
     fp_lt fp (fp_mul fp (highLoadThreshold st) (fp_of_int fp (if totLoad container = unlimit then cpuNum else totLoad container))) (cpuLoad container)"

text \<open>The first loop counts the containers under high load on each node.\<close>

definition reset_numa :: "'d load_based \<Rightarrow> 'd load_based" where
  "reset_numa st = st\<lparr>numaContainers := map (\<lambda>(n, v). (n, v\<lparr>containerNum := 0, usedIndex := 0\<rparr>)) (numaContainers st)\<rparr>"

fun find_high :: "'d float_ops \<Rightarrow> 'd ContainerCpuInfo list \<Rightarrow> 'd load_based \<Rightarrow> (string list \<times> 'd load_based) option" where
  "find_high fp [] st = Some ([], st)"
| "find_high fp (container # cs) st = do {
     cores \<leftarrow> ParseRange (cc_cpus container);
     if \<not> IsHighLoad fp st container (int (length cores)) then find_high fp cs st
     else do {
       cpu \<leftarrow> nth_opt cores 0;
       let node = al_get 0 (cpuNuma st) cpu;
       let n = al_get blank_info (numaContainers st) node;
       (ids, st1) \<leftarrow> find_high fp cs (st\<lparr>cpuNuma := al_insert cpu 0 (cpuNuma st),
         numaContainers := AList.update node (n\<lparr>containerNum := containerNum n + 1\<rparr>) (numaContainers st),
         containerNuma := AList.update (cc_id container) node (containerNuma st)\<rparr>);
       Some (cc_id container # ids, st1)
     }
   }"

text \<open>The second gives each its share of the cores of its node.\<close>

fun share_text :: "int list \<Rightarrow> int list \<Rightarrow> bool \<Rightarrow> int list \<Rightarrow> string option" where
  "share_text cores used single [] = Some []"
| "share_text cores used single (cpuIndex # rest) = do {
     cpu \<leftarrow> (if 0 \<le> cpuIndex then nth_opt cores (nat cpuIndex) else None);
     more \<leftarrow> share_text cores used single rest;
     Some (if single \<and> cpu \<in> set used then more else to_string cpu @ '','' @ more)
   }"

definition give_share :: "kernel_env \<Rightarrow> bool \<Rightarrow> string \<Rightarrow> 'd load_based \<Rightarrow> 'd load_based option" where
  "give_share k single i st =
     (let node = al_get 0 (containerNuma st) i; n = al_get blank_info (numaContainers st) node in
      if containerNum n = 0 then None
      else do {
        let num = int (length (ci_cpus n)) div containerNum n;
        cpusStr \<leftarrow> share_text (ci_cpus n) (usedCpus st) single (map (\<lambda>j. usedIndex n + j) [0..num - 1]);
        case WriteSysParam k (preferred_file i) cpusStr (lb_files st) of (ret, fs) \<Rightarrow>
          if ret < 0 then Some (st\<lparr>lb_files := fs\<rparr>)
          else Some (st\<lparr>lb_files := fs, numaContainers := AList.update node (n\<lparr>usedIndex := usedIndex n + num\<rparr>) (numaContainers st)\<rparr>)
      })"

fun give_shares :: "kernel_env \<Rightarrow> bool \<Rightarrow> string list \<Rightarrow> 'd load_based \<Rightarrow> 'd load_based option" where
  "give_shares k single [] st = Some st"
| "give_shares k single (i # is) st = do { st1 \<leftarrow> give_share k single i st; give_shares k single is st1 }"

definition Load_Run :: "('d, 'n) load_env \<Rightarrow> 'd load_based \<Rightarrow> 'd load_based option" where
  "Load_Run env st = do {
     (tuneContainerIds, st1) \<leftarrow> find_high (le_fp env) (map snd (lb_containers st)) (reset_numa st);
     give_shares (le_kernel env) (length tuneContainerIds = 1) tuneContainerIds st1
   }"

end
