(* ===== verification/Load_Claims.thy ===== *)
theory Load_Claims
  imports Load_Based_Scheduling
begin

text \<open>
  What a run of the load based scheduling writes: the containers of a node get disjoint shares of its cores,
  and no index leaves the list of cores. A run before the topology is known spoils the topology for good.
\<close>

subsection \<open>Shares of a list of cores\<close>

definition cores_text :: "int list \<Rightarrow> string" where
  "cores_text cs = concat (map (\<lambda>c. to_string c @ '','') cs)"

lemma cores_text_simps [simp]: "cores_text [] = []" "cores_text (c # cs) = to_string c @ '','' @ cores_text cs"
  by (simp_all add: cores_text_def)

lemma cores_text_Nil [simp]: "cores_text cs = [] \<longleftrightarrow> cs = []"
  by (cases cs) simp_all

lemma share_text_nth:
  "\<forall>j \<in> set js. j < length cores \<Longrightarrow> share_text cores [] single (map int js) = Some (cores_text (map ((!) cores) js))"
  by (induction js) (simp_all add: nth_opt_def)

lemma share_text_slice:
  assumes "u + num \<le> length cores"
  shows "share_text cores [] single (map (\<lambda>j. int u + j) [0..int num - 1]) = Some (cores_text (take num (drop u cores)))"
proof -
  have "map (\<lambda>j. int u + j) [0..int num - 1] = map int [u..<u + num]"
    by (rule nth_equalityI) simp_all
  moreover have "map ((!) cores) [u..<u + num] = take num (drop u cores)"
    using assms by (intro nth_equalityI) simp_all
  ultimately show ?thesis
    using assms share_text_nth [of "[u..<u + num]" cores single] by simp
qed

lemma slice_disjoint:
  assumes "distinct cs"
  shows "set (take n (drop u cs)) \<inter> set (drop (u + n) cs) = {}"
  using assms set_take_disj_set_drop_if_distinct [of "drop u cs" n n] by (simp add: add.commute)

subsection \<open>The second loop\<close>

abbreviation numa_at :: "'d load_based \<Rightarrow> int \<Rightarrow> ContainerInfo" where
  "numa_at st n \<equiv> al_get blank_info (numaContainers st) n"

abbreviation node_of :: "'d load_based \<Rightarrow> string \<Rightarrow> int" where
  "node_of st i \<equiv> al_get 0 (containerNuma st) i"

definition share :: "'d load_based \<Rightarrow> int \<Rightarrow> nat" where
  "share st n = length (ci_cpus (numa_at st n)) div nat (containerNum (numa_at st n))"

definition here :: "'d load_based \<Rightarrow> int \<Rightarrow> string list \<Rightarrow> nat" where
  "here st n ids = length (filter (\<lambda>i. node_of st i = n) ids)"

definition room :: "'d load_based \<Rightarrow> string list \<Rightarrow> bool" where
  "room st ids = (usedCpus st = [] \<and> (\<forall>n. 0 \<le> usedIndex (numa_at st n)) \<and> (\<forall>n. 0 < here st n ids \<longrightarrow>
     0 < containerNum (numa_at st n) \<and>
     nat (usedIndex (numa_at st n)) + here st n ids * share st n \<le> length (ci_cpus (numa_at st n))))"

definition takes :: "kernel_env \<Rightarrow> files \<Rightarrow> string \<Rightarrow> bool" where
  "takes k fs i = (fs (preferred_file i) \<noteq> None \<and> k_opens k (preferred_file i) \<and> (\<forall>t. k_accepts k (preferred_file i) t))"

definition cores_ok :: "'d load_based \<Rightarrow> bool" where
  "cores_ok st = ((\<forall>n. distinct (ci_cpus (numa_at st n))) \<and>
     (\<forall>m n. m \<noteq> n \<longrightarrow> set (ci_cpus (numa_at st m)) \<inter> set (ci_cpus (numa_at st n)) = {}))"

lemma preferred_file_inj [simp]: "preferred_file i = preferred_file j \<longleftrightarrow> i = j"
  by (simp add: preferred_file_def cpuset_file_def)

lemma preferred_file_image [simp]: "preferred_file i \<in> preferred_file ` A \<longleftrightarrow> i \<in> A"
  by auto

lemma WriteSysParam_cases:
  obtains "WriteSysParam k path t fs = (0, if t = [] then fs else fs(path \<mapsto> t))"
  | "WriteSysParam k path t fs = (-1, fs)" "\<not> (fs path \<noteq> None \<and> k_opens k path \<and> k_accepts k path t)"
  by (cases "fs path = None \<or> \<not> k_opens k path"; cases "k_accepts k path t"; cases "t = []")
    (auto simp: WriteSysParam_def write_file_def)

text \<open>One container: it gets the next slice, or the kernel refuses and nothing changes.\<close>

lemma give_share_step:
  assumes "room st (i # is)"
  defines "n \<equiv> node_of st i"
  obtains cs m where "give_share k single i st = Some (st\<lparr>lb_files := (if cs = [] then lb_files st else (lb_files st)(preferred_file i \<mapsto> cores_text cs)),
      numaContainers := m\<rparr>)"
    and "cs = take (share st n) (drop (nat (usedIndex (numa_at st n))) (ci_cpus (numa_at st n))) \<or> cs = [] \<and> \<not> takes k (lb_files st) i"
    and "\<forall>j. al_get blank_info m j = (numa_at st j)\<lparr>usedIndex := usedIndex (numa_at st j) + (if j = n \<and> cs \<noteq> [] then int (share st n) else 0)\<rparr>"
proof -
  let ?N = "numa_at st n" and ?u = "nat (usedIndex (numa_at st n))" and ?s = "share st n"
  let ?cs = "take ?s (drop ?u (ci_cpus ?N))"
  have h: "0 < here st n (i # is)" by (simp add: here_def n_def)
  then have r: "0 < containerNum ?N" "0 \<le> usedIndex ?N" "usedCpus st = []" "?u + here st n (i # is) * ?s \<le> length (ci_cpus ?N)"
    using assms(1) by (auto simp: room_def)
  have num: "int (length (ci_cpus ?N)) div containerNum ?N = int ?s"
    using r(1) by (simp add: share_def zdiv_int)
  have "1 * ?s \<le> here st n (i # is) * ?s" using h by (intro mult_le_mono1) simp
  then have fit: "?u + ?s \<le> length (ci_cpus ?N)" using r(4) by linarith
  have t: "share_text (ci_cpus ?N) (usedCpus st) single (map (\<lambda>j. usedIndex ?N + j) [0..int ?s - 1]) = Some (cores_text ?cs)"
    using share_text_slice [OF fit, of single] r(2,3) by simp
  have l: "?cs = [] \<longleftrightarrow> ?s = 0" using fit by auto
  have g: "give_share k single i st = (case WriteSysParam k (preferred_file i) (cores_text ?cs) (lb_files st) of (ret, fs) \<Rightarrow>
      if ret < 0 then Some (st\<lparr>lb_files := fs\<rparr>)
      else Some (st\<lparr>lb_files := fs, numaContainers := AList.update n (?N\<lparr>usedIndex := usedIndex ?N + int ?s\<rparr>) (numaContainers st)\<rparr>))"
    using r(1) num t unfolding n_def by (simp add: give_share_def Let_def)
  show thesis
  proof (rule WriteSysParam_cases [of k "preferred_file i" "cores_text ?cs" "lb_files st"])
    assume w: "WriteSysParam k (preferred_file i) (cores_text ?cs) (lb_files st) =
      (0, if cores_text ?cs = [] then lb_files st else (lb_files st)(preferred_file i \<mapsto> cores_text ?cs))"
    show thesis
    proof (rule that [where cs = ?cs and m = "AList.update n (?N\<lparr>usedIndex := usedIndex ?N + int ?s\<rparr>) (numaContainers st)"])
      show "give_share k single i st = Some (st\<lparr>lb_files := (if ?cs = [] then lb_files st else (lb_files st)(preferred_file i \<mapsto> cores_text ?cs)),
          numaContainers := AList.update n (?N\<lparr>usedIndex := usedIndex ?N + int ?s\<rparr>) (numaContainers st)\<rparr>)"
        using g w by simp
    qed (use l in auto)
  next
    assume "WriteSysParam k (preferred_file i) (cores_text ?cs) (lb_files st) = (-1, lb_files st)"
      and "\<not> (lb_files st (preferred_file i) \<noteq> None \<and> k_opens k (preferred_file i) \<and> k_accepts k (preferred_file i) (cores_text ?cs))"
    then show thesis
      using g by (intro that [where cs = "[]" and m = "numaContainers st"]) (auto simp: takes_def)
  qed
qed

text \<open>The rest of the loop has room again.\<close>

lemma room_step:
  assumes "room st (i # is)" "n = node_of st i"
    and "\<forall>j. numa_at st1 j = (numa_at st j)\<lparr>usedIndex := usedIndex (numa_at st j) + (if j = n \<and> b then int (share st n) else 0)\<rparr>"
    and "containerNuma st1 = containerNuma st" "usedCpus st1 = usedCpus st"
  shows "room st1 is"
proof -
  have sh: "share st1 m = share st m" "ci_cpus (numa_at st1 m) = ci_cpus (numa_at st m)"
      "containerNum (numa_at st1 m) = containerNum (numa_at st m)" for m
    using assms(3) by (simp_all add: share_def)
  have hr: "here st m (i # is) = here st1 m is + (if m = n then 1 else 0)" for m
    using assms(2,4) by (auto simp: here_def)
  have u: "nat (usedIndex (numa_at st1 m)) = nat (usedIndex (numa_at st m)) + (if m = n \<and> b then share st n else 0)" for m
    using assms(1,3) by (simp add: room_def nat_add_distrib)
  show ?thesis
    unfolding room_def
  proof (intro conjI allI impI)
    show "usedCpus st1 = []" using assms(1,5) by (simp add: room_def)
    show "0 \<le> usedIndex (numa_at st1 m)" for m using assms(1,3) by (simp add: room_def)
    fix m assume h: "0 < here st1 m is"
    then have "0 < here st m (i # is)" using hr [of m] by simp
    then have r: "0 < containerNum (numa_at st m)"
        "nat (usedIndex (numa_at st m)) + here st m (i # is) * share st m \<le> length (ci_cpus (numa_at st m))"
      using assms(1) unfolding room_def by blast+
    then show "0 < containerNum (numa_at st1 m)" by (simp add: sh)
    show "nat (usedIndex (numa_at st1 m)) + here st1 m is * share st1 m \<le> length (ci_cpus (numa_at st1 m))"
      using r(2) hr [of m] unfolding sh u by (auto simp: algebra_simps)
  qed
qed

definition shares_given :: "kernel_env \<Rightarrow> 'd load_based \<Rightarrow> files \<Rightarrow> string list \<Rightarrow> (string \<Rightarrow> int list) \<Rightarrow> bool" where
  "shares_given k st fs ids alloc = (
     (\<forall>i \<in> set ids. set (alloc i) \<subseteq> set (ci_cpus (numa_at st (node_of st i))) \<and>
        fs (preferred_file i) = (if alloc i = [] then lb_files st (preferred_file i) else Some (cores_text (alloc i))) \<and>
        (takes k (lb_files st) i \<longrightarrow> length (alloc i) = share st (node_of st i))) \<and>
     (\<forall>i \<in> set ids. \<forall>j \<in> set ids. i \<noteq> j \<longrightarrow> set (alloc i) \<inter> set (alloc j) = {}) \<and>
     (\<forall>q. q \<notin> preferred_file ` set ids \<longrightarrow> fs q = lb_files st q))"

lemma give_shares_spec:
  assumes "room st ids" "cores_ok st" "distinct ids"
  shows "\<exists>st2 alloc. give_shares k single ids st = Some st2 \<and> shares_given k st (lb_files st2) ids alloc \<and>
    (\<forall>i \<in> set ids. set (alloc i) \<subseteq> set (drop (nat (usedIndex (numa_at st (node_of st i)))) (ci_cpus (numa_at st (node_of st i)))))"
  using assms
proof (induction ids arbitrary: st)
  case Nil
  then show ?case by (simp add: shares_given_def)
next
  case (Cons i "is")
  define n where "n = node_of st i"
  let ?u = "nat (usedIndex (numa_at st n))" and ?s = "share st n" and ?cpus = "ci_cpus (numa_at st n)"
  obtain cs m where step: "give_share k single i st = Some (st\<lparr>lb_files := (if cs = [] then lb_files st else (lb_files st)(preferred_file i \<mapsto> cores_text cs)),
        numaContainers := m\<rparr>)"
      "cs = take ?s (drop ?u ?cpus) \<or> cs = [] \<and> \<not> takes k (lb_files st) i"
      "\<forall>j. al_get blank_info m j = (numa_at st j)\<lparr>usedIndex := usedIndex (numa_at st j) + (if j = n \<and> cs \<noteq> [] then int ?s else 0)\<rparr>"
    unfolding n_def by (rule give_share_step [OF Cons.prems(1), of k single]) blast
  define st1 where "st1 = st\<lparr>lb_files := (if cs = [] then lb_files st else (lb_files st)(preferred_file i \<mapsto> cores_text cs)), numaContainers := m\<rparr>"
  have nu: "\<forall>j. numa_at st1 j = (numa_at st j)\<lparr>usedIndex := usedIndex (numa_at st j) + (if j = n \<and> cs \<noteq> [] then int ?s else 0)\<rparr>"
    using step(3) by (simp add: st1_def)
  have cpus: "ci_cpus (numa_at st1 j) = ci_cpus (numa_at st j)" "share st1 j = share st j" "node_of st1 a = node_of st a" for j a
    using nu by (simp_all add: share_def st1_def)
  have room: "room st1 is"
    using Cons.prems(1) n_def nu by (rule room_step) (simp_all add: st1_def)
  have ok: "cores_ok st1" using Cons.prems(2) by (simp add: cores_ok_def cpus)
  obtain st2 alloc where st2: "give_shares k single is st1 = Some st2" "shares_given k st1 (lb_files st2) is alloc"
      "\<forall>j \<in> set is. set (alloc j) \<subseteq> set (drop (nat (usedIndex (numa_at st1 (node_of st1 j)))) (ci_cpus (numa_at st1 (node_of st1 j))))"
    using Cons.IH [OF room ok] Cons.prems(3) by auto
  have u: "nat (usedIndex (numa_at st1 j)) = nat (usedIndex (numa_at st j)) + (if j = n \<and> cs \<noteq> [] then ?s else 0)" for j
    using nu Cons.prems(1) by (simp add: room_def nat_add_distrib)
  have sub: "set (alloc j) \<subseteq> set (drop (nat (usedIndex (numa_at st (node_of st j)))) (ci_cpus (numa_at st (node_of st j))))" if "j \<in> set is" for j
  proof -
    have "set (alloc j) \<subseteq> set (drop (nat (usedIndex (numa_at st1 (node_of st j)))) (ci_cpus (numa_at st (node_of st j))))"
      using st2(3) that unfolding cpus by blast
    also have "\<dots> \<subseteq> set (drop (nat (usedIndex (numa_at st (node_of st j)))) (ci_cpus (numa_at st (node_of st j))))"
      unfolding u by (rule set_drop_subset_set_drop) simp
    finally show ?thesis .
  qed
  have csub: "set cs \<subseteq> set (drop ?u ?cpus)" using step(2) by (auto dest: in_set_takeD)
  have dis: "set cs \<inter> set (alloc j) = {}" if j: "j \<in> set is" for j
  proof (cases "node_of st j = n \<and> cs \<noteq> []")
    case True
    have "set (alloc j) \<subseteq> set (drop (?u + ?s) ?cpus)"
      using bspec [OF st2(3) j] True unfolding cpus u by simp
    moreover have "set cs \<inter> set (drop (?u + ?s) ?cpus) = {}"
      using step(2) True Cons.prems(2) slice_disjoint [of ?cpus ?s ?u] by (auto simp: cores_ok_def)
    ultimately show ?thesis by blast
  next
    case False
    have "set cs \<subseteq> set ?cpus" "set (alloc j) \<subseteq> set (ci_cpus (numa_at st (node_of st j)))"
      using csub sub [OF j] set_drop_subset by fast+
    with False Cons.prems(2) show ?thesis unfolding cores_ok_def by (cases "cs = []") (simp, blast)
  qed
  have files: "lb_files st1 q = lb_files st q" if "q \<noteq> preferred_file i" for q
    using that by (simp add: st1_def)
  have i: "i \<notin> set is" using Cons.prems(3) by simp
  have len: "takes k (lb_files st) i \<longrightarrow> length cs = ?s"
  proof -
    have "?u + ?s \<le> length ?cpus"
      using Cons.prems(1) n_def by (auto simp: room_def here_def dest!: spec [of _ n])
    with step(2) show ?thesis by auto
  qed
  have f2: "lb_files st2 (preferred_file i) = (if cs = [] then lb_files st (preferred_file i) else Some (cores_text cs))"
  proof -
    have "lb_files st2 (preferred_file i) = lb_files st1 (preferred_file i)"
      using st2(2) i by (simp add: shares_given_def)
    then show ?thesis by (simp add: st1_def)
  qed
  have g: "shares_given k st (lb_files st2) (i # is) (alloc(i := cs))"
    using st2(2) i len f2 csub dis files set_drop_subset [of ?u ?cpus]
    unfolding shares_given_def cpus by (auto simp: takes_def n_def)
  show ?case
  proof (intro exI conjI)
    show "give_shares k single (i # is) st = Some st2" using step(1) st2(1) by (simp add: st1_def)
    show "shares_given k st (lb_files st2) (i # is) (alloc(i := cs))" by (rule g)
    show "\<forall>j \<in> set (i # is). set ((alloc(i := cs)) j) \<subseteq>
        set (drop (nat (usedIndex (numa_at st (node_of st j)))) (ci_cpus (numa_at st (node_of st j))))"
      using sub csub by (simp add: n_def)
  qed
qed

subsection \<open>The first loop\<close>

text \<open>It counts on each node the containers it selects, and changes nothing else of the nodes.\<close>

definition readable :: "'d ContainerCpuInfo \<Rightarrow> bool" where
  "readable c = (case ParseRange (cc_cpus c) of None \<Rightarrow> False | Some cores \<Rightarrow> cores \<noteq> [])"

lemma find_high_spec:
  assumes "\<forall>c \<in> set cs. readable c" "distinct (map cc_id cs)"
  shows "\<exists>ids st1. find_high fp cs st = Some (ids, st1) \<and> set ids \<subseteq> cc_id ` set cs \<and> distinct ids \<and>
    (\<forall>i. i \<notin> set ids \<longrightarrow> node_of st1 i = node_of st i) \<and>
    (\<forall>n. numa_at st1 n = (numa_at st n)\<lparr>containerNum := containerNum (numa_at st n) + int (here st1 n ids)\<rparr>) \<and>
    lb_files st1 = lb_files st \<and> usedCpus st1 = usedCpus st"
  using assms
proof (induction cs arbitrary: st)
  case Nil
  then show ?case by (simp add: here_def)
next
  case (Cons c cs)
  obtain cpu cores where p: "ParseRange (cc_cpus c) = Some (cpu # cores)"
    using Cons.prems(1) by (auto simp: readable_def neq_Nil_conv split: option.splits)
  show ?case
  proof (cases "IsHighLoad fp st c (int (length (cpu # cores)))")
    case False
    then have "find_high fp (c # cs) st = find_high fp cs st" using p by simp
    moreover obtain ids st1 where "find_high fp cs st = Some (ids, st1)" "set ids \<subseteq> cc_id ` set cs" "distinct ids"
        "\<forall>i. i \<notin> set ids \<longrightarrow> node_of st1 i = node_of st i"
        "\<forall>n. numa_at st1 n = (numa_at st n)\<lparr>containerNum := containerNum (numa_at st n) + int (here st1 n ids)\<rparr>"
        "lb_files st1 = lb_files st" "usedCpus st1 = usedCpus st"
      using Cons.IH [of st] Cons.prems by auto
    ultimately show ?thesis by (intro exI [of _ ids] exI [of _ st1]) auto
  next
    case True
    let ?n = "al_get 0 (cpuNuma st) cpu"
    let ?st = "st\<lparr>cpuNuma := al_insert cpu 0 (cpuNuma st),
      numaContainers := AList.update ?n ((numa_at st ?n)\<lparr>containerNum := containerNum (numa_at st ?n) + 1\<rparr>) (numaContainers st),
      containerNuma := AList.update (cc_id c) ?n (containerNuma st)\<rparr>"
    obtain ids st1 where ih: "find_high fp cs ?st = Some (ids, st1)" "set ids \<subseteq> cc_id ` set cs" "distinct ids"
        "\<forall>i. i \<notin> set ids \<longrightarrow> node_of st1 i = node_of ?st i"
        "\<forall>n. numa_at st1 n = (numa_at ?st n)\<lparr>containerNum := containerNum (numa_at ?st n) + int (here st1 n ids)\<rparr>"
        "lb_files st1 = lb_files st" "usedCpus st1 = usedCpus st"
      using Cons.IH [of ?st] Cons.prems by auto
    have new: "cc_id c \<notin> set ids" using ih(2) Cons.prems(2) by auto
    then have node: "node_of st1 (cc_id c) = ?n" using ih(4) by simp
    have "\<forall>n. numa_at st1 n = (numa_at st n)\<lparr>containerNum := containerNum (numa_at st n) + int (here st1 n (cc_id c # ids))\<rparr>"
      using ih(5) node by (simp add: here_def)
    moreover have "find_high fp (c # cs) st = Some (cc_id c # ids, st1)"
      using p True ih(1) by simp
    moreover have "\<forall>i. i \<notin> set (cc_id c # ids) \<longrightarrow> node_of st1 i = node_of st i"
      using ih(4) by simp
    ultimately show ?thesis
      using ih new by (intro exI [of _ "cc_id c # ids"] exI [of _ st1]) auto
  qed
qed

subsection \<open>Properties\<close>

lemma al_get_map_values: "f d = d \<Longrightarrow> al_get d (map (\<lambda>(k, v). (k, f v)) m) n = f (al_get d m n)"
  by (induction m) (auto simp: al_get_def)

lemma reset_numa_at: "numa_at (reset_numa st) n = (numa_at st n)\<lparr>containerNum := 0, usedIndex := 0\<rparr>"
proof -
  let ?f = "\<lambda>v :: ContainerInfo. v\<lparr>containerNum := 0, usedIndex := 0\<rparr>"
  have "?f blank_info = blank_info" by (simp add: blank_info_def)
  then show ?thesis using al_get_map_values [of ?f blank_info "numaContainers st" n] by (simp add: reset_numa_def)
qed

text \<open>C31. When the cores of every container can be read, a run ends, and what it writes are shares of the cores: each
  container under high load gets cores of its own node only, no core is given to two containers, all
  get the same number of cores of their node where the kernel takes the list, and no other file is changed.\<close>

theorem Load_Run_shares:
  assumes "\<forall>(i, c) \<in> set (lb_containers st). cc_id c = i \<and> readable c" "distinct (map fst (lb_containers st))"
    and "cores_ok st" "usedCpus st = []"
  shows "\<exists>ids st1 st2 alloc. find_high (le_fp env) (map snd (lb_containers st)) (reset_numa st) = Some (ids, st1) \<and>
    Load_Run env st = Some st2 \<and> set ids \<subseteq> fst ` set (lb_containers st) \<and> distinct ids \<and>
    (\<forall>n. ci_cpus (numa_at st1 n) = ci_cpus (numa_at st n) \<and> containerNum (numa_at st1 n) = int (here st1 n ids)) \<and>
    lb_files st1 = lb_files st \<and> shares_given (le_kernel env) st1 (lb_files st2) ids alloc"
proof -
  let ?cs = "map snd (lb_containers st)"
  have ids: "map cc_id ?cs = map fst (lb_containers st)" using assms(1) by auto
  have "\<forall>c \<in> set ?cs. readable c" "distinct (map cc_id ?cs)" using assms(1,2) unfolding ids by auto
  from find_high_spec [OF this, of "le_fp env" "reset_numa st"] obtain ids st1
    where f: "find_high (le_fp env) ?cs (reset_numa st) = Some (ids, st1)" "set ids \<subseteq> cc_id ` set ?cs" "distinct ids"
      "\<forall>n. numa_at st1 n = (numa_at (reset_numa st) n)\<lparr>containerNum := containerNum (numa_at (reset_numa st) n) + int (here st1 n ids)\<rparr>"
      "lb_files st1 = lb_files (reset_numa st)" "usedCpus st1 = usedCpus (reset_numa st)"
    by blast
  have n: "numa_at st1 n = (numa_at st n)\<lparr>containerNum := int (here st1 n ids), usedIndex := 0\<rparr>" for n
    using f(4) by (simp add: reset_numa_at)
  have "room st1 ids"
    using f(6) assms(4) by (simp add: room_def n share_def reset_numa_def)
  moreover have "cores_ok st1" using assms(3) by (simp add: cores_ok_def n)
  ultimately obtain st2 alloc where g: "give_shares (le_kernel env) (length ids = 1) ids st1 = Some st2"
      "shares_given (le_kernel env) st1 (lb_files st2) ids alloc"
    using give_shares_spec [of st1 ids "le_kernel env" "length ids = 1"] f(3) by blast
  have "set ids \<subseteq> fst ` set (lb_containers st)" using f(2) ids by (metis set_map)
  moreover have "Load_Run env st = Some st2" using f(1) g(1) by (simp add: Load_Run_def)
  moreover have "\<forall>n. ci_cpus (numa_at st1 n) = ci_cpus (numa_at st n) \<and> containerNum (numa_at st1 n) = int (here st1 n ids)"
    by (simp add: n)
  moreover have "lb_files st1 = lb_files st" using f(5) by (simp add: reset_numa_def)
  ultimately show ?thesis
    using f(1,3) g(2) by blast
qed

subsection \<open>Data and runs in any order\<close>

inductive load_step :: "('d, 'n) load_env \<Rightarrow> 'd load_based \<Rightarrow> 'd load_based \<Rightarrow> bool" for env where
  data: "Load_UpdateData env topic d st = Some st1 \<Longrightarrow> load_step env st st1"
| run: "Load_Run env st = Some st1 \<Longrightarrow> load_step env st st1"

text \<open>What the parts of the state do to each other: containers and processes on one side, cores and files on the other.\<close>

definition same_cores :: "'d load_based \<Rightarrow> 'd load_based \<Rightarrow> bool" where
  "same_cores st st1 = (cpuNuma st1 = cpuNuma st \<and> numaContainers st1 = numaContainers st \<and> lb_files st1 = lb_files st)"

definition same_tasks :: "'d load_based \<Rightarrow> 'd load_based \<Rightarrow> bool" where
  "same_tasks st st1 = (pids st1 = pids st \<and> lb_containers st1 = lb_containers st)"

lemma same_cores_refl [simp]: "same_cores st st"
  by (simp add: same_cores_def)

lemma same_cores_trans: "same_cores st st1 \<Longrightarrow> same_cores st1 st2 \<Longrightarrow> same_cores st st2"
  by (simp add: same_cores_def)

lemma same_cores_fold: "(\<And>x s. same_cores s (f x s)) \<Longrightarrow> same_cores st (fold f xs st)"
  by (induction xs arbitrary: st) (auto intro: same_cores_trans)

lemma same_cores_see: "see_container env c st = Some st1 \<Longrightarrow> same_cores st st1"
proof -
  have "same_cores s (fold (\<lambda>pid. add_task i pid fp) ts s)" for i fp ts and s :: "'a load_based"
    by (rule same_cores_fold) (simp add: add_task_def same_cores_def Let_def)
  from this [where s = "st\<lparr>lb_containers := m\<rparr>" for m]
  show "see_container env c st = Some st1 \<Longrightarrow> same_cores st st1"
    by (fastforce simp: see_container_def Let_def same_cores_def split: bind_splits)
qed

lemma same_cores_sees: "see_containers env cs st = Some st1 \<Longrightarrow> same_cores st st1"
  by (induction cs arbitrary: st) (auto split: bind_splits intro: same_cores_trans same_cores_see)

lemma same_cores_docker: "UpdateDockerData env cs st = Some st1 \<Longrightarrow> same_cores st st1"
  by (auto simp: UpdateDockerData_def Let_def same_cores_def split: bind_splits dest!: same_cores_sees)

lemma same_cores_pmu: "UpdatePmuData fp ds st = Some st1 \<Longrightarrow> same_cores st st1"
proof -
  have "same_cores st (fold (count_sample fp) xs st)" for xs
    by (rule same_cores_fold) (simp add: count_sample_def same_cores_def Let_def split: option.splits)
  then show "UpdatePmuData fp ds st = Some st1 \<Longrightarrow> same_cores st st1"
    by (auto simp: UpdatePmuData_def Let_def same_cores_def split: list.splits if_splits)
qed

lemma find_high_frame:
  "find_high fp cs st = Some (ids, st1) \<Longrightarrow>
     same_tasks st st1 \<and> lb_files st1 = lb_files st \<and> (\<forall>n. ci_cpus (numa_at st1 n) = ci_cpus (numa_at st n)) \<and>
     (cpuNuma st \<noteq> [] \<or> ids \<noteq> [] \<longrightarrow> cpuNuma st1 \<noteq> [])"
proof (induction cs arbitrary: st ids)
  case Nil
  then show ?case by (simp add: same_tasks_def)
next
  case (Cons c cs)
  obtain cores where p: "ParseRange (cc_cpus c) = Some cores" using Cons.prems by (auto split: bind_splits)
  show ?case
  proof (cases "IsHighLoad fp st c (int (length cores))")
    case False
    with Cons p show ?thesis by simp
  next
    case True
    obtain cpu where cpu: "nth_opt cores 0 = Some cpu" using Cons.prems p True by (auto split: bind_splits)
    let ?n = "al_get 0 (cpuNuma st) cpu"
    let ?st = "st\<lparr>cpuNuma := al_insert cpu 0 (cpuNuma st),
      numaContainers := AList.update ?n ((numa_at st ?n)\<lparr>containerNum := containerNum (numa_at st ?n) + 1\<rparr>) (numaContainers st),
      containerNuma := AList.update (cc_id c) ?n (containerNuma st)\<rparr>"
    obtain ids' where "find_high fp cs ?st = Some (ids', st1)"
      using Cons.prems p True cpu by (auto simp: Let_def split: bind_splits)
    from Cons.IH [OF this] have ih: "same_tasks ?st st1" "lb_files st1 = lb_files st"
        "\<forall>n. ci_cpus (numa_at st1 n) = ci_cpus (numa_at ?st n)" "cpuNuma ?st \<noteq> [] \<longrightarrow> cpuNuma st1 \<noteq> []" by simp_all
    have "cpuNuma ?st \<noteq> []" by (auto simp: al_insert_def)
    with ih show ?thesis by (simp add: same_tasks_def)
  qed
qed

lemma give_share_frame:
  "give_share k single i st = Some st1 \<Longrightarrow>
     same_tasks st st1 \<and> cpuNuma st1 = cpuNuma st \<and> (\<forall>n. ci_cpus (numa_at st1 n) = ci_cpus (numa_at st n)) \<and>
     ((\<forall>n. ci_cpus (numa_at st n) = []) \<longrightarrow> lb_files st1 = lb_files st)"
  by (auto simp: give_share_def Let_def same_tasks_def WriteSysParam_def split: bind_splits if_splits prod.splits)

lemma give_shares_frame:
  "give_shares k single ids st = Some st1 \<Longrightarrow>
     same_tasks st st1 \<and> cpuNuma st1 = cpuNuma st \<and> (\<forall>n. ci_cpus (numa_at st1 n) = ci_cpus (numa_at st n)) \<and>
     ((\<forall>n. ci_cpus (numa_at st n) = []) \<longrightarrow> lb_files st1 = lb_files st)"
proof (induction ids arbitrary: st)
  case (Cons i "is")
  then obtain st2 where "give_share k single i st = Some st2" "give_shares k single is st2 = Some st1"
    by (auto split: bind_splits)
  with give_share_frame [of k single i st st2] Cons.IH [of st2] show ?case by (simp add: same_tasks_def)
qed (simp add: same_tasks_def)

lemma Load_Run_frame:
  assumes "Load_Run env st = Some st1"
  obtains ids s where "find_high (le_fp env) (map snd (lb_containers st)) (reset_numa st) = Some (ids, s)"
    "same_tasks st st1" "\<forall>n. ci_cpus (numa_at st1 n) = ci_cpus (numa_at st n)"
    "(\<forall>n. ci_cpus (numa_at st n) = []) \<longrightarrow> lb_files st1 = lb_files st"
    "cpuNuma st \<noteq> [] \<or> ids \<noteq> [] \<longrightarrow> cpuNuma st1 \<noteq> []"
proof -
  obtain ids s where h: "find_high (le_fp env) (map snd (lb_containers st)) (reset_numa st) = Some (ids, s)"
    and g: "give_shares (le_kernel env) (length ids = 1) ids s = Some st1"
    using assms by (auto simp: Load_Run_def split: bind_splits)
  have r: "same_tasks st (reset_numa st)" "lb_files (reset_numa st) = lb_files st" "cpuNuma (reset_numa st) = cpuNuma st"
    by (simp_all add: reset_numa_def same_tasks_def)
  show thesis
    using find_high_frame [OF h] give_shares_frame [OF g] r by (intro that [OF h]) (simp_all add: same_tasks_def reset_numa_at)
qed

text \<open>Once the topology is spoiled nothing repairs it, and nothing is written any more.\<close>

lemma blind_step:
  assumes "load_step env st st1" "cpuNuma st \<noteq> []" "\<forall>n. ci_cpus (numa_at st n) = []"
  shows "cpuNuma st1 \<noteq> [] \<and> (\<forall>n. ci_cpus (numa_at st1 n) = []) \<and> lb_files st1 = lb_files st"
  using assms(1)
proof cases
  case (data topic d)
  then have "same_cores st st1"
    using assms(2) by (auto simp: Load_UpdateData_def UpdateNumaInfo_def split: if_splits load_data.splits
      intro: same_cores_docker same_cores_pmu)
  with assms show ?thesis by (simp add: same_cores_def)
next
  case run
  then show ?thesis by (rule Load_Run_frame) (use assms in simp)
qed

text \<open>A run that finds a container under high load before the topology has arrived makes the plugin
  ignore the topology for good: whatever data and runs follow, no container is ever given a core.\<close>

lemma Load_early_run:
  assumes "cpuNuma st = []" "numaContainers st = []" "Load_Run env st = Some st1" "(load_step env)\<^sup>*\<^sup>* st1 st2"
    and "find_high (le_fp env) (map snd (lb_containers st)) (reset_numa st) = Some (i # ids, s)"
  shows "lb_files st2 = lb_files st \<and> (\<forall>n. ci_cpus (numa_at st2 n) = [])"
proof -
  have e: "\<forall>n. ci_cpus (numa_at st n) = []" using assms(2) by (simp add: al_get_def blank_info_def)
  have start: "cpuNuma st1 \<noteq> [] \<and> (\<forall>n. ci_cpus (numa_at st1 n) = []) \<and> lb_files st1 = lb_files st"
    using assms(3) by (rule Load_Run_frame) (use assms(5) e in simp)
  from assms(4) have "cpuNuma st2 \<noteq> [] \<and> (\<forall>n. ci_cpus (numa_at st2 n) = []) \<and> lb_files st2 = lb_files st"
  proof induction
    case base
    then show ?case by (rule start)
  next
    case (step y z)
    then show ?case using blind_step [of env y z] by simp
  qed
  then show ?thesis by blast
qed

subsection \<open>The processes of the containers\<close>

definition task_of :: "'d load_based \<Rightarrow> int \<Rightarrow> string \<Rightarrow> bool" where
  "task_of st pid i = (\<exists>c. map_of (lb_containers st) i = Some c \<and> pid \<in> set (cc_tasks c))"

definition pids_known :: "'d load_based \<Rightarrow> bool" where
  "pids_known st = (\<forall>pid i. map_of (pids st) pid = Some i \<longrightarrow> task_of st pid i)"

lemma pids_known_add_task: "pids_known st \<Longrightarrow> pids_known (add_task i pid fp st)"
  by (fastforce simp: pids_known_def task_of_def add_task_def Let_def store_simps al_get_def split: if_splits option.splits)

lemma pids_known_fold: "(\<And>x s. pids_known s \<Longrightarrow> pids_known (f x s)) \<Longrightarrow> pids_known st \<Longrightarrow> pids_known (fold f xs st)"
  by (induction xs arbitrary: st) auto

lemma pids_known_see:
  assumes "see_container env c st = Some st1" "pids_known st"
  shows "pids_known st1"
proof -
  obtain tot where t: "quota_cores c = Some tot" using assms(1) by (auto simp: see_container_def split: bind_splits)
  let ?i = "cn_id c" and ?fp = "le_fp env"
  let ?c = "if al_count (lb_containers st) ?i then al_get (blank_cpu_info ?fp) (lb_containers st) ?i
     else (blank_cpu_info ?fp)\<lparr>originPreferredCpu := snd (ReadSysParam (lb_files st) (preferred_file ?i) [])\<rparr>"
  let ?st = "st\<lparr>lb_containers := AList.update ?i (?c\<lparr>cc_id := ?i, cc_cpus := cpus c, totLoad := tot\<rparr>) (lb_containers st)\<rparr>"
  have "pids_known ?st"
    using assms(2) by (fastforce simp: pids_known_def task_of_def store_simps al_count_def al_get_def split: if_splits option.splits)
  moreover have "st1 = fold (\<lambda>pid. add_task ?i pid ?fp) (tasks c) ?st"
    using assms(1) t by (simp add: see_container_def Let_def)
  ultimately show ?thesis by (auto intro: pids_known_fold pids_known_add_task)
qed

lemma pids_known_sees: "see_containers env cs st = Some st1 \<Longrightarrow> pids_known st \<Longrightarrow> pids_known st1"
  by (induction cs arbitrary: st) (auto split: bind_splits intro: pids_known_see)

lemma map_of_fold_delete: "map_of (fold AList.delete ps m) p = (if p \<in> set ps then None else map_of m p)"
  by (induction ps arbitrary: m) (auto simp: store_simps)

lemma map_of_delete_all:
  "map_of (fold (\<lambda>it. fold AList.delete (cc_tasks (snd it))) gone m) p =
     (if \<exists>it \<in> set gone. p \<in> set (cc_tasks (snd it)) then None else map_of m p)"
  by (induction gone arbitrary: m) (auto simp: map_of_fold_delete)

lemma map_of_filter_keys: "map_of (filter (\<lambda>it. fst it \<in> A) m) i = (if i \<in> A then map_of m i else None)"
  by (induction m) auto

lemma pids_known_docker:
  assumes "UpdateDockerData env cs st = Some st1" "pids_known st"
  shows "pids_known st1"
proof -
  obtain s where s: "see_containers env cs st = Some s" using assms(1) by (auto simp: UpdateDockerData_def split: bind_splits)
  have k: "pids_known s" using s assms(2) by (rule pids_known_sees)
  let ?ids = "set (map cn_id cs)"
  let ?gone = "filter (\<lambda>it. fst it \<notin> ?ids) (lb_containers s)"
  have st1: "lb_containers st1 = filter (\<lambda>it. fst it \<in> ?ids) (lb_containers s)"
      "pids st1 = fold (\<lambda>it. fold AList.delete (cc_tasks (snd it))) ?gone (pids s)"
    using assms(1) s by (auto simp: UpdateDockerData_def Let_def)
  show ?thesis
    unfolding pids_known_def
  proof (intro allI impI)
    fix pid i assume "map_of (pids st1) pid = Some i"
    then have p: "map_of (pids s) pid = Some i" "\<not> (\<exists>it \<in> set ?gone. pid \<in> set (cc_tasks (snd it)))"
      unfolding st1 map_of_delete_all by (simp_all split: if_splits)
    obtain c where c: "map_of (lb_containers s) i = Some c" "pid \<in> set (cc_tasks c)"
      using k p(1) by (auto simp: pids_known_def task_of_def)
    have "i \<in> ?ids" using p(2) c by (force dest: map_of_SomeD)
    with c show "task_of st1 pid i" by (simp add: task_of_def st1 map_of_filter_keys)
  qed
qed

text \<open>Samples are only counted for containers that are there, and keep the tasks of all.\<close>

lemma count_sample_tasks:
  assumes "pids_known st"
  shows "pids (count_sample fp x st) = pids st \<and> (task_of (count_sample fp x st) pid i \<longleftrightarrow> task_of st pid i) \<and>
    (map_of (lb_containers (count_sample fp x st)) i = None \<longleftrightarrow> map_of (lb_containers st) i = None)"
proof (cases "map_of (pids st) (fst x)")
  case None
  then show ?thesis by (simp add: count_sample_def)
next
  case (Some j)
  with assms obtain c where "map_of (lb_containers st) j = Some c" by (auto simp: pids_known_def task_of_def)
  with Some show ?thesis by (auto simp: count_sample_def Let_def task_of_def store_simps al_get_def)
qed

lemma pmu_tasks:
  assumes "UpdatePmuData fp ds st = Some st1" "pids_known st"
  shows "pids_known st1" "map_of (lb_containers st1) i = None \<longleftrightarrow> map_of (lb_containers st) i = None"
proof -
  have f: "pids_known (fold (count_sample fp) xs st) \<and>
      (map_of (lb_containers (fold (count_sample fp) xs st)) i = None \<longleftrightarrow> map_of (lb_containers st) i = None)" for xs
    using assms(2)
  proof (induction xs arbitrary: st)
    case (Cons x xs)
    have "pids_known (count_sample fp x st)"
      using count_sample_tasks [OF Cons.prems, of fp x] Cons.prems by (simp add: pids_known_def)
    with Cons.IH count_sample_tasks [OF Cons.prems, of fp x _ i] show ?case by simp
  qed simp
  obtain d ds' where ds: "ds = d # ds'" using assms(1) by (auto simp: UpdatePmuData_def split: list.splits)
  let ?s = "fold (count_sample fp) (sd_samples d) st"
  obtain g where st1: "st1 = ?s\<lparr>lb_containers := map (\<lambda>(i, c). (i, c\<lparr>cpuLoad := g c, cc_cycles := 0\<rparr>)) (lb_containers ?s)\<rparr>"
    using assms(1) ds by (auto simp: UpdatePmuData_def Let_def split: if_splits)
  have m: "map_of (lb_containers st1) j = map_option (\<lambda>c. c\<lparr>cpuLoad := g c, cc_cycles := 0\<rparr>) (map_of (lb_containers ?s) j)" for j
    by (simp add: st1 map_of_map)
  have "task_of st1 pid j \<longleftrightarrow> task_of ?s pid j" for pid j
    by (fastforce simp: task_of_def m)
  then show "pids_known st1"
    using f [of "sd_samples d"] by (simp add: pids_known_def) (simp add: st1)
  show "map_of (lb_containers st1) i = None \<longleftrightarrow> map_of (lb_containers st) i = None"
    using f [of "sd_samples d"] m by simp
qed

lemma pids_known_step:
  assumes "load_step env st st1" "pids_known st"
  shows "pids_known st1"
  using assms(1)
proof cases
  case (data topic d)
  have "pids_known st1" if "UpdateNumaInfo infos st = Some st1" for infos
  proof -
    have cpu: "add_cpu info cpu s = Some s1 \<Longrightarrow> same_tasks s s1" for info cpu and s s1 :: "'a load_based"
      by (auto simp: add_cpu_def Let_def same_tasks_def split: bind_splits)
    have cpus: "add_cpus info xs s = Some s1 \<Longrightarrow> same_tasks s s1" for info xs and s s1 :: "'a load_based"
      by (induction xs arbitrary: s) (auto simp: same_tasks_def split: bind_splits dest!: cpu)
    have "add_infos xs s = Some s1 \<Longrightarrow> same_tasks s s1" for xs and s s1 :: "'a load_based"
      by (induction xs arbitrary: s) (auto simp: same_tasks_def split: bind_splits dest!: cpus)
    with that assms(2) show ?thesis
      by (auto simp: UpdateNumaInfo_def same_tasks_def pids_known_def task_of_def split: if_splits)
  qed
  with data assms(2) show ?thesis
    by (auto simp: Load_UpdateData_def split: if_splits load_data.splits intro: pids_known_docker pmu_tasks(1))
next
  case run
  then show ?thesis by (rule Load_Run_frame) (use assms(2) in \<open>simp add: same_tasks_def pids_known_def task_of_def\<close>)
qed

text \<open>C33. Whatever data and runs the enabled plugin has seen since its start (enabling and disabling again are not steps here), every process it has recorded is a
  task of a container it still holds; so samples never create a container.\<close>

theorem Load_pids_known:
  assumes "(load_step env)\<^sup>*\<^sup>* (load_based_new fp fs) st" "map_of (pids st) pid = Some i"
  shows "(\<exists>c. map_of (lb_containers st) i = Some c \<and> pid \<in> set (cc_tasks c)) \<and>
    (\<forall>ds st1 j. UpdatePmuData fp ds st = Some st1 \<longrightarrow> (map_of (lb_containers st1) j = None \<longleftrightarrow> map_of (lb_containers st) j = None))"
proof -
  from assms(1) have "pids_known st"
  proof induction
    case base
    then show ?case by (simp add: pids_known_def load_based_new_def)
  next
    case (step y z)
    then show ?case using pids_known_step by blast
  qed
  note k = this
  have "\<exists>c. map_of (lb_containers st) i = Some c \<and> pid \<in> set (cc_tasks c)"
    using assms(2) k by (simp add: pids_known_def task_of_def)
  with pmu_tasks(2) [OF _ k] show ?thesis by blast
qed

subsection \<open>Two containers on four cores\<close>

definition demo_load_env :: "(rat, unit) load_env" where
  "demo_load_env = \<lparr>le_fp = rat_ops, le_kernel = \<lparr>k_opens = (\<lambda>_. True), k_accepts = (\<lambda>_ _. True)\<rparr>,
     le_yaml = \<lparr>y_LoadFile = (\<lambda>_. None), y_IsMap = (\<lambda>_. None), y_IsNull = (\<lambda>_. None), y_IsDefined = (\<lambda>_. None),
       y_IsSequence = (\<lambda>_. None), y_size = (\<lambda>_. None), y_index = (\<lambda>_ _. None), y_key = (\<lambda>_ _. None),
       y_string = (\<lambda>_. None), y_int = (\<lambda>_. None)\<rparr>,
     le_double = (\<lambda>_. None), le_what = [], le_file_exist = (\<lambda>_. False), le_subscribe = (\<lambda>_. \<lparr>code = OK, payload = []\<rparr>),
     le_nproc = 4, le_dmidecode = None, le_shell = (\<lambda>_ fs. fs)\<rparr>"

definition demo_busy_container :: "string \<Rightarrow> rat ContainerCpuInfo" where
  "demo_busy_container i = (blank_cpu_info rat_ops)\<lparr>cc_id := i, cc_cpus := ''0-3'', totLoad := 1, cpuLoad := 2\<rparr>"

definition demo_load_files :: files where
  "demo_load_files p = (if p = preferred_file ''a'' \<or> p = preferred_file ''b'' then Some [] else None)"

definition demo_unplaced :: "rat load_based" where
  "demo_unplaced = (load_based_new rat_ops demo_load_files)\<lparr>
     lb_containers := [(''a'', demo_busy_container ''a''), (''b'', demo_busy_container ''b'')]\<rparr>"

definition demo_load :: "rat load_based" where
  "demo_load = demo_unplaced\<lparr>cpuNuma := [(0, 0), (1, 0), (2, 0), (3, 0)], numaContainers := [(0, blank_info\<lparr>ci_cpus := [0, 1, 2, 3]\<rparr>)]\<rparr>"

lemma demo_load_high:
  "map_option (\<lambda>(ids, st1). (ids, share st1 (node_of st1 ''a''), share st1 (node_of st1 ''b'')))
     (find_high (le_fp demo_load_env) (map snd (lb_containers demo_load)) (reset_numa demo_load)) = Some ([''a'', ''b''], 2, 2)"
  by code_simp

lemma demo_load_ok:
  "\<forall>(i, c) \<in> set (lb_containers demo_load). cc_id c = i \<and> readable c" "distinct (map fst (lb_containers demo_load))"
  "cores_ok demo_load" "usedCpus demo_load = []"
proof -
  have "readable (demo_busy_container i)" for i
  proof -
    have "ParseRange ''0-3'' = Some [0, 1, 2, 3]" by code_simp
    then show ?thesis by (simp add: readable_def demo_busy_container_def)
  qed
  then show "\<forall>(i, c) \<in> set (lb_containers demo_load). cc_id c = i \<and> readable c"
    by (simp add: demo_load_def demo_unplaced_def) (simp add: demo_busy_container_def)
  show "cores_ok demo_load"
    by (simp add: cores_ok_def demo_load_def al_get_def blank_info_def)
qed (simp_all add: demo_load_def demo_unplaced_def load_based_new_def)

theorem Load_Run_shares_witness:
  "\<exists>st2 alloc. Load_Run demo_load_env demo_load = Some st2 \<and> length (alloc ''a'') = 2 \<and> length (alloc ''b'') = (2::nat) \<and>
     set (alloc ''a'') \<inter> set (alloc ''b'') = {} \<and> lb_files st2 (preferred_file ''a'') = Some (cores_text (alloc ''a''))"
proof -
  obtain ids st1 st2 alloc where r: "find_high (le_fp demo_load_env) (map snd (lb_containers demo_load)) (reset_numa demo_load) = Some (ids, st1)"
      "Load_Run demo_load_env demo_load = Some st2" "lb_files st1 = lb_files demo_load"
      "shares_given (le_kernel demo_load_env) st1 (lb_files st2) ids alloc"
    using Load_Run_shares [OF demo_load_ok, of demo_load_env] by blast
  have e: "ids = [''a'', ''b'']" "share st1 (node_of st1 ''a'') = 2" "share st1 (node_of st1 ''b'') = 2"
    using demo_load_high r(1) by simp_all
  have t: "takes (le_kernel demo_load_env) (lb_files st1) ''a''" "takes (le_kernel demo_load_env) (lb_files st1) ''b''"
    by (simp_all add: takes_def r(3) demo_load_env_def demo_load_def demo_unplaced_def load_based_new_def demo_load_files_def)
  have "length (alloc ''a'') = 2" "length (alloc ''b'') = 2" "set (alloc ''a'') \<inter> set (alloc ''b'') = {}"
      "lb_files st2 (preferred_file ''a'') = (if alloc ''a'' = [] then lb_files st1 (preferred_file ''a'') else Some (cores_text (alloc ''a'')))"
    using r(4) t e unfolding shares_given_def by simp_all
  with r(2) show ?thesis by (auto split: if_splits)
qed

definition demo_env_info :: EnvStaticInfo where
  "demo_env_info = \<lparr>numaNum = 1, es_cpuNumConfig = 2, pageSize = 4096, pageMask = 0, cpu2Node = [0, 0], numaDistance = [[10]]\<rparr>"

lemma Load_early_run_witness:
  "\<exists>st1 st2. Load_Run demo_load_env demo_unplaced = Some st1 \<and> UpdateNumaInfo [demo_env_info] st1 = Some st2 \<and>
     ci_cpus (numa_at st2 0) = []"
proof -
  have "map_option (\<lambda>st1. UpdateNumaInfo [demo_env_info] st1 \<noteq> None) (Load_Run demo_load_env demo_unplaced) = Some True"
    by code_simp
  then obtain st1 st2 where s: "Load_Run demo_load_env demo_unplaced = Some st1" "UpdateNumaInfo [demo_env_info] st1 = Some st2"
    by auto
  have "map_option fst (find_high (le_fp demo_load_env) (map snd (lb_containers demo_unplaced)) (reset_numa demo_unplaced)) = Some [''a'', ''b'']"
    by code_simp
  then obtain st where h: "find_high (le_fp demo_load_env) (map snd (lb_containers demo_unplaced)) (reset_numa demo_unplaced) = Some ([''a'', ''b''], st)"
    by auto
  have "load_step demo_load_env st1 st2"
    by (rule load_step.data [where topic = "\<lparr>instanceName = ''env_info_collector'', topicName = ''static'', params = []\<rparr>" and d = "LoadEnv [demo_env_info]"])
      (simp add: Load_UpdateData_def s(2))
  then have "ci_cpus (numa_at st2 0) = []"
    using Load_early_run [OF _ _ s(1) r_into_rtranclp h] by (simp add: demo_unplaced_def load_based_new_def)
  with s show ?thesis by blast
qed

definition demo_docker_data :: Container where
  "demo_docker_data = \<lparr>cn_id = ''a'', cfs_period_us = 1, cfs_quota_us = 2, cfs_burst_us = 0, cpu_usage = 0, sampling_timestamp = 0,
     soft_quota = 0, cpus = ''0-3'', mems = ''0'', system_cpu_usage = 0, tasks = [7]\<rparr>"

theorem Load_pids_known_witness:
  "\<exists>st c. UpdateDockerData demo_load_env [demo_docker_data] (load_based_new rat_ops demo_load_files) = Some st \<and>
     map_of (lb_containers st) ''a'' = Some c \<and> 7 \<in> set (cc_tasks c)"
proof -
  have "map_option (\<lambda>st. map_of (pids st) 7) (UpdateDockerData demo_load_env [demo_docker_data] (load_based_new rat_ops demo_load_files)) = Some (Some ''a'')"
    by code_simp
  then obtain st where s: "UpdateDockerData demo_load_env [demo_docker_data] (load_based_new rat_ops demo_load_files) = Some st"
      "map_of (pids st) 7 = Some ''a''" by auto
  have "load_step demo_load_env (load_based_new rat_ops demo_load_files) st"
    by (rule load_step.data [where topic = "\<lparr>instanceName = ''docker_collector'', topicName = ''docker_collector'', params = []\<rparr>" and d = "LoadContainers [demo_docker_data]"])
      (simp add: Load_UpdateData_def s(1))
  then have "(load_step demo_load_env)\<^sup>*\<^sup>* (load_based_new rat_ops demo_load_files) st" by (rule r_into_rtranclp)
  from Load_pids_known [OF this s(2)] s(1) show ?thesis by blast
qed

end
