(* ===== verification/Irq_Frontend.thy ===== *)
theory Irq_Frontend
  imports Control_Files Data_Codecs
begin

text \<open>
  Which interrupt belongs to which queue of a network interface,
  \<^verbatim>\<open>src/plugin/tune/system/network/hardirq_tune/irq_frontend.cpp\<close>, and the affinity of interrupts,
  \<^verbatim>\<open>src/common/utils.cpp\<close>.

  The patterns come from a configuration file, so the regular expression engine is an argument:
  whether a pattern is accepted, and the first group of a match.
\<close>

subsection \<open>Affinity of interrupts\<close>

definition irq_file :: "int \<Rightarrow> string" where
  "irq_file irqNum = ''/proc/irq/'' @ to_string irqNum @ ''/smp_affinity_list''"

definition IrqSetSmpAffinity :: "kernel_env \<Rightarrow> int \<Rightarrow> string \<Rightarrow> files \<Rightarrow> int \<times> files" where
  "IrqSetSmpAffinity k irqNum preferredCpu fs =
     (if irqNum < 0 then (22, fs)
      else (case write_file k (irq_file irqNum) (preferredCpu @ [NL]) fs of (r, fs1) \<Rightarrow> (if r = Written then 0 else 5, fs1)))"

definition IrqGetSmpAffinity :: "files \<Rightarrow> int \<Rightarrow> string" where
  "IrqGetSmpAffinity fs irqNum = (case fs (irq_file irqNum) of None \<Rightarrow> [] | Some content \<Rightarrow> read_word content [])"

subsection \<open>Interrupts and their descriptions\<close>

record regex_engine =
  re_valid :: "string \<Rightarrow> bool"
  re_group1 :: "string \<Rightarrow> string \<Rightarrow> string option"

record EthQueInfo =
  eq_dev :: string
  eq_operstate :: int
  eq_busInfo :: string
  eq_driver :: string
  eq_regex :: "string list"
  que2Irq :: "(int \<times> int) list"

definition blank_eth :: EthQueInfo where
  "blank_eth = \<lparr>eq_dev = [], eq_operstate = 0, eq_busInfo = [], eq_driver = [], eq_regex = [], que2Irq = []\<rparr>"

definition rstrip :: "(char \<Rightarrow> bool) \<Rightarrow> string \<Rightarrow> string" where
  "rstrip p s = rev (dropWhile p (rev s))"

definition sp_tab :: "char \<Rightarrow> bool" where
  "sp_tab c = (c = CHR '' '' \<or> c = CHR 0x09)"

definition irq_desc :: "nat \<Rightarrow> string \<Rightarrow> string" where
  "irq_desc descStart line =
     (let desc = drop descStart line in if list_all sp_tab desc then desc else rstrip sp_tab (dropWhile sp_tab desc))"

fun irq_lines :: "nat \<Rightarrow> string list \<Rightarrow> (int \<times> string) list \<Rightarrow> (int \<times> string) list" where
  "irq_lines descStart [] m = m"
| "irq_lines descStart (line # lines) m =
     (if line = [] then m
      else case str_find line '':'' 0 of
             None \<Rightarrow> irq_lines descStart lines m
           | Some colonPos \<Rightarrow>
               (case stoi (take colonPos line) of
                  None \<Rightarrow> irq_lines descStart lines m
                | Some irqNum \<Rightarrow>
                    if length line \<le> descStart then irq_lines descStart lines m
                    else irq_lines descStart lines (AList.update irqNum (irq_desc descStart line) m)))"

definition GetIrqWithDesc :: "files \<Rightarrow> (int \<times> string) list" where
  "GetIrqWithDesc fs =
     (case fs ''/proc/interrupts'' of
        None \<Rightarrow> []
      | Some content \<Rightarrow>
          (case getlines NL content of
             [] \<Rightarrow> []
           | header # lines \<Rightarrow>
               (let width = length (rstrip (\<lambda>c. c = CHR '' '') header) in if width = 0 then [] else irq_lines width lines [])))"

subsection \<open>Interrupts of the queues\<close>

definition make_regex :: "EthQueInfo \<Rightarrow> string \<Rightarrow> string option" where
  "make_regex info str = do {
     r1 \<leftarrow> ReplaceString str ''VAR_BUSINFO'' (eq_busInfo info);
     r2 \<leftarrow> ReplaceString r1 ''VAR_ETH'' (eq_dev info);
     r3 \<leftarrow> ReplaceString r2 ''VAR_DRIVER'' (eq_driver info);
     ReplaceString r3 ''VAR_QUEUE'' ([CHR ''('', CHR 92] @ ''d+)'')
   }"

definition AddRegex :: "string list \<Rightarrow> EthQueInfo \<Rightarrow> EthQueInfo option" where
  "AddRegex regexSrc info = do { rs \<leftarrow> those (map (make_regex info) regexSrc); Some (info\<lparr>eq_regex := eq_regex info @ rs\<rparr>) }"

definition match_irq :: "regex_engine \<Rightarrow> string \<Rightarrow> int \<times> string \<Rightarrow> (int \<times> int) list \<Rightarrow> (int \<times> int) list" where
  "match_irq re pattern irqIt m =
     (case re_group1 re pattern (snd irqIt) of
        None \<Rightarrow> m
      | Some g \<Rightarrow> (case stoi g of None \<Rightarrow> m | Some queue \<Rightarrow> AList.update queue (fst irqIt) m))"

text \<open>
  A pattern that is refused is erased; the iterator then stands on the next one, which the increment
  steps over. After the last pattern the increment leaves the vector.
\<close>

fun update_regexes :: "regex_engine \<Rightarrow> (int \<times> string) list \<Rightarrow> string list \<Rightarrow> string list \<Rightarrow> (int \<times> int) list \<Rightarrow> (string list \<times> (int \<times> int) list) option" where
  "update_regexes re irqs front [] m = Some (front, m)"
| "update_regexes re irqs front (r # rs) m =
     (if re_valid re r then update_regexes re irqs (front @ [r]) rs (fold (match_irq re r) irqs m)
      else (case rs of [] \<Rightarrow> None | r1 # rs1 \<Rightarrow> update_regexes re irqs (front @ [r1]) rs1 m))"

definition UpdateQue2Irq :: "regex_engine \<Rightarrow> (int \<times> string) list \<Rightarrow> EthQueInfo \<Rightarrow> EthQueInfo option" where
  "UpdateQue2Irq re irqWithDesc info = do {
     (rs, m) \<leftarrow> update_regexes re irqWithDesc [] (eq_regex info) (que2Irq info);
     Some (info\<lparr>eq_regex := rs, que2Irq := m\<rparr>)
   }"

definition ProcSpecialEth :: "EthQueInfo \<Rightarrow> EthQueInfo" where
  "ProcSpecialEth info =
     (if eq_driver info = ''hns3'' then info\<lparr>que2Irq := fold (\<lambda>item. AList.update (fst item sdiv 2) (snd item)) (que2Irq info) []\<rparr> else info)"

fun eth_que_data :: "regex_engine \<Rightarrow> string list \<Rightarrow> (int \<times> string) list \<Rightarrow> (string \<times> EthQueInfo) list \<Rightarrow> (string \<times> EthQueInfo) list option" where
  "eth_que_data re queRegex irqs [] = Some []"
| "eth_que_data re queRegex irqs ((d, info) # rest) = do {
     info1 \<leftarrow> AddRegex queRegex info;
     info2 \<leftarrow> UpdateQue2Irq re irqs info1;
     more \<leftarrow> eth_que_data re queRegex irqs rest;
     Some ((d, ProcSpecialEth info2) # more)
   }"

definition GetEthQueData :: "regex_engine \<Rightarrow> files \<Rightarrow> string list \<Rightarrow> (string \<times> EthQueInfo) list \<Rightarrow> (string \<times> EthQueInfo) list option" where
  "GetEthQueData re fs queRegex ethQueData = eth_que_data re queRegex (GetIrqWithDesc fs) ethQueData"

subsection \<open>The configuration file\<close>

definition strip :: "string \<Rightarrow> string" where
  "strip line = rstrip isspace (dropWhile isspace line)"

fun conf_lines :: "bool \<Rightarrow> string list \<Rightarrow> string list \<Rightarrow> string list" where
  "conf_lines inSection [] queRegex = queRegex"
| "conf_lines inSection (l # ls) queRegex =
     (let line = strip l in
      if line = [] \<or> hd line = CHR ''#'' then conf_lines inSection ls queRegex
      else if line = ''[Queue2Irq]'' then conf_lines True ls queRegex
      else if \<not> inSection then conf_lines inSection ls queRegex
      else if prefix ''['' line then queRegex
      else if prefix ''REGEXP:'' line \<and> drop 7 line \<noteq> [] then conf_lines inSection ls (queRegex @ [drop 7 line])
      else conf_lines inSection ls queRegex)"

definition InitConf :: "files \<Rightarrow> string \<Rightarrow> string list \<Rightarrow> bool \<times> string list" where
  "InitConf fs path queRegex =
     (case fs path of None \<Rightarrow> (False, queRegex) | Some content \<Rightarrow> (True, conf_lines False (getlines NL content) queRegex))"

subsection \<open>Properties\<close>

lemma conf_lines_appends: "conf_lines b ls qs = qs @ conf_lines b ls []"
proof (induction ls arbitrary: b qs)
  case (Cons l ls)
  show ?case
    using Cons.IH [of _ "qs @ [drop 7 (strip l)]"] Cons.IH [of _ "[drop 7 (strip l)]"] Cons.IH [of _ qs]
    by (simp add: Let_def)
qed simp

text \<open>The patterns of the file are added again each time it is read.\<close>

lemma InitConf_again:
  "InitConf fs path [] = (True, qs) \<Longrightarrow> InitConf fs path qs = (True, qs @ qs)"
  by (clarsimp simp: InitConf_def split: option.splits) (rule conf_lines_appends)

text \<open>A refused pattern at the end of the list is undefined behaviour; one before another pattern hides that one.\<close>

lemma update_regexes_last:
  "\<forall>r \<in> set rs. re_valid re r \<Longrightarrow> \<not> re_valid re bad \<Longrightarrow> update_regexes re irqs front (rs @ [bad]) m = None"
  by (induction rs arbitrary: front m) simp_all

lemma update_regexes_valid:
  "\<forall>r \<in> set rs. re_valid re r \<Longrightarrow>
     update_regexes re irqs front rs m = Some (front @ rs, fold (\<lambda>r. fold (match_irq re r) irqs) rs m)"
  by (induction rs arbitrary: front m) simp_all

lemma irq_file_inj [simp]: "irq_file i = irq_file j \<longleftrightarrow> i = j"
proof
  assume "irq_file i = irq_file j"
  then have "to_string i = to_string j" by (simp add: irq_file_def)
  then have "strtol10 (to_string i) = strtol10 (to_string j)" by simp
  then show "i = j" by simp
qed simp

definition irq_writable :: "kernel_env \<Rightarrow> int \<Rightarrow> files \<Rightarrow> bool" where
  "irq_writable k n fs = (0 \<le> n \<and> fs (irq_file n) \<noteq> None \<and> k_opens k (irq_file n))"

definition good_affinity :: "kernel_env \<Rightarrow> string \<Rightarrow> int \<Rightarrow> bool" where
  "good_affinity k v n = (v \<noteq> [] \<and> list_all (\<lambda>c. \<not> isspace c) v \<and> k_accepts k (irq_file n) (v @ [NL]))"

lemma read_word_affinity: "v \<noteq> [] \<Longrightarrow> list_all (\<lambda>c. \<not> isspace c) v \<Longrightarrow> read_word (v @ [NL]) old = v"
proof -
  assume v: "v \<noteq> []" "list_all (\<lambda>c. \<not> isspace c) v"
  have "dropWhile isspace (v @ [NL]) = v @ [NL]" using v by (cases v) simp_all
  moreover have "takeWhile (\<lambda>c. \<not> isspace c) (v @ [NL]) = v"
    using v(2) by (subst takeWhile_append2) (auto simp: list_all_iff isspace_def NL_def)
  ultimately show ?thesis using v(1) by (simp add: read_word_def)
qed

lemma IrqSetSmpAffinity_files:
  "snd (IrqSetSmpAffinity k n v fs) = (if n < 0 then fs else snd (write_file k (irq_file n) (v @ [NL]) fs))"
  by (simp add: IrqSetSmpAffinity_def split: prod.splits)

interpretation irq: saved_setting irq_file IrqGetSmpAffinity "\<lambda>v i fs. snd (IrqSetSmpAffinity k i v fs)" "irq_writable k" "good_affinity k" for k
proof
  fix p v and fs :: files
  assume "irq_writable k p fs" "good_affinity k v p"
  then show "IrqGetSmpAffinity (snd (IrqSetSmpAffinity k p v fs)) p = v"
    by (auto simp: irq_writable_def good_affinity_def IrqSetSmpAffinity_files IrqGetSmpAffinity_def write_file_def read_word_affinity)
qed (auto simp: irq_writable_def IrqSetSmpAffinity_files IrqGetSmpAffinity_def write_file_locked simp flip: not_None_eq)

end
