(* ===== verification/Hardirq_Tune.thy ===== *)
theory Hardirq_Tune
  imports Irq_Frontend
begin

text \<open>
  The plugin that binds the interrupts of network queues to the node that receives their packets,
  \<^verbatim>\<open>src/plugin/tune/system/network/hardirq_tune/hardirq_tune.cpp\<close>: its data, the matching of packets and
  threads, the choice of cores, binding and restoring. The text of the debug log is left out.

  Arguments are the arithmetic of \<open>double\<close> with the rounding to \<open>float\<close>, the kernel, the regular
  expressions, the two sorted permutations \<open>std::sort\<close> computes and the answers of shell commands.
\<close>

subsection \<open>State\<close>

record RecNetQueue =
  rq_ts :: u64
  queueMapping :: u64
  rq_skbaddr :: u64
  rq_dev :: string

record RecNetThreads =
  rt_ts :: u64
  rt_core :: int
  rt_skbaddr :: u64

text \<open>Members the constructors leave uninitialized (\<open>queueId\<close>, \<open>lastAffinity\<close>) start at 0.\<close>

record QueueInfo =
  qi_queueId :: int
  qi_irqId :: int
  rxSum :: int
  lastBindCpu :: int
  rxMaxNode :: int
  numaRxTimes :: "int list"

record HardIrqMigUint =
  mu_irqId :: int
  mu_rxSum :: int
  mu_queId :: int
  mu_dev :: string
  lastBindCore :: int
  preferredNode :: int
  mu_priority :: int

record IrqInfo =
  originAffinity :: string
  lastAffinity :: int
  isTuned :: bool

record ThreadNumaInfo =
  queRxTimes :: "(int \<times> (int \<times> u64) list) list"
  cyclesNumaRatio :: "u64 list"
  cyclesSum :: u64

record 'd hardirq =
  highNoiseSample :: bool
  hi_topics :: "Topic list"
  netQueue :: "(string \<times> (int \<times> QueueInfo) list) list"
  irqInfo :: "(int \<times> IrqInfo) list"
  irqbalanceStatus :: bool
  netDataInterval :: int
  hi_numaNum :: nat
  cpu2Numa :: "int list"
  ifIdxToName :: "(int \<times> string) list"
  envInit :: bool
  cpuTimeDiff :: "u64 list list"
  cpuUtil :: "'d list list"
  queueData :: "RecNetQueue list"
  threadData :: "RecNetThreads list"
  threadNumaInfo :: "(int \<times> ThreadNumaInfo) list"
  queRegex :: "string list"
  ethQueData :: "(string \<times> EthQueInfo) list"
  showVerbose :: bool
  debugTopicOpen :: bool
  runCnt :: u64
  hi_files :: files
  hi_commands :: "string list"

record 'd hardirq_env =
  he_fp :: "'d float_ops"
  he_float :: "'d \<Rightarrow> 'd"
  he_kernel :: kernel_env
  he_regex :: regex_engine
  he_irq_dir :: "string list option"
  he_sort_units :: "HardIrqMigUint list \<Rightarrow> HardIrqMigUint list"
  he_sort_cpus :: "(int \<times> 'd) list \<Rightarrow> (int \<times> 'd) list"
  he_is_active :: "string option"

definition INVALID_CPU_ID :: int where
  "INVALID_CPU_ID = -1"

definition INVAILD_IRQ_ID :: int where
  "INVAILD_IRQ_ID = -1"

definition NET_RXT_THRESHOLD :: int where
  "NET_RXT_THRESHOLD = 10"

definition slidingWinLen :: nat where
  "slidingWinLen = 200"

definition blank_queue :: QueueInfo where
  "blank_queue = \<lparr>qi_queueId = 0, qi_irqId = INVAILD_IRQ_ID, rxSum = 0, lastBindCpu = INVALID_CPU_ID, rxMaxNode = 0, numaRxTimes = []\<rparr>"

definition blank_irq :: IrqInfo where
  "blank_irq = \<lparr>originAffinity = [], lastAffinity = 0, isTuned = False\<rparr>"

definition blank_thread :: ThreadNumaInfo where
  "blank_thread = \<lparr>queRxTimes = [], cyclesNumaRatio = [], cyclesSum = 0\<rparr>"

definition queue_at :: "'d hardirq \<Rightarrow> string \<Rightarrow> int \<Rightarrow> QueueInfo" where
  "queue_at st dev q = al_get blank_queue (al_get [] (netQueue st) dev) q"

definition set_queue :: "string \<Rightarrow> int \<Rightarrow> QueueInfo \<Rightarrow> 'd hardirq \<Rightarrow> 'd hardirq" where
  "set_queue dev q info st = st\<lparr>netQueue := AList.update dev (AList.update q info (al_get [] (netQueue st) dev)) (netQueue st)\<rparr>"

definition each_queue :: "(string \<Rightarrow> int \<Rightarrow> QueueInfo \<Rightarrow> QueueInfo) \<Rightarrow> 'd hardirq \<Rightarrow> 'd hardirq" where
  "each_queue f st = st\<lparr>netQueue := map (\<lambda>(dev, qs). (dev, map (\<lambda>(q, info). (q, f dev q info)) qs)) (netQueue st)\<rparr>"

text \<open>\<open>resize(n, 0)\<close> of a vector that may only grow.\<close>

definition grow :: "nat \<Rightarrow> 'a :: zero list \<Rightarrow> 'a list" where
  "grow n xs = (if length xs < n then xs @ replicate (n - length xs) 0 else xs)"

subsection \<open>Topics and parameters\<close>

definition Hirq_OpenTopic :: "Topic \<Rightarrow> 'd hardirq \<Rightarrow> Result \<times> 'd hardirq" where
  "Hirq_OpenTopic topic st =
     (if instanceName topic \<noteq> ''net_hard_irq_tune'' then
        (\<lparr>code = FAILED, payload = ''OpenTopic:'' @ GetType topic @ '' failed, instanceName is not match''\<rparr>, st)
      else if params topic \<noteq> [] then (\<lparr>code = FAILED, payload = ''OpenTopic:'' @ GetType topic @ '' failed, params is not empty''\<rparr>, st)
      else if topicName topic \<noteq> ''net_hardirq_tune_debug_info'' then
        (\<lparr>code = FAILED, payload = ''OpenTopic:'' @ GetType topic @ '' failed, topicName is not match''\<rparr>, st)
      else (\<lparr>code = OK, payload = []\<rparr>, st\<lparr>debugTopicOpen := True\<rparr>))"

definition Hirq_CloseTopic :: "Topic \<Rightarrow> 'd hardirq \<Rightarrow> 'd hardirq" where
  "Hirq_CloseTopic topic st =
     (if debugTopicOpen st \<and> topicName topic = ''net_hardirq_tune_debug_info'' then st\<lparr>debugTopicOpen := False\<rparr> else st)"

definition save_irq :: "files \<Rightarrow> string \<Rightarrow> (int \<times> IrqInfo) list \<Rightarrow> (int \<times> IrqInfo) list" where
  "save_irq fs name m =
     (if name = [] \<or> \<not> isdigit (hd name) then m
      else case stoi name of
             None \<Rightarrow> m
           | Some n \<Rightarrow> AList.update n ((al_get blank_irq m n)\<lparr>originAffinity := IrqGetSmpAffinity fs n\<rparr>) m)"

definition InitIrqInfo :: "'d hardirq_env \<Rightarrow> 'd hardirq \<Rightarrow> 'd hardirq" where
  "InitIrqInfo env st =
     (case he_irq_dir env of None \<Rightarrow> st | Some names \<Rightarrow> st\<lparr>irqInfo := fold (save_irq (hi_files st)) names (irqInfo st)\<rparr>)"

definition Hirq_Init :: "'d hardirq_env \<Rightarrow> 'd hardirq \<Rightarrow> 'd hardirq" where
  "Hirq_Init env st = InitIrqInfo env (st\<lparr>showVerbose := False, runCnt := 0\<rparr>)"

text \<open>An invalid \<open>netdata\<close> is only logged.\<close>

definition resolve_verbose :: "(string \<times> string) list \<Rightarrow> 'd hardirq \<Rightarrow> bool \<times> 'd hardirq" where
  "resolve_verbose m st =
     (case map_of m ''verbose'' of
        None \<Rightarrow> (True, st)
      | Some v \<Rightarrow> if v = ''on'' then (True, st\<lparr>showVerbose := True\<rparr>)
                  else if v = ''off'' then (True, st\<lparr>showVerbose := False\<rparr>) else (False, st))"

definition resolve_netdata :: "(string \<times> string) list \<Rightarrow> 'd hardirq \<Rightarrow> 'd hardirq" where
  "resolve_netdata m st =
     (case map_of m ''netdata'' of
        None \<Rightarrow> st
      | Some v \<Rightarrow> if v = ''thread_recv_que'' then st\<lparr>highNoiseSample := False\<rparr>
                  else if v = ''skb_copy'' then st\<lparr>highNoiseSample := True\<rparr> else st)"

definition ResolveCmd :: "string \<Rightarrow> 'd hardirq \<Rightarrow> bool \<times> 'd hardirq" where
  "ResolveCmd param st =
     (if param = [] then (True, st)
      else (let m = GetKeyValueFromString param in
        if list_ex (\<lambda>item. fst item \<noteq> ''netdata'' \<and> fst item \<noteq> ''verbose'') m then (False, st)
        else (case resolve_verbose m st of (good, st1) \<Rightarrow> if good then (True, resolve_netdata m st1) else (False, st1))))"

subsection \<open>Data\<close>

text \<open>A sample of a counter, with the fields of its raw record the plugin reads.\<close>

record pmu_sample =
  ps_cpu :: int
  ps_tid :: int
  ps_ts :: u64
  ps_period :: u64
  ps_queueMapping :: u64
  ps_skbaddr :: u64
  ps_device :: string

record samples =
  sm_interval :: u64
  sm_data :: "pmu_sample list"

datatype hirq_data = HiStatic EnvStaticInfo | HiSamples samples | HiCpuUtil EnvCpuUtilParam
  | HiBase NetIntfBaseDataList | HiDriver NetIntfDriverDataList | HiThreadQue NetThreadQueDataList

definition UpdateSystemInfo :: "Topic \<Rightarrow> hirq_data list \<Rightarrow> 'd hardirq \<Rightarrow> 'd hardirq option" where
  "UpdateSystemInfo topic data st =
     (if topicName topic = ''static'' \<and> \<not> envInit st then
        (case data of
           HiStatic d # _ \<Rightarrow>
             (let n = sint (es_cpuNumConfig d) in
              if n < 0 \<or> length (cpu2Node d) < nat n then None
              else Some (st\<lparr>hi_numaNum := unat (numaNum d), cpu2Numa := map sint (take (nat n) (cpu2Node d)), envInit := True\<rparr>))
         | _ \<Rightarrow> None)
      else Some st)"

text \<open>A name in the record ends at its NUL or after 63 bytes.\<close>

definition NapiGroRecEntryResolve :: "pmu_sample \<Rightarrow> string \<times> u64 \<times> u64" where
  "NapiGroRecEntryResolve d = (take 63 (cstr (ps_device d)), ps_queueMapping d, ps_skbaddr d)"

definition UpdateQueueData :: "pmu_sample list \<Rightarrow> 'd hardirq \<Rightarrow> 'd hardirq" where
  "UpdateQueueData data st = st\<lparr>queueData := queueData st @
     map (\<lambda>d. case NapiGroRecEntryResolve d of (dev, que, skb) \<Rightarrow>
       \<lparr>rq_ts = ps_ts d, queueMapping = que - 1, rq_skbaddr = skb, rq_dev = dev\<rparr>) data\<rparr>"

definition UpdateThreadData :: "pmu_sample list \<Rightarrow> 'd hardirq \<Rightarrow> 'd hardirq" where
  "UpdateThreadData data st = st\<lparr>threadData := threadData st @
     map (\<lambda>d. \<lparr>rt_ts = ps_ts d, rt_core = ps_cpu d, rt_skbaddr = ps_skbaddr d\<rparr>) data\<rparr>"

fun add_cycles :: "pmu_sample list \<Rightarrow> 'd hardirq \<Rightarrow> 'd hardirq option" where
  "add_cycles [] st = Some st"
| "add_cycles (d # ds) st = do {
     let tid = uint (word_of_int (ps_tid d) :: 32 word);
     let t = al_get blank_thread (threadNumaInfo st) tid;
     let ratio = (if cyclesNumaRatio t = [] then replicate (hi_numaNum st) 0 else cyclesNumaRatio t);
     numa \<leftarrow> nth_int (cpu2Numa st) (ps_cpu d);
     old \<leftarrow> nth_int ratio numa;
     ratio1 \<leftarrow> upd_int ratio numa (old + ps_period d);
     add_cycles ds (st\<lparr>threadNumaInfo := AList.update tid
       (t\<lparr>cyclesNumaRatio := ratio1, cyclesSum := cyclesSum t + ps_period d\<rparr>) (threadNumaInfo st)\<rparr>)
   }"

definition UpdateCyclesData :: "pmu_sample list \<Rightarrow> 'd hardirq \<Rightarrow> 'd hardirq option" where
  "UpdateCyclesData data st = (if envInit st then add_cycles data st else Some st)"

text \<open>The first element of the data is read for every topic.\<close>

definition UpdatePmuSampleInfo :: "Topic \<Rightarrow> hirq_data list \<Rightarrow> 'd hardirq \<Rightarrow> 'd hardirq option" where
  "UpdatePmuSampleInfo topic data st =
     (let t = topicName topic in
      if data = [] then None
      else if t = ''skb:skb_copy_datagram_iovec'' then
        (case hd data of
           HiSamples s \<Rightarrow> Some ((UpdateThreadData (sm_data s) st)\<lparr>netDataInterval := to_int32 (netDataInterval st + uint (sm_interval s))\<rparr>)
         | _ \<Rightarrow> None)
      else if t = ''net:napi_gro_receive_entry'' then (case hd data of HiSamples s \<Rightarrow> Some (UpdateQueueData (sm_data s) st) | _ \<Rightarrow> None)
      else if t = ''cycles'' then (case hd data of HiSamples s \<Rightarrow> UpdateCyclesData (sm_data s) st | _ \<Rightarrow> None)
      else Some st)"

fun copy_times :: "nat \<Rightarrow> u64 list list \<Rightarrow> u64 list list option" where
  "copy_times 0 rows = Some []"
| "copy_times (Suc n) rows =
     (case rows of
        [] \<Rightarrow> None
      | r # rs \<Rightarrow> if length r < CPU_UTIL_TYPE_MAX then None else map_option (Cons (take CPU_UTIL_TYPE_MAX r)) (copy_times n rs))"

definition UpdateCpuInfo :: "'d float_ops \<Rightarrow> EnvCpuUtilParam \<Rightarrow> 'd hardirq \<Rightarrow> 'd hardirq option" where
  "UpdateCpuInfo fp d st =
     (if ec_dataReady d = 0 then Some st
      else (let n = nat ((sint (ec_cpuNumConfig d) + 1) mod 2 ^ 64); size = max (length (cpuTimeDiff st)) n in do {
        rows \<leftarrow> copy_times size (times d);
        Some (st\<lparr>cpuTimeDiff := rows,
          cpuUtil := cpuUtil st @ replicate (size - length (cpuUtil st)) (replicate CPU_UTIL_TYPE_MAX (fp_of_int fp 0))\<rparr>)
      }))"

definition UpdateEnvInfo :: "'d float_ops \<Rightarrow> Topic \<Rightarrow> hirq_data list \<Rightarrow> 'd hardirq \<Rightarrow> 'd hardirq option" where
  "UpdateEnvInfo fp topic data st =
     (if data = [] then None
      else if topicName topic = ''cpu_util'' then (case hd data of HiCpuUtil d \<Rightarrow> UpdateCpuInfo fp d st | _ \<Rightarrow> None)
      else Some st)"

definition UpdateNetBaseInfo :: "NetworkInterfaceData list \<Rightarrow> 'd hardirq \<Rightarrow> 'd hardirq" where
  "UpdateNetBaseInfo = fold (\<lambda>d st. let dev = cstr (ni_name d) in
     st\<lparr>ethQueData := AList.update dev ((al_get blank_eth (ethQueData st) dev)\<lparr>eq_dev := dev, eq_operstate := sint (operstate d)\<rparr>) (ethQueData st),
        ifIdxToName := AList.update (uint (ifindex d)) dev (ifIdxToName st)\<rparr>)"

definition UpdateNetDriverInfo :: "NetworkInterfaceDriverData list \<Rightarrow> 'd hardirq \<Rightarrow> 'd hardirq" where
  "UpdateNetDriverInfo = fold (\<lambda>d st. let dev = cstr (nd_name d) in
     st\<lparr>ethQueData := AList.update dev ((al_get blank_eth (ethQueData st) dev)\<lparr>eq_dev := dev, eq_busInfo := cstr (busInfo d),
       eq_driver := cstr (nd_driver d)\<rparr>) (ethQueData st)\<rparr>)"

definition UpdateThreadNumaInfo :: "NetThreadQueData list \<Rightarrow> 'd hardirq \<Rightarrow> 'd hardirq" where
  "UpdateThreadNumaInfo = fold (\<lambda>d st.
     let tid = uint (nq_tid d); t = al_get blank_thread (threadNumaInfo st) tid;
         ques = al_get [] (queRxTimes t) (sint (nq_ifIndex d));
         n = al_get 0 ques (sint (queueId d)) + ucast (nq_times d)
     in st\<lparr>threadNumaInfo := AList.update tid (t\<lparr>queRxTimes :=
          AList.update (sint (nq_ifIndex d)) (AList.update (sint (queueId d)) n ques) (queRxTimes t)\<rparr>) (threadNumaInfo st)\<rparr>)"

text \<open>A list of \<open>count\<close> elements; fewer would be read past their end.\<close>

definition first_n :: "c_int \<Rightarrow> 'a list \<Rightarrow> 'a list option" where
  "first_n n xs = (if length xs < nat (sint n) then None else Some (take (nat (sint n)) xs))"

definition UpdateNetIntfInfo :: "Topic \<Rightarrow> hirq_data list \<Rightarrow> 'd hardirq \<Rightarrow> 'd hardirq option" where
  "UpdateNetIntfInfo topic data st =
     (let t = topicName topic in
      if instanceName topic \<noteq> ''net_interface_info'' then Some st
      else if t = ''base'' then
        (case data of HiBase d # _ \<Rightarrow> do { l \<leftarrow> first_n (nb_count d) (nb_base d); Some (UpdateNetBaseInfo l st) } | _ \<Rightarrow> None)
      else if t = ''driver'' then
        (case data of HiDriver d # _ \<Rightarrow> do { l \<leftarrow> first_n (nd_count d) (nd_list d); Some (UpdateNetDriverInfo l st) } | _ \<Rightarrow> None)
      else if t = ''net_thread_que_data'' \<and> params topic = ''thread_recv_que_cnt'' then
        (case data of HiThreadQue d # _ \<Rightarrow> do { l \<leftarrow> first_n (nq_count d) (queData d); Some (UpdateThreadNumaInfo l st) } | _ \<Rightarrow> None)
      else Some st)"

definition Hirq_UpdateData :: "'d hardirq_env \<Rightarrow> Topic \<Rightarrow> hirq_data list \<Rightarrow> 'd hardirq \<Rightarrow> 'd hardirq option" where
  "Hirq_UpdateData env topic data st = do {
     st1 \<leftarrow> UpdateSystemInfo topic data st;
     st2 \<leftarrow> UpdatePmuSampleInfo topic data st1;
     st3 \<leftarrow> UpdateEnvInfo (he_fp env) topic data st2;
     UpdateNetIntfInfo topic data st3
   }"

subsection \<open>Packets, threads and nodes\<close>

definition UpdateThreadAndQueueInfo :: "RecNetQueue \<Rightarrow> RecNetThreads \<Rightarrow> 'd hardirq \<Rightarrow> 'd hardirq option" where
  "UpdateThreadAndQueueInfo que thr st = do {
     let q = to_int32 (uint (queueMapping que));
     node \<leftarrow> nth_int (cpu2Numa st) (rt_core thr);
     let info = queue_at st (rq_dev que) q;
     let rx = grow (hi_numaNum st) (numaRxTimes info);
     old \<leftarrow> nth_int rx node;
     rx1 \<leftarrow> upd_int rx node (old + 1);
     Some (set_queue (rq_dev que) q (info\<lparr>numaRxTimes := rx1\<rparr>) st)
   }"

text \<open>
  The threads from \<open>id\<close> on are searched for the first one that is not before the packet; without
  one the position stays. Then the next \<open>slidingWinLen\<close> threads are searched for the same buffer.
\<close>

definition next_thread :: "RecNetThreads list \<Rightarrow> u64 \<Rightarrow> nat \<Rightarrow> nat" where
  "next_thread thrs ts i = (case find (\<lambda>j. ts \<le> rt_ts (thrs ! j)) [i..<length thrs] of None \<Rightarrow> i | Some j \<Rightarrow> j)"

definition same_buffer :: "RecNetThreads list \<Rightarrow> u64 \<Rightarrow> nat \<Rightarrow> nat option" where
  "same_buffer thrs skb i = find (\<lambda>j. rt_skbaddr (thrs ! j) = skb) [i..<min (length thrs) (i + slidingWinLen)]"

fun match_queues :: "RecNetQueue list \<Rightarrow> nat \<Rightarrow> 'd hardirq \<Rightarrow> 'd hardirq option" where
  "match_queues [] i st = Some st"
| "match_queues (que # ques) i st = do {
     let i1 = next_thread (threadData st) (rq_ts que) i;
     st1 \<leftarrow> (case same_buffer (threadData st) (rq_skbaddr que) i1 of
              None \<Rightarrow> Some st
            | Some j \<Rightarrow> UpdateThreadAndQueueInfo que (threadData st ! j) st);
     match_queues ques i1 st1
   }"

definition MatchThreadAndQueue :: "'d hardirq \<Rightarrow> 'd hardirq option" where
  "MatchThreadAndQueue st = do { st1 \<leftarrow> match_queues (queueData st) 0 st; Some (st1\<lparr>threadData := [], queueData := []\<rparr>) }"

definition numa_ratio :: "'d float_ops \<Rightarrow> nat \<Rightarrow> ThreadNumaInfo \<Rightarrow> 'd list option" where
  "numa_ratio fp n t =
     (if n < length (cyclesNumaRatio t) then None
      else Some (map (\<lambda>c. fp_div fp (fp_of_int fp (uint c)) (fp_of_int fp (uint (cyclesSum t)))) (cyclesNumaRatio t)
                 @ replicate (n - length (cyclesNumaRatio t)) (fp_of_int fp 0)))"

text \<open>The sum is a \<open>double\<close> that is converted back to \<open>int\<close>.\<close>

fun add_rx :: "'d float_ops \<Rightarrow> u64 \<Rightarrow> 'd list \<Rightarrow> int list \<Rightarrow> int list option" where
  "add_rx fp rx (r # rs) (n # ns) = do {
     v \<leftarrow> fp_trunc fp (fp_add fp (fp_of_int fp n) (fp_mul fp (fp_of_int fp (uint rx)) r));
     vs \<leftarrow> add_rx fp rx rs ns;
     if - (2 ^ 31) \<le> v \<and> v < 2 ^ 31 then Some (v # vs) else None
   }"
| "add_rx fp rx _ ns = Some ns"

fun rx_of_queues :: "'d float_ops \<Rightarrow> string \<Rightarrow> 'd list \<Rightarrow> (int \<times> u64) list \<Rightarrow> 'd hardirq \<Rightarrow> 'd hardirq option" where
  "rx_of_queues fp dev ratio [] st = Some st"
| "rx_of_queues fp dev ratio ((q, rx) # qs) st = do {
     let info = queue_at st dev q;
     ns \<leftarrow> add_rx fp rx ratio (grow (hi_numaNum st) (numaRxTimes info));
     rx_of_queues fp dev ratio qs (set_queue dev q (info\<lparr>numaRxTimes := ns\<rparr>) st)
   }"

fun rx_of_devs :: "'d float_ops \<Rightarrow> 'd list \<Rightarrow> (int \<times> (int \<times> u64) list) list \<Rightarrow> 'd hardirq \<Rightarrow> 'd hardirq option" where
  "rx_of_devs fp ratio [] st = Some st"
| "rx_of_devs fp ratio ((ifIndex, qs) # rest) st =
     (let devName = al_get [] (ifIdxToName st) (uint (word_of_int ifIndex :: 32 word)) in
      if devName = [] then rx_of_devs fp ratio rest st
      else do { st1 \<leftarrow> rx_of_queues fp devName ratio qs st; rx_of_devs fp ratio rest st1 })"

fun rx_of_threads :: "'d float_ops \<Rightarrow> ThreadNumaInfo list \<Rightarrow> 'd hardirq \<Rightarrow> 'd hardirq option" where
  "rx_of_threads fp [] st = Some st"
| "rx_of_threads fp (t # ts) st =
     (if queRxTimes t = [] then rx_of_threads fp ts st
      else do {
        ratio \<leftarrow> numa_ratio fp (hi_numaNum st) t;
        st1 \<leftarrow> rx_of_devs fp ratio (queRxTimes t) st;
        rx_of_threads fp ts st1
      })"

definition MatchThreadQueAndNuma :: "'d float_ops \<Rightarrow> 'd hardirq \<Rightarrow> 'd hardirq option" where
  "MatchThreadQueAndNuma fp st = rx_of_threads fp (map snd (threadNumaInfo st)) st"

subsection \<open>Choice of cores\<close>

definition add_irq :: "'d hardirq \<Rightarrow> string \<Rightarrow> int \<Rightarrow> QueueInfo \<Rightarrow> QueueInfo" where
  "add_irq st dev q info =
     (case map_of (ethQueData st) dev of
        None \<Rightarrow> info
      | Some e \<Rightarrow> (case map_of (que2Irq e) q of None \<Rightarrow> info | Some n \<Rightarrow> info\<lparr>qi_irqId := n, qi_queueId := q\<rparr>))"

definition AddIrqToQueueInfo :: "'d hardirq \<Rightarrow> 'd hardirq" where
  "AddIrqToQueueInfo st = each_queue (add_irq st) st"

definition ClearInvalidQueueInfo :: "'d hardirq \<Rightarrow> 'd hardirq" where
  "ClearInvalidQueueInfo st = st\<lparr>netQueue := filter (\<lambda>item. snd item \<noteq> [])
     (map (\<lambda>(dev, qs). (dev, filter (\<lambda>item. qi_irqId (snd item) \<noteq> INVAILD_IRQ_ID) qs)) (netQueue st))\<rparr>"

definition CPU_IDLE :: nat where
  "CPU_IDLE = 3"

definition CPU_IRQ :: nat where
  "CPU_IRQ = 5"

definition CPU_SOFTIRQ :: nat where
  "CPU_SOFTIRQ = 6"

definition CPU_TIME_SUM :: nat where
  "CPU_TIME_SUM = 10"

definition util_row :: "'d hardirq_env \<Rightarrow> u64 list \<Rightarrow> 'd list" where
  "util_row env row =
     (let fp = he_fp env; total = row ! CPU_TIME_SUM in
      map (\<lambda>t. if total = 0 then fp_lit fp 0 1
               else he_float env (fp_div fp (fp_mul fp (fp_of_int fp (uint t)) (fp_lit fp 100 1)) (fp_of_int fp (uint total)))) row)"

definition CalCpuUtil :: "'d hardirq_env \<Rightarrow> 'd hardirq \<Rightarrow> 'd hardirq" where
  "CalCpuUtil env st = st\<lparr>cpuUtil := map (util_row env) (cpuTimeDiff st)\<rparr>"

text \<open>The node with most packets; among equal ones the last.\<close>

fun max_node :: "nat \<Rightarrow> nat \<times> int \<times> int \<Rightarrow> int list \<Rightarrow> nat \<times> int \<times> int" where
  "max_node i acc [] = acc"
| "max_node i (maxNode, maxTimes, rx) (t # ts) =
     max_node (Suc i) (if maxTimes \<le> t then (i, t, rx + t) else (maxNode, maxTimes, rx + t)) ts"

definition TunePreprocessing :: "'d hardirq \<Rightarrow> 'd hardirq" where
  "TunePreprocessing = each_queue (\<lambda>dev q info.
     case max_node 0 (0, 0, 0) (numaRxTimes info) of (maxNode, maxTimes, rx) \<Rightarrow> info\<lparr>rxSum := rx, rxMaxNode := int maxNode\<rparr>)"

fun add_cpu_sorts :: "'d hardirq_env \<Rightarrow> 'd list list \<Rightarrow> nat \<Rightarrow> int list \<Rightarrow> (int \<times> 'd) list list \<Rightarrow> (int \<times> 'd) list list option" where
  "add_cpu_sorts env util cpu [] rst = Some rst"
| "add_cpu_sorts env util cpu (nid # nids) rst = do {
     let fp = he_fp env;
     row \<leftarrow> nth_opt util cpu;
     a \<leftarrow> nth_opt row CPU_IDLE;
     b \<leftarrow> nth_opt row CPU_IRQ;
     c \<leftarrow> nth_opt row CPU_SOFTIRQ;
     l \<leftarrow> nth_int rst nid;
     rst1 \<leftarrow> upd_int rst nid (l @ [(int cpu, he_float env (fp_sub fp (fp_sub fp (fp_sub fp (fp_lit fp 100 1) a) b) c))]);
     add_cpu_sorts env util (Suc cpu) nids rst1
   }"

definition SortNumaCpuUtil :: "'d hardirq_env \<Rightarrow> 'd hardirq \<Rightarrow> (int \<times> 'd) list list option" where
  "SortNumaCpuUtil env st =
     map_option (map (he_sort_cpus env)) (add_cpu_sorts env (cpuUtil st) 0 (cpu2Numa st) (replicate (hi_numaNum st) []))"

definition mig_unit :: "'d hardirq \<Rightarrow> string \<Rightarrow> QueueInfo \<Rightarrow> HardIrqMigUint option" where
  "mig_unit st dev info = do {
     prio \<leftarrow> (if lastBindCpu info = INVALID_CPU_ID then Some 0
              else map_option (\<lambda>n. if n = rxMaxNode info then 1 else 0) (nth_int (cpu2Numa st) (lastBindCpu info)));
     Some \<lparr>mu_irqId = qi_irqId info, mu_rxSum = rxSum info, mu_queId = qi_queueId info, mu_dev = dev,
       lastBindCore = lastBindCpu info, preferredNode = rxMaxNode info, mu_priority = prio\<rparr>
   }"

definition mig_units :: "'d hardirq \<Rightarrow> HardIrqMigUint list option" where
  "mig_units st = those (map (\<lambda>(dev, info). mig_unit st dev info)
     (filter (\<lambda>(dev, info). NET_RXT_THRESHOLD \<le> rxSum info) (concat (map (\<lambda>(dev, qs). map (\<lambda>(q, info). (dev, info)) qs) (netQueue st)))))"

text \<open>The order \<open>std::sort\<close> is called with.\<close>

definition unit_before :: "HardIrqMigUint \<Rightarrow> HardIrqMigUint \<Rightarrow> bool" where
  "unit_before a b = (if mu_priority a \<noteq> mu_priority b then mu_priority b < mu_priority a else mu_rxSum b < mu_rxSum a)"

definition note_bind :: "HardIrqMigUint \<Rightarrow> int \<Rightarrow> 'd hardirq \<Rightarrow> 'd hardirq" where
  "note_bind u cpu st =
     (let st1 = set_queue (mu_dev u) (mu_queId u) ((queue_at st (mu_dev u) (mu_queId u))\<lparr>lastBindCpu := cpu\<rparr>) st in
      st1\<lparr>irqInfo := AList.update (mu_irqId u) ((al_get blank_irq (irqInfo st) (mu_irqId u))\<lparr>isTuned := True, lastAffinity := cpu\<rparr>) (irqInfo st)\<rparr>)"

fun bind_units :: "'d hardirq_env \<Rightarrow> (int \<times> 'd) list list \<Rightarrow> HardIrqMigUint list \<Rightarrow> int list \<Rightarrow> 'd hardirq \<Rightarrow> 'd hardirq option" where
  "bind_units env cpuSort [] newBindCnt st = Some st"
| "bind_units env cpuSort (u # us) newBindCnt st = do {
     stay \<leftarrow> (if lastBindCore u \<noteq> -1 then map_option (\<lambda>n. preferredNode u = n) (nth_int (cpu2Numa st) (lastBindCore u)) else Some False);
     if stay then bind_units env cpuSort us newBindCnt st
     else do {
       sortedList \<leftarrow> nth_int cpuSort (preferredNode u);
       cnt \<leftarrow> nth_int newBindCnt (preferredNode u);
       if hi_numaNum st = 0 then None
       else do {
         (cpu, ratio) \<leftarrow> nth_int sortedList (cnt mod int (hi_numaNum st));
         (case IrqSetSmpAffinity (he_kernel env) (mu_irqId u) (to_string cpu) (hi_files st) of (err, fs) \<Rightarrow>
            if err \<noteq> 0 then bind_units env cpuSort us newBindCnt (st\<lparr>hi_files := fs\<rparr>)
            else do {
              cnts \<leftarrow> upd_int newBindCnt (preferredNode u) (cnt + 1);
              bind_units env cpuSort us cnts (note_bind u cpu (st\<lparr>hi_files := fs\<rparr>))
            })
       }
     }
   }"

definition MigrateHardIrq :: "'d hardirq_env \<Rightarrow> 'd hardirq \<Rightarrow> 'd hardirq option" where
  "MigrateHardIrq env st = do {
     us \<leftarrow> mig_units st;
     cpuSort \<leftarrow> SortNumaCpuUtil env st;
     bind_units env cpuSort (he_sort_units env us) (replicate (hi_numaNum st) 0) st
   }"

definition Hirq_Tune :: "'d hardirq_env \<Rightarrow> 'd hardirq \<Rightarrow> 'd hardirq option" where
  "Hirq_Tune env st = MigrateHardIrq env (TunePreprocessing (ClearInvalidQueueInfo (AddIrqToQueueInfo st)))"

definition ResetCpuInfo :: "'d hardirq \<Rightarrow> 'd hardirq" where
  "ResetCpuInfo st = st\<lparr>cpuTimeDiff := map (map (\<lambda>_. 0)) (cpuTimeDiff st)\<rparr>"

definition ResetNetQueue :: "'d hardirq \<Rightarrow> 'd hardirq" where
  "ResetNetQueue = each_queue (\<lambda>dev q info. info\<lparr>numaRxTimes := map (\<lambda>_. 0) (numaRxTimes info)\<rparr>)"

definition Hirq_Run :: "'d hardirq_env \<Rightarrow> 'd hardirq \<Rightarrow> 'd hardirq option" where
  "Hirq_Run env st =
     (let st0 = st\<lparr>runCnt := runCnt st + 1\<rparr> in
      if \<not> envInit st0 then Some st0
      else do {
        let st1 = CalCpuUtil env st0;
        st2 \<leftarrow> (if highNoiseSample st1 then MatchThreadAndQueue st1 else MatchThreadQueAndNuma (he_fp env) st1);
        eth \<leftarrow> GetEthQueData (he_regex env) (hi_files st2) (queRegex st2) (ethQueData st2);
        st3 \<leftarrow> Hirq_Tune env (st2\<lparr>ethQueData := eth\<rparr>);
        Some ((ResetCpuInfo (ResetNetQueue st3))\<lparr>netDataInterval := 0, ethQueData := [], threadNumaInfo := []\<rparr>)
      })"

subsection \<open>Enabling and disabling\<close>

definition HARDIRQ_CONFIG_PATH :: string where
  "HARDIRQ_CONFIG_PATH = ''/etc/oeAware/plugin/hardirq_tune.conf''"

text \<open>\<open>systemctl is-active\<close>: its output without newlines; \<open>None\<close> when it cannot be started.\<close>

definition ServiceIsActive :: "string option \<Rightarrow> bool \<times> bool" where
  "ServiceIsActive output =
     (case output of
        None \<Rightarrow> (False, False)
      | Some s \<Rightarrow> (True, filter (\<lambda>c. c \<noteq> NL) (concat (map cstr (fgets_all EXEC_COMMAND_BUFLEN s))) = ''active''))"

definition ServiceControl :: "string \<Rightarrow> string \<Rightarrow> 'd hardirq \<Rightarrow> 'd hardirq" where
  "ServiceControl serviceName action st =
     (if action \<in> {''start'', ''stop'', ''restart''}
      then st\<lparr>hi_commands := hi_commands st @ [''systemctl '' @ action @ '' '' @ serviceName]\<rparr> else st)"

definition hirq_topics :: "bool \<Rightarrow> Topic list" where
  "hirq_topics highNoise =
     [\<lparr>instanceName = ''env_info_collector'', topicName = ''static'', params = []\<rparr>,
      \<lparr>instanceName = ''env_info_collector'', topicName = ''cpu_util'', params = []\<rparr>,
      \<lparr>instanceName = ''net_interface_info'', topicName = ''base'', params = ''operstate_up''\<rparr>,
      \<lparr>instanceName = ''net_interface_info'', topicName = ''driver'', params = ''operstate_up''\<rparr>] @
     (if highNoise then
        [\<lparr>instanceName = ''pmu_sampling_collector'', topicName = ''skb:skb_copy_datagram_iovec'', params = []\<rparr>,
         \<lparr>instanceName = ''pmu_sampling_collector'', topicName = ''net:napi_gro_receive_entry'', params = []\<rparr>]
      else
        [\<lparr>instanceName = ''net_interface_info'', topicName = ''net_thread_que_data'', params = ''thread_recv_que_cnt''\<rparr>,
         \<lparr>instanceName = ''pmu_sampling_collector'', topicName = ''cycles'', params = []\<rparr>])"

text \<open>The help text of a refused parameter is left out of the message.\<close>

definition Hirq_Enable :: "'d hardirq_env \<Rightarrow> string \<Rightarrow> 'd hardirq \<Rightarrow> c_int \<times> 'd hardirq" where
  "Hirq_Enable env param st =
     (case ResolveCmd param (Hirq_Init env (st\<lparr>irqbalanceStatus := False\<rparr>)) of (good, st1) \<Rightarrow>
        if \<not> good then (FAILED, st1)
        else (case InitConf (hi_files st1) HARDIRQ_CONFIG_PATH (queRegex st1) of (found, qs) \<Rightarrow>
          if \<not> found then (FAILED, st1\<lparr>queRegex := qs\<rparr>)
          else (let active = (fst (ServiceIsActive (he_is_active env)) \<and> snd (ServiceIsActive (he_is_active env)));
                    st2 = st1\<lparr>queRegex := qs, irqbalanceStatus := active\<rparr>;
                    st3 = (if active then ServiceControl ''irqbalance'' ''stop'' st2 else st2)
                in (OK, st3\<lparr>hi_topics := hirq_topics (highNoiseSample st3)\<rparr>))))"

definition restore_irqs :: "kernel_env \<Rightarrow> (int \<times> IrqInfo) list \<Rightarrow> files \<Rightarrow> files" where
  "restore_irqs k m = fold (\<lambda>(n, info) fs. if isTuned info then snd (IrqSetSmpAffinity k n (originAffinity info) fs) else fs) m"

text \<open>\<open>Disable\<close>: a restarted \<^verbatim>\<open>irqbalance\<close> may move interrupts again; what it does is not part of the model.\<close>

definition Hirq_Disable :: "'d hardirq_env \<Rightarrow> 'd hardirq \<Rightarrow> Topic list \<times> 'd hardirq" where
  "Hirq_Disable env st =
     (let st1 = (if irqbalanceStatus st then ServiceControl ''irqbalance'' ''start'' st else st) in
      (hi_topics st1, st1\<lparr>hi_files := restore_irqs (he_kernel env) (irqInfo st1) (hi_files st1), envInit := False, cpu2Numa := [],
         irqInfo := [], netQueue := [], hi_topics := [], highNoiseSample := False\<rparr>))"

definition hardirq_new :: "files \<Rightarrow> 'd hardirq" where
  "hardirq_new fs = \<lparr>highNoiseSample = False, hi_topics = [], netQueue = [], irqInfo = [], irqbalanceStatus = False, netDataInterval = 0,
     hi_numaNum = 0, cpu2Numa = [], ifIdxToName = [], envInit = False, cpuTimeDiff = [], cpuUtil = [], queueData = [], threadData = [],
     threadNumaInfo = [], queRegex = [], ethQueData = [], showVerbose = False, debugTopicOpen = False, runCnt = 0, hi_files = fs, hi_commands = []\<rparr>"

end
