(* ===== verification/Hardirq_Claims.thy ===== *)
theory Hardirq_Claims
  imports Hardirq_Tune "HOL-Library.Multiset"
begin

text \<open>
  The life of the plugin that binds interrupts. Whenever it is disabled, every interrupt has the affinity it had
  at the start; the invariant \<open>irqs_saved\<close> says so for the interrupts that are not tuned, and that the
  affinity of the others is saved. A tuned interrupt goes to a core of the node that receives most of its packets.
\<close>

subsection \<open>What leaves the interrupts alone\<close>

definition same_irqs :: "'d hardirq \<Rightarrow> 'd hardirq \<Rightarrow> bool" where
  "same_irqs st st' = (hi_files st' = hi_files st \<and> irqInfo st' = irqInfo st)"

lemma same_irqs_refl [simp]: "same_irqs st st"
  by (simp add: same_irqs_def)

lemma same_irqs_trans: "same_irqs st st1 \<Longrightarrow> same_irqs st1 st2 \<Longrightarrow> same_irqs st st2"
  by (simp add: same_irqs_def)

lemma same_irqs_fold: "(\<And>x st. same_irqs st (f x st)) \<Longrightarrow> same_irqs st (fold f xs st)"
  by (induction xs arbitrary: st) (auto intro: same_irqs_trans)

lemma same_irqs_set_queue [simp]: "same_irqs st (set_queue dev q info st)"
  by (simp add: same_irqs_def set_queue_def)

lemma same_irqs_from_set_queue [simp]: "same_irqs (set_queue dev q info st) st' \<longleftrightarrow> same_irqs st st'"
  by (simp add: same_irqs_def set_queue_def)

lemma same_irqs_each_queue [simp]: "same_irqs st (each_queue f st)"
  by (simp add: same_irqs_def each_queue_def)

lemma same_irqs_add_cycles: "add_cycles ds st = Some st' \<Longrightarrow> same_irqs st st'"
  by (induction ds st rule: add_cycles.induct) (auto simp: same_irqs_def Let_def split: bind_splits)

lemma same_irqs_samples: "UpdatePmuSampleInfo topic data st = Some st' \<Longrightarrow> same_irqs st st'"
  by (auto simp: UpdatePmuSampleInfo_def UpdateThreadData_def UpdateQueueData_def UpdateCyclesData_def Let_def
    split: if_splits hirq_data.splits dest!: same_irqs_add_cycles) (simp_all add: same_irqs_def)

lemma same_irqs_net: "UpdateNetIntfInfo topic data st = Some st' \<Longrightarrow> same_irqs st st'"
proof -
  have "same_irqs st (UpdateNetBaseInfo l st)" for l
    unfolding UpdateNetBaseInfo_def by (rule same_irqs_fold) (simp add: same_irqs_def Let_def)
  moreover have "same_irqs st (UpdateNetDriverInfo l st)" for l
    unfolding UpdateNetDriverInfo_def by (rule same_irqs_fold) (simp add: same_irqs_def Let_def)
  moreover have "same_irqs st (UpdateThreadNumaInfo l st)" for l
    unfolding UpdateThreadNumaInfo_def by (rule same_irqs_fold) (simp add: same_irqs_def Let_def)
  moreover assume "UpdateNetIntfInfo topic data st = Some st'"
  ultimately show ?thesis
    by (auto simp: UpdateNetIntfInfo_def Let_def split: if_splits list.splits hirq_data.splits bind_splits)
qed

lemma same_irqs_system: "UpdateSystemInfo topic data st = Some st' \<Longrightarrow> same_irqs st st'"
  by (auto simp: UpdateSystemInfo_def Let_def same_irqs_def split: if_splits list.splits hirq_data.splits)

lemma same_irqs_cpu: "UpdateEnvInfo fp topic data st = Some st' \<Longrightarrow> same_irqs st st'"
  by (auto simp: UpdateEnvInfo_def UpdateCpuInfo_def Let_def same_irqs_def split: if_splits hirq_data.splits bind_splits)

lemma same_irqs_data: "Hirq_UpdateData env topic data st = Some st' \<Longrightarrow> same_irqs st st'"
  by (auto simp: Hirq_UpdateData_def split: bind_splits
    intro: same_irqs_trans dest!: same_irqs_system same_irqs_samples same_irqs_cpu same_irqs_net)

text \<open>Matching packets and nodes only changes the table of queues.\<close>

definition only_queues :: "'d hardirq \<Rightarrow> 'd hardirq \<Rightarrow> bool" where
  "only_queues st st' = (st' = st\<lparr>netQueue := netQueue st'\<rparr>)"

lemma only_queues_refl [simp]: "only_queues st st"
  by (simp add: only_queues_def)

lemma only_queues_trans: "only_queues st st1 \<Longrightarrow> only_queues st1 st2 \<Longrightarrow> only_queues st st2"
  by (cases st, cases st1, cases st2) (simp add: only_queues_def)

lemma only_queues_set_queue [simp]: "only_queues st (set_queue dev q info st)"
  by (simp add: only_queues_def set_queue_def)

lemma only_queues_fields:
  assumes "only_queues st st'"
  shows "hi_files st' = hi_files st" "irqInfo st' = irqInfo st" "cpuUtil st' = cpuUtil st" "cpu2Numa st' = cpu2Numa st"
    "hi_numaNum st' = hi_numaNum st" "cpuTimeDiff st' = cpuTimeDiff st" "queRegex st' = queRegex st" "ethQueData st' = ethQueData st"
    "envInit st' = envInit st" "threadData st' = threadData st"
proof -
  obtain qs where "st' = st\<lparr>netQueue := qs\<rparr>" using assms by (auto simp: only_queues_def)
  then show "hi_files st' = hi_files st" "irqInfo st' = irqInfo st" "cpuUtil st' = cpuUtil st" "cpu2Numa st' = cpu2Numa st"
    "hi_numaNum st' = hi_numaNum st" "cpuTimeDiff st' = cpuTimeDiff st" "queRegex st' = queRegex st" "ethQueData st' = ethQueData st"
    "envInit st' = envInit st" "threadData st' = threadData st"
    by simp_all
qed

lemma only_queues_counted: "UpdateThreadAndQueueInfo que thr st = Some st' \<Longrightarrow> only_queues st st'"
  by (auto simp: UpdateThreadAndQueueInfo_def Let_def split: bind_splits)

lemma only_queues_match: "match_queues ques i st = Some st' \<Longrightarrow> only_queues st st'"
proof (induction ques arbitrary: i st)
  case (Cons que ques)
  then show ?case
    by (auto simp: Let_def split: bind_splits option.splits intro: only_queues_trans dest!: only_queues_counted)
qed simp

lemma only_queues_rx_queues: "rx_of_queues fp dev ratio qs st = Some st' \<Longrightarrow> only_queues st st'"
proof (induction qs arbitrary: st)
  case (Cons x qs)
  then show ?case
    by (cases x) (auto simp: Let_def split: bind_splits intro: only_queues_trans [OF only_queues_set_queue])
qed simp

lemma only_queues_rx_devs: "rx_of_devs fp ratio ds st = Some st' \<Longrightarrow> only_queues st st'"
proof (induction ds arbitrary: st)
  case (Cons d ds)
  then show ?case
    by (cases d) (auto simp: Let_def split: bind_splits if_splits intro: only_queues_trans dest!: only_queues_rx_queues)
qed simp

lemma only_queues_rx_threads: "rx_of_threads fp ts st = Some st' \<Longrightarrow> only_queues st st'"
proof (induction ts arbitrary: st)
  case (Cons t ts)
  then show ?case
    by (auto split: bind_splits if_splits intro: only_queues_trans dest!: only_queues_rx_devs)
qed simp

lemma matching_frame:
  assumes "(if b then MatchThreadAndQueue st else MatchThreadQueAndNuma fp st) = Some st'"
  shows "hi_files st' = hi_files st" "irqInfo st' = irqInfo st" "cpuUtil st' = cpuUtil st" "cpu2Numa st' = cpu2Numa st"
    "hi_numaNum st' = hi_numaNum st" "cpuTimeDiff st' = cpuTimeDiff st" "queRegex st' = queRegex st" "ethQueData st' = ethQueData st"
  using assms by (auto simp: MatchThreadAndQueue_def MatchThreadQueAndNuma_def split: if_splits bind_splits
    dest!: only_queues_match only_queues_rx_threads dest: only_queues_fields)

text \<open>A run changes interrupts only where units are bound.\<close>

lemma Hirq_Run_binds:
  assumes "Hirq_Run env st = Some st'"
  shows "same_irqs st st' \<or> (\<exists>cpuSort us cnt st1 st2. same_irqs st st1 \<and> bind_units env cpuSort us cnt st1 = Some st2 \<and> same_irqs st2 st')"
proof (cases "envInit st")
  case False
  with assms show ?thesis by (simp add: Hirq_Run_def Let_def) (auto simp: same_irqs_def)
next
  case True
  let ?st = "CalCpuUtil env (st\<lparr>runCnt := runCnt st + 1\<rparr>)"
  obtain sta eth stb where a: "(if highNoiseSample ?st then MatchThreadAndQueue ?st else MatchThreadQueAndNuma (he_fp env) ?st) = Some sta"
    and b: "Hirq_Tune env (sta\<lparr>ethQueData := eth\<rparr>) = Some stb"
    and c: "st' = (ResetCpuInfo (ResetNetQueue stb))\<lparr>netDataInterval := 0, ethQueData := [], threadNumaInfo := []\<rparr>"
    using assms True by (auto simp: Hirq_Run_def Let_def split: bind_splits)
  let ?pre = "TunePreprocessing (ClearInvalidQueueInfo (AddIrqToQueueInfo (sta\<lparr>ethQueData := eth\<rparr>)))"
  obtain us cpuSort where d: "bind_units env cpuSort us (replicate (hi_numaNum ?pre) 0) ?pre = Some stb"
    using b by (auto simp: Hirq_Tune_def MigrateHardIrq_def split: bind_splits)
  have "same_irqs st ?st" by (simp add: same_irqs_def CalCpuUtil_def)
  moreover have "same_irqs ?st sta"
    using matching_frame(1,2) [OF a] by (simp add: same_irqs_def)
  moreover have "same_irqs sta ?pre"
    by (simp add: same_irqs_def TunePreprocessing_def ClearInvalidQueueInfo_def AddIrqToQueueInfo_def each_queue_def)
  moreover have "same_irqs stb st'"
    by (simp add: c same_irqs_def ResetCpuInfo_def ResetNetQueue_def each_queue_def)
  ultimately show ?thesis using d by (meson same_irqs_trans)
qed

subsection \<open>The saved affinities\<close>

definition tuned_irq :: "'d hardirq \<Rightarrow> int \<Rightarrow> bool" where
  "tuned_irq st n = isTuned (al_get blank_irq (irqInfo st) n)"

text \<open>The names of a directory that stand for an interrupt.\<close>

definition listed :: "string list \<Rightarrow> int \<Rightarrow> bool" where
  "listed names n = (\<exists>s \<in> set names. s \<noteq> [] \<and> isdigit (hd s) \<and> stoi s = Some n)"

definition irqs_saved :: "kernel_env \<Rightarrow> files \<Rightarrow> bool \<Rightarrow> 'd hardirq \<Rightarrow> bool" where
  "irqs_saved k fs0 enabled st =
     ((\<forall>q. hi_files st q = None \<longleftrightarrow> fs0 q = None) \<and> distinct (map fst (irqInfo st)) \<and>
      (\<forall>n. \<not> tuned_irq st n \<longrightarrow> IrqGetSmpAffinity (hi_files st) n = IrqGetSmpAffinity fs0 n) \<and>
      (\<forall>n. tuned_irq st n \<longrightarrow> enabled \<and> irq_writable k n fs0) \<and>
      (enabled \<longrightarrow> (\<forall>n. irq_writable k n fs0 \<longrightarrow> originAffinity (al_get blank_irq (irqInfo st) n) = IrqGetSmpAffinity fs0 n)))"

lemma irqs_saved_same: "same_irqs st st' \<Longrightarrow> irqs_saved k fs0 en st' \<longleftrightarrow> irqs_saved k fs0 en st"
  by (simp add: same_irqs_def irqs_saved_def tuned_irq_def)

lemma save_irq_get:
  "al_get blank_irq (save_irq fs s m) n =
     (if listed [s] n then (al_get blank_irq m n)\<lparr>originAffinity := IrqGetSmpAffinity fs n\<rparr> else al_get blank_irq m n)"
  by (auto simp: save_irq_def listed_def split: option.splits)

lemma save_irqs_get:
  "al_get blank_irq (fold (save_irq fs) names m) n =
     (if listed names n then (al_get blank_irq m n)\<lparr>originAffinity := IrqGetSmpAffinity fs n\<rparr> else al_get blank_irq m n)"
proof (induction names arbitrary: m)
  case Nil
  then show ?case by (simp add: listed_def)
next
  case (Cons s names)
  have "listed (s # names) n \<longleftrightarrow> listed [s] n \<or> listed names n" by (auto simp: listed_def)
  then show ?case by (simp add: Cons.IH save_irq_get)
qed

lemma save_irqs_distinct: "distinct (map fst m) \<Longrightarrow> distinct (map fst (fold (save_irq fs) names m))"
  by (induction names arbitrary: m) (auto simp: save_irq_def distinct_update split: option.splits)

lemma Enable_irqs:
  "hi_files (snd (Hirq_Enable env param st)) = hi_files st \<and>
   irqInfo (snd (Hirq_Enable env param st)) = (case he_irq_dir env of None \<Rightarrow> irqInfo st | Some names \<Rightarrow> fold (save_irq (hi_files st)) names (irqInfo st))"
proof -
  have r: "same_irqs st (snd (ResolveCmd param st))" for st :: "'a hardirq"
    by (simp add: ResolveCmd_def resolve_verbose_def resolve_netdata_def same_irqs_def Let_def split: prod.splits option.splits)
  let ?st = "Hirq_Init env (st\<lparr>irqbalanceStatus := False\<rparr>)"
  have "same_irqs ?st (snd (Hirq_Enable env param st))"
    using r [of ?st]
    by (auto simp: Hirq_Enable_def ServiceControl_def Let_def same_irqs_def split: prod.splits)
  then show ?thesis
    by (simp add: same_irqs_def Hirq_Init_def InitIrqInfo_def split: option.splits)
qed

lemma irqs_saved_Enable:
  assumes "irqs_saved k fs0 False st" "he_irq_dir env = Some names" "\<forall>n. irq_writable k n fs0 \<longrightarrow> listed names n"
  shows "irqs_saved k fs0 en (snd (Hirq_Enable env param st))"
proof -
  have "IrqGetSmpAffinity (hi_files st) n = IrqGetSmpAffinity fs0 n" "\<not> tuned_irq st n" for n
    using assms(1) by (auto simp: irqs_saved_def)
  with assms show ?thesis
    by (simp add: irqs_saved_def tuned_irq_def Enable_irqs save_irqs_get save_irqs_distinct)
qed

lemma IrqSetSmpAffinity_error: "fst (IrqSetSmpAffinity k n v fs) \<noteq> 0 \<Longrightarrow> snd (IrqSetSmpAffinity k n v fs) = fs"
  by (auto simp: IrqSetSmpAffinity_def split: prod.splits if_splits dest: write_file_bad)
    (metis fst_conv snd_conv write_file_bad)

lemma IrqSetSmpAffinity_done:
  "fst (IrqSetSmpAffinity k n v fs) = 0 \<Longrightarrow> irq_writable k n fs \<and> snd (IrqSetSmpAffinity k n v fs) = fs(irq_file n \<mapsto> v @ [NL])"
  by (auto simp: IrqSetSmpAffinity_def irq_writable_def write_file_def split: if_splits)

lemma irq_writable_same: "\<forall>q. fs q = None \<longleftrightarrow> fs' q = None \<Longrightarrow> irq_writable k n fs \<longleftrightarrow> irq_writable k n fs'"
  by (intro irq.writable_exists) simp

lemma irqs_saved_bind:
  assumes "irqs_saved k fs0 True st" "fst (IrqSetSmpAffinity k (mu_irqId u) v (hi_files st)) = 0"
  shows "irqs_saved k fs0 True (note_bind u cpu (st\<lparr>hi_files := snd (IrqSetSmpAffinity k (mu_irqId u) v (hi_files st))\<rparr>))"
proof -
  let ?fs = "snd (IrqSetSmpAffinity k (mu_irqId u) v (hi_files st))"
  have "irq_writable k (mu_irqId u) fs0"
    using IrqSetSmpAffinity_done [OF assms(2)] assms(1) irq_writable_same [of "hi_files st" fs0] by (simp add: irqs_saved_def)
  moreover have "IrqGetSmpAffinity ?fs n = IrqGetSmpAffinity (hi_files st) n" if "n \<noteq> mu_irqId u" for n
    using that by (rule irq.get_put_other)
  moreover have "?fs q = None \<longleftrightarrow> hi_files st q = None" for q
    by (rule irq.put_exists)
  ultimately show ?thesis
    using assms(1) by (simp add: irqs_saved_def tuned_irq_def note_bind_def set_queue_def Let_def distinct_update)
qed

lemma irqs_saved_bind_units:
  "bind_units env cpuSort us cnt st = Some st' \<Longrightarrow> irqs_saved (he_kernel env) fs0 True st \<Longrightarrow> irqs_saved (he_kernel env) fs0 True st'"
proof (induction us arbitrary: cnt st)
  case (Cons u us)
  have "st\<lparr>hi_files := snd (IrqSetSmpAffinity (he_kernel env) (mu_irqId u) v (hi_files st))\<rparr> = st"
    if "fst (IrqSetSmpAffinity (he_kernel env) (mu_irqId u) v (hi_files st)) \<noteq> 0" for v
    using IrqSetSmpAffinity_error [OF that] by simp
  with Cons show ?case
    by (auto split: bind_splits if_splits prod.splits intro: irqs_saved_bind)
      (metis Cons.IH fst_conv irqs_saved_bind snd_conv)+
qed simp

lemma restore_irqs_put_all:
  "restore_irqs k m fs = irq.put_all k (map (\<lambda>(n, info). (n, originAffinity info)) (filter (isTuned \<circ> snd) m)) fs"
  by (induction m arbitrary: fs) (auto simp: restore_irqs_def)

lemma irqs_saved_restore:
  assumes "irqs_saved k fs0 True st" "\<forall>n. irq_writable k n fs0 \<longrightarrow> good_affinity k (IrqGetSmpAffinity fs0 n) n"
  shows "IrqGetSmpAffinity (restore_irqs k (irqInfo st) (hi_files st)) n = IrqGetSmpAffinity fs0 n"
proof -
  let ?pvs = "map (\<lambda>(n, info). (n, originAffinity info)) (filter (isTuned \<circ> snd) (irqInfo st))"
  have entry: "tuned_irq st i \<and> v = originAffinity (al_get blank_irq (irqInfo st) i)" if "(i, v) \<in> set ?pvs" for i v
    using that assms(1) by (auto simp: tuned_irq_def al_get_def irqs_saved_def)
  show ?thesis
  proof (cases "tuned_irq st n")
    case True
    then have w: "irq_writable k n fs0" and o: "originAffinity (al_get blank_irq (irqInfo st) n) = IrqGetSmpAffinity fs0 n"
      using assms(1) by (auto simp: irqs_saved_def)
    have "irq_writable k n (hi_files st)"
      using w assms(1) irq_writable_same [of "hi_files st" fs0] by (simp add: irqs_saved_def)
    moreover have "(n, IrqGetSmpAffinity fs0 n) \<in> set ?pvs"
      using True o by (force simp: tuned_irq_def al_get_def blank_irq_def split: option.splits dest: map_of_SomeD)
    moreover have "\<forall>v. (n, v) \<in> set ?pvs \<longrightarrow> v = IrqGetSmpAffinity fs0 n"
      using entry o by metis
    moreover have "good_affinity k (IrqGetSmpAffinity fs0 n) n"
      using w assms(2) by blast
    ultimately have "IrqGetSmpAffinity (irq.put_all k ?pvs (hi_files st)) n = IrqGetSmpAffinity fs0 n"
      by (blast intro: irq.get_put_all)
    then show ?thesis by (simp only: restore_irqs_put_all)
  next
    case False
    then have "n \<notin> fst ` set ?pvs" using entry by fastforce
    then have "IrqGetSmpAffinity (irq.put_all k ?pvs (hi_files st)) n = IrqGetSmpAffinity (hi_files st) n"
      by (rule irq.get_put_all_skip)
    with False assms(1) show ?thesis by (simp add: restore_irqs_put_all irqs_saved_def)
  qed
qed

lemma irqs_saved_Disable:
  assumes "irqs_saved (he_kernel env) fs0 True st"
    "\<forall>n. irq_writable (he_kernel env) n fs0 \<longrightarrow> good_affinity (he_kernel env) (IrqGetSmpAffinity fs0 n) n"
  shows "irqs_saved (he_kernel env) fs0 False (snd (Hirq_Disable env st))"
proof -
  have "restore_irqs (he_kernel env) (irqInfo st) (hi_files st) q = None \<longleftrightarrow> fs0 q = None" for q
    using assms(1) by (simp add: restore_irqs_put_all irq.put_all_exists irqs_saved_def)
  with irqs_saved_restore [OF assms] show ?thesis
    by (simp add: irqs_saved_def Hirq_Disable_def ServiceControl_def tuned_irq_def al_get_def blank_irq_def)
qed

subsection \<open>The life of the plugin\<close>

text \<open>
  The scheduler enables the plugin only while it is disabled, and runs it only while it is enabled. The kernel
  and the directory of interrupts stay; the other arguments may differ from step to step.
\<close>

inductive hirq_step :: "kernel_env \<Rightarrow> string list \<Rightarrow> bool \<times> 'd hardirq \<Rightarrow> bool \<times> 'd hardirq \<Rightarrow> bool" for k names where
  enable: "he_kernel env = k \<Longrightarrow> he_irq_dir env = Some names \<Longrightarrow> Hirq_Enable env param st = (r, st') \<Longrightarrow>
     hirq_step k names (False, st) (r = OK, st')"
| disable: "he_kernel env = k \<Longrightarrow> Hirq_Disable env st = (topics, st') \<Longrightarrow> hirq_step k names (True, st) (False, st')"
| data: "Hirq_UpdateData env topic data st = Some st' \<Longrightarrow> hirq_step k names (en, st) (en, st')"
| run: "he_kernel env = k \<Longrightarrow> Hirq_Run env st = Some st' \<Longrightarrow> hirq_step k names (True, st) (True, st')"
| open_topic: "Hirq_OpenTopic topic st = (r, st') \<Longrightarrow> hirq_step k names (en, st) (en, st')"
| close_topic: "hirq_step k names (en, st) (en, Hirq_CloseTopic topic st)"

lemma irqs_saved_Run:
  assumes "Hirq_Run env st = Some st'" "irqs_saved (he_kernel env) fs0 True st"
  shows "irqs_saved (he_kernel env) fs0 True st'"
  using Hirq_Run_binds [OF assms(1)] assms(2) by (meson irqs_saved_bind_units irqs_saved_same)

lemma irqs_saved_topics [simp]:
  "irqs_saved k fs0 en (snd (Hirq_OpenTopic topic st)) \<longleftrightarrow> irqs_saved k fs0 en st"
  "irqs_saved k fs0 en (Hirq_CloseTopic topic st) \<longleftrightarrow> irqs_saved k fs0 en st"
  by (rule irqs_saved_same, simp add: same_irqs_def Hirq_OpenTopic_def Hirq_CloseTopic_def)+

lemma irqs_saved_step:
  assumes "hirq_step k names p p'" "irqs_saved k fs0 (fst p) (snd p)"
    and "\<forall>n. irq_writable k n fs0 \<longrightarrow> listed names n \<and> good_affinity k (IrqGetSmpAffinity fs0 n) n"
  shows "irqs_saved k fs0 (fst p') (snd p')"
  using assms
proof cases
  case (enable env param st r st')
  with assms irqs_saved_Enable [of k fs0 st env names "r = OK" param] show ?thesis by simp
next
  case (disable env st topics st')
  with assms irqs_saved_Disable [of env fs0 st] show ?thesis by simp
next
  case (data env topic data st st' en)
  with assms irqs_saved_same [OF same_irqs_data] show ?thesis by force
next
  case (run env st st')
  with assms irqs_saved_Run [OF run(4)] show ?thesis by simp
next
  case (open_topic topic st r st' en)
  with assms irqs_saved_topics(1) [of k fs0 en topic st] show ?thesis by simp
qed simp

lemma irqs_saved_steps:
  assumes "(hirq_step k names)\<^sup>*\<^sup>* (False, hardirq_new fs0) (en, st)"
    and "\<forall>n. irq_writable k n fs0 \<longrightarrow> listed names n \<and> good_affinity k (IrqGetSmpAffinity fs0 n) n"
  shows "irqs_saved k fs0 en st"
proof -
  have "irqs_saved k fs0 (fst p) (snd p)" if "(hirq_step k names)\<^sup>*\<^sup>* (False, hardirq_new fs0) p" for p
    using that
  proof (induction rule: rtranclp_induct)
    case base
    then show ?case by (simp add: irqs_saved_def hardirq_new_def tuned_irq_def al_get_def blank_irq_def)
  qed (use assms(2) irqs_saved_step in blast)
  from this [OF assms(1)] show ?thesis by simp
qed

text \<open>C35. However the plugin was enabled, run and disabled, also by failed attempts, whenever it is disabled every interrupt has
the affinity it had at the start; while it is enabled an interrupt can only differ when it is marked as tuned
and its first affinity is saved. The kernel must accept the affinities it showed, and list the interrupts that can be written.\<close>

theorem Hirq_disabled_restored:
  assumes "(hirq_step k names)\<^sup>*\<^sup>* (False, hardirq_new fs0) (en, st)"
    and "\<forall>n. irq_writable k n fs0 \<longrightarrow> listed names n \<and> good_affinity k (IrqGetSmpAffinity fs0 n) n"
  shows "IrqGetSmpAffinity (hi_files st) n = IrqGetSmpAffinity fs0 n \<or>
    en \<and> isTuned (al_get blank_irq (irqInfo st) n) \<and> originAffinity (al_get blank_irq (irqInfo st) n) = IrqGetSmpAffinity fs0 n"
  using irqs_saved_steps [OF assms] by (auto simp: irqs_saved_def tuned_irq_def)

end
