(* ===== verification/Hardirq_Moves.thy ===== *)
theory Hardirq_Moves
  imports Hardirq_Claims
begin

text \<open>
  Where the interrupts go in one round of tuning: to one of the least used cores of the node that receives most
  packets of the queue. How many of these cores are considered is the number of nodes, which the last
  properties of this theory are about.
\<close>

subsection \<open>What sorting promises\<close>

definition std_sorts :: "'d hardirq_env \<Rightarrow> bool" where
  "std_sorts env = ((\<forall>us. mset (he_sort_units env us) = mset us \<and> sorted_wrt (\<lambda>a b. \<not> unit_before b a) (he_sort_units env us)) \<and>
     (\<forall>cs. mset (he_sort_cpus env cs) = mset cs \<and> sorted_wrt (\<lambda>a b. \<not> fp_lt (he_fp env) (snd b) (snd a)) (he_sort_cpus env cs)) \<and>
     (\<forall>x. \<not> fp_lt (he_fp env) x x))"

lemma std_sorts_sets: "std_sorts env \<Longrightarrow> set (he_sort_units env us) = set us \<and> set (he_sort_cpus env cs) = set cs"
  unfolding std_sorts_def by (metis set_mset_mset)

subsection \<open>The node with most packets\<close>

lemma max_node_spec:
  assumes "max_node i (m, t, s) ts = (m', t', s')"
  shows "s' = s + sum_list ts \<and> t \<le> t' \<and> (\<forall>x \<in> set ts. x \<le> t') \<and> (m' = m \<and> t' = t \<or> (\<exists>j < length ts. m' = i + j \<and> ts ! j = t'))"
  using assms
proof (induction ts arbitrary: i m t s)
  case (Cons x ts)
  let ?c = "if t \<le> x then (i, x, s + x) else (m, t, s + x)"
  obtain m1 t1 where c: "?c = (m1, t1, s + x)" by (cases "t \<le> x") auto
  have ih: "s' = s + x + sum_list ts \<and> t1 \<le> t' \<and> (\<forall>x \<in> set ts. x \<le> t') \<and>
      (m' = m1 \<and> t' = t1 \<or> (\<exists>j < length ts. m' = Suc i + j \<and> ts ! j = t'))"
    using Cons.prems c by (intro Cons.IH) simp
  have "t \<le> t1 \<and> x \<le> t1 \<and> (m1 = m \<and> t1 = t \<or> m1 = i \<and> t1 = x)" using c by (auto split: if_splits)
  moreover have "\<exists>j < length (x # ts). m' = i + j \<and> (x # ts) ! j = t'" if "\<exists>j < length ts. m' = Suc i + j \<and> ts ! j = t'"
    using that by (metis Suc_less_eq add_Suc add_Suc_right length_Cons nth_Cons_Suc)
  moreover have "\<exists>j < length (x # ts). m' = i + j \<and> (x # ts) ! j = t'" if "m' = i" "t' = x"
    using that by (intro exI [of _ 0]) simp
  ultimately show ?case using ih by auto
qed simp

lemma max_node_max:
  assumes "max_node 0 (0, 0, 0) ts = (m, t, s)" "0 < s"
  shows "s = sum_list ts \<and> m < length ts \<and> (\<forall>j < length ts. ts ! j \<le> ts ! m)"
proof -
  note max_node_spec [OF assms(1)]
  moreover have "\<exists>x \<in> set ts. 0 < x" if "0 < sum_list ts"
    using that sum_list_nonpos [of ts] by force
  ultimately show ?thesis using assms(2) by auto
qed

subsection \<open>The cores of a node by their use\<close>

definition cpu_use :: "'d hardirq_env \<Rightarrow> 'd list list \<Rightarrow> nat \<Rightarrow> 'd" where
  "cpu_use env util cpu = (let fp = he_fp env; row = util ! cpu in
     he_float env (fp_sub fp (fp_sub fp (fp_sub fp (fp_lit fp 100 1) (row ! CPU_IDLE)) (row ! CPU_IRQ)) (row ! CPU_SOFTIRQ)))"

definition node_range :: "nat \<Rightarrow> int list \<Rightarrow> nat \<Rightarrow> nat set" where
  "node_range cpu nids j = {i. cpu \<le> i \<and> i < cpu + length nids \<and> nids ! (i - cpu) = int j}"

lemma node_range_Nil [simp]: "node_range cpu [] j = {}"
  by (auto simp: node_range_def)

lemma node_range_Cons: "node_range cpu (nid # nids) j = (if nid = int j then {cpu} else {}) \<union> node_range (Suc cpu) nids j"
proof (rule set_eqI)
  fix i
  show "i \<in> node_range cpu (nid # nids) j \<longleftrightarrow> i \<in> (if nid = int j then {cpu} else {}) \<union> node_range (Suc cpu) nids j"
    by (cases "i = cpu") (auto simp: node_range_def nth_Cons')
qed

lemma add_cpu_sorts_set:
  assumes "add_cpu_sorts env util cpu nids rst = Some rst'"
  shows "length rst' = length rst \<and> (\<forall>j < length rst. set (rst' ! j) =
    set (rst ! j) \<union> (\<lambda>i. (int i, cpu_use env util i)) ` node_range cpu nids j)"
  using assms
proof (induction nids arbitrary: cpu rst)
  case Nil
  then show ?case by simp
next
  case (Cons nid nids)
  obtain rst1 where r: "0 \<le> nid" "nat nid < length rst"
      "rst1 = rst[nat nid := rst ! nat nid @ [(int cpu, cpu_use env util cpu)]]" "add_cpu_sorts env util (Suc cpu) nids rst1 = Some rst'"
    using Cons.prems by (auto simp: nth_int_def upd_int_def nth_opt_Some_iff cpu_use_def Let_def split: bind_splits if_splits)
  have "length rst' = length rst1 \<and> (\<forall>j < length rst1. set (rst' ! j) =
      set (rst1 ! j) \<union> (\<lambda>i. (int i, cpu_use env util i)) ` node_range (Suc cpu) nids j)"
    by (rule Cons.IH [OF r(4)])
  with r(1,2) show ?case by (auto simp: r(3) nth_list_update node_range_Cons)
qed

abbreviation cores_of :: "'d hardirq \<Rightarrow> nat \<Rightarrow> nat set" where
  "cores_of st \<equiv> node_range 0 (cpu2Numa st)"

lemma sorted_before:
  assumes "sorted_wrt (\<lambda>a b. \<not> lt (snd b) (snd a)) l" "\<And>x. \<not> lt x x" "i < length l" "y \<in> set l" "lt (snd y) (snd (l ! i))"
  shows "y \<in> set (take i l)"
proof -
  obtain j where j: "j < length l" "l ! j = y" using assms(4) by (auto simp: in_set_conv_nth)
  have "\<not> i \<le> j" using assms j by (auto simp: sorted_wrt_iff_nth_less le_less)
  with j show ?thesis by (auto simp: in_set_conv_nth)
qed

lemma sorted_cores:
  assumes "std_sorts env" "SortNumaCpuUtil env st = Some cpuSort" "nth_int cpuSort nid = Some l" "i < length l"
  shows "\<exists>cpu \<in> cores_of st (nat nid). 0 \<le> nid \<and> fst (l ! i) = int cpu \<and>
    card {x \<in> cores_of st (nat nid). fp_lt (he_fp env) (cpu_use env (cpuUtil st) x) (cpu_use env (cpuUtil st) cpu)} \<le> i"
proof -
  obtain rst where rst: "add_cpu_sorts env (cpuUtil st) 0 (cpu2Numa st) (replicate (hi_numaNum st) []) = Some rst"
      "cpuSort = map (he_sort_cpus env) rst"
    using assms(2) by (auto simp: SortNumaCpuUtil_def)
  let ?e = "\<lambda>x. (int x, cpu_use env (cpuUtil st) x)"
  have nid: "0 \<le> nid" "nat nid < length rst" "l = he_sort_cpus env (rst ! nat nid)"
    using assms(3) by (auto simp: rst(2) nth_int_def nth_opt_Some_iff split: if_splits)
  have l: "set l = ?e ` cores_of st (nat nid)"
    using add_cpu_sorts_set [OF rst(1)] nid std_sorts_sets [OF assms(1)] by simp
  then obtain cpu where cpu: "cpu \<in> cores_of st (nat nid)" "l ! i = ?e cpu"
    using assms(4) by (metis (no_types, lifting) imageE nth_mem)
  have sorted: "sorted_wrt (\<lambda>a b. \<not> fp_lt (he_fp env) (snd b) (snd a)) l" "\<And>x. \<not> fp_lt (he_fp env) x x"
    using assms(1) nid(3) by (auto simp: std_sorts_def)
  let ?low = "{x \<in> cores_of st (nat nid). fp_lt (he_fp env) (cpu_use env (cpuUtil st) x) (cpu_use env (cpuUtil st) cpu)}"
  have "?e ` ?low \<subseteq> set (take i l)"
    using sorted_before [OF sorted assms(4)] l cpu(2) by auto
  then have "card (?e ` ?low) \<le> card (set (take i l))" by (rule card_mono [rotated]) simp
  also have "\<dots> \<le> i" using card_length [of "take i l"] by simp
  finally have "card ?low \<le> i" by (simp add: card_image inj_on_def)
  with cpu nid(1) show ?thesis by auto
qed

subsection \<open>Binding\<close>

text \<open>Units that stay where they are.\<close>

definition stays :: "'d hardirq \<Rightarrow> int \<Rightarrow> int \<Rightarrow> bool" where
  "stays st core node = (core \<noteq> -1 \<and> nth_int (cpu2Numa st) core = Some node)"

lemma to_string_no_space: "list_all (\<lambda>c. \<not> isspace c) (to_string v)"
proof -
  have "\<not> isspace c" if "c \<in> set (digits10 n)" for c n
    using digits10_isdigit [OF that] isdigit_not_special [of c] by simp
  then show ?thesis by (auto simp: to_string_def list_all_iff isspace_def)
qed

lemma IrqGet_written: "fst (IrqSetSmpAffinity k n (to_string c) fs) = 0 \<Longrightarrow>
    IrqGetSmpAffinity (snd (IrqSetSmpAffinity k n (to_string c) fs)) n = to_string c"
  using IrqSetSmpAffinity_done [of k n "to_string c" fs] to_string_no_space [of c]
  by (simp add: IrqGetSmpAffinity_def read_word_affinity)

lemma note_bind_frame [simp]:
  "cpu2Numa (note_bind u c st) = cpu2Numa st" "hi_numaNum (note_bind u c st) = hi_numaNum st" "hi_files (note_bind u c st) = hi_files st"
  by (simp_all add: note_bind_def set_queue_def Let_def)

definition bound_to :: "'d hardirq_env \<Rightarrow> (int \<times> 'd) list list \<Rightarrow> 'd hardirq \<Rightarrow> HardIrqMigUint \<Rightarrow> int \<Rightarrow> bool" where
  "bound_to env cpuSort st u c = (\<not> stays st (lastBindCore u) (preferredNode u) \<and>
     (\<exists>l i. nth_int cpuSort (preferredNode u) = Some l \<and> i < hi_numaNum st \<and> i < length l \<and> c = fst (l ! i)))"

lemma bind_units_step:
  assumes "bind_units env cpuSort (u # us) cnt st = Some st'"
  shows "\<exists>cnt1 st1. bind_units env cpuSort us cnt1 st1 = Some st' \<and> cpu2Numa st1 = cpu2Numa st \<and> hi_numaNum st1 = hi_numaNum st \<and>
    (hi_files st1 = hi_files st \<or> (\<exists>c. bound_to env cpuSort st u c \<and>
       (let r = IrqSetSmpAffinity (he_kernel env) (mu_irqId u) (to_string c) (hi_files st) in fst r = 0 \<and> hi_files st1 = snd r)))"
proof (cases "stays st (lastBindCore u) (preferredNode u)")
  case True
  then have "bind_units env cpuSort us cnt st = Some st'"
    using assms by (auto simp: stays_def split: bind_splits)
  then show ?thesis by blast
next
  case False
  obtain l i c ratio cnt1 where l: "nth_int cpuSort (preferredNode u) = Some l" "hi_numaNum st \<noteq> 0"
      "nth_int l (i mod int (hi_numaNum st)) = Some (c, ratio)"
    and b: "(case IrqSetSmpAffinity (he_kernel env) (mu_irqId u) (to_string c) (hi_files st) of (err, fs) \<Rightarrow>
       if err \<noteq> 0 then bind_units env cpuSort us cnt (st\<lparr>hi_files := fs\<rparr>)
       else bind_units env cpuSort us cnt1 (note_bind u c (st\<lparr>hi_files := fs\<rparr>))) = Some st'"
    using assms False by (auto simp: stays_def split: bind_splits if_splits prod.splits)
  obtain err fs where w: "IrqSetSmpAffinity (he_kernel env) (mu_irqId u) (to_string c) (hi_files st) = (err, fs)" by fastforce
  show ?thesis
  proof (cases "err = 0")
    case True
    let ?i = "nat (i mod int (hi_numaNum st))"
    have "?i < hi_numaNum st" "?i < length l" "c = fst (l ! ?i)"
      using l by (auto simp: nth_int_def nth_opt_Some_iff nat_less_iff)
    with False l(1) have "bound_to env cpuSort st u c" by (auto simp: bound_to_def)
    with True w b show ?thesis by (intro exI [of _ cnt1] exI [of _ "note_bind u c (st\<lparr>hi_files := fs\<rparr>)"]) auto
  next
    case err: False
    then have "fs = hi_files st"
      using IrqSetSmpAffinity_error [of "he_kernel env" "mu_irqId u" "to_string c" "hi_files st"] w by simp
    with err w b show ?thesis by (intro exI [of _ cnt] exI [of _ "st\<lparr>hi_files := fs\<rparr>"]) auto
  qed
qed

lemma bind_units_moves:
  assumes "bind_units env cpuSort us cnt st = Some st'" "IrqGetSmpAffinity (hi_files st') n \<noteq> IrqGetSmpAffinity (hi_files st) n"
  shows "\<exists>u \<in> set us. mu_irqId u = n \<and> (\<exists>c. bound_to env cpuSort st u c \<and> IrqGetSmpAffinity (hi_files st') n = to_string c)"
  using assms
proof (induction us arbitrary: cnt st)
  case (Cons u us)
  obtain cnt1 st1 where s: "bind_units env cpuSort us cnt1 st1 = Some st'" "cpu2Numa st1 = cpu2Numa st" "hi_numaNum st1 = hi_numaNum st"
      "hi_files st1 = hi_files st \<or> (\<exists>c. bound_to env cpuSort st u c \<and>
       (let r = IrqSetSmpAffinity (he_kernel env) (mu_irqId u) (to_string c) (hi_files st) in fst r = 0 \<and> hi_files st1 = snd r))"
    using bind_units_step [OF Cons.prems(1)] by blast
  have same: "bound_to env cpuSort st1 v c \<longleftrightarrow> bound_to env cpuSort st v c" for v c
    using s(2,3) by (simp add: bound_to_def stays_def)
  show ?case
  proof (cases "IrqGetSmpAffinity (hi_files st') n = IrqGetSmpAffinity (hi_files st1) n")
    case False
    with Cons.IH [OF s(1)] same show ?thesis by auto
  next
    case True
    with Cons.prems(2) s(4) obtain c where c: "bound_to env cpuSort st u c"
        "fst (IrqSetSmpAffinity (he_kernel env) (mu_irqId u) (to_string c) (hi_files st)) = 0"
        "hi_files st1 = snd (IrqSetSmpAffinity (he_kernel env) (mu_irqId u) (to_string c) (hi_files st))"
      by (auto simp: Let_def)
    have "n = mu_irqId u"
      using True Cons.prems(2) c(3) irq.get_put_other [of n "mu_irqId u"] by metis
    with True c IrqGet_written [OF c(2)] show ?thesis by auto
  qed
qed simp

subsection \<open>A round of tuning\<close>

definition queues :: "'d hardirq \<Rightarrow> (string \<times> int \<times> QueueInfo) set" where
  "queues st = (\<Union>d \<in> set (netQueue st). (\<lambda>x. (fst d, fst x, snd x)) ` set (snd d))"

lemma queues_each: "queues (each_queue f st) = (\<lambda>(dev, q, info). (dev, q, f dev q info)) ` queues st"
  by (simp add: queues_def each_queue_def image_UN image_image split_def)

lemma queues_clear: "x \<in> queues (ClearInvalidQueueInfo st) \<Longrightarrow> x \<in> queues st \<and> qi_irqId (snd (snd x)) \<noteq> INVAILD_IRQ_ID"
  by (auto simp: queues_def ClearInvalidQueueInfo_def split_def)

lemma those_map_SomeD: "those (map f xs) = Some ys \<Longrightarrow> y \<in> set ys \<Longrightarrow> \<exists>x \<in> set xs. f x = Some y"
  by (induction xs arbitrary: ys) (auto split: option.splits)

lemma mig_units_queue:
  assumes "mig_units st = Some us" "u \<in> set us"
  shows "\<exists>q info. (mu_dev u, q, info) \<in> queues st \<and> NET_RXT_THRESHOLD \<le> rxSum info \<and> mu_irqId u = qi_irqId info \<and>
    lastBindCore u = lastBindCpu info \<and> preferredNode u = rxMaxNode info"
proof -
  obtain d x where x: "d \<in> set (netQueue st)" "x \<in> set (snd d)" "NET_RXT_THRESHOLD \<le> rxSum (snd x)" "mig_unit st (fst d) (snd x) = Some u"
    using those_map_SomeD [OF assms(1) [unfolded mig_units_def] assms(2)] by (auto simp: split_def)
  then have "(fst d, fst x, snd x) \<in> queues st" by (auto simp: queues_def)
  with x(3,4) show ?thesis
    by (intro exI [of _ "fst x"] exI [of _ "snd x"]) (auto simp: mig_unit_def split: bind_splits)
qed

definition preprocess :: "QueueInfo \<Rightarrow> QueueInfo" where
  "preprocess info = (case max_node 0 (0, 0, 0) (numaRxTimes info) of (maxNode, maxTimes, rx) \<Rightarrow> info\<lparr>rxSum := rx, rxMaxNode := int maxNode\<rparr>)"

lemma TunePreprocessing_each: "TunePreprocessing st = each_queue (\<lambda>dev q. preprocess) st"
  by (simp add: TunePreprocessing_def preprocess_def [abs_def])

lemma preprocess_max:
  assumes "NET_RXT_THRESHOLD \<le> rxSum (preprocess info)"
  shows "\<exists>node < length (numaRxTimes info). rxMaxNode (preprocess info) = int node \<and>
    NET_RXT_THRESHOLD \<le> sum_list (numaRxTimes info) \<and> (\<forall>j < length (numaRxTimes info). numaRxTimes info ! j \<le> numaRxTimes info ! node)"
proof -
  obtain m t s where m: "max_node 0 (0, 0, 0) (numaRxTimes info) = (m, t, s)" by (metis prod_cases3)
  with assms have "10 \<le> s" by (simp add: preprocess_def NET_RXT_THRESHOLD_def)
  with max_node_max [OF m] m show ?thesis by (intro exI [of _ m]) (simp add: preprocess_def NET_RXT_THRESHOLD_def)
qed

lemma preprocess_frame [simp]:
  "qi_irqId (preprocess info) = qi_irqId info" "lastBindCpu (preprocess info) = lastBindCpu info"
  by (simp_all add: preprocess_def split: prod.splits)

lemma add_irq_frame [simp]: "numaRxTimes (add_irq st dev q info) = numaRxTimes info" "lastBindCpu (add_irq st dev q info) = lastBindCpu info"
  by (simp_all add: add_irq_def split: option.splits)

abbreviation ready_to_bind :: "'d hardirq \<Rightarrow> 'd hardirq" where
  "ready_to_bind st \<equiv> TunePreprocessing (ClearInvalidQueueInfo (AddIrqToQueueInfo st))"

lemma ready_frame [simp]:
  "hi_files (ready_to_bind st) = hi_files st" "cpu2Numa (ready_to_bind st) = cpu2Numa st" "hi_numaNum (ready_to_bind st) = hi_numaNum st"
  "cpuUtil (ready_to_bind st) = cpuUtil st"
  by (simp_all add: TunePreprocessing_def ClearInvalidQueueInfo_def AddIrqToQueueInfo_def each_queue_def)

lemma ready_queues:
  assumes "(dev, q, info') \<in> queues (ready_to_bind st)"
  shows "\<exists>info. (dev, q, info) \<in> queues st \<and> info' = preprocess (add_irq st dev q info)"
  using assms by (auto simp: TunePreprocessing_each AddIrqToQueueInfo_def queues_each dest!: queues_clear)

text \<open>C36. An interrupt only moves in a round when a queue of it received at least ten packets and was not already bound by the plugin (its \<open>lastBindCpu\<close>) to the
node that received most of them; it then goes to a core of that node, and fewer cores of the node than there are nodes are used less than this one.\<close>

theorem Hirq_Tune_moves:
  assumes "std_sorts env" "Hirq_Tune env st = Some st'" "IrqGetSmpAffinity (hi_files st') n \<noteq> IrqGetSmpAffinity (hi_files st) n"
  shows "\<exists>dev q info node cpu. (dev, q, info) \<in> queues st \<and> qi_irqId (add_irq st dev q info) = n \<and>
    10 \<le> sum_list (numaRxTimes info) \<and> node < length (numaRxTimes info) \<and>
    (\<forall>j < length (numaRxTimes info). numaRxTimes info ! j \<le> numaRxTimes info ! node) \<and>
    \<not> stays st (lastBindCpu info) (int node) \<and>
    IrqGetSmpAffinity (hi_files st') n = to_string (int cpu) \<and> cpu < length (cpu2Numa st) \<and> cpu2Numa st ! cpu = int node \<and>
    card {x \<in> cores_of st node. fp_lt (he_fp env) (cpu_use env (cpuUtil st) x) (cpu_use env (cpuUtil st) cpu)} < hi_numaNum st"
proof -
  let ?st = "ready_to_bind st"
  obtain us cpuSort where us: "mig_units ?st = Some us" and cs: "SortNumaCpuUtil env ?st = Some cpuSort"
    and b: "bind_units env cpuSort (he_sort_units env us) (replicate (hi_numaNum st) 0) ?st = Some st'"
    using assms(2) by (auto simp: Hirq_Tune_def MigrateHardIrq_def split: bind_splits)
  obtain u c where u: "u \<in> set us" "mu_irqId u = n" "bound_to env cpuSort ?st u c" "IrqGetSmpAffinity (hi_files st') n = to_string c"
    using bind_units_moves [OF b, of n] assms(3) std_sorts_sets [OF assms(1), of us] by auto
  obtain q info where i: "(mu_dev u, q, info) \<in> queues st" "NET_RXT_THRESHOLD \<le> rxSum (preprocess (add_irq st (mu_dev u) q info))"
      "n = qi_irqId (add_irq st (mu_dev u) q info)" "lastBindCore u = lastBindCpu info"
      "preferredNode u = rxMaxNode (preprocess (add_irq st (mu_dev u) q info))"
    using mig_units_queue [OF us u(1)] ready_queues u(2) by fastforce
  obtain node where node: "node < length (numaRxTimes info)" "preferredNode u = int node" "10 \<le> sum_list (numaRxTimes info)"
      "\<forall>j < length (numaRxTimes info). numaRxTimes info ! j \<le> numaRxTimes info ! node"
    using preprocess_max [OF i(2)] i(5) by (auto simp: NET_RXT_THRESHOLD_def)
  obtain l j where l: "nth_int cpuSort (int node) = Some l" "j < hi_numaNum st" "j < length l" "c = fst (l ! j)" "\<not> stays st (lastBindCpu info) (int node)"
    using u(3) node(2) i(4) by (auto simp: bound_to_def stays_def)
  obtain cpu where "cpu \<in> cores_of st node" "c = int cpu"
      "card {x \<in> cores_of st node. fp_lt (he_fp env) (cpu_use env (cpuUtil st) x) (cpu_use env (cpuUtil st) cpu)} \<le> j"
    using sorted_cores [OF assms(1) cs l(1,3)] l(4) by auto
  then show ?thesis
    using i(1,3) node l(2,5) u(4)
    by (intro exI [of _ "mu_dev u"] exI [of _ q] exI [of _ info] exI [of _ node] exI [of _ cpu]) (auto simp: node_range_def)
qed

text \<open>C38. On a machine with one node all interrupts that move in a round land on the same core, the least used one, however many
cores there are, because the position in the sorted list is taken modulo the number of nodes.\<close>

theorem Hirq_Tune_one_node:
  assumes "hi_numaNum st = 1" "Hirq_Tune env st = Some st'"
  shows "\<exists>cpu. \<forall>n. IrqGetSmpAffinity (hi_files st') n \<in> {IrqGetSmpAffinity (hi_files st) n, to_string cpu}"
proof -
  let ?st = "ready_to_bind st"
  obtain us cpuSort where cs: "SortNumaCpuUtil env ?st = Some cpuSort"
    and b: "bind_units env cpuSort us (replicate (hi_numaNum st) 0) ?st = Some st'"
    using assms(2) by (auto simp: Hirq_Tune_def MigrateHardIrq_def split: bind_splits)
  have len: "length cpuSort = 1"
    using cs assms(1) by (auto simp: SortNumaCpuUtil_def dest!: add_cpu_sorts_set)
  have "IrqGetSmpAffinity (hi_files st') n = to_string (fst (cpuSort ! 0 ! 0))"
    if "IrqGetSmpAffinity (hi_files st') n \<noteq> IrqGetSmpAffinity (hi_files st) n" for n
    using bind_units_moves [OF b, of n] that assms(1) len by (auto simp: bound_to_def nth_int_def nth_opt_Some_iff split: if_splits)
  then show ?thesis by blast
qed

text \<open>A run of the enabled plugin that knows the cores but has not yet received their times reads past the end of an empty vector.\<close>

lemma Hirq_Run_before_times:
  assumes "UpdateSystemInfo topic data (st :: 'd hardirq) = Some st1" "envInit st1" "cpu2Numa st1 \<noteq> []" "cpuTimeDiff st = []"
  shows "Hirq_Run env st1 = None"
proof -
  have t: "cpuTimeDiff st1 = []"
    using assms(1,4) by (auto simp: UpdateSystemInfo_def Let_def split: if_splits list.splits hirq_data.splits)
  let ?st = "CalCpuUtil env (st1\<lparr>runCnt := runCnt st1 + 1\<rparr>)"
  have "Hirq_Tune env (st2\<lparr>ethQueData := eth\<rparr>) = None"
    if "(if highNoiseSample ?st then MatchThreadAndQueue ?st else MatchThreadQueAndNuma (he_fp env) ?st) = Some st2" for st2 eth
  proof -
    have "cpuUtil st2 = []" "cpu2Numa st2 = cpu2Numa st1"
      using matching_frame(3,4) [OF that] t by (simp_all add: CalCpuUtil_def)
    then have "SortNumaCpuUtil env (ready_to_bind (st2\<lparr>ethQueData := eth\<rparr>)) = None"
      using assms(3) by (auto simp: SortNumaCpuUtil_def neq_Nil_conv)
    then show ?thesis by (simp add: Hirq_Tune_def MigrateHardIrq_def bind_eq_None_conv)
  qed
  then show ?thesis
    using assms(2) by (auto simp: Hirq_Run_def Let_def split: bind_splits)
qed

end
