(* ===== verification/Hardirq_Safe.thy ===== *)
theory Hardirq_Safe
  imports Hardirq_Moves
begin

text \<open>
  Well-formed states of the plugin: a run on one of them indexes no vector out of range, and the
  state it leaves is well-formed again.
\<close>

subsection \<open>Well-formed states\<close>

definition core_id :: "'d hardirq \<Rightarrow> int \<Rightarrow> bool" where
  "core_id st c = (0 \<le> c \<and> c < int (length (cpu2Numa st)))"

text \<open>Every core belongs to a node, every node has at least as many cores as there are nodes, and the times of all cores are there.\<close>

definition machine_ok :: "'d hardirq \<Rightarrow> bool" where
  "machine_ok st = ((\<forall>nid \<in> set (cpu2Numa st). 0 \<le> nid \<and> nid < int (hi_numaNum st)) \<and>
     (\<forall>j < hi_numaNum st. hi_numaNum st \<le> card (cores_of st j)) \<and>
     length (cpu2Numa st) \<le> length (cpuTimeDiff st) \<and> (\<forall>row \<in> set (cpuTimeDiff st). length row = CPU_UTIL_TYPE_MAX))"

definition queue_ok :: "'d hardirq \<Rightarrow> QueueInfo \<Rightarrow> bool" where
  "queue_ok st info = (length (numaRxTimes info) \<le> hi_numaNum st \<and> (lastBindCpu info = INVALID_CPU_ID \<or> core_id st (lastBindCpu info)))"

definition queues_ok :: "'d hardirq \<Rightarrow> bool" where
  "queues_ok st = (\<forall>x \<in> queues st. queue_ok st (snd (snd x)))"

definition hirq_ok :: "'d hardirq \<Rightarrow> bool" where
  "hirq_ok st = (machine_ok st \<and> queues_ok st \<and> (\<forall>t \<in> set (threadData st). core_id st (rt_core t)))"

lemma core_id_node: "machine_ok st \<Longrightarrow> core_id st c \<Longrightarrow>
    \<exists>nid. nth_int (cpu2Numa st) c = Some nid \<and> 0 \<le> nid \<and> nid < int (hi_numaNum st)"
  by (auto simp: core_id_def machine_ok_def nth_int_def nth_opt_def)

subsection \<open>Counting packets\<close>

lemma al_get_in: "al_get d m k = d \<or> (k, al_get d m k) \<in> set m"
  by (auto simp: al_get_def split: option.splits dest: map_of_SomeD)

lemma queue_at_cases: "queue_at st dev q = blank_queue \<or> (dev, q, queue_at st dev q) \<in> queues st"
proof -
  let ?qs = "al_get [] (netQueue st) dev"
  have "queue_at st dev q = blank_queue \<or> (q, queue_at st dev q) \<in> set ?qs"
    unfolding queue_at_def by (rule al_get_in)
  moreover have "?qs = [] \<or> (dev, ?qs) \<in> set (netQueue st)" by (rule al_get_in)
  ultimately show ?thesis
    by (auto simp: queues_def image_iff intro!: bexI [of _ "(dev, ?qs)"] bexI [of _ "(q, queue_at st dev q)"])
qed

lemma queue_at_ok: "queues_ok st \<Longrightarrow> queue_ok st (queue_at st dev q)"
  using queue_at_cases [of st dev q] by (auto simp: queues_ok_def queue_ok_def blank_queue_def)

lemma netQueue_set_queue:
  "netQueue (set_queue dev q info st) = AList.update dev (AList.update q info (al_get [] (netQueue st) dev)) (netQueue st)"
  by (simp add: set_queue_def)

lemma queues_set_queue: "queues (set_queue dev q info st) \<subseteq> insert (dev, q, info) (queues st)"
proof -
  let ?qs = "al_get [] (netQueue st) dev"
  have "?qs = [] \<or> (dev, ?qs) \<in> set (netQueue st)" by (rule al_get_in)
  then have "(dev, x) \<in> queues st" if "x \<in> set ?qs" for x
    using that by (auto simp: queues_def image_iff intro!: bexI [of _ "(dev, ?qs)"] bexI [of _ x])
  then have old: "Pair dev ` set ?qs \<subseteq> queues st" by blast
  have "queues (set_queue dev q info st) \<subseteq> (\<Union>d \<in> insert (dev, AList.update q info ?qs) (set (netQueue st)). (\<lambda>x. (fst d, fst x, snd x)) ` set (snd d))"
    unfolding queues_def netQueue_set_queue by (rule UN_mono [OF set_update_subset]) simp
  also have "\<dots> = Pair dev ` set (AList.update q info ?qs) \<union> queues st" by (simp add: queues_def)
  also have "\<dots> \<subseteq> Pair dev ` insert (q, info) (set ?qs) \<union> queues st"
    by (intro Un_mono image_mono set_update_subset order_refl)
  finally show ?thesis using old by blast
qed

lemma queues_ok_set_queue:
  assumes "queues_ok st" "queue_ok st info"
  shows "queues_ok (set_queue dev q info st)"
proof -
  have "queue_ok (set_queue dev q info st) x \<longleftrightarrow> queue_ok st x" for x
    by (simp add: queue_ok_def core_id_def set_queue_def)
  with assms queues_set_queue [of dev q info st] show ?thesis by (auto simp: queues_ok_def)
qed

lemma count_packet:
  assumes "machine_ok st" "queues_ok st" "core_id st (rt_core thr)"
  shows "\<exists>st'. UpdateThreadAndQueueInfo que thr st = Some st' \<and> queues_ok st'"
proof -
  let ?info = "queue_at st (rq_dev que) (to_int32 (uint (queueMapping que)))"
  obtain nid where nid: "nth_int (cpu2Numa st) (rt_core thr) = Some nid" "0 \<le> nid" "nid < int (hi_numaNum st)"
    using core_id_node assms(1,3) by blast
  have ok: "queue_ok st ?info" using assms(2) by (rule queue_at_ok)
  then have len: "length (grow (hi_numaNum st) (numaRxTimes ?info)) = hi_numaNum st"
    by (simp add: grow_def queue_ok_def)
  have "queue_ok st (?info\<lparr>numaRxTimes := xs\<rparr>)" if "length xs = hi_numaNum st" for xs
    using ok that by (simp add: queue_ok_def)
  with nid len assms(2) show ?thesis
    by (auto simp: UpdateThreadAndQueueInfo_def Let_def nth_int_def upd_int_def nth_opt_def intro!: queues_ok_set_queue)
qed

lemma same_buffer_range: "same_buffer thrs skb i = Some j \<Longrightarrow> j < length thrs \<and> i \<le> j \<and> j < i + slidingWinLen"
proof -
  assume "same_buffer thrs skb i = Some j"
  then have "j \<in> set [i..<min (length thrs) (i + slidingWinLen)]"
    unfolding same_buffer_def find_Some_iff by (metis nth_mem)
  then show ?thesis by simp
qed

lemma hirq_ok_only_queues: "only_queues st st' \<Longrightarrow> hirq_ok st \<Longrightarrow> queues_ok st' \<Longrightarrow> hirq_ok st'"
  by (auto simp: hirq_ok_def machine_ok_def core_id_def only_queues_fields)

lemma match_queues_ok: "hirq_ok st \<Longrightarrow> \<exists>st'. match_queues ques i st = Some st' \<and> hirq_ok st'"
proof (induction ques arbitrary: i st)
  case (Cons que ques)
  let ?i = "next_thread (threadData st) (rq_ts que) i"
  have "\<exists>st1. (case same_buffer (threadData st) (rq_skbaddr que) ?i of None \<Rightarrow> Some st
      | Some j \<Rightarrow> UpdateThreadAndQueueInfo que (threadData st ! j) st) = Some st1 \<and> hirq_ok st1"
  proof (cases "same_buffer (threadData st) (rq_skbaddr que) ?i")
    case (Some j)
    then have "core_id st (rt_core (threadData st ! j))"
      using same_buffer_range [OF Some] Cons.prems by (simp add: hirq_ok_def)
    with Cons.prems obtain st1 where "UpdateThreadAndQueueInfo que (threadData st ! j) st = Some st1" "queues_ok st1"
      using count_packet [of st "threadData st ! j" que] by (auto simp: hirq_ok_def)
    with Some Cons.prems show ?thesis by (auto intro: hirq_ok_only_queues dest: only_queues_counted)
  qed (simp add: Cons.prems)
  then show ?case using Cons.IH [of _ ?i] by (auto simp: Let_def)
qed simp

subsection \<open>Sharing out the packets of threads\<close>

text \<open>Bounds of the counts of packets, and what the threads add to them.\<close>

definition counts :: "'d hardirq \<Rightarrow> int \<Rightarrow> bool" where
  "counts st b = (\<forall>x \<in> queues st. \<forall>n \<in> set (numaRxTimes (snd (snd x))). 0 \<le> n \<and> n \<le> b)"

lemma queue_at_counts: "counts st b \<Longrightarrow> 0 \<le> b \<Longrightarrow> \<forall>n \<in> set (numaRxTimes (queue_at st dev q)). 0 \<le> n \<and> n \<le> b"
  using queue_at_cases [of st dev q] by (auto simp: counts_def blank_queue_def)

lemma counts_mono: "counts st b \<Longrightarrow> b \<le> d \<Longrightarrow> counts st d"
  unfolding counts_def by (meson order_trans)

lemma counts_set_queue:
  assumes "counts st b" "\<forall>n \<in> set (numaRxTimes info). 0 \<le> n \<and> n \<le> b"
  shows "counts (set_queue dev q info st) b"
  using assms queues_set_queue [of dev q info st] unfolding counts_def by auto

fun rx_queues :: "(int \<times> u64) list \<Rightarrow> int" where
  "rx_queues [] = 0"
| "rx_queues ((q, rx) # qs) = uint rx + rx_queues qs"

fun rx_devs :: "(int \<times> (int \<times> u64) list) list \<Rightarrow> int" where
  "rx_devs [] = 0"
| "rx_devs ((i, qs) # ds) = rx_queues qs + rx_devs ds"

fun rx_threads :: "ThreadNumaInfo list \<Rightarrow> int" where
  "rx_threads [] = 0"
| "rx_threads (t # ts) = rx_devs (queRxTimes t) + rx_threads ts"

lemma rx_queues_nonneg: "0 \<le> rx_queues qs"
  by (induction qs rule: rx_queues.induct) simp_all

lemma rx_devs_nonneg: "0 \<le> rx_devs ds"
  by (induction ds rule: rx_devs.induct) (simp_all add: rx_queues_nonneg)

lemma rx_threads_nonneg: "0 \<le> rx_threads ts"
  by (induction ts rule: rx_threads.induct) (simp_all add: rx_devs_nonneg)

text \<open>The cycles of a thread: a count for each node at most, none above their sum, which is not zero if there are any.\<close>

definition thread_ok :: "nat \<Rightarrow> ThreadNumaInfo \<Rightarrow> bool" where
  "thread_ok n t = (length (cyclesNumaRatio t) \<le> n \<and> (\<forall>c \<in> set (cyclesNumaRatio t). c \<le> cyclesSum t \<and> 0 < cyclesSum t))"

text \<open>
  What \<open>MatchThreadQueAndNuma\<close> relies on: adding the share of a node, a quotient of at most one or
  zero, to a count stays between the count and the count with all packets, as it does for
  doubles as long as these are below \<open>2^31\<close>.
\<close>

locale share_ops =
  fixes fp :: "'d float_ops"
  assumes share: "0 \<le> n \<Longrightarrow> 0 \<le> r \<Longrightarrow> n + r < 2 ^ 31 \<Longrightarrow> 0 \<le> c \<Longrightarrow> c \<le> s \<Longrightarrow> 0 < s \<Longrightarrow> s < 2 ^ 64 \<Longrightarrow>
      \<exists>v. fp_trunc fp (fp_add fp (fp_of_int fp n) (fp_mul fp (fp_of_int fp r) (fp_div fp (fp_of_int fp c) (fp_of_int fp s)))) = Some v \<and>
        n \<le> v \<and> v \<le> n + r"
    and no_share: "0 \<le> n \<Longrightarrow> 0 \<le> r \<Longrightarrow> n + r < 2 ^ 31 \<Longrightarrow>
      \<exists>v. fp_trunc fp (fp_add fp (fp_of_int fp n) (fp_mul fp (fp_of_int fp r) (fp_of_int fp 0))) = Some v \<and> n \<le> v \<and> v \<le> n + r"
begin

definition good_ratio :: "'d \<Rightarrow> bool" where
  "good_ratio x = (\<forall>n r. 0 \<le> n \<longrightarrow> 0 \<le> r \<longrightarrow> n + r < 2 ^ 31 \<longrightarrow>
     (\<exists>v. fp_trunc fp (fp_add fp (fp_of_int fp n) (fp_mul fp (fp_of_int fp r) x)) = Some v \<and> n \<le> v \<and> v \<le> n + r))"

lemma good_ratioD:
  "good_ratio x \<Longrightarrow> 0 \<le> n \<Longrightarrow> 0 \<le> r \<Longrightarrow> n + r < 2 ^ 31 \<Longrightarrow>
    \<exists>v. fp_trunc fp (fp_add fp (fp_of_int fp n) (fp_mul fp (fp_of_int fp r) x)) = Some v \<and> n \<le> v \<and> v \<le> n + r"
  by (simp add: good_ratio_def)

lemma add_rx_total:
  "\<forall>x \<in> set rs. good_ratio x \<Longrightarrow> \<forall>n \<in> set ns. 0 \<le> n \<and> n \<le> b \<Longrightarrow> b + uint rx < 2 ^ 31 \<Longrightarrow>
    \<exists>ns'. add_rx fp rx rs ns = Some ns' \<and> length ns' = length ns \<and> (\<forall>n \<in> set ns'. 0 \<le> n \<and> n \<le> b + uint rx)"
proof (induction rs arbitrary: ns)
  case Nil
  then show ?case by (auto intro: order_trans)
next
  case (Cons r rs)
  show ?case
  proof (cases ns)
    case (Cons n ns1)
    then obtain ns' where ns': "add_rx fp rx rs ns1 = Some ns'" "length ns' = length ns1" "\<forall>n \<in> set ns'. 0 \<le> n \<and> n \<le> b + uint rx"
      using Cons.IH [of ns1] Cons.prems by auto
    have "0 \<le> n" "n + uint rx < 2 ^ 31" "n \<le> b" using Cons Cons.prems by auto
    then obtain v where "fp_trunc fp (fp_add fp (fp_of_int fp n) (fp_mul fp (fp_of_int fp (uint rx)) r)) = Some v" "n \<le> v" "v \<le> n + uint rx"
      using good_ratioD [of r n "uint rx"] Cons.prems(1) by auto
    with ns' Cons \<open>0 \<le> n\<close> \<open>n + uint rx < 2 ^ 31\<close> \<open>n \<le> b\<close> show ?thesis by auto
  qed simp
qed

lemma rx_of_queues_total:
  assumes "\<forall>x \<in> set ratio. good_ratio x" "queues_ok st" "counts st b" "0 \<le> b" "b + rx_queues qs < 2 ^ 31"
  shows "\<exists>st'. rx_of_queues fp dev ratio qs st = Some st' \<and> queues_ok st' \<and> counts st' (b + rx_queues qs)"
  using assms(2-)
proof (induction qs arbitrary: st b)
  case Nil
  then show ?case by simp
next
  case (Cons e qs)
  obtain q rx where e: "e = (q, rx)" by fastforce
  let ?info = "queue_at st dev q"
  have "\<forall>n \<in> set (grow (hi_numaNum st) (numaRxTimes ?info)). 0 \<le> n \<and> n \<le> b"
    using queue_at_counts [OF Cons.prems(2,3)] Cons.prems(3) by (auto simp: grow_def)
  moreover have "b + uint rx < 2 ^ 31" using Cons.prems(4) rx_queues_nonneg [of qs] by (simp add: e)
  ultimately obtain ns where ns: "add_rx fp rx ratio (grow (hi_numaNum st) (numaRxTimes ?info)) = Some ns"
      "length ns = length (grow (hi_numaNum st) (numaRxTimes ?info))" "\<forall>n \<in> set ns. 0 \<le> n \<and> n \<le> b + uint rx"
    using add_rx_total [OF assms(1)] by blast
  let ?st = "set_queue dev q (?info\<lparr>numaRxTimes := ns\<rparr>) st"
  have "queue_ok st (?info\<lparr>numaRxTimes := ns\<rparr>)"
    using queue_at_ok [OF Cons.prems(1), of dev q] ns(2) by (simp add: queue_ok_def grow_def split: if_splits)
  then have "queues_ok ?st" by (rule queues_ok_set_queue [OF Cons.prems(1)])
  moreover have "counts ?st (b + uint rx)"
    using counts_mono [OF Cons.prems(2), of "b + uint rx"] ns(3) by (intro counts_set_queue) simp_all
  moreover have "b + uint rx + rx_queues qs < 2 ^ 31" using Cons.prems(4) by (simp add: e)
  ultimately show ?case
    using Cons.IH [of ?st "b + uint rx"] Cons.prems(3) ns(1) by (simp add: e Let_def add.assoc)
qed

lemma rx_of_devs_total:
  assumes "\<forall>x \<in> set ratio. good_ratio x" "queues_ok st" "counts st b" "0 \<le> b" "b + rx_devs ds < 2 ^ 31"
  shows "\<exists>st'. rx_of_devs fp ratio ds st = Some st' \<and> queues_ok st' \<and> counts st' (b + rx_devs ds)"
  using assms(2-)
proof (induction ds arbitrary: st b)
  case Nil
  then show ?case by simp
next
  case (Cons e ds)
  obtain i qs where e: "e = (i, qs)" by fastforce
  note pos = rx_queues_nonneg [of qs] rx_devs_nonneg [of ds]
  show ?case
  proof (cases "al_get [] (ifIdxToName st) (uint (word_of_int i :: 32 word)) = []")
    case True
    have "counts st (b + rx_queues qs)" using counts_mono [OF Cons.prems(2)] pos by simp
    with True Cons.IH [of st "b + rx_queues qs"] Cons.prems pos show ?thesis by (simp add: e add.assoc)
  next
    case False
    obtain st1 where "rx_of_queues fp (al_get [] (ifIdxToName st) (uint (word_of_int i :: 32 word))) ratio qs st = Some st1"
        "queues_ok st1" "counts st1 (b + rx_queues qs)"
      using rx_of_queues_total [OF assms(1) Cons.prems(1,2,3), of qs] Cons.prems(4) pos by (auto simp: e)
    with False Cons.IH [of st1 "b + rx_queues qs"] Cons.prems pos show ?thesis by (simp add: e Let_def add.assoc)
  qed
qed

lemma thread_ratio:
  assumes "thread_ok (hi_numaNum st) t"
  shows "\<exists>ratio. numa_ratio fp (hi_numaNum st) t = Some ratio \<and> (\<forall>x \<in> set ratio. good_ratio x)"
proof -
  have "good_ratio (fp_div fp (fp_of_int fp (uint c)) (fp_of_int fp (uint (cyclesSum t))))" if "c \<in> set (cyclesNumaRatio t)" for c
  proof -
    have c: "uint c \<le> uint (cyclesSum t)" "0 < uint (cyclesSum t)" "uint (cyclesSum t) < 2 ^ 64"
      using assms that unsigned_less [of "cyclesSum t"] by (auto simp: thread_ok_def word_le_def word_less_def)
    with share [of _ _ "uint c" "uint (cyclesSum t)"] show ?thesis by (auto simp: good_ratio_def)
  qed
  moreover have "good_ratio (fp_of_int fp 0)" unfolding good_ratio_def by (intro allI impI no_share)
  ultimately show ?thesis
    using assms by (auto simp: numa_ratio_def thread_ok_def)
qed

lemma rx_of_threads_total:
  assumes "\<forall>t \<in> set ts. thread_ok (hi_numaNum st) t" "queues_ok st" "counts st b" "0 \<le> b" "b + rx_threads ts < 2 ^ 31"
  shows "\<exists>st'. rx_of_threads fp ts st = Some st' \<and> queues_ok st'"
  using assms
proof (induction ts arbitrary: st b)
  case Nil
  then show ?case by simp
next
  case (Cons t ts)
  note pos = rx_devs_nonneg [of "queRxTimes t"] rx_threads_nonneg [of ts]
  obtain ratio where r: "numa_ratio fp (hi_numaNum st) t = Some ratio" "\<forall>x \<in> set ratio. good_ratio x"
    using thread_ratio [of st t] Cons.prems(1) by auto
  obtain st1 where st1: "rx_of_devs fp ratio (queRxTimes t) st = Some st1" "queues_ok st1" "counts st1 (b + rx_devs (queRxTimes t))"
    using rx_of_devs_total [OF r(2) Cons.prems(2,3,4), of "queRxTimes t"] Cons.prems(5) pos by auto
  have "hi_numaNum st1 = hi_numaNum st" using only_queues_fields [OF only_queues_rx_devs [OF st1(1)]] by simp
  then have "\<exists>st'. rx_of_threads fp ts st1 = Some st' \<and> queues_ok st'"
    using Cons.IH [of st1 "b + rx_devs (queRxTimes t)"] Cons.prems st1(2,3) pos by (simp add: add.assoc)
  moreover have "\<exists>st'. rx_of_threads fp ts st = Some st' \<and> queues_ok st'"
    using Cons.IH [of st b] Cons.prems pos by simp
  ultimately show ?case using r(1) st1(1) by simp
qed

end

text \<open>Exact arithmetic satisfies the contract.\<close>

interpretation exact_shares: share_ops rat_ops
proof
  fix n r c s :: int
  assume h: "0 \<le> n" "0 \<le> r" "0 \<le> c" "c \<le> s" "0 < s"
  let ?x = "of_int n + of_int r * (of_int c / of_int s) :: rat"
  have q: "0 \<le> (of_int c / of_int s :: rat)" "(of_int c / of_int s :: rat) \<le> 1" "0 \<le> (of_int r :: rat)" using h by simp_all
  have "0 \<le> of_int r * (of_int c / of_int s :: rat)" "of_int r * (of_int c / of_int s :: rat) \<le> of_int r"
    using mult_nonneg_nonneg [OF q(3,1)] mult_left_le [OF q(2,3)] by simp_all
  then have "of_int n \<le> ?x" "?x \<le> of_int (n + r)" by simp_all
  then have "n \<le> \<lfloor>?x\<rfloor>" "\<lfloor>?x\<rfloor> \<le> n + r" "\<not> ?x < 0" using h(1) by (simp_all add: le_floor_iff floor_le_iff not_less)
  then show "\<exists>v. fp_trunc rat_ops (fp_add rat_ops (fp_of_int rat_ops n) (fp_mul rat_ops (fp_of_int rat_ops r)
      (fp_div rat_ops (fp_of_int rat_ops c) (fp_of_int rat_ops s)))) = Some v \<and> n \<le> v \<and> v \<le> n + r"
    by (simp add: rat_ops_def)
qed (simp add: rat_ops_def)

subsection \<open>The interrupts of the queues\<close>

lemma make_regex_total: "\<exists>r. make_regex info str = Some r"
proof -
  have "ReplaceString s t v = Some (subst_all t v s)" if "t \<noteq> []" for s t v
    using replace_loop_subst_all [OF that, of v "[]" s] by (simp add: ReplaceString_def)
  then show ?thesis by (simp add: make_regex_def)
qed

text \<open>Every pattern built for a known interface is one the engine accepts.\<close>

definition patterns_ok :: "regex_engine \<Rightarrow> string list \<Rightarrow> (string \<times> EthQueInfo) list \<Rightarrow> bool" where
  "patterns_ok re qr eths = (\<forall>(d, info) \<in> set eths. (\<forall>r \<in> set (eq_regex info). re_valid re r) \<and>
     (\<forall>p \<in> set qr. \<forall>r. make_regex info p = Some r \<longrightarrow> re_valid re r))"

lemma make_regexes:
  "\<exists>rs. those (map (make_regex info) l) = Some rs \<and> (\<forall>r \<in> set rs. \<exists>p \<in> set l. make_regex info p = Some r)"
proof (induction l)
  case (Cons s l)
  then show ?case using make_regex_total [of info s] by auto
qed simp

lemma eth_que_data_total: "patterns_ok re qr eths \<Longrightarrow> \<exists>eth. eth_que_data re qr irqs eths = Some eth"
proof (induction eths)
  case (Cons e eths)
  obtain rs where rs: "those (map (make_regex (snd e)) qr) = Some rs" "\<forall>r \<in> set rs. \<exists>p \<in> set qr. make_regex (snd e) p = Some r"
    using make_regexes by blast
  then have "AddRegex qr (snd e) = Some ((snd e)\<lparr>eq_regex := eq_regex (snd e) @ rs\<rparr>)" by (simp add: AddRegex_def)
  moreover have "\<forall>r \<in> set (eq_regex (snd e) @ rs). re_valid re r"
    using rs(2) Cons.prems by (auto simp: patterns_ok_def)
  then obtain info where "UpdateQue2Irq re irqs ((snd e)\<lparr>eq_regex := eq_regex (snd e) @ rs\<rparr>) = Some info"
    using update_regexes_valid [of "eq_regex (snd e) @ rs" re irqs "[]" "que2Irq (snd e)"] by (simp add: UpdateQue2Irq_def)
  moreover obtain eth where "eth_que_data re qr irqs eths = Some eth" using Cons by (auto simp: patterns_ok_def)
  ultimately show ?case by (cases e) simp
qed simp

subsection \<open>Binding\<close>

lemma add_cpu_sorts_total:
  assumes "\<forall>nid \<in> set nids. 0 \<le> nid \<and> nid < int (length rst)" "cpu + length nids \<le> length util"
    "\<forall>row \<in> set util. length row = CPU_UTIL_TYPE_MAX"
  shows "\<exists>rst'. add_cpu_sorts env util cpu nids rst = Some rst'"
  using assms(1,2)
proof (induction nids arbitrary: cpu rst)
  case (Cons nid nids)
  have "nth_opt util cpu = Some (util ! cpu)" "length (util ! cpu) = 11"
    using Cons.prems(2) assms(3) by (simp_all add: nth_opt_def CPU_UTIL_TYPE_MAX_def)
  moreover have "nth_int rst nid = Some (rst ! nat nid)" "upd_int rst nid v = Some (rst[nat nid := v])" for v
    using Cons.prems(1) by (auto simp: nth_int_def upd_int_def nth_opt_def)
  moreover have "\<exists>rst'. add_cpu_sorts env util (Suc cpu) nids (rst[nat nid := v]) = Some rst'" for v
    using Cons.prems by (intro Cons.IH) auto
  ultimately show ?case by (simp add: nth_opt_def CPU_IDLE_def CPU_IRQ_def CPU_SOFTIRQ_def Let_def)
qed simp

definition sorts_ok :: "'d hardirq \<Rightarrow> (int \<times> 'd) list list \<Rightarrow> bool" where
  "sorts_ok st cpuSort = (length cpuSort = hi_numaNum st \<and>
     (\<forall>l \<in> set cpuSort. hi_numaNum st \<le> length l \<and> (\<forall>x \<in> set l. core_id st (fst x))))"

lemma SortNumaCpuUtil_total:
  assumes "std_sorts env" "machine_ok st" "length (cpu2Numa st) \<le> length (cpuUtil st)" "\<forall>row \<in> set (cpuUtil st). length row = CPU_UTIL_TYPE_MAX"
  shows "\<exists>cpuSort. SortNumaCpuUtil env st = Some cpuSort \<and> sorts_ok st cpuSort"
proof -
  obtain rst where rst: "add_cpu_sorts env (cpuUtil st) 0 (cpu2Numa st) (replicate (hi_numaNum st) []) = Some rst"
    using add_cpu_sorts_total [of "cpu2Numa st" "replicate (hi_numaNum st) []" 0 "cpuUtil st" env] assms(2-4) by (auto simp: machine_ok_def)
  have len: "length (he_sort_cpus env cs) = length cs" for cs
    using assms(1) unfolding std_sorts_def by (metis size_mset)
  let ?e = "\<lambda>x. (int x, cpu_use env (cpuUtil st) x)"
  have set: "length rst = hi_numaNum st" "\<And>j. j < hi_numaNum st \<Longrightarrow> set (rst ! j) = ?e ` cores_of st j"
    using add_cpu_sorts_set [OF rst] by auto
  have "hi_numaNum st \<le> length (rst ! j) \<and> (\<forall>x \<in> set (rst ! j). core_id st (fst x))" if "j < hi_numaNum st" for j
  proof
    have "hi_numaNum st \<le> card (cores_of st j)" using assms(2) that by (simp add: machine_ok_def)
    also have "\<dots> = card (set (rst ! j))" unfolding set(2) [OF that] by (simp add: card_image inj_on_def)
    also have "\<dots> \<le> length (rst ! j)" by (rule card_length)
    finally show "hi_numaNum st \<le> length (rst ! j)" .
    show "\<forall>x \<in> set (rst ! j). core_id st (fst x)" by (auto simp: set(2) [OF that] node_range_def core_id_def)
  qed
  then have "\<forall>l \<in> set rst. hi_numaNum st \<le> length l \<and> (\<forall>x \<in> set l. core_id st (fst x))"
    by (metis in_set_conv_nth set(1))
  then have "sorts_ok st (map (he_sort_cpus env) rst)"
    using set(1) len std_sorts_sets [OF assms(1)] by (simp add: sorts_ok_def)
  with rst show ?thesis by (simp add: SortNumaCpuUtil_def)
qed

definition unit_ok :: "'d hardirq \<Rightarrow> HardIrqMigUint \<Rightarrow> bool" where
  "unit_ok st u = (0 \<le> preferredNode u \<and> preferredNode u < int (hi_numaNum st) \<and> (lastBindCore u = -1 \<or> core_id st (lastBindCore u)))"

lemma those_map_total: "\<forall>x \<in> set xs. \<exists>y. f x = Some y \<Longrightarrow> \<exists>ys. those (map f xs) = Some ys"
  by (induction xs) auto

lemma mig_units_total:
  assumes "queues_ok st" "machine_ok st"
  shows "\<exists>us. mig_units st = Some us"
  unfolding mig_units_def
proof (rule those_map_total, clarsimp)
  fix dev qs q info
  assume "(dev, qs) \<in> set (netQueue st)" "(q, info) \<in> set qs"
  then have "(dev, q, info) \<in> queues st" by (force simp: queues_def)
  then have "queue_ok st info" using assms(1) by (auto simp: queues_ok_def)
  then show "\<exists>y. mig_unit st dev info = Some y"
    using core_id_node [OF assms(2), of "lastBindCpu info"] by (auto simp: mig_unit_def queue_ok_def)
qed

text \<open>The queues and the table of interrupts are all that binding changes.\<close>

lemma note_bind_ok:
  assumes "queues_ok st" "core_id st c"
  shows "queues_ok (note_bind u c (st\<lparr>hi_files := fs\<rparr>))"
proof -
  let ?st = "st\<lparr>hi_files := fs\<rparr>"
  have q: "queues_ok ?st" using assms(1) by (simp add: queues_ok_def queue_ok_def core_id_def queues_def)
  have "queue_ok ?st ((queue_at ?st (mu_dev u) (mu_queId u))\<lparr>lastBindCpu := c\<rparr>)"
    using queue_at_ok [OF q] assms(2) by (simp add: queue_ok_def core_id_def)
  from queues_ok_set_queue [OF q this] show ?thesis
    by (simp add: note_bind_def Let_def queues_ok_def queue_ok_def core_id_def queues_def)
qed

definition same_machine :: "'d hardirq \<Rightarrow> 'd hardirq \<Rightarrow> bool" where
  "same_machine st st' = (cpu2Numa st' = cpu2Numa st \<and> hi_numaNum st' = hi_numaNum st \<and> cpuTimeDiff st' = cpuTimeDiff st \<and> threadData st' = threadData st)"

lemma same_machine_ok:
  assumes "same_machine st st'"
  shows "machine_ok st' = machine_ok st" "sorts_ok st' = sorts_ok st" "unit_ok st' = unit_ok st" "core_id st' = core_id st" "queue_ok st' = queue_ok st"
  using assms by (auto simp: fun_eq_iff same_machine_def machine_ok_def sorts_ok_def unit_ok_def queue_ok_def core_id_def)

lemma same_machine_bind [simp]: "same_machine st st" "same_machine st (st\<lparr>hi_files := fs\<rparr>)" "same_machine st (note_bind u c (st\<lparr>hi_files := fs\<rparr>))"
  by (simp_all add: same_machine_def note_bind_def set_queue_def Let_def)

definition binds_ok :: "'d hardirq_env \<Rightarrow> (int \<times> 'd) list list \<Rightarrow> HardIrqMigUint list \<Rightarrow> int list \<Rightarrow> 'd hardirq \<Rightarrow> bool" where
  "binds_ok env cpuSort us cnt st = (\<exists>st'. bind_units env cpuSort us cnt st = Some st' \<and> queues_ok st' \<and> same_machine st st')"

lemma binds_ok_more: "same_machine st st1 \<Longrightarrow> binds_ok env cpuSort us cnt st1 \<Longrightarrow>
    \<exists>st'. bind_units env cpuSort us cnt st1 = Some st' \<and> queues_ok st' \<and> same_machine st st'"
  by (auto simp: binds_ok_def same_machine_def)

lemma bind_units_total:
  assumes "machine_ok st" "queues_ok st" "sorts_ok st cpuSort" "\<forall>u \<in> set us. unit_ok st u" "length cnt = hi_numaNum st"
  shows "binds_ok env cpuSort us cnt st"
  using assms
proof (induction us arbitrary: cnt st)
  case Nil
  then show ?case by (simp add: binds_ok_def same_machine_def)
next
  case (Cons u us)
  have IH: "binds_ok env cpuSort us cnt1 st1" if "same_machine st st1" "queues_ok st1" "length cnt1 = hi_numaNum st" for cnt1 st1
    using that Cons.prems by (intro Cons.IH) (simp_all add: same_machine_ok, simp add: same_machine_def)
  obtain b where b: "(if lastBindCore u \<noteq> -1 then map_option (\<lambda>n. preferredNode u = n) (nth_int (cpu2Numa st) (lastBindCore u)) else Some False) = Some b"
    using Cons.prems(4) core_id_node [OF Cons.prems(1), of "lastBindCore u"]
    by (cases "lastBindCore u = -1") (auto simp: unit_ok_def)
  define node i where "node = nat (preferredNode u)" and "i = nat (cnt ! node mod int (hi_numaNum st))"
  have p: "0 \<le> preferredNode u" "node < hi_numaNum st" using Cons.prems(4) by (auto simp: unit_ok_def node_def)
  then have l: "cpuSort ! node \<in> set cpuSort" using Cons.prems(3) by (simp add: sorts_ok_def)
  have "i < hi_numaNum st" using p by (simp add: i_def nat_less_iff)
  with l Cons.prems(3) have i: "i < length (cpuSort ! node)" by (fastforce simp: sorts_ok_def)
  obtain c r where c: "cpuSort ! node ! i = (c, r)" by fastforce
  then have core: "core_id st c" using nth_mem [OF i] l Cons.prems(3) by (force simp: sorts_ok_def)
  have reads: "nth_int cpuSort (preferredNode u) = Some (cpuSort ! node)" "nth_int cnt (preferredNode u) = Some (cnt ! node)"
      "hi_numaNum st \<noteq> 0" "nth_int (cpuSort ! node) (cnt ! node mod int (hi_numaNum st)) = Some (c, r)"
      "upd_int cnt (preferredNode u) v = Some (cnt[node := v])" for v
    using p i c Cons.prems(3,5) by (auto simp: nth_int_def upd_int_def nth_opt_def node_def i_def sorts_ok_def)
  obtain err fs where w: "IrqSetSmpAffinity (he_kernel env) (mu_irqId u) (to_string c) (hi_files st) = (err, fs)" by fastforce
  have q: "queues_ok (st\<lparr>hi_files := fs\<rparr>)"
    using Cons.prems(2) same_machine_ok(5) [of st "st\<lparr>hi_files := fs\<rparr>"] by (simp add: queues_ok_def queues_def)
  have "\<exists>st'. (if b then bind_units env cpuSort us cnt st else if err \<noteq> 0 then bind_units env cpuSort us cnt (st\<lparr>hi_files := fs\<rparr>)
      else bind_units env cpuSort us (cnt[node := cnt ! node + 1]) (note_bind u c (st\<lparr>hi_files := fs\<rparr>))) = Some st' \<and> queues_ok st' \<and> same_machine st st'"
    using IH [of st cnt] IH [of "st\<lparr>hi_files := fs\<rparr>" cnt] IH [of "note_bind u c (st\<lparr>hi_files := fs\<rparr>)" "cnt[node := cnt ! node + 1]"]
      Cons.prems(2,5) q note_bind_ok [OF Cons.prems(2) core, of u fs] binds_ok_more [of st]
    by auto
  with b reads w show ?case
    by (cases b; cases "err = 0") (simp_all add: binds_ok_def)
qed

subsection \<open>A whole run\<close>

lemma queues_ok_each:
  assumes "queues_ok st" "\<And>dev q info. queue_ok st info \<Longrightarrow> queue_ok st (f dev q info)"
  shows "queues_ok (each_queue f st)"
proof -
  have "queue_ok (each_queue f st) = queue_ok st" by (simp add: fun_eq_iff queue_ok_def core_id_def each_queue_def)
  with assms show ?thesis by (auto simp: queues_ok_def queues_each)
qed

lemma queues_ok_ready: "queues_ok st \<Longrightarrow> queues_ok (ready_to_bind st)"
proof -
  assume "queues_ok st"
  then have "queues_ok (AddIrqToQueueInfo st)"
    unfolding AddIrqToQueueInfo_def by (rule queues_ok_each) (simp add: queue_ok_def)
  moreover have "queue_ok (ClearInvalidQueueInfo st1) = queue_ok st1" for st1 :: "'a hardirq"
    by (simp add: fun_eq_iff queue_ok_def core_id_def ClearInvalidQueueInfo_def)
  ultimately have "queues_ok (ClearInvalidQueueInfo (AddIrqToQueueInfo st))"
    by (auto simp: queues_ok_def dest: queues_clear)
  then show ?thesis
    unfolding TunePreprocessing_each by (rule queues_ok_each) (simp add: queue_ok_def preprocess_def split: prod.splits)
qed

lemma ready_units:
  assumes "queues_ok st" "mig_units (ready_to_bind st) = Some us" "u \<in> set us"
  shows "unit_ok (ready_to_bind st) u"
proof -
  obtain q info where i: "(mu_dev u, q, info) \<in> queues st" "NET_RXT_THRESHOLD \<le> rxSum (preprocess (add_irq st (mu_dev u) q info))"
      "lastBindCore u = lastBindCpu info" "preferredNode u = rxMaxNode (preprocess (add_irq st (mu_dev u) q info))"
    using mig_units_queue [OF assms(2,3)] ready_queues by fastforce
  have "queue_ok st info" using assms(1) i(1) by (auto simp: queues_ok_def)
  with i(3,4) preprocess_max [OF i(2)] show ?thesis
    by (auto simp: unit_ok_def queue_ok_def core_id_def INVALID_CPU_ID_def)
qed

lemma Tune_ok:
  assumes "std_sorts env" "hirq_ok st" "length (cpu2Numa st) \<le> length (cpuUtil st)" "\<forall>row \<in> set (cpuUtil st). length row = CPU_UTIL_TYPE_MAX"
  shows "\<exists>st'. Hirq_Tune env st = Some st' \<and> hirq_ok st'"
proof -
  let ?st = "ready_to_bind st"
  have same: "same_machine st ?st"
    by (simp add: same_machine_def TunePreprocessing_def ClearInvalidQueueInfo_def AddIrqToQueueInfo_def each_queue_def)
  have ok: "machine_ok ?st" "queues_ok ?st"
    using assms(2) same_machine_ok(1) [OF same] queues_ok_ready by (auto simp: hirq_ok_def)
  obtain us where us: "mig_units ?st = Some us" using mig_units_total [OF ok(2,1)] by blast
  obtain cpuSort where cs: "SortNumaCpuUtil env ?st = Some cpuSort" "sorts_ok ?st cpuSort"
    using SortNumaCpuUtil_total [OF assms(1) ok(1)] assms(3,4) by auto
  have "binds_ok env cpuSort (he_sort_units env us) (replicate (hi_numaNum ?st) 0) ?st"
    using ok cs(2) ready_units [OF _ us] assms(2) std_sorts_sets [OF assms(1), of us] by (intro bind_units_total) (auto simp: hirq_ok_def)
  then obtain st' where b: "bind_units env cpuSort (he_sort_units env us) (replicate (hi_numaNum ?st) 0) ?st = Some st'" "queues_ok st'" "same_machine ?st st'"
    by (auto simp: binds_ok_def)
  have m: "same_machine st st'" using same b(3) by (simp add: same_machine_def)
  have "threadData st' = threadData st" using m by (simp add: same_machine_def)
  then have "hirq_ok st'" using assms(2) b(2) same_machine_ok(1,4) [OF m] by (simp add: hirq_ok_def)
  with us cs b(1) show ?thesis by (simp add: Hirq_Tune_def MigrateHardIrq_def)
qed

text \<open>
  A state a run may start from: well-formed, its counts at zero, and, where packets are shared out
  by cycles, threads with sound cycles that received fewer than \<open>2^31\<close> packets together. A run sets
  the counts back and forgets the threads.
\<close>

definition hirq_ready :: "'d hardirq \<Rightarrow> bool" where
  "hirq_ready st = (hirq_ok st \<and> counts st 0 \<and> (\<forall>t \<in> set (map snd (threadNumaInfo st)). thread_ok (hi_numaNum st) t) \<and>
     rx_threads (map snd (threadNumaInfo st)) < 2 ^ 31)"

lemma hirq_ok_fields:
  assumes "hirq_ok st" "same_machine st st'" "netQueue st' = netQueue st"
  shows "hirq_ok st'"
  using assms same_machine_ok [OF assms(2)] by (auto simp: hirq_ok_def queues_ok_def queues_def same_machine_def)

lemma match_ok:
  assumes "hirq_ready st" "share_ops (he_fp env)"
  shows "\<exists>st'. (if highNoiseSample st then MatchThreadAndQueue st else MatchThreadQueAndNuma (he_fp env) st) = Some st' \<and>
    hirq_ok st' \<and> cpuUtil st' = cpuUtil st \<and> cpuTimeDiff st' = cpuTimeDiff st \<and> cpu2Numa st' = cpu2Numa st \<and>
    ethQueData st' = ethQueData st \<and> queRegex st' = queRegex st"
proof (cases "highNoiseSample st")
  case True
  obtain st1 where st1: "match_queues (queueData st) 0 st = Some st1" "hirq_ok st1"
    using match_queues_ok [of st "queueData st" 0] assms(1) by (auto simp: hirq_ready_def)
  have "hirq_ok (st1\<lparr>threadData := [], queueData := []\<rparr>)"
    using st1(2) by (simp add: hirq_ok_def machine_ok_def queues_ok_def queue_ok_def core_id_def queues_def)
  with True st1(1) only_queues_fields [OF only_queues_match [OF st1(1)]] show ?thesis
    by (auto simp: MatchThreadAndQueue_def)
next
  case False
  obtain st1 where st1: "rx_of_threads (he_fp env) (map snd (threadNumaInfo st)) st = Some st1" "queues_ok st1"
    using share_ops.rx_of_threads_total [OF assms(2), of "map snd (threadNumaInfo st)" st 0] assms(1)
    by (auto simp: hirq_ready_def hirq_ok_def)
  note only = only_queues_rx_threads [OF st1(1)]
  have "hirq_ok st1" using hirq_ok_only_queues [OF only] assms(1) st1(2) by (simp add: hirq_ready_def)
  with False st1(1) only_queues_fields [OF only] show ?thesis by (auto simp: MatchThreadQueAndNuma_def)
qed

lemma counts_reset: "counts (ResetNetQueue st) 0"
  by (auto simp: counts_def ResetNetQueue_def queues_each)

text \<open>C37. A run in either mode, matching packets with samples or sharing them out by cycles, never leaves a vector, converts no
  number out of range and steps over no end of a list, and the state after it is ready for the
  next. The state is well-formed: each core on a known node, each node with at least as many cores
  as there are nodes, the times of all cores there, samples from known cores, sound cycles of
  threads, fewer than \<open>2^31\<close> packets. The patterns built for the known interfaces are regular
  expressions the engine accepts (one it refuses is undefined behaviour, see
  \<open>update_regexes_last\<close>), \<open>std::sort\<close> sorts, and shares are computed as doubles are (\<open>share_ops\<close>).\<close>

theorem Hirq_Run_ok:
  assumes "hirq_ready st" "std_sorts env" "patterns_ok (he_regex env) (queRegex st) (ethQueData st)" "share_ops (he_fp env)"
  shows "\<exists>st'. Hirq_Run env st = Some st' \<and> hirq_ready st'"
proof (cases "envInit st")
  case False
  let ?st = "st\<lparr>runCnt := runCnt st + 1\<rparr>"
  have "hirq_ok ?st" using assms(1) hirq_ok_fields [of st ?st] by (simp add: hirq_ready_def same_machine_def)
  moreover have "counts ?st 0" using assms(1) by (simp add: hirq_ready_def counts_def queues_def)
  ultimately have "hirq_ready ?st" using assms(1) by (simp add: hirq_ready_def)
  with False show ?thesis by (simp add: Hirq_Run_def Let_def)
next
  case True
  let ?st = "CalCpuUtil env (st\<lparr>runCnt := runCnt st + 1\<rparr>)"
  have "hirq_ok ?st"
    using assms(1) hirq_ok_fields [of st ?st] by (simp add: hirq_ready_def same_machine_def CalCpuUtil_def)
  moreover have "counts ?st 0" using assms(1) by (simp add: hirq_ready_def counts_def queues_def CalCpuUtil_def)
  moreover have "threadNumaInfo ?st = threadNumaInfo st" "hi_numaNum ?st = hi_numaNum st" by (simp_all add: CalCpuUtil_def)
  ultimately have "hirq_ready ?st" using assms(1) by (simp add: hirq_ready_def)
  from match_ok [OF this assms(4)] obtain st2 where
    st2: "(if highNoiseSample ?st then MatchThreadAndQueue ?st else MatchThreadQueAndNuma (he_fp env) ?st) = Some st2" "hirq_ok st2"
      "cpuUtil st2 = map (util_row env) (cpuTimeDiff st)" "cpuTimeDiff st2 = cpuTimeDiff st" "cpu2Numa st2 = cpu2Numa st"
      "ethQueData st2 = ethQueData st" "queRegex st2 = queRegex st"
    by (auto simp: CalCpuUtil_def)
  obtain eth where eth: "GetEthQueData (he_regex env) (hi_files st2) (queRegex st2) (ethQueData st2) = Some eth"
    unfolding GetEthQueData_def using eth_que_data_total assms(3) st2(6,7) by metis
  let ?st3 = "st2\<lparr>ethQueData := eth\<rparr>"
  have "hirq_ok ?st3" using st2(2) by (rule hirq_ok_fields) (simp_all add: same_machine_def)
  moreover have "length (cpu2Numa ?st3) \<le> length (cpuUtil ?st3)" "\<forall>row \<in> set (cpuUtil ?st3). length row = CPU_UTIL_TYPE_MAX"
    using assms(1) st2(3,5) by (auto simp: hirq_ready_def hirq_ok_def machine_ok_def util_row_def Let_def)
  ultimately obtain st4 where st4: "Hirq_Tune env ?st3 = Some st4" "hirq_ok st4"
    using Tune_ok [OF assms(2)] by blast
  let ?fin = "(ResetCpuInfo (ResetNetQueue st4))\<lparr>netDataInterval := 0, ethQueData := [], threadNumaInfo := []\<rparr>"
  have "Hirq_Run env st = Some ?fin"
    using True st2(1) eth st4(1) by (simp add: Hirq_Run_def Let_def)
  moreover have "hirq_ok ?fin"
  proof -
    have "queues_ok (ResetNetQueue st4)"
      unfolding ResetNetQueue_def using st4(2) by (intro queues_ok_each) (simp_all add: hirq_ok_def queue_ok_def)
    then have "queues_ok ?fin"
      by (simp add: queues_ok_def queue_ok_def core_id_def queues_def ResetCpuInfo_def)
    with st4(2) show ?thesis
      by (auto simp: hirq_ok_def machine_ok_def core_id_def ResetCpuInfo_def ResetNetQueue_def each_queue_def)
  qed
  moreover have "counts ?fin 0" using counts_reset [of st4] by (simp add: counts_def queues_def ResetCpuInfo_def)
  ultimately show ?thesis by (auto simp: hirq_ready_def)
qed

end
