(* ===== verification/Hardirq_Examples.thy ===== *)
theory Hardirq_Examples
  imports Hardirq_Safe "HOL-Library.Product_Lexorder"
begin

text \<open>
  A machine with one node and two cores, an interface with one queue and its interrupt 5: the plugin
  binds the interrupt to the idle core and, when it is disabled, gives it back both cores.
\<close>

declare replace_loop.simps [code]

text \<open>Whole numbers are enough for the percentages of this example.\<close>

definition int_ops :: "int float_ops" where
  "int_ops = \<lparr>fp_of_int = id, fp_lit = (\<lambda>n d. n div d), fp_add = (+), fp_sub = (-), fp_mul = (*), fp_div = (div), fp_lt = (<), fp_le = (\<le>),
     fp_ceil = id, fp_trunc = Some, fp_max = 2 ^ 1023, fp_str = to_string\<rparr>"

definition demo_hirq_env :: "int hardirq_env" where
  "demo_hirq_env = \<lparr>he_fp = int_ops, he_float = id, he_kernel = \<lparr>k_opens = \<lambda>_. True, k_accepts = \<lambda>_ _. True\<rparr>,
     he_regex = \<lparr>re_valid = \<lambda>_. True, re_group1 = \<lambda>pattern text. if prefix ''eth0-q'' text then Some (drop 6 text) else None\<rparr>,
     he_irq_dir = Some [''default_smp_affinity'', ''5''], he_sort_units = sort_key (\<lambda>u. (- mu_priority u, - mu_rxSum u)),
     he_sort_cpus = sort_key snd, he_is_active = None\<rparr>"

definition demo_hirq_files :: files where
  "demo_hirq_files = Map.empty(irq_file 5 \<mapsto> ''0-1'' @ [NL],
     ''/proc/interrupts'' \<mapsto> ''    CPU0 CPU1'' @ [NL] @ '' 5:   0    0    eth0-q3'' @ [NL],
     HARDIRQ_CONFIG_PATH \<mapsto> ''[Queue2Irq]'' @ [NL] @ ''REGEXP:VAR_ETH-qVAR_QUEUE'' @ [NL])"

text \<open>Core 0 was busy, core 1 idle.\<close>

definition demo_times :: "u64 list list" where
  "demo_times = [[100, 0, 0, 0, 0, 0, 0, 0, 0, 0, 100], [0, 0, 0, 100, 0, 0, 0, 0, 0, 0, 100], [100, 0, 0, 100, 0, 0, 0, 0, 0, 0, 200]]"

definition demo_topic :: "string \<Rightarrow> string \<Rightarrow> string \<Rightarrow> Topic" where
  "demo_topic i t p = \<lparr>instanceName = i, topicName = t, params = p\<rparr>"

definition demo_static :: EnvStaticInfo where
  "demo_static = \<lparr>numaNum = 1, es_cpuNumConfig = 2, pageSize = 4096, pageMask = 4095, cpu2Node = [0, 0], numaDistance = [[10]]\<rparr>"

text \<open>What the collectors publish: thread 7 received twelve packets of queue 3 and ran on core 0.\<close>

definition demo_data :: "(Topic \<times> hirq_data) list" where
  "demo_data =
     [(demo_topic ''env_info_collector'' ''static'' [], HiStatic demo_static),
      (demo_topic ''env_info_collector'' ''cpu_util'' [], HiCpuUtil \<lparr>ec_dataReady = 1, ec_cpuNumConfig = 2, times = demo_times\<rparr>),
      (demo_topic ''net_interface_info'' ''base'' ''operstate_up'',
        HiBase \<lparr>nb_count = 1, nb_base = [\<lparr>ni_name = ''eth0'', operstate = 1, ifindex = 2\<rparr>]\<rparr>),
      (demo_topic ''net_interface_info'' ''net_thread_que_data'' ''thread_recv_que_cnt'', HiThreadQue \<lparr>intervalMs = 100, nq_count = 1,
         queData = [\<lparr>nq_pid = 7, nq_tid = 7, nq_ifIndex = 2, queueId = 3, nq_times = 12, nq_len = 1000\<rparr>]\<rparr>),
      (demo_topic ''pmu_sampling_collector'' ''cycles'' [], HiSamples \<lparr>sm_interval = 100,
         sm_data = [\<lparr>ps_cpu = 0, ps_tid = 7, ps_ts = 1, ps_period = 50, ps_queueMapping = 0, ps_skbaddr = 0, ps_device = []\<rparr>]\<rparr>)]"

fun demo_feed :: "(Topic \<times> hirq_data) list \<Rightarrow> int hardirq \<Rightarrow> int hardirq option" where
  "demo_feed [] st = Some st"
| "demo_feed ((t, d) # ds) st = do { st1 \<leftarrow> Hirq_UpdateData demo_hirq_env t [d] st; demo_feed ds st1 }"

definition demo_enabled :: "int hardirq" where
  "demo_enabled = snd (Hirq_Enable demo_hirq_env [] (hardirq_new demo_hirq_files))"

definition demo_run :: "int hardirq option" where
  "demo_run = do { st \<leftarrow> demo_feed demo_data demo_enabled; Hirq_Run demo_hirq_env st }"

lemma demo_enabled_OK: "fst (Hirq_Enable demo_hirq_env [] (hardirq_new demo_hirq_files)) = OK"
  by code_simp

lemma demo_run_affinity: "map_option (\<lambda>st. IrqGetSmpAffinity (hi_files st) 5) demo_run = Some ''1''"
  by code_simp

subsection \<open>Enabling, running and disabling\<close>

lemma demo_feed_steps: "demo_feed ds st = Some st' \<Longrightarrow> (hirq_step k names)\<^sup>*\<^sup>* (en, st) (en, st')"
proof (induction ds st rule: demo_feed.induct)
  case (2 t d ds st)
  then obtain st1 where st1: "Hirq_UpdateData demo_hirq_env t [d] st = Some st1" "demo_feed ds st1 = Some st'"
    by (auto split: bind_splits)
  have "hirq_step k names (en, st) (en, st1)" using st1(1) by (rule hirq_step.data)
  moreover have "(hirq_step k names)\<^sup>*\<^sup>* (en, st1) (en, st')" using "2.IH" st1 by blast
  ultimately show ?case by (rule converse_rtranclp_into_rtranclp)
qed simp

abbreviation demo_kernel :: kernel_env where
  "demo_kernel \<equiv> he_kernel demo_hirq_env"

abbreviation demo_dir :: "string list" where
  "demo_dir \<equiv> [''default_smp_affinity'', ''5'']"

lemma demo_run_steps:
  assumes "demo_run = Some st"
  shows "(hirq_step demo_kernel demo_dir)\<^sup>*\<^sup>* (False, hardirq_new demo_hirq_files) (False, snd (Hirq_Disable demo_hirq_env st))"
proof -
  let ?r = "hirq_step demo_kernel demo_dir"
  obtain st1 where st1: "demo_feed demo_data demo_enabled = Some st1" "Hirq_Run demo_hirq_env st1 = Some st"
    using assms by (auto simp: demo_run_def split: bind_splits)
  have dir: "he_irq_dir demo_hirq_env = Some demo_dir" by (simp add: demo_hirq_env_def)
  have e: "Hirq_Enable demo_hirq_env [] (hardirq_new demo_hirq_files) = (OK, demo_enabled)"
    using demo_enabled_OK by (simp add: demo_enabled_def prod_eq_iff)
  have "?r (False, hardirq_new demo_hirq_files) (True, demo_enabled)"
    using hirq_step.enable [OF refl dir e] by simp
  moreover have "?r\<^sup>*\<^sup>* (True, demo_enabled) (True, st1)" using st1(1) by (rule demo_feed_steps)
  moreover have "?r (True, st1) (True, st)" by (rule hirq_step.run [OF refl st1(2)])
  moreover have "?r (True, st) (False, snd (Hirq_Disable demo_hirq_env st))"
    by (rule hirq_step.disable [OF refl]) (rule surjective_pairing)
  ultimately show ?thesis by (meson converse_rtranclp_into_rtranclp rtranclp.rtrancl_into_rtrancl)
qed

lemma demo_irqs: "irq_writable demo_kernel n demo_hirq_files \<longleftrightarrow> n = 5"
  by (auto simp: irq_writable_def demo_hirq_files_def demo_hirq_env_def HARDIRQ_CONFIG_PATH_def)
    (simp_all add: irq_file_def)

theorem Hirq_disabled_restored_witness:
  "\<exists>st. demo_run = Some st \<and> IrqGetSmpAffinity (hi_files st) 5 = ''1'' \<and>
     IrqGetSmpAffinity (hi_files (snd (Hirq_Disable demo_hirq_env st))) 5 = ''0-1''"
proof -
  obtain st where st: "demo_run = Some st" "IrqGetSmpAffinity (hi_files st) 5 = ''1''"
    using demo_run_affinity by auto
  have "IrqGetSmpAffinity demo_hirq_files 5 = ''0-1''" by code_simp
  moreover have "good_affinity demo_kernel ''0-1'' 5" by code_simp
  moreover have "listed demo_dir 5" by code_simp
  ultimately have "\<forall>n. irq_writable demo_kernel n demo_hirq_files \<longrightarrow>
      listed demo_dir n \<and> good_affinity demo_kernel (IrqGetSmpAffinity demo_hirq_files n) n"
    by (simp add: demo_irqs)
  from Hirq_disabled_restored [OF demo_run_steps [OF st(1)] this, of 5]
  have "IrqGetSmpAffinity (hi_files (snd (Hirq_Disable demo_hirq_env st))) 5 = ''0-1''"
    using \<open>IrqGetSmpAffinity demo_hirq_files 5 = ''0-1''\<close> by simp
  with st show ?thesis by blast
qed

subsection \<open>One round\<close>

lemma demo_sorts: "std_sorts demo_hirq_env"
proof -
  have "sorted_wrt (\<lambda>a b. \<not> unit_before b a) (sort_key (\<lambda>u. (- mu_priority u, - mu_rxSum u)) us)" for us
  proof -
    have "sorted_wrt (\<lambda>a b. (- mu_priority a, - mu_rxSum a) \<le> (- mu_priority b, - mu_rxSum b)) (sort_key (\<lambda>u. (- mu_priority u, - mu_rxSum u)) us)"
      using sorted_sort_key [of "\<lambda>u. (- mu_priority u, - mu_rxSum u)" us] by (simp add: sorted_map)
    then show ?thesis by (rule sorted_wrt_mono_rel [rotated]) (auto simp: unit_before_def)
  qed
  moreover have "sorted_wrt (\<lambda>a b. \<not> snd b < snd a) (sort_key snd cs)" for cs :: "(int \<times> int) list"
    using sorted_sort_key [of snd cs] by (simp add: sorted_map not_less)
  ultimately show ?thesis by (simp add: std_sorts_def demo_hirq_env_def int_ops_def)
qed

definition demo_round :: "int hardirq" where
  "demo_round = (hardirq_new demo_hirq_files)\<lparr>netQueue := [(''eth0'', [(3, blank_queue\<lparr>numaRxTimes := [12]\<rparr>)])], hi_numaNum := 1, cpu2Numa := [0, 0],
     cpuUtil := map (util_row demo_hirq_env) demo_times, ethQueData := [(''eth0'', blank_eth\<lparr>que2Irq := [(3, 5)]\<rparr>)]\<rparr>"

lemma demo_round_tuned: "map_option (\<lambda>st. IrqGetSmpAffinity (hi_files st) 5) (Hirq_Tune demo_hirq_env demo_round) = Some ''1''"
  by code_simp

lemma demo_round_before: "IrqGetSmpAffinity (hi_files demo_round) 5 = ''0-1''"
  by code_simp

theorem Hirq_Tune_moves_witness:
  "\<exists>st' cpu. Hirq_Tune demo_hirq_env demo_round = Some st' \<and> IrqGetSmpAffinity (hi_files st') 5 = to_string (int cpu) \<and> cpu < 2"
proof -
  obtain st' where st': "Hirq_Tune demo_hirq_env demo_round = Some st'" "IrqGetSmpAffinity (hi_files st') 5 = ''1''"
    using demo_round_tuned by auto
  have "IrqGetSmpAffinity (hi_files st') 5 \<noteq> IrqGetSmpAffinity (hi_files demo_round) 5"
    using st'(2) demo_round_before by simp
  from Hirq_Tune_moves [OF demo_sorts st'(1) this]
  obtain cpu where "IrqGetSmpAffinity (hi_files st') 5 = to_string (int cpu)" "cpu < length (cpu2Numa demo_round)" by blast
  with st'(1) show ?thesis by (auto simp: demo_round_def)
qed

theorem Hirq_Tune_one_node_witness:
  "\<exists>st' cpu. Hirq_Tune demo_hirq_env demo_round = Some st' \<and>
     (\<forall>n. IrqGetSmpAffinity (hi_files st') n \<in> {IrqGetSmpAffinity (hi_files demo_round) n, to_string cpu})"
proof -
  obtain st' where st': "Hirq_Tune demo_hirq_env demo_round = Some st'"
    using demo_round_tuned by auto
  have "hi_numaNum demo_round = 1" by (simp add: demo_round_def)
  from Hirq_Tune_one_node [OF this st'] st' show ?thesis by blast
qed

subsection \<open>Runs\<close>

lemma Hirq_Run_before_times_example:
  "\<exists>st. UpdateSystemInfo (demo_topic ''env_info_collector'' ''static'' []) [HiStatic demo_static] demo_enabled = Some st \<and>
     Hirq_Run demo_hirq_env st = None"
proof -
  have u: "map_option (\<lambda>st. (envInit st, cpu2Numa st)) (UpdateSystemInfo (demo_topic ''env_info_collector'' ''static'' []) [HiStatic demo_static] demo_enabled) =
      Some (True, [0, 0])"
    by code_simp
  then obtain st where st: "UpdateSystemInfo (demo_topic ''env_info_collector'' ''static'' []) [HiStatic demo_static] demo_enabled = Some st"
      "envInit st" "cpu2Numa st = [0, 0]"
    by auto
  have "cpuTimeDiff demo_enabled = []" by code_simp
  from Hirq_Run_before_times [OF st(1,2) _ this] st(1,3) show ?thesis by simp
qed

text \<open>Thread 7 received twelve packets of queue 3 and ran on the only node.\<close>

definition demo_shared :: "int hardirq" where
  "demo_shared = (hardirq_new demo_hirq_files)\<lparr>envInit := True, hi_numaNum := 1, cpu2Numa := [0, 0], cpuTimeDiff := demo_times,
     ifIdxToName := [(2, ''eth0'')], queRegex := [''VAR_ETH-qVAR_QUEUE''], ethQueData := [(''eth0'', blank_eth\<lparr>eq_dev := ''eth0''\<rparr>)],
     threadNumaInfo := [(7, \<lparr>queRxTimes = [(2, [(3, 12)])], cyclesNumaRatio = [50], cyclesSum = 50\<rparr>)]\<rparr>"

lemma demo_shared_ready: "hirq_ready demo_shared"
proof -
  have "node_range 0 [0, 0] 0 = {0, 1}" by (auto simp: node_range_Cons)
  then show ?thesis
    by (simp add: hirq_ready_def hirq_ok_def machine_ok_def queues_ok_def counts_def queues_def core_id_def thread_ok_def
        demo_shared_def hardirq_new_def demo_times_def CPU_UTIL_TYPE_MAX_def)
qed

lemma int_shares: "share_ops int_ops"
proof
  fix n r c s :: int
  assume h: "0 \<le> n" "0 \<le> r" "0 \<le> c" "c \<le> s" "0 < s"
  then have "c div s = 0 \<or> c div s = 1" by (cases "c = s") simp_all
  with h show "\<exists>v. fp_trunc int_ops (fp_add int_ops (fp_of_int int_ops n) (fp_mul int_ops (fp_of_int int_ops r)
      (fp_div int_ops (fp_of_int int_ops c) (fp_of_int int_ops s)))) = Some v \<and> n \<le> v \<and> v \<le> n + r"
    by (auto simp: int_ops_def)
qed (simp add: int_ops_def)

theorem Hirq_Run_ok_witness:
  "\<exists>st'. Hirq_Run demo_hirq_env demo_shared = Some st' \<and> hirq_ready st'"
proof -
  have "patterns_ok (he_regex demo_hirq_env) (queRegex demo_shared) (ethQueData demo_shared)"
    by (simp add: patterns_ok_def demo_hirq_env_def)
  moreover have "share_ops (he_fp demo_hirq_env)" using int_shares by (simp add: demo_hirq_env_def)
  ultimately show ?thesis by (rule Hirq_Run_ok [OF demo_shared_ready demo_sorts])
qed

end
