(* ===== verification/Command_Line.thy ===== *)
theory Command_Line
  imports Message_Manager Plugin_Manager Scheduler_Props
begin

text \<open>
  The command line client \<^verbatim>\<open>oeawarectl\<close>: its arguments (\<^verbatim>\<open>src/client/arg_parse.cpp\<close>), the request and the treatment of the
  answer of each command (\<^verbatim>\<open>cmd_handler.cpp\<close>) and the run that joins them (\<^verbatim>\<open>client.cpp\<close>, \<^verbatim>\<open>tcp_socket.cpp\<close>).

  \<open>getopt_long\<close> of the C library is an argument: what a call answers, the vector it may permute and its
  global position \<open>optind\<close>, which the program also sets. What the program prints, the files it writes and the shell commands it runs are
  listed as actions.
\<close>

subsection \<open>Arguments\<close>

datatype getopt_ret = NoOption | GotOption char "string option" | BadOption char

record 'g getopt_api =
  go_next :: "'g \<Rightarrow> getopt_ret \<times> 'g"
  go_argv :: "'g \<Rightarrow> string list"
  go_optind :: "'g \<Rightarrow> nat"
  go_seek :: "nat \<Rightarrow> 'g \<Rightarrow> 'g"

record arg_parse =
  ap_arg :: string
  enableParams :: "(string \<times> string) list"

text \<open>How a step of the parser ends: by \<open>exit\<close> after an error or the help, by the result -1, or with a value.\<close>

datatype 'a outcome = ArgError string | Helped | Failed | Goes 'a

definition arg_opts :: "char list" where
  "arg_opts = ''lrqQedi''"

definition optString :: string where
  "optString = ''Qqd:l:r:e:i:''"

datatype has_arg = no_argument | required_argument

definition longOptions :: "(string \<times> has_arg \<times> char) list" where
  "longOptions =
     [(''help'', no_argument, CHR ''h''), (''load'', required_argument, CHR ''l''), (''remove'', required_argument, CHR ''r''),
      (''query'', required_argument, CHR ''q''), (''query-dep'', required_argument, CHR ''Q''), (''enable'', required_argument, CHR ''e''),
      (''disable'', required_argument, CHR ''d''), (''install'', required_argument, CHR ''i''), (''list'', no_argument, CHR ''L''),
      (''info'', no_argument, CHR ''I''), (''reload-conf'', no_argument, CHR ''Z'')]"

fun enable_params :: "string list \<Rightarrow> (string \<times> string) list \<Rightarrow> (string \<times> string) list option" where
  "enable_params [] m = Some m"
| "enable_params (a # as) m =
     (if a = [] \<or> hd a \<noteq> CHR ''-'' then None
      else case as of [] \<Rightarrow> None | v # rest \<Rightarrow> enable_params rest (AList.update (tl a) v m))"

definition InitCmd :: "'g getopt_api \<Rightarrow> int \<Rightarrow> char \<Rightarrow> string option \<Rightarrow> 'g \<Rightarrow> arg_parse \<Rightarrow> (int \<times> 'g \<times> arg_parse) outcome" where
  "InitCmd api cmd c optarg g a =
     (if c \<in> set ''lrqQedLiIZ'' then
        if cmd \<noteq> -1 then ArgError ''invalid option.''
        else (let a1 = (case optarg of None \<Rightarrow> a | Some s \<Rightarrow> a\<lparr>ap_arg := s\<rparr>) in
          if c \<noteq> CHR ''e'' then Goes (of_char c, g, a1)
          else (case enable_params (drop (go_optind api g) (go_argv api g)) (enableParams a1) of
                  None \<Rightarrow> ArgError ''invalid enable params.''
                | Some m \<Rightarrow> Goes (of_char c, if go_optind api g < length (go_argv api g) then go_seek api (length (go_argv api g)) g else g,
                    a1\<lparr>enableParams := m\<rparr>)))
      else Failed)"

text \<open>The argument an error message shows: the one at \<open>optind\<close>, or the last one.\<close>

definition bad_option :: "'g getopt_api \<Rightarrow> char \<Rightarrow> 'g \<Rightarrow> string option" where
  "bad_option api optopt g = do {
     errOpt \<leftarrow> nth_opt (go_argv api g) (if go_optind api g = length (go_argv api g) then go_optind api g - 1 else go_optind api g);
     Some (if optopt \<notin> set arg_opts then ''unknown option '' @ [CHR 39] @ errOpt @ [CHR 39] @ ''.'' else ''option '' @ errOpt @ '' requires an argument.'')
   }"

partial_function (option) parse_loop :: "'g getopt_api \<Rightarrow> int \<Rightarrow> bool \<Rightarrow> 'g \<Rightarrow> arg_parse \<Rightarrow> (int \<times> bool \<times> 'g \<times> arg_parse) outcome option" where
  "parse_loop api cmd help g a =
     (case go_next api g of
        (NoOption, g1) \<Rightarrow> Some (Goes (cmd, help, g1, a))
      | (BadOption optopt, g1) \<Rightarrow> map_option ArgError (bad_option api optopt g1)
      | (GotOption c optarg, g1) \<Rightarrow>
          if c = CHR ''h'' then parse_loop api cmd True g1 a
          else (case InitCmd api cmd c optarg g1 a of
                  ArgError msg \<Rightarrow> Some (ArgError msg)
                | Helped \<Rightarrow> Some Helped
                | Failed \<Rightarrow> Some Failed
                | Goes r \<Rightarrow> parse_loop api (fst r) help (fst (snd r)) (snd (snd r))))"

definition START :: int where
  "START = 0"

definition STOP :: int where
  "STOP = 1"

definition arg_start :: arg_parse where
  "arg_start = \<lparr>ap_arg = [], enableParams = []\<rparr>"

definition ArgParse_Init :: "'g getopt_api \<Rightarrow> 'g \<Rightarrow> (int \<times> arg_parse) outcome option" where
  "ArgParse_Init api g =
     (let argv = go_argv api g in
      if length argv = 2 \<and> argv ! 1 = ''start'' then Some (Goes (START, arg_start))
      else if length argv = 2 \<and> argv ! 1 = ''stop'' then Some (Goes (STOP, arg_start))
      else do {
        r \<leftarrow> parse_loop api (-1) False g arg_start;
        Some (case r of
            Goes (cmd, help, g1, a) \<Rightarrow>
              if go_optind api g1 < length (go_argv api g1) then ArgError (''invalid option ['' @ go_argv api g1 ! go_optind api g1 @ ''].'')
              else if help then Helped
              else if cmd < 0 then ArgError ''option error.''
              else Goes (cmd, a)
          | ArgError msg \<Rightarrow> ArgError msg
          | Helped \<Rightarrow> Helped
          | Failed \<Rightarrow> Failed)
      })"

subsection \<open>Commands\<close>

datatype cmd_handler = CliLoad | CliQuery | CliRemove | CliQueryTop | CliEnabled | CliDisabled | CliList | CliInfo | CliInstall | CliReload | CliStart | CliStop

definition CmdGroupsInit :: "(int \<times> cmd_handler) list" where
  "CmdGroupsInit =
     [(of_char (CHR ''l''), CliLoad), (of_char (CHR ''q''), CliQuery), (of_char (CHR ''r''), CliRemove), (of_char (CHR ''Q''), CliQueryTop),
      (of_char (CHR ''e''), CliEnabled), (of_char (CHR ''d''), CliDisabled), (of_char (CHR ''L''), CliList), (of_char (CHR ''I''), CliInfo),
      (of_char (CHR ''i''), CliInstall), (of_char (CHR ''Z''), CliReload), (START, CliStart), (STOP, CliStop)]"

datatype action = Out string | Err string | Shell string | WriteFile string string

definition enable_text :: "(string \<times> string) list \<Rightarrow> string" where
  "enable_text ps = Concat (map kv_render ps) '',''"

definition Load_request :: "arg_parse \<Rightarrow> Message" where
  "Load_request a = \<lparr>opt = OptLOAD, msg_payload = [ap_arg a]\<rparr>"

definition Query_request :: "arg_parse \<Rightarrow> Message" where
  "Query_request a = (if ap_arg a = [] then \<lparr>opt = OptQUERY_ALL, msg_payload = []\<rparr> else \<lparr>opt = OptQUERY, msg_payload = [ap_arg a]\<rparr>)"

definition Remove_request :: "arg_parse \<Rightarrow> Message" where
  "Remove_request a = \<lparr>opt = OptREMOVE, msg_payload = [ap_arg a]\<rparr>"

definition QueryTop_request :: "arg_parse \<Rightarrow> Message" where
  "QueryTop_request a = (if ap_arg a = [] then \<lparr>opt = OptQUERY_ALL_SUB_GRAPH, msg_payload = []\<rparr> else \<lparr>opt = OptQUERY_SUB_GRAPH, msg_payload = [ap_arg a]\<rparr>)"

text \<open>The parameters are sent in the order in which the unordered map yields them, \<open>order\<close>.\<close>

definition Enabled_request :: "((string \<times> string) list \<Rightarrow> (string \<times> string) list) \<Rightarrow> arg_parse \<Rightarrow> Message" where
  "Enabled_request order a = \<lparr>opt = OptENABLED, msg_payload = [ap_arg a, enable_text (order (enableParams a))]\<rparr>"

definition Disabled_request :: "arg_parse \<Rightarrow> Message" where
  "Disabled_request a = \<lparr>opt = OptDISABLED, msg_payload = [ap_arg a]\<rparr>"

definition Install_request :: "arg_parse \<Rightarrow> Message" where
  "Install_request a = \<lparr>opt = OptDOWNLOAD, msg_payload = [ap_arg a]\<rparr>"

definition List_request :: Message where
  "List_request = \<lparr>opt = OptLIST, msg_payload = []\<rparr>"

definition Info_request :: Message where
  "Info_request = \<lparr>opt = OptINFO, msg_payload = []\<rparr>"

definition Reload_request :: Message where
  "Reload_request = \<lparr>opt = OptRELOAD_CONF, msg_payload = []\<rparr>"

definition Stop_request :: Message where
  "Stop_request = \<lparr>opt = OptSHUTDOWN, msg_payload = []\<rparr>"

definition Start_actions :: "action list" where
  "Start_actions = [Shell ''/bin/oeaware /etc/oeaware/config.yaml &> /dev/null &'', Out (''oeaware started.'' @ nl)]"

text \<open>The virtual call; \<open>None\<close> stands for the end of the process in \<open>start\<close>.\<close>

definition Handler :: "((string \<times> string) list \<Rightarrow> (string \<times> string) list) \<Rightarrow> cmd_handler \<Rightarrow> arg_parse \<Rightarrow> Message option" where
  "Handler order h a =
     (case h of
        CliLoad \<Rightarrow> Some (Load_request a)
      | CliQuery \<Rightarrow> Some (Query_request a)
      | CliRemove \<Rightarrow> Some (Remove_request a)
      | CliQueryTop \<Rightarrow> Some (QueryTop_request a)
      | CliEnabled \<Rightarrow> Some (Enabled_request order a)
      | CliDisabled \<Rightarrow> Some (Disabled_request a)
      | CliList \<Rightarrow> Some List_request
      | CliInfo \<Rightarrow> Some Info_request
      | CliInstall \<Rightarrow> Some (Install_request a)
      | CliReload \<Rightarrow> Some Reload_request
      | CliStart \<Rightarrow> None
      | CliStop \<Rightarrow> Some Stop_request)"

lemmas request_defs = Load_request_def Query_request_def Remove_request_def QueryTop_request_def Enabled_request_def Disabled_request_def
  List_request_def Info_request_def Install_request_def Reload_request_def Stop_request_def

definition rule60 :: string where
  "rule60 = replicate 60 (CHR ''-'') @ nl"

definition PrintFormat :: string where
  "PrintFormat = ''format:'' @ nl @ ''[plugin]'' @ nl @
     tab @ ''[instance]([dependency status], [running status], [enable cnt])'' @ nl @
     ''dependency status: available means satisfying dependency, otherwise unavailable.'' @ nl @
     ''running status: running means that instance is running, otherwise close.'' @ nl @
     ''enable cnt: number of instances enabled.'' @ nl"

text \<open>The line of a refused request; reading the reason from an empty payload is undefined.\<close>

definition refused :: "(string \<Rightarrow> action) \<Rightarrow> string \<Rightarrow> string \<Rightarrow> Message \<Rightarrow> action list option" where
  "refused out what fin msg = map_option (\<lambda>p. [out (what @ '' failed, because '' @ p @ fin @ nl)]) (nth_opt (msg_payload msg) 0)"

definition Load_answer :: "Message \<Rightarrow> action list option" where
  "Load_answer msg =
     (if opt msg = OptRESPONSE_OK then Some [Out (''Plugin loaded successfully.'' @ nl)] else refused Out ''Plugin loaded'' ''.'' msg)"

definition Query_answer :: "Message \<Rightarrow> action list option" where
  "Query_answer msg =
     (if opt msg = OptRESPONSE_ERROR then refused Out ''Plugin query'' ''.'' msg
     else Some [Out (''Show plugins and instances status.'' @ nl @ rule60 @ concat (msg_payload msg) @ rule60 @ PrintFormat)])"

definition Remove_answer :: "Message \<Rightarrow> action list option" where
  "Remove_answer msg =
     (if opt msg = OptRESPONSE_OK then Some [Out (''Plugin remove successfully.'' @ nl)] else refused Out ''Plugin remove'' ''.'' msg)"

definition QueryTop_answer :: "Message \<Rightarrow> action list option" where
  "QueryTop_answer msg =
     (if opt msg = OptRESPONSE_ERROR then refused Out ''Query instance dependencies'' ''.'' msg
     else map_option (\<lambda>text. [WriteFile ''dep.dot'' text, Shell ''dot -Tpng dep.dot -o dep.png'', Out (''Generate dependencies graph dep.png.'' @ nl)])
     (nth_opt (msg_payload msg) 0))"

definition Enabled_answer :: "Message \<Rightarrow> action list option" where
  "Enabled_answer msg =
     (if opt msg = OptRESPONSE_OK then Some [Out (''Instance enabled successfully.'' @ nl)] else refused Out ''Instance enabled'' [] msg)"

definition Disabled_answer :: "Message \<Rightarrow> action list option" where
  "Disabled_answer msg =
     (if opt msg = OptRESPONSE_OK then Some [Out (''Instance disabled successfully.'' @ nl)] else refused Out ''Instance disabled'' ''.'' msg)"

definition List_answer :: "Message \<Rightarrow> action list option" where
  "List_answer msg =
     (if opt msg = OptRESPONSE_ERROR then refused Err ''Query list'' ''.'' msg
     else Some [Out (''Plugin list as follows.'' @ nl @ rule60 @ concat (msg_payload msg) @ rule60)])"

definition Info_answer :: "Message \<Rightarrow> action list option" where
  "Info_answer msg =
     (if opt msg = OptRESPONSE_ERROR then refused Err ''Query list'' ''.'' msg
     else Some [Out (''The tuned instance plugin table is as follows.'' @ nl @ rule60 @ ''Use oeawarectl -e [instance] to enable.'' @ nl @
     ''    oeawarectl -d [instance] to disable.'' @ nl @ rule60 @ concat (msg_payload msg))])"

definition Install_answer :: "(string \<Rightarrow> string \<Rightarrow> bool) \<Rightarrow> arg_parse \<Rightarrow> Message \<Rightarrow> action list option" where
  "Install_answer download a msg =
     (if opt msg = OptRESPONSE_ERROR then refused Out ''Download'' ('': '' @ cstr (ap_arg a)) msg
     else map_option (\<lambda>url. if \<not> download url (ap_arg a) then [Out (''Download failed, please check url or your network.'' @ nl)]
     else [Shell (''rpm -ivh '' @ ap_arg a), Shell (''rm -f '' @ ap_arg a)]) (nth_opt (msg_payload msg) 0))"

definition Reload_answer :: "Message \<Rightarrow> action list option" where
  "Reload_answer msg =
     (if opt msg = OptRESPONSE_OK then map_option (\<lambda>p. [Out (''Reload config successfully.'' @ p @ nl)]) (nth_opt (msg_payload msg) 0)
     else refused Out ''Reload config'' ''.'' msg)"

definition Start_answer :: "action list option" where
  "Start_answer = Some []"

definition Stop_answer :: "action list option" where
  "Stop_answer = Some [Out (''oeaware stopped.'' @ nl)]"

definition ResHandler :: "(string \<Rightarrow> string \<Rightarrow> bool) \<Rightarrow> cmd_handler \<Rightarrow> arg_parse \<Rightarrow> Message \<Rightarrow> action list option" where
  "ResHandler download h a msg =
     (case h of
        CliLoad \<Rightarrow> Load_answer msg
      | CliQuery \<Rightarrow> Query_answer msg
      | CliRemove \<Rightarrow> Remove_answer msg
      | CliQueryTop \<Rightarrow> QueryTop_answer msg
      | CliEnabled \<Rightarrow> Enabled_answer msg
      | CliDisabled \<Rightarrow> Disabled_answer msg
      | CliList \<Rightarrow> List_answer msg
      | CliInfo \<Rightarrow> Info_answer msg
      | CliInstall \<Rightarrow> Install_answer download a msg
      | CliReload \<Rightarrow> Reload_answer msg
      | CliStart \<Rightarrow> Start_answer
      | CliStop \<Rightarrow> Stop_answer)"

lemmas answer_defs = Load_answer_def Query_answer_def Remove_answer_def QueryTop_answer_def Enabled_answer_def
  Disabled_answer_def List_answer_def Info_answer_def Install_answer_def
  Reload_answer_def Start_answer_def Stop_answer_def

subsection \<open>The connection\<close>

text \<open>Without a socket the function returns -1 as a \<open>bool\<close>, which is \<open>true\<close>.\<close>

definition TcpSocket_Init :: "bool \<Rightarrow> bool \<Rightarrow> bool \<times> action list" where
  "TcpSocket_Init created connected =
     (if \<not> created then (True, [Out (''socket create error!'' @ nl)])
      else if \<not> connected then (False, [Out (''can'' @ [CHR 39] @ ''t connect to server!'' @ nl)]) else (True, []))"

definition Client_Init :: "'g getopt_api \<Rightarrow> 'g \<Rightarrow> bool \<Rightarrow> bool \<Rightarrow> ((int \<times> arg_parse) outcome \<times> action list) option" where
  "Client_Init api g created connected = do {
     r \<leftarrow> ArgParse_Init api g;
     Some (case r of
         Goes (cmd, a) \<Rightarrow>
           if cmd < 0 then (Failed, [])
           else if cmd = START then (r, [])
           else (case TcpSocket_Init created connected of (good, acts) \<Rightarrow> (if good then r else Failed, acts))
       | _ \<Rightarrow> (r, []))
   }"

text \<open>The type of the request's header is not initialized, \<open>junk\<close>.\<close>

definition RunCmd ::
  "(string \<Rightarrow> int) \<Rightarrow> nat \<Rightarrow> c_int \<Rightarrow> SocketStream \<Rightarrow> (string \<Rightarrow> string \<Rightarrow> bool) \<Rightarrow> ((string \<times> string) list \<Rightarrow> (string \<times> string) list) \<Rightarrow>
   int \<Rightarrow> arg_parse \<Rightarrow> action list option" where
  "RunCmd send mem junk stream download order cmd a = do {
     h \<leftarrow> map_of CmdGroupsInit cmd;
     case Handler order h a of
       None \<Rightarrow> Some Start_actions
     | Some msg \<Rightarrow>
         if \<not> SendMessage send \<lparr>header = \<lparr>hd_type = int_type junk\<rparr>, message = msg\<rparr> then Some []
         else do {
           (good, p, _) \<leftarrow> RecvMessage mem junk stream (blank_protocol junk);
           if \<not> good then Some [Out (''can'' @ [CHR 39] @ ''t connect to server!'' @ nl)] else ResHandler download h a (message p)
         }
   }"

subsection \<open>Parameters of an instance\<close>

definition enable_args :: "(string \<times> string) list \<Rightarrow> string list" where
  "enable_args kvs = concat (map (\<lambda>kv. [CHR ''-'' # fst kv, snd kv]) kvs)"

lemma enable_params_args: "enable_params (enable_args kvs) m = Some (fold (\<lambda>kv. AList.update (fst kv) (snd kv)) kvs m)"
  by (induction kvs arbitrary: m) (simp_all add: enable_args_def)

lemma map_of_updates: "map_of (fold (\<lambda>kv. AList.update (fst kv) (snd kv)) kvs m) = map_of m ++ map_of (rev kvs)"
  by (induction kvs arbitrary: m) (simp_all add: store_simps)

lemma distinct_updates: "distinct (map fst m) \<Longrightarrow> distinct (map fst (fold (\<lambda>kv. AList.update (fst kv) (snd kv)) kvs m))"
  by (induction kvs arbitrary: m) (simp_all add: distinct_update)

text \<open>What the text can carry: names without colon and comma, values without comma.\<close>

definition plain_param :: "string \<times> string \<Rightarrow> bool" where
  "plain_param kv = (CHR '':'' \<notin> set (fst kv) \<and> CHR '','' \<notin> set (fst kv) \<and> CHR '','' \<notin> set (snd kv))"

lemma enable_text_read:
  assumes "\<forall>kv \<in> set ps. plain_param kv" "distinct (map fst ps)"
  shows "map_of (GetKeyValueFromString (enable_text ps)) = map_of ps"
proof (cases "ps = []")
  case True
  then show ?thesis by (simp add: enable_text_def GetKeyValueFromString_def)
next
  case False
  have "getlines CHR '','' (enable_text ps) = map kv_render ps"
    unfolding enable_text_def using assms(1) False
    by (intro getlines_Concat) (auto simp: plain_param_def kv_render_def last_map)
  then have "map_of (GetKeyValueFromString (enable_text ps)) = map_of (rev ps)"
    using foldl_kv_add [of ps "[]"] assms(1) by (simp add: GetKeyValueFromString_def plain_param_def)
  also have "\<dots> = map_of ps"
    using assms(2) map_of_inject_set [of "rev ps" ps] by (simp flip: rev_map)
  finally show ?thesis .
qed

lemma updates_subset: "set (fold (\<lambda>kv. AList.update (fst kv) (snd kv)) kvs m) \<subseteq> set kvs \<union> set m"
proof (induction kvs arbitrary: m)
  case (Cons kv kvs)
  then show ?case using set_update_subset [of "fst kv" "snd kv" m] by fastforce
qed simp

text \<open>
  What \<open>getopt_long\<close> answers to the arguments \<open>-e\<close>, the instance and \<open>rest\<close>: the option with its argument, and after
  the position was set behind \<open>rest\<close> no more options and nothing left over.
\<close>

definition reads_enable :: "'g getopt_api \<Rightarrow> 'g \<Rightarrow> string \<Rightarrow> string list \<Rightarrow> bool" where
  "reads_enable api g inst rest = (length (go_argv api g) \<noteq> 2 \<and>
     (case go_next api g of (r, g1) \<Rightarrow> r = GotOption CHR ''e'' (Some inst) \<and> drop (go_optind api g1) (go_argv api g1) = rest \<and>
       (case go_next api (if rest = [] then g1 else go_seek api (length (go_argv api g1)) g1) of (r2, g2) \<Rightarrow>
         r2 = NoOption \<and> length (go_argv api g2) \<le> go_optind api g2)))"

lemma ArgParse_Init_enable:
  assumes "reads_enable api g inst rest" "enable_params rest [] = Some m"
  shows "ArgParse_Init api g = Some (Goes (of_char CHR ''e'', \<lparr>ap_arg = inst, enableParams = m\<rparr>))"
proof -
  obtain g1 where g1: "go_next api g = (GotOption CHR ''e'' (Some inst), g1)" "drop (go_optind api g1) (go_argv api g1) = rest"
    using assms(1) by (auto simp: reads_enable_def)
  define h where "h = (if rest = [] then g1 else go_seek api (length (go_argv api g1)) g1)"
  obtain g2 where g2: "go_next api h = (NoOption, g2)" "length (go_argv api g2) \<le> go_optind api g2"
    using assms(1) g1 by (auto simp: reads_enable_def h_def)
  have "InitCmd api (-1) CHR ''e'' (Some inst) g1 arg_start = Goes (of_char CHR ''e'', h, \<lparr>ap_arg = inst, enableParams = m\<rparr>)"
    using g1(2) assms(2) by (auto simp: InitCmd_def arg_start_def h_def)
  then have "parse_loop api (-1) False g arg_start = parse_loop api (of_char CHR ''e'') False h \<lparr>ap_arg = inst, enableParams = m\<rparr>"
    by (subst parse_loop.simps) (simp add: g1(1))
  also have "\<dots> = Some (Goes (of_char CHR ''e'', False, g2, \<lparr>ap_arg = inst, enableParams = m\<rparr>))"
    by (subst parse_loop.simps) (simp add: g2(1))
  finally have "parse_loop api (-1) False g arg_start = Some (Goes (of_char CHR ''e'', False, g2, \<lparr>ap_arg = inst, enableParams = m\<rparr>))" .
  moreover have "length (go_argv api g) \<noteq> 2" using assms(1) by (simp add: reads_enable_def)
  ultimately show ?thesis using g2(2) by (simp add: ArgParse_Init_def)
qed

text \<open>How the server treats the requests of the commands.\<close>

lemma server_handlers:
  "map_of (eventHandler (InitEventHandler m)) OptLOAD = Some LoadHandler"
  "map_of (eventHandler (InitEventHandler m)) OptREMOVE = Some RemoveHandler"
  "map_of (eventHandler (InitEventHandler m)) OptQUERY = Some QueryHandler"
  "map_of (eventHandler (InitEventHandler m)) OptQUERY_ALL = Some QueryHandler"
  "map_of (eventHandler (InitEventHandler m)) OptQUERY_SUB_GRAPH = Some QuerySubscribeGraphHandler"
  "map_of (eventHandler (InitEventHandler m)) OptQUERY_ALL_SUB_GRAPH = Some QuerySubscribeGraphHandler"
  "map_of (eventHandler (InitEventHandler m)) OptENABLED = Some EnableHandler"
  "map_of (eventHandler (InitEventHandler m)) OptDISABLED = Some DisableHandler"
  "map_of (eventHandler (InitEventHandler m)) OptLIST = Some ListHandler"
  "map_of (eventHandler (InitEventHandler m)) OptINFO = Some InfoCmdHandler"
  "map_of (eventHandler (InitEventHandler m)) OptDOWNLOAD = Some DownloadHandler"
  "map_of (eventHandler (InitEventHandler m)) OptRELOAD_CONF = Some ReloadConfHandler"
  by (simp_all add: InitEventHandler_def store_simps)

text \<open>
  A message of the manager gives \<open>text\<close> to the plugin of the instance \<open>n\<close>: whenever the scheduler handles it while the instance
  is registered, \<open>Enable\<close> of the plugin is called with exactly this text, the answer becomes the result of the message, and the
  instance has the data \<open>Enable\<close> left and is enabled when \<open>Enable\<close> agreed. The bound on the period keeps \<open>period * 2\<close> within an \<open>int\<close>.
\<close>

definition gives_plugin :: "'p irh itself \<Rightarrow> InstanceRunMessage \<Rightarrow> string \<Rightarrow> string \<Rightarrow> bool" where
  "gives_plugin ty msg n text = (\<forall>(st :: 'p irh) r i res p ms.
     GetInstance n (memoryStore st) = Some r \<and> at_ref r st = Some i \<and> 0 \<le> period (interface i) \<and> period (interface i) < 2 ^ 30 \<and>
     v_Enable (interface i) text (priv i) = (res, p, ms) \<longrightarrow>
     (\<exists>st1 i1. handle_msg msg st = Some (msg\<lparr>irm_result := res\<rparr>, st1) \<and> at_ref r st1 = Some i1 \<and>
        priv i1 = p \<and> enabled i1 = (enabled i \<or> \<not> res_failed res)))"

lemma enable_message_gives:
  assumes "irm_type msg = RunENABLED" "irm_payload msg = [n, text]"
  shows "gives_plugin TYPE('p irh) msg n text"
  unfolding gives_plugin_def
proof (intro allI impI)
  fix st :: "'p irh" and r i res p ms
  assume a: "GetInstance n (memoryStore st) = Some r \<and> at_ref r st = Some i \<and> 0 \<le> period (interface i) \<and> period (interface i) < 2 ^ 30 \<and>
     v_Enable (interface i) text (priv i) = (res, p, ms)"
  obtain t where t: "first_run (time st) (interface i) = Some t" using first_run_total a by blast
  have r: "\<And>j. at_ref r (called r j ms st) = Some j" using at_ref_called a by blast
  show "\<exists>st1 i1. handle_msg msg st = Some (msg\<lparr>irm_result := res\<rparr>, st1) \<and> at_ref r st1 = Some i1 \<and>
        priv i1 = p \<and> enabled i1 = (enabled i \<or> \<not> res_failed res)"
    using a t r assms
    by (cases "res_failed res")
      (simp_all add: handle_msg_def EnableInstance_def exist_iff nth_opt_def Let_def, simp_all add: at_ref_def)
qed

lemma Handle_enable_gives:
  assumes "GetInstance n (memoryStore (sched m)) = Some r" "at_ref r (sched m) = Some i" "ins_name i = n" "ins_state i" "\<not> enabled i"
  shows "\<exists>msg k. start_event env \<lparr>ev_opt = OptENABLED, ev_type = EXTERNAL, ev_payload = [n, text]\<rparr> (InitEventHandler m) =
      Some (After msg k, InitEventHandler m) \<and> gives_plugin TYPE('p irh) msg n text"
proof -
  let ?msg = "mk_message (unset (sched m)) RunENABLED [n, text]"
  have "gives_plugin TYPE('p irh) ?msg n text" by (rule enable_message_gives) (simp_all add: mk_message_def)
  moreover have "sched (InitEventHandler m) = sched m" by (simp add: InitEventHandler_def)
  ultimately show ?thesis
    using assms by (simp add: start_event_def server_handlers Handle_def EnableHandler_Handle_def InstanceEnabled_def exist_iff)
qed

text \<open>C39. The parameters given after \<open>-e\<close> reach the plugin. The client sends the instance and one text, the pairs \<open>name:value\<close> joined
by commas, one for each name with its last value, in whatever order the client goes through them. For an instance that is loaded, available
and not yet enabled the server turns the request into a message for the scheduler that gives \<open>Enable\<close> of the plugin exactly this text. When
no name has a colon or comma and no value a comma, \<open>GetKeyValueFromString\<close> reads the text back as the map of the parameters. A value
with a comma, such as \<open>-docker_id [id1,id2]\<close>, which the burst plugin reads as YAML, is covered as text only.\<close>

theorem enable_params_reach_plugin:
  fixes m :: "'p manager"
  assumes "reads_enable api g inst (enable_args kvs)" "\<forall>ps. mset (order ps) = mset ps"
    and "GetInstance inst (memoryStore (sched m)) = Some r" "at_ref r (sched m) = Some i" "ins_name i = inst" "ins_state i" "\<not> enabled i"
  shows "\<exists>a ps text msg k. ArgParse_Init api g = Some (Goes (of_char CHR ''e'', a)) \<and>
    Handler order CliEnabled a = Some \<lparr>opt = OptENABLED, msg_payload = [inst, text]\<rparr> \<and>
    text = Concat (map (\<lambda>(key, value). key @ '':'' @ value) ps) '','' \<and> distinct (map fst ps) \<and> map_of ps = map_of (rev kvs) \<and>
    start_event env \<lparr>ev_opt = OptENABLED, ev_type = EXTERNAL, ev_payload = [inst, text]\<rparr> (InitEventHandler m) =
      Some (After msg k, InitEventHandler m) \<and>
    gives_plugin TYPE('p irh) msg inst text \<and>
    ((\<forall>kv \<in> set kvs. plain_param kv) \<longrightarrow> map_of (GetKeyValueFromString text) = map_of (rev kvs))"
proof -
  let ?m = "fold (\<lambda>kv. AList.update (fst kv) (snd kv)) kvs []"
  let ?a = "\<lparr>ap_arg = inst, enableParams = ?m\<rparr>" and ?ps = "order ?m"
  have perm: "mset ?ps = mset ?m" using assms(2) by blast
  then have same: "set ?ps = set ?m" "mset (map fst ?ps) = mset (map fst ?m)"
    by (rule mset_eq_setD) (simp only: mset_map perm)
  have "distinct (map fst ?m)" by (simp add: distinct_updates)
  then have d: "distinct (map fst ?ps)" using same(2) mset_eq_imp_distinct_iff by blast
  have "map_of ?ps = map_of ?m" using d same(1) \<open>distinct (map fst ?m)\<close> map_of_inject_set by blast
  also have "\<dots> = map_of (rev kvs)" by (simp add: map_of_updates)
  finally have ps: "map_of ?ps = map_of (rev kvs)" .
  have read: "map_of (GetKeyValueFromString (enable_text ?ps)) = map_of (rev kvs)" if "\<forall>kv \<in> set kvs. plain_param kv"
    using enable_text_read [OF _ d] that same(1) updates_subset [of kvs "[]"] ps by auto
  have joined: "enable_text ?ps = Concat (map (\<lambda>(key, value). key @ '':'' @ value) ?ps) '',''"
    by (simp add: enable_text_def kv_render_def [abs_def] case_prod_unfold)
  obtain msg k where server: "start_event env \<lparr>ev_opt = OptENABLED, ev_type = EXTERNAL, ev_payload = [inst, enable_text ?ps]\<rparr>
      (InitEventHandler m) = Some (After msg k, InitEventHandler m)" "gives_plugin TYPE('p irh) msg inst (enable_text ?ps)"
    using Handle_enable_gives [OF assms(3-7)] by blast
  have client: "ArgParse_Init api g = Some (Goes (of_char CHR ''e'', ?a))"
    "Handler order CliEnabled ?a = Some \<lparr>opt = OptENABLED, msg_payload = [inst, enable_text ?ps]\<rparr>"
    using ArgParse_Init_enable [OF assms(1) enable_params_args] by (simp_all add: Handler_def request_defs)
  show ?thesis
    by (intro exI [of _ ?a] exI [of _ ?ps] exI [of _ "enable_text ?ps"] exI [of _ msg] exI [of _ k] conjI client joined d ps server impI read)
qed

subsection \<open>Answers\<close>

definition stage_replies :: "'a stage \<Rightarrow> 'a set" where
  "stage_replies s = (case s of Now r \<Rightarrow> {r} | After msg f \<Rightarrow> range f)"

lemma stage_replies_map [simp]: "stage_replies (map_stage f s) = f ` stage_replies s"
  by (cases s) (auto simp: stage_replies_def)

lemma stage_replies_Now [simp]: "stage_replies (Now r) = {r}"
  by (simp add: stage_replies_def)

text \<open>Answers every command can treat: success, with the text a command reads, or an error with its reason.\<close>

definition good_reply :: "bool \<Rightarrow> EventResult \<Rightarrow> bool" where
  "good_reply text r = (er_opt r = OptRESPONSE_ERROR \<and> er_payload r \<noteq> [] \<or> er_opt r = OptRESPONSE_OK \<and> (text \<longrightarrow> er_payload r \<noteq> []))"

lemma good_replies [simp]:
  "good_reply text (error_reply t)" "good_reply text (ok_reply ps) \<longleftrightarrow> (text \<longrightarrow> ps \<noteq> [])"
  by (auto simp: good_reply_def error_reply_def ok_reply_def)

definition reads_text :: "cmd_handler \<Rightarrow> bool" where
  "reads_text h = (h \<in> {CliQueryTop, CliInstall, CliReload})"

lemma ResHandler_total:
  assumes "good_reply (reads_text h) r"
  shows "\<exists>acts. ResHandler download h a \<lparr>opt = er_opt r, msg_payload = er_payload r\<rparr> = Some acts"
  using assms by (cases h) (auto simp: good_reply_def reads_text_def ResHandler_def answer_defs refused_def nth_opt_def neq_Nil_conv)

fun handler_text :: "HandlerId \<Rightarrow> bool" where
  "handler_text LoadHandler = False"
| "handler_text RemoveHandler = False"
| "handler_text EnableHandler = False"
| "handler_text DisableHandler = False"
| "handler_text _ = True"

lemma Handle_replies:
  assumes "Handle env hid event m = Some (s, m')" "r \<in> stage_replies s" "hid \<notin> {SubscribeHandler, UnsubscribeHandler, PublishHandler}"
  shows "good_reply (handler_text hid) r"
  using assms
  by (cases hid)
    (auto simp: Handle_def with_sched_def LoadHandler_Handle_def RemoveHandler_Handle_def QueryHandler_Handle_def
      QuerySubscribeGraphHandler_Handle_def EnableHandler_Handle_def DisableHandler_Handle_def ListHandler_Handle_def InfoCmdHandler_Handle_def
      DownloadHandler_Handle_def ReloadConfHandler_Handle_def Let_def
      split: bind_splits list.splits prod.splits if_splits)

text \<open>C40. Every request of the command line, but the one to stop, has a handler in the server, and whatever that handler answers, at once or after
the scheduler is done, is success or an error, and the client treats it without reading past the end of its payload.\<close>

theorem answers_understood:
  assumes "Handler order h a = Some msg" "h \<noteq> CliStop"
  shows "\<exists>hid. map_of (eventHandler (InitEventHandler m)) (opt msg) = Some hid \<and>
    (\<forall>s m' r. start_event env \<lparr>ev_opt = opt msg, ev_type = EXTERNAL, ev_payload = msg_payload msg\<rparr> (InitEventHandler m) = Some (s, m') \<longrightarrow>
       r \<in> stage_replies s \<longrightarrow> er_opt r \<in> {OptRESPONSE_OK, OptRESPONSE_ERROR} \<and>
       (\<exists>acts. ResHandler download h a \<lparr>opt = er_opt r, msg_payload = er_payload r\<rparr> = Some acts))"
proof -
  obtain hid where hid: "map_of (eventHandler (InitEventHandler m)) (opt msg) = Some hid"
      "hid \<notin> {SubscribeHandler, UnsubscribeHandler, PublishHandler}" "reads_text h \<longrightarrow> handler_text hid"
    using assms by (cases h) (auto simp: Handler_def request_defs server_handlers reads_text_def)
  have "good_reply (reads_text h) r"
    if "start_event env \<lparr>ev_opt = opt msg, ev_type = EXTERNAL, ev_payload = msg_payload msg\<rparr> (InitEventHandler m) = Some (s, m')" "r \<in> stage_replies s" for s m' r
    using Handle_replies [OF _ that(2) hid(2)] that(1) hid(1,3) by (fastforce simp: start_event_def good_reply_def)
  then show ?thesis
    using hid(1) ResHandler_total by (fastforce simp: good_reply_def)
qed

end
