(* ===== verification/Command_Examples.thy ===== *)
theory Command_Examples
  imports Command_Line Manager_System
begin

text \<open>
  A command line at work: enabling an instance with two parameters, and the list of plugins. The
  \<open>getopt_long\<close> of the example knows the option \<open>-e\<close> and does not permute.
\<close>

definition demo_getopt :: "(string list \<times> nat) getopt_api" where
  "demo_getopt = \<lparr>go_next = (\<lambda>(argv, i). if Suc i < length argv \<and> argv ! i = ''-e'' then (GotOption CHR ''e'' (Some (argv ! Suc i)), argv, i + 2)
       else (NoOption, argv, i)),
     go_argv = fst, go_optind = snd, go_seek = (\<lambda>i g. (fst g, i))\<rparr>"

definition demo_params :: "(string \<times> string) list" where
  "demo_params = [(''netdata'', ''skb_copy''), (''verbose'', ''on'')]"

definition demo_argv :: "string list" where
  "demo_argv = [''oeawarectl'', ''-e'', ''demo''] @ enable_args demo_params"

theorem enable_params_reach_plugin_witness:
  "\<exists>a text msg k. ArgParse_Init demo_getopt (demo_argv, 1) = Some (Goes (of_char CHR ''e'', a)) \<and>
     Handler rev CliEnabled a = Some \<lparr>opt = OptENABLED, msg_payload = [''demo'', text]\<rparr> \<and>
     start_event demo_env \<lparr>ev_opt = OptENABLED, ev_type = EXTERNAL, ev_payload = [''demo'', text]\<rparr> (InitEventHandler demo_mgr) =
       Some (After msg k, InitEventHandler demo_mgr) \<and>
     gives_plugin TYPE(nat irh) msg ''demo'' text \<and> map_of (GetKeyValueFromString text) ''netdata'' = Some ''skb_copy''"
proof -
  have "reads_enable demo_getopt (demo_argv, 1) ''demo'' (enable_args demo_params)" by code_simp
  moreover have s: "sched demo_mgr = demo_state 0 100 []" by (simp add: demo_mgr_def InitEventHandler_def)
  then have "GetInstance ''demo'' (memoryStore (sched demo_mgr)) = Some 0" "at_ref 0 (sched demo_mgr) = Some (demo_instance 0 100)"
    "ins_name (demo_instance 0 100) = ''demo''" "ins_state (demo_instance 0 100)" "\<not> enabled (demo_instance 0 100)"
    by (simp_all add: demo_defs at_ref_def)
  moreover have "\<forall>kv \<in> set demo_params. plain_param kv" by code_simp
  moreover have "\<forall>ps :: (string \<times> string) list. mset (rev ps) = mset ps" by simp
  ultimately obtain a t msg k where "ArgParse_Init demo_getopt (demo_argv, 1) = Some (Goes (of_char CHR ''e'', a))"
      "Handler rev CliEnabled a = Some \<lparr>opt = OptENABLED, msg_payload = [''demo'', t]\<rparr>"
      "start_event demo_env \<lparr>ev_opt = OptENABLED, ev_type = EXTERNAL, ev_payload = [''demo'', t]\<rparr> (InitEventHandler demo_mgr) =
         Some (After msg k, InitEventHandler demo_mgr)"
      "gives_plugin TYPE(nat irh) msg ''demo'' t" "map_of (GetKeyValueFromString t) = map_of (rev demo_params)"
    using enable_params_reach_plugin [of demo_getopt "(demo_argv, 1)" "''demo''" demo_params rev demo_mgr 0 "demo_instance 0 100" demo_env]
    by blast
  then show ?thesis by (auto simp: demo_params_def)
qed

theorem answers_understood_witness:
  "\<exists>r acts. start_event demo_env \<lparr>ev_opt = OptLIST, ev_type = EXTERNAL, ev_payload = []\<rparr> (InitEventHandler demo_mgr) = Some (Now r, InitEventHandler demo_mgr) \<and>
     ResHandler (\<lambda>_ _. False) CliList arg_start \<lparr>opt = er_opt r, msg_payload = er_payload r\<rparr> = Some acts"
proof -
  let ?r = "ListHandler_Handle demo_env (pm_config (InitEventHandler demo_mgr))"
  have s: "start_event demo_env \<lparr>ev_opt = OptLIST, ev_type = EXTERNAL, ev_payload = []\<rparr> (InitEventHandler demo_mgr) = Some (Now ?r, InitEventHandler demo_mgr)"
    by (simp add: start_event_def server_handlers Handle_def)
  have "Handler rev CliList arg_start = Some \<lparr>opt = OptLIST, msg_payload = []\<rparr>" by (simp add: Handler_def request_defs)
  from answers_understood [OF this, of demo_mgr demo_env "\<lambda>_ _. False"] s show ?thesis by auto
qed

end
