(* ===== verification/Spec2Isabelle.thy ===== *)
theory Spec2Isabelle
  imports Manager_Answers Queue_Threads Sdk_Client Cluster_Examples Burst_Claims Cpu_Burst_Claims Load_Claims Hardirq_Examples Command_Examples
begin

text \<open>
  oeAware manager: the daemon that loads plugins, runs their instances, routes the data they
  publish, and serves clients over a local socket.

  \<^bold>\<open>The program.\<close> A client connects to a UNIX socket and sends framed messages
  (\<^verbatim>\<open>src/common/message_protocol.cpp\<close>). The message manager
  (\<^verbatim>\<open>src/plugin_mgr/message_manager.cpp\<close>) turns each into an event and puts it into a queue
  (\<^verbatim>\<open>include/oeaware/safe_queue.h\<close>). The plugin manager (\<^verbatim>\<open>src/plugin_mgr/plugin_manager.cpp\<close>) takes
  the events one by one and calls the handler of their operation (\<^verbatim>\<open>src/plugin_mgr/event/\<close>).
  Handlers change the store of plugins (\<^verbatim>\<open>src/plugin_mgr/memory_store.h\<close>) themselves, or send a
  message to the scheduler (\<^verbatim>\<open>src/plugin_mgr/instance_run_handler.cpp\<close>) and wait for it. The
  scheduler is a second thread: every cycle it handles its messages and then runs the instances
  that are due; running instances subscribe to topics and publish data, which go to other
  instances or, serialized (\<^verbatim>\<open>src/common/data_register.cpp\<close>), back to clients. The client library
  (\<^verbatim>\<open>src/sdk/oe_client.cpp\<close>) sends requests and calls the callbacks of a topic.

  \<^bold>\<open>Conventions.\<close> Undefined behaviour (a null dereference, an index out of range, an uncaught
  exception) is \<open>None\<close>, and so is a loop that does not return; what the program reports itself is a
  value of its own types. Integers of structures that cross the socket are words of their width.
  The clock is a natural number below \<open>2 ^ 64\<close> whose wrap-around is written out. Uninitialized
  memory is an argument (\<open>junk\<close>, \<open>env_opt\<close>), so that nothing can depend on its value.
  Code outside the repository is a parameter: YAML (\<open>yaml_api\<close>), the dynamic linker and the methods
  of plugins (\<open>library\<close>, \<open>Interface\<close>), the file system (\<open>dir_tree\<close>, \<open>stat_t\<close>), the socket (the
  arrivals of its bytes), the performance counter structures of libkperf (\<open>pmu\<close> entries of the
  register).

  \<^bold>\<open>Theories.\<close>

  \<^item> \<open>Prelude\<close>: bytes, C strings, association lists, checked access, the contract \<open>option_loop\<close> of
    loops that may not end.
  \<^item> \<open>Utils\<close>: \<^verbatim>\<open>src/common/utils.cpp\<close>. Substitution of strings equals a reference definition and
    diverges on an empty target; printed ranges of CPUs are parsed back; the search for the control
    group of a container ends (its depth is the bound \<open>MAX_SEARCHE_DEPTH\<close> of the code) and finds
    only paths with the container's identifier.
  \<^item> \<open>Serialize\<close>: \<^verbatim>\<open>include/oeaware/serialize.h\<close>. The locale \<open>codec\<close> is the contract of a serializer:
    what is written is read back, whatever follows; \<open>vector_codec\<close> lifts it to vectors.
  \<^item> \<open>Topic_Model\<close>: \<^verbatim>\<open>include/oeaware/topic.h\<close>. The text of a topic is parsed back.
  \<^item> \<open>Data_Codecs\<close>, \<open>Data_Roundtrip\<close>, \<open>Data_Register\<close>: \<^verbatim>\<open>src/common/data_register.cpp\<close>. One
    interpretation of \<open>data_codec\<close> per structure; a data list of any registered topic but those of the
    performance counters survives the way through the register; an unregistered one is a null call.
  \<^item> \<open>Safe_Queue\<close>: \<^verbatim>\<open>include/oeaware/safe_queue.h\<close>, one definition per method, and the contract \<open>fifo_queue\<close>.
    \<open>Queue_Threads\<close>: the methods as threads that take the mutex, sleep on the condition and are notified
    (\<open>thread_step\<close>); every interleaving, the waiting pops included, behaves as one first-in first-out queue.
  \<^item> \<open>Message_Protocol\<close>: \<^verbatim>\<open>src/common/message_protocol.cpp\<close>. A frame is received whole however its
    bytes arrive once both length fields are there (\<open>lengths_ready\<close>; \<open>split_lengths_misread\<close> shows what the code does
    otherwise); the fuel of \<open>ReadBuf\<close> is the number of bytes still expected, and every turn of
    the loop reads one or ends it.
  \<^item> \<open>Plugin_Store\<close>: \<^verbatim>\<open>src/plugin_mgr/memory_store.h\<close>, \<open>plugin.cpp\<close> and \<^verbatim>\<open>include/oeaware/interface.h\<close>,
    instances on a heap, the store as two interpretations of \<open>registry\<close>.
  \<^item> \<open>Instance_Run_Handler\<close>: the scheduler, every operation. \<open>Scheduler_Inv\<close>: its invariant and what
    the operations leave alone. \<open>Pubsub\<close>: subscriptions refine the abstract \<open>broker\<close>. \<open>Run_Queue\<close>:
    the priority queue meets \<open>max_queue\<close>. \<open>Scheduler_Props\<close>, \<open>Scheduler_Claims\<close>, \<open>Scheduler_Clock\<close>:
    the loops end, answer every message, keep the invariant and the grid of due times, deliver
    published data to exactly the subscribers.
  \<^item> \<open>Config\<close>: \<^verbatim>\<open>src/plugin_mgr/config.cpp\<close>, \<open>logger.cpp\<close>. Loading a document (\<open>config_doc\<close>) gives exactly the
    plugins, enabled instances and log settings it lists. \<open>Event_Handlers\<close>, \<open>Info_Cmd\<close>: the request
    handlers, split where they wait for the scheduler.
  \<^item> \<open>Plugin_Manager\<close>: the event loop and \<open>sys_step\<close>, the interleaving of both threads.
    \<open>Manager_Claims\<close>, \<open>Manager_System\<close>: loading and removing plugins, no request is lost or answered
    twice, the manager is woken by the answer to its own message. \<open>Manager_Answers\<close>: the reply to an enable request is the
    one \<open>EnableInstance\<close> computed when the scheduler took its message.
  \<^item> \<open>Message_Manager\<close>: \<^verbatim>\<open>src/plugin_mgr/message_manager.cpp\<close>, connections, permissions, requests and
    data. \<open>Sdk_Client\<close>: \<^verbatim>\<open>src/sdk/oe_client.cpp\<close>. Their theorems run from one end of the socket to
    the other.
  \<^item> \<open>Cpu_Topology\<close>, \<open>Cluster_Selector\<close>, \<open>Cluster_Affinity\<close>: the plugin that places containers on
    clusters of cores (\<^verbatim>\<open>src/plugin/tune/docker/cluster_affinity\<close>), every operation. \<open>double\<close> is a type
    parameter with the operations of \<open>float_ops\<close>; only \<open>Cluster_Schedule\<close> assumes something of them,
    the contract \<open>int_exact\<close>. \<open>Cluster_Placement\<close>: taking cores moves them from the free to the taken
    list and loses none; the two loops that choose meet the contract \<open>picker\<close>. \<open>Cluster_Claims\<close>,
    \<open>Cluster_Schedule\<close>: placing containers keeps the invariant and gives no cluster to two of them.
    \<open>Cluster_Init\<close>: the initialization establishes the invariant. \<open>Cluster_Faults\<close>: core lists survive
    their textual form; recovering a container and borrowing without a placement go wrong.
    \<open>Cluster_Examples\<close>: the theorems at work on a small machine.
  \<^item> \<open>Control_Files\<close>: files of the kernel the container plugins write. The files are a store, what the
    kernel accepts is an argument (\<open>kernel_env\<close>). The locale \<open>saved_setting\<close> is the contract of a
    setting that is saved and written back; it is interpreted for the soft quota, the burst of containers and the affinity of interrupts.
  \<^item> \<open>Coordination_Burst\<close>, \<open>Burst_Claims\<close>: \<^verbatim>\<open>src/plugin/tune/docker/coordination_burst\<close>. Enabling is all or
    nothing, also when it fails halfway, and disabling restores every setting.
  \<^item> \<open>Docker_Collector\<close>, \<open>Cpu_Burst\<close>, \<open>Cpu_Burst_Claims\<close>: \<^verbatim>\<open>src/plugin/collect/docker\<close> feeding
    \<^verbatim>\<open>src/plugin/tune/docker/cpu_burst\<close>. Over every run of both (\<open>burst_step\<close>) leaving the plugin restores the
    burst of all containers; enabling it twice spoils its measure of load, for every arithmetic of the contract \<open>percent_ops\<close>.
  \<^item> \<open>Load_Based_Scheduling\<close>, \<open>Load_Claims\<close>: \<^verbatim>\<open>src/plugin/tune/docker/load_based_scheduling\<close>. A run gives
    disjoint shares of the cores of a node and never leaves the list of cores; recorded processes belong to
    containers that are held; a run before the topology is known spoils it.
  \<^item> \<open>Irq_Frontend\<close>, \<open>Hardirq_Tune\<close>: \<^verbatim>\<open>src/plugin/tune/system/network/hardirq_tune\<close>, which interrupt belongs to
    which queue of a network interface and the plugin that binds interrupts to cores. The affinity of an interrupt is a third
    interpretation of \<open>saved_setting\<close>. \<open>Hardirq_Claims\<close>: over every sequence of enabling, data, runs and
    disabling (\<open>hirq_step\<close>) a disabled plugin leaves all affinities as they were. \<open>Hardirq_Moves\<close>: where a
    round of tuning moves an interrupt, what \<open>std::sort\<close> promises being the hypothesis \<open>std_sorts\<close>; with one node all go to
    one core. \<open>Hardirq_Safe\<close>: runs on well-formed states never leave a vector, in both modes of matching, if the patterns
    are regular expressions and the arithmetic meets the contract \<open>share_ops\<close>. \<open>Hardirq_Examples\<close>: a
    machine with two cores. Counts of packets are unbounded integers where the code adds to an \<open>int\<close>.
  \<^item> \<open>Command_Line\<close>, \<open>Command_Examples\<close>: \<^verbatim>\<open>src/client\<close>, the arguments, requests and answers of \<^verbatim>\<open>oeawarectl\<close>. The
    parameters of an instance reach the plugin through the server as the user gave them; every answer the handlers of the server can give is treated without
    reading past its payload.

  \<^bold>\<open>Hypotheses.\<close> Theorems on termination assume that instances that are run again have a positive
  period, and that plugins do not send messages to the scheduler from within their own methods where
  the statement needs it; both are named predicates (\<open>periods_ok\<close>, \<open>polite_heap\<close>) and the theorems
  \<open>period_zero_diverges\<close> and \<open>overdue_entry_stalls\<close> show what happens without them. Theorems that settings are
  restored assume that a control file accepts the value it shows (\<open>own_values\<close>, \<open>good_burst\<close>, \<open>good_affinity\<close>) and that
  nobody else writes it in between.

  \<^bold>\<open>Not modelled.\<close> The bodies of the other plugins (\<^verbatim>\<open>src/plugin/\<close>): the framework sees them through their
  interface, which is a parameter. The analysis mode of the client (\<^verbatim>\<open>src/client/analysis\<close>). Functions that
  only run shell commands or read sysfs, creation of sockets and threads, formatting of log lines,
  functions that free memory, serializers of libkperf structures, eBPF programs and kernel
  modules. These make calls whose effect lies outside the program.

  \<^bold>\<open>Plan.\<close> What is left are the other tuning plugins of the system and the analysis mode of the client.
\<close>

end
